(* ===== verification/Prelude.thy ===== *)
theory Prelude
  imports Complex_Main "HOL-Library.Word" "HOL-Library.Sublist"
    "HOL-Library.Char_ord" "HOL-Library.List_Lexorder"
    "HOL-Library.AList"
begin

text \<open>
  Shared vocabulary of the development.

  \<^item> JavaScript values: \<open>jsnum\<close> (an IEEE number as the code uses it: a finite value,
    an infinity or NaN), \<open>json\<close> (the value of \<open>JSON.parse\<close>; an object is the list of its own
    properties in insertion order).
  \<^item> Strings are HOL strings. The string methods the sources call (\<open>split\<close>, \<open>join\<close>,
    \<open>trim\<close>, \<open>startsWith\<close>, \<open>indexOf\<close>, \<open>toLowerCase\<close>) are functions on them.
  \<^item> Bytes are 8-bit words; \<open>utf8\<close> is \<open>Buffer.from(s, 'utf8')\<close>, \<open>hex_of_bytes\<close> and
    \<open>bytes_of_hex\<close> are the \<open>'hex'\<close> encoding of \<open>Buffer\<close>.
  \<^item> Fallible code returns a sum: \<open>Inl\<close> the error, \<open>Inr\<close> the value.

  The generic lemmas the component theories share close the theory. Collections:
  \<open>string_simps\<close> for the string helpers, \<open>byte_simps\<close> for the byte codecs, \<open>bind_simps\<close> for the outcome of
  a sequence of fallible steps.
\<close>

named_theorems string_simps
named_theorems byte_simps
named_theorems bind_simps

section \<open>Fallible steps\<close>

text \<open>Sequencing of steps that may throw: the first error is the result. A step that returns nothing on
  success has the type \<open>'e + unit\<close>.\<close>

definition and_then :: "'e + 'a \<Rightarrow> ('a \<Rightarrow> 'e + 'b) \<Rightarrow> 'e + 'b" where
  "and_then m f = (case m of Inl e \<Rightarrow> Inl e | Inr x \<Rightarrow> f x)"

definition throw_if :: "bool \<Rightarrow> 'e \<Rightarrow> 'e + unit" where
  "throw_if b e = (if b then Inl e else Inr ())"

lemma and_then_simps [simp]: "and_then (Inl e) f = Inl e" "and_then (Inr x) f = f x"
  by (simp_all add: and_then_def)

lemma and_then_Inr [bind_simps]: "and_then m f = Inr y \<longleftrightarrow> (\<exists>x. m = Inr x \<and> f x = Inr y)"
  by (cases m) auto

lemma and_then_Inl [bind_simps]: "and_then m f = Inl e \<longleftrightarrow> m = Inl e \<or> (\<exists>x. m = Inr x \<and> f x = Inl e)"
  by (cases m) auto

lemma throw_if_Inr [simp, bind_simps]: "throw_if b e = Inr u \<longleftrightarrow> \<not> b"
  by (simp add: throw_if_def)

lemma throw_if_Inl [simp, bind_simps]: "throw_if b e = Inl e' \<longleftrightarrow> b \<and> e' = e"
  by (auto simp: throw_if_def)

lemma and_then_ok [simp]: "\<not> b \<Longrightarrow> and_then (throw_if b e) f = f ()"
  by (simp add: throw_if_def)

lemma throw_if_False [simp]: "throw_if False e = Inr ()"
  by (simp add: throw_if_def)

lemma throw_if_True [simp]: "throw_if True e = Inl e"
  by (simp add: throw_if_def)

section \<open>Numbers and JSON values\<close>

datatype jsnum = Fin rat | PosInf | NegInf | NaN

text \<open>\<open>Number.isInteger\<close> and \<open>Number.isFinite\<close>.\<close>

definition isInteger :: "jsnum \<Rightarrow> bool" where
  "isInteger x = (case x of Fin r \<Rightarrow> of_int \<lfloor>r\<rfloor> = r | _ \<Rightarrow> False)"

definition isFinite :: "jsnum \<Rightarrow> bool" where
  "isFinite x = (case x of Fin r \<Rightarrow> True | _ \<Rightarrow> False)"

definition int_of_num :: "jsnum \<Rightarrow> int" where
  "int_of_num x = (case x of Fin r \<Rightarrow> \<lfloor>r\<rfloor> | _ \<Rightarrow> 0)"

definition num_of_int :: "int \<Rightarrow> jsnum" where
  "num_of_int i = Fin (of_int i)"

datatype json =
    JNull
  | JBool bool
  | JNum jsnum
  | JStr string
  | JArr "json list"
  | JObj "(string \<times> json) list"

type_synonym jobj = "(string \<times> json) list"

text \<open>Property read \<open>o.k\<close>; \<open>None\<close> is \<open>undefined\<close>.\<close>

definition get_prop :: "jobj \<Rightarrow> string \<Rightarrow> json option" where
  "get_prop ob k = map_of ob k"

definition object_keys :: "jobj \<Rightarrow> string list" where
  "object_keys ob = map fst ob"

text \<open>\<open>const {k: _omit, ...rest} = o\<close>.\<close>

definition omit_key :: "string \<Rightarrow> jobj \<Rightarrow> jobj" where
  "omit_key k ob = filter (\<lambda>p. fst p \<noteq> k) ob"

definition as_string :: "json option \<Rightarrow> string option" where
  "as_string v = (case v of Some (JStr s) \<Rightarrow> Some s | _ \<Rightarrow> None)"

definition as_number :: "json option \<Rightarrow> jsnum option" where
  "as_number v = (case v of Some (JNum n) \<Rightarrow> Some n | _ \<Rightarrow> None)"

definition as_int :: "json option \<Rightarrow> int option" where
  "as_int v = (case as_number v of
      Some n \<Rightarrow> if isInteger n then Some (int_of_num n) else None
    | None \<Rightarrow> None)"

definition as_object :: "json option \<Rightarrow> jobj option" where
  "as_object v = (case v of Some (JObj ob) \<Rightarrow> Some ob | _ \<Rightarrow> None)"

text \<open>The test \<open>if (v)\<close>.\<close>

definition truthy :: "json option \<Rightarrow> bool" where
  "truthy v = (case v of
     None \<Rightarrow> False
   | Some JNull \<Rightarrow> False
   | Some (JBool b) \<Rightarrow> b
   | Some (JNum n) \<Rightarrow> n \<noteq> Fin 0 \<and> n \<noteq> NaN
   | Some (JStr s) \<Rightarrow> s \<noteq> []
   | _ \<Rightarrow> True)"

section \<open>Strings\<close>

definition digits :: string where "digits = ''0123456789''"
definition hex_digits :: string where "hex_digits = ''0123456789abcdef''"
definition lower_letters :: string where "lower_letters = ''abcdefghijklmnopqrstuvwxyz''"
definition upper_letters :: string where "upper_letters = ''ABCDEFGHIJKLMNOPQRSTUVWXYZ''"

definition all_in :: "string \<Rightarrow> string \<Rightarrow> bool" where
  "all_in cls s = list_all (\<lambda>c. c \<in> set cls) s"

definition starts_with :: "string \<Rightarrow> string \<Rightarrow> bool" where
  "starts_with p s = (take (length p) s = p)"

definition ends_with :: "string \<Rightarrow> string \<Rightarrow> bool" where
  "ends_with p s = (length p \<le> length s \<and> drop (length s - length p) s = p)"

fun split_on :: "char \<Rightarrow> string \<Rightarrow> string list" where
  "split_on c [] = [[]]"
| "split_on c (x # xs) =
     (if x = c then [] # split_on c xs
      else (case split_on c xs of [] \<Rightarrow> [[x]] | y # ys \<Rightarrow> (x # y) # ys))"

fun join_with :: "string \<Rightarrow> string list \<Rightarrow> string" where
  "join_with sep [] = []"
| "join_with sep [x] = x"
| "join_with sep (x # y # ys) = x @ sep @ join_with sep (y # ys)"

text \<open>A value between single quotes in a message.\<close>

definition quoted :: "string \<Rightarrow> string" where
  "quoted s = CHR 0x27 # s @ [CHR 0x27]"

text \<open>The white space \<open>String.prototype.trim\<close> removes, within the character range of the model.\<close>

definition js_space :: "char \<Rightarrow> bool" where
  "js_space c = (c \<in> set [CHR '' '', CHR 0x09, CHR 0x0A, CHR 0x0B, CHR 0x0C, CHR 0x0D, CHR 0xA0])"

definition trim :: "string \<Rightarrow> string" where
  "trim s = rev (dropWhile js_space (rev (dropWhile js_space s)))"

text \<open>\<open>url.replace(/\/$/, '')\<close>: one trailing slash is dropped.\<close>

definition strip_slash :: "string \<Rightarrow> string" where
  "strip_slash s = (if s \<noteq> [] \<and> last s = CHR ''/'' then butlast s else s)"

text \<open>\<open>raw.split(c).map((s) => s.trim()).filter(Boolean)\<close>, the form of every environment list.\<close>

definition split_trim :: "char \<Rightarrow> string \<Rightarrow> string list" where
  "split_trim c s = filter (\<lambda>x. x \<noteq> []) (map trim (split_on c s))"

fun index_of :: "char \<Rightarrow> string \<Rightarrow> nat option" where
  "index_of c [] = None"
| "index_of c (x # xs) = (if x = c then Some 0 else map_option Suc (index_of c xs))"

definition lower_char :: "char \<Rightarrow> char" where
  "lower_char c = (case map_of (zip upper_letters lower_letters) c of Some d \<Rightarrow> d | None \<Rightarrow> c)"

definition to_lower :: "string \<Rightarrow> string" where
  "to_lower s = map lower_char s"

text \<open>\<open>String(n)\<close> of a non-negative integer.\<close>

definition digit_char :: "nat \<Rightarrow> char" where
  "digit_char d = digits ! (d mod 10)"

fun show_nat :: "nat \<Rightarrow> string" where
  "show_nat n = (if n < 10 then [digit_char n] else show_nat (n div 10) @ [digit_char (n mod 10)])"

declare show_nat.simps [simp del]

definition show_int :: "int \<Rightarrow> string" where
  "show_int i = (if i < 0 then ''-'' @ show_nat (nat (- i)) else show_nat (nat i))"

fun read_nat_acc :: "nat \<Rightarrow> string \<Rightarrow> nat option" where
  "read_nat_acc a [] = Some a"
| "read_nat_acc a (c # cs) = (case index_of c digits of
      Some d \<Rightarrow> read_nat_acc (10 * a + d) cs
    | None \<Rightarrow> None)"

definition read_nat :: "string \<Rightarrow> nat option" where
  "read_nat s = (if s = [] then None else read_nat_acc 0 s)"

text \<open>\<open>Number(s)\<close> on a string: white space is trimmed, the empty string is 0, then a hexadecimal, octal
  or binary literal, a signed \<open>Infinity\<close>, or a signed decimal literal with an optional fraction and
  exponent. Values are exact rationals.\<close>

fun read_radix :: "string \<Rightarrow> nat \<Rightarrow> nat \<Rightarrow> string \<Rightarrow> nat option" where
  "read_radix ds b a [] = Some a"
| "read_radix ds b a (c # cs) = (case index_of c ds of Some d \<Rightarrow> read_radix ds b (b * a + d) cs | None \<Rightarrow> None)"

definition radix_literal :: "string \<Rightarrow> nat \<Rightarrow> string \<Rightarrow> jsnum" where
  "radix_literal ds b body =
     (case (if body = [] then None else read_radix ds b 0 (to_lower body)) of
        Some n \<Rightarrow> Fin (of_nat n) | None \<Rightarrow> NaN)"

definition is_digit :: "char \<Rightarrow> bool" where "is_digit c = (c \<in> set digits)"

definition nat_of_digits :: "string \<Rightarrow> nat" where
  "nat_of_digits s = (case read_nat_acc 0 s of Some n \<Rightarrow> n | None \<Rightarrow> 0)"

definition exponent_value :: "string \<Rightarrow> int option" where
  "exponent_value s = (case s of
     [] \<Rightarrow> Some 0
   | e # rest \<Rightarrow>
       (if e \<noteq> CHR ''e'' \<and> e \<noteq> CHR ''E'' then None
        else (let ds = (case rest of c # cs \<Rightarrow> if c = CHR ''+'' \<or> c = CHR ''-'' then cs else rest | [] \<Rightarrow> [])
              in if ds = [] \<or> \<not> list_all is_digit ds then None
                 else Some (if rest \<noteq> [] \<and> hd rest = CHR ''-'' then - int (nat_of_digits ds)
                            else int (nat_of_digits ds)))))"

definition pow10 :: "int \<Rightarrow> rat" where
  "pow10 e = (if e \<ge> 0 then 10 ^ nat e else 1 / 10 ^ nat (- e))"

definition decimal_literal :: "string \<Rightarrow> rat option" where
  "decimal_literal s =
     (let ip = takeWhile is_digit s;
          r1 = dropWhile is_digit s;
          dot = (r1 \<noteq> [] \<and> hd r1 = CHR ''.'');
          r2 = (if dot then tl r1 else r1);
          fp = (if dot then takeWhile is_digit r2 else []);
          r3 = (if dot then dropWhile is_digit r2 else r2)
      in if ip = [] \<and> fp = [] then None
         else (case exponent_value r3 of
             None \<Rightarrow> None
           | Some e \<Rightarrow> Some ((of_nat (nat_of_digits (ip @ fp))) * pow10 (e - int (length fp)))))"

definition js_number_string :: "string \<Rightarrow> jsnum" where
  "js_number_string s =
     (let t = trim s; p = to_lower (take 2 t);
          neg = (t \<noteq> [] \<and> hd t = CHR ''-'');
          body = (if t \<noteq> [] \<and> (hd t = CHR ''-'' \<or> hd t = CHR ''+'') then tl t else t)
      in if t = [] then Fin 0
         else if p = ''0x'' then radix_literal hex_digits 16 (drop 2 t)
         else if p = ''0o'' then radix_literal ''01234567'' 8 (drop 2 t)
         else if p = ''0b'' then radix_literal ''01'' 2 (drop 2 t)
         else if body = ''Infinity'' then (if neg then NegInf else PosInf)
         else (case decimal_literal body of
             Some r \<Rightarrow> Fin (if neg then - r else r)
           | None \<Rightarrow> NaN))"

text \<open>\<open>Number(v)\<close> on any value; an array goes through its comma-joined string.\<close>

fun js_number :: "json \<Rightarrow> jsnum" where
  "js_number JNull = Fin 0"
| "js_number (JBool b) = Fin (if b then 1 else 0)"
| "js_number (JNum n) = n"
| "js_number (JStr s) = js_number_string s"
| "js_number (JArr []) = Fin 0"
| "js_number (JArr [JBool b]) = NaN"
| "js_number (JArr [v]) = js_number v"
| "js_number (JArr (v # w # vs)) = NaN"
| "js_number (JObj ob) = NaN"

definition js_number_opt :: "json option \<Rightarrow> jsnum" where
  "js_number_opt v = (case v of Some j \<Rightarrow> js_number j | None \<Rightarrow> NaN)"

text \<open>\<open>Number.parseInt(s, 10)\<close>: the longest leading run of digits after white space and a sign.\<close>

definition parseInt10 :: "string \<Rightarrow> int option" where
  "parseInt10 s =
     (let t = dropWhile js_space s;
          neg = (t \<noteq> [] \<and> hd t = CHR ''-'');
          body = (if t \<noteq> [] \<and> (hd t = CHR ''-'' \<or> hd t = CHR ''+'') then tl t else t);
          ds = takeWhile is_digit body
      in if ds = [] then None else Some (if neg then - int (nat_of_digits ds) else int (nat_of_digits ds)))"

section \<open>Bytes\<close>

type_synonym byte = "8 word"
type_synonym bytes = "8 word list"

definition utf8_char :: "char \<Rightarrow> bytes" where
  "utf8_char c = (let n = (of_char c :: nat) in
     if n < 128 then [of_nat n] else [of_nat (192 + n div 64), of_nat (128 + n mod 64)])"

definition utf8 :: "string \<Rightarrow> bytes" where
  "utf8 s = concat (map utf8_char s)"

definition hex_char :: "nat \<Rightarrow> char" where
  "hex_char d = hex_digits ! (d mod 16)"

definition hex_of_byte :: "byte \<Rightarrow> string" where
  "hex_of_byte b = [hex_char (unat b div 16), hex_char (unat b mod 16)]"

definition hex_of_bytes :: "bytes \<Rightarrow> string" where
  "hex_of_bytes bs = concat (map hex_of_byte bs)"

definition hex_val :: "char \<Rightarrow> nat" where
  "hex_val c = (case index_of c hex_digits of Some d \<Rightarrow> d | None \<Rightarrow> 0)"

fun bytes_of_hex :: "string \<Rightarrow> bytes" where
  "bytes_of_hex (a # b # cs) = of_nat (16 * hex_val a + hex_val b) # bytes_of_hex cs"
| "bytes_of_hex _ = []"

section \<open>Maps, clocks and runs\<close>

text \<open>A JavaScript \<open>Map\<close> is an association list in insertion order: \<open>set\<close> replaces the value of a
  present key in place and appends a new key, as \<open>AList.update\<close> does; \<open>get\<close> is \<open>map_of\<close>.\<close>

type_synonym ('k, 'v) jsmap = "('k \<times> 'v) list"

definition wf_map :: "('k, 'v) jsmap \<Rightarrow> bool" where
  "wf_map m = distinct (map fst m)"

text \<open>One clock serves both backends: microseconds since the epoch. \<open>Date.now()\<close> is its millisecond
  part, \<open>nowSeconds()\<close> its second part; \<open>extract(epoch from now())\<close> is the exact value.\<close>

type_synonym clock = int

definition now_ms :: "clock \<Rightarrow> int" where "now_ms us = us div 1000"
definition now_seconds :: "clock \<Rightarrow> int" where "now_seconds us = now_ms us div 1000"

text \<open>\<open>t > extract(epoch from now())\<close> for a time \<open>t\<close> in seconds.\<close>

definition after_epoch_now :: "int \<Rightarrow> clock \<Rightarrow> bool" where
  "after_epoch_now t us = (t * 1000000 > us)"

section \<open>HTTP answers\<close>

text \<open>What \<open>fetch\<close> resolves to: the status, the declared length, the length of the body and the body as JSON.\<close>

record http_answer =
  ha_status :: int
  ha_content_length :: "string option"
  ha_body_bytes :: int
  ha_body_json :: "json option"

definition http_ok :: "http_answer \<Rightarrow> bool" where
  "http_ok resp = (200 \<le> ha_status resp \<and> ha_status resp \<le> 299)"

text \<open>A declared \<open>Content-Length\<close> above a cap; a missing header reads as 0.\<close>

definition declared_above :: "int \<Rightarrow> http_answer \<Rightarrow> bool" where
  "declared_above cap resp = (case js_number_string (case ha_content_length resp of Some s \<Rightarrow> s | None \<Rightarrow> []) of
     Fin r \<Rightarrow> r > of_int cap | _ \<Rightarrow> False)"

lemma declared_above_none: "ha_content_length resp = None \<Longrightarrow> 0 \<le> cap \<Longrightarrow> \<not> declared_above cap resp"
  by (simp add: declared_above_def js_number_string_def trim_def)

section \<open>Runs\<close>

text \<open>Running a sequence of operations on a state, collecting the results.\<close>

fun run_ops :: "('op \<Rightarrow> 's \<Rightarrow> 'r \<times> 's) \<Rightarrow> 'op list \<Rightarrow> 's \<Rightarrow> 'r list \<times> 's" where
  "run_ops step [] s = ([], s)"
| "run_ops step (x # xs) s =
     (case step x s of (r, s') \<Rightarrow> case run_ops step xs s' of (rs, s'') \<Rightarrow> (r # rs, s''))"

lemma run_ops_Cons:
  "fst (run_ops step (x # xs) s) = fst (step x s) # fst (run_ops step xs (snd (step x s)))"
  "snd (run_ops step (x # xs) s) = snd (run_ops step xs (snd (step x s)))"
  by (simp_all split: prod.split)

lemma run_ops_append:
  "snd (run_ops step (xs @ ys) s) = snd (run_ops step ys (snd (run_ops step xs s)))"
  "fst (run_ops step (xs @ ys) s) = fst (run_ops step xs s) @ fst (run_ops step ys (snd (run_ops step xs s)))"
  by (induction xs arbitrary: s) (simp_all add: run_ops_Cons del: run_ops.simps(2))

section \<open>Lemmas on numbers\<close>

lemma isInteger_num_of_int [simp]: "isInteger (num_of_int i)"
  by (simp add: isInteger_def num_of_int_def)

lemma isFinite_num_of_int [simp]: "isFinite (num_of_int i)"
  by (simp add: isFinite_def num_of_int_def)

lemma int_of_num_of_int [simp]: "int_of_num (num_of_int i) = i"
  by (simp add: int_of_num_def num_of_int_def)

lemma isInteger_cases: "isInteger x \<Longrightarrow> \<exists>i. x = num_of_int i"
  by (cases x) (auto simp: isInteger_def num_of_int_def intro: sym)

section \<open>Lemmas on strings\<close>

lemma starts_with_append [simp, string_simps]: "starts_with p (p @ s)"
  by (simp add: starts_with_def)

lemma starts_withD: "starts_with p s \<Longrightarrow> s = p @ drop (length p) s"
  unfolding starts_with_def by (metis append_take_drop_id)

lemma starts_with_prefix: "starts_with p s \<longleftrightarrow> prefix p s"
  by (metis append_take_drop_id prefixE prefixI starts_with_append starts_with_def)

lemma split_on_nonempty [simp]: "split_on c s \<noteq> []"
  by (induction s) (auto split: list.splits)

lemma split_on_free [string_simps]: "c \<notin> set s \<Longrightarrow> split_on c s = [s]"
  by (induction s) auto

lemma split_on_append:
  "c \<notin> set a \<Longrightarrow> split_on c (a @ c # s) = a # split_on c s"
  by (induction a) auto

lemma split_on_pieces: "x \<in> set (split_on c s) \<Longrightarrow> c \<notin> set x"
  by (induction s arbitrary: x) (auto split: if_splits list.splits)

lemma join_split [string_simps]: "join_with [c] (split_on c s) = s"
proof (induction s)
  case (Cons x s)
  then show ?case by (cases "split_on c s"; cases "tl (split_on c s)") auto
qed simp

lemma split_join [string_simps]:
  "xs \<noteq> [] \<Longrightarrow> \<forall>x \<in> set xs. c \<notin> set x \<Longrightarrow> split_on c (join_with [c] xs) = xs"
  by (induction "[c]" xs rule: join_with.induct) (auto simp: split_on_free split_on_append)

lemma join_inject:
  assumes "join_with [c] xs = join_with [c] ys" "xs \<noteq> []" "ys \<noteq> []"
    and "\<forall>x \<in> set xs. c \<notin> set x" "\<forall>y \<in> set ys. c \<notin> set y"
  shows "xs = ys"
  using split_join [of xs c] split_join [of ys c] assms by metis

lemma digit_index_all: "list_all (\<lambda>d. index_of (digit_char d) digits = Some d) [0..<10]"
  by code_simp

lemma digit_index [simp]: "d < 10 \<Longrightarrow> index_of (digit_char d) digits = Some d"
  using digit_index_all by (simp add: list_all_iff)

lemma read_nat_acc_append:
  "read_nat_acc a (xs @ ys) = (case read_nat_acc a xs of Some b \<Rightarrow> read_nat_acc b ys | None \<Rightarrow> None)"
  by (induction xs arbitrary: a) (auto split: option.splits)

lemma read_show_acc: "read_nat_acc 0 (show_nat n) = Some n"
proof (induction n rule: show_nat.induct)
  case (1 n)
  then show ?case by (subst show_nat.simps) (auto simp: read_nat_acc_append)
qed

lemma show_nat_nonempty [simp]: "show_nat n \<noteq> []"
  by (subst show_nat.simps) simp

lemma read_show_nat [simp]: "read_nat (show_nat n) = Some n"
  by (simp add: read_nat_def read_show_acc)

lemma show_nat_inject [simp]: "show_nat m = show_nat n \<longleftrightarrow> m = n"
  by (metis option.inject read_show_nat)

lemma digit_char_mem: "digit_char d \<in> set digits"
  unfolding digit_char_def by (rule nth_mem) (simp add: digits_def)

lemma show_nat_digits: "set (show_nat n) \<subseteq> set digits"
proof (induction n rule: show_nat.induct)
  case (1 n)
  then show ?case by (subst show_nat.simps) (auto simp: digit_char_mem)
qed

lemma show_int_chars: "set (show_int i) \<subseteq> insert (CHR ''-'') (set digits)"
  using show_nat_digits by (auto simp: show_int_def)

lemma minus_not_digit: "CHR ''-'' \<notin> set digits" "CHR '':'' \<notin> set digits"
  by (simp_all add: digits_def)

lemma show_int_inject [simp]: "show_int i = show_int j \<longleftrightarrow> i = j"
proof
  assume e: "show_int i = show_int j"
  have neg: "show_nat n \<noteq> CHR ''-'' # t" for n t
    using show_nat_digits [of n] minus_not_digit by (metis list.set_intros(1) subsetD)
  show "i = j"
    using e neg neg [symmetric] by (auto simp: show_int_def split: if_splits)
qed simp

lemma digit_plain: "c \<in> set digits \<Longrightarrow> is_digit c \<and> \<not> js_space c \<and> c \<noteq> CHR ''-'' \<and> c \<noteq> CHR ''+''"
proof -
  have "list_all (\<lambda>c. is_digit c \<and> \<not> js_space c \<and> c \<noteq> CHR ''-'' \<and> c \<noteq> CHR ''+'') digits" by code_simp
  then show "c \<in> set digits \<Longrightarrow> ?thesis" by (simp add: list_all_iff)
qed

lemma show_nat_hd: "\<exists>c cs. show_nat n = c # cs \<and> c \<in> set digits"
  using show_nat_digits [of n] by (cases "show_nat n") auto

lemma takeWhile_show_nat [simp]: "takeWhile is_digit (show_nat n) = show_nat n"
  using show_nat_digits [of n] digit_plain by (auto simp: takeWhile_eq_all_conv)

lemma nat_of_digits_show [simp]: "nat_of_digits (show_nat n) = n"
  by (simp add: nat_of_digits_def read_show_acc)

lemma parseInt10_show [simp]: "parseInt10 (show_int i) = Some i"
proof (cases "i < 0")
  case True
  have "\<not> js_space (CHR ''-'')" by code_simp
  with True show ?thesis by (simp add: parseInt10_def show_int_def)
next
  case False
  obtain c cs where "show_nat (nat i) = c # cs" "c \<in> set digits" using show_nat_hd by blast
  moreover have "takeWhile is_digit cs = cs"
    using takeWhile_show_nat [of "nat i"] calculation digit_plain [of c] by (simp del: takeWhile_show_nat)
  moreover have "nat_of_digits (c # cs) = nat i" using nat_of_digits_show [of "nat i"] calculation(1) by simp
  ultimately show ?thesis using False digit_plain [of c]
    by (simp add: parseInt10_def show_int_def Let_def del: takeWhile_eq_all_conv)
qed

lemma show_int_no_colon: "CHR '':'' \<notin> set (show_int i)"
  using show_int_chars [of i] minus_not_digit by auto

text \<open>A separator that does not occur in the last piece identifies it.\<close>

lemma append_sep_inject_left:
  "x @ c # a = y @ c # b \<Longrightarrow> c \<notin> set x \<Longrightarrow> c \<notin> set y \<Longrightarrow> x = y \<and> a = b"
proof (induction x arbitrary: y)
  case Nil
  then show ?case by (cases y) auto
next
  case (Cons z x)
  then show ?case by (cases y) auto
qed

lemma append_sep_inject_right:
  assumes "a @ c # x = b @ c # y" "c \<notin> set x" "c \<notin> set y"
  shows "a = b \<and> x = y"
proof -
  have "rev x @ c # rev a = rev y @ c # rev b" using arg_cong [OF assms(1), of rev] by simp
  from append_sep_inject_left [OF this] assms(2,3) show ?thesis by simp
qed

section \<open>Lemmas on maps\<close>

lemma wf_map_Nil [simp]: "wf_map []"
  by (simp add: wf_map_def)

lemma wf_map_update [simp]: "wf_map m \<Longrightarrow> wf_map (AList.update k v m)"
  by (simp add: wf_map_def distinct_update)

lemma wf_map_delete [simp]: "wf_map m \<Longrightarrow> wf_map (AList.delete k m)"
  by (simp add: wf_map_def distinct_delete)

lemma wf_map_filter [simp]: "wf_map m \<Longrightarrow> wf_map (filter P m)"
  by (simp add: wf_map_def distinct_map_filter)

lemma map_of_filter_wf:
  "wf_map m \<Longrightarrow> map_of (filter (\<lambda>(k, v). P v) m) k =
    (case map_of m k of Some v \<Rightarrow> if P v then Some v else None | None \<Rightarrow> None)"
proof (induction m)
  case (Cons p m)
  obtain a b where p: "p = (a, b)" by (cases p)
  have "wf_map m" "a \<notin> fst ` set m" using Cons.prems by (auto simp: wf_map_def p)
  then have "map_of m a = None" by (simp add: map_of_eq_None_iff)
  with Cons.IH [OF \<open>wf_map m\<close>] show ?case by (auto simp: p)
qed simp

lemma update_append_new: "map_of m k = None \<Longrightarrow> AList.update k v m = m @ [(k, v)]"
  by (induction m) (auto split: if_splits)

lemma set_update_subset: "set (AList.update k v m) \<subseteq> insert (k, v) (set m)"
  by (induction m) auto

lemma now_seconds_eq: "now_seconds us = us div 1000000"
  by (simp add: now_seconds_def now_ms_def div_mult2_eq [symmetric])

section \<open>Lemmas on bytes\<close>

lemma hex_val_char_all: "list_all (\<lambda>d. hex_val (hex_char d) = d) [0..<16]"
  by code_simp

lemma hex_val_char [simp, byte_simps]: "d < 16 \<Longrightarrow> hex_val (hex_char d) = d"
  using hex_val_char_all by (simp add: list_all_iff)

lemma hex_char_val_all: "list_all (\<lambda>c. hex_val c < 16 \<and> hex_char (hex_val c) = c) hex_digits"
  by code_simp

lemma hex_char_mem [simp]: "hex_char d \<in> set hex_digits"
  unfolding hex_char_def by (rule nth_mem) (simp add: hex_digits_def)

lemma hex_char_val: "c \<in> set hex_digits \<Longrightarrow> hex_val c < 16 \<and> hex_char (hex_val c) = c"
  using hex_char_val_all by (simp add: list_all_iff)

lemma length_hex_of_bytes [simp, byte_simps]: "length (hex_of_bytes bs) = 2 * length bs"
  by (induction bs) (simp_all add: hex_of_bytes_def hex_of_byte_def)

lemma hex_of_bytes_digits [simp, byte_simps]: "all_in hex_digits (hex_of_bytes bs)"
  by (induction bs) (simp_all add: hex_of_bytes_def hex_of_byte_def all_in_def)

lemma bytes_of_hex_of_bytes [simp, byte_simps]: "bytes_of_hex (hex_of_bytes bs) = bs"
proof (induction bs)
  case (Cons b bs)
  have "unat b < 2 ^ LENGTH(8)" by (rule unsigned_less)
  then have "unat b div 16 < 16" by simp
  with Cons show ?case
    by (simp add: hex_of_bytes_def hex_of_byte_def)
qed (simp add: hex_of_bytes_def)

lemma unat_of_nat8: "n < 256 \<Longrightarrow> unat (of_nat n :: 8 word) = n"
  by (simp add: unat_of_nat)

lemma hex_of_bytes_of_hex:
  "even (length s) \<Longrightarrow> all_in hex_digits s \<Longrightarrow> hex_of_bytes (bytes_of_hex s) = s"
proof (induction s rule: bytes_of_hex.induct)
  case (1 a b cs)
  then have ab: "hex_val a < 16" "hex_char (hex_val a) = a" "hex_val b < 16" "hex_char (hex_val b) = b"
    by (auto simp: all_in_def hex_char_val)
  have v: "16 * hex_val a + hex_val b < 256" using ab by linarith
  have "hex_of_byte (of_nat (16 * hex_val a + hex_val b)) = [a, b]"
    unfolding hex_of_byte_def unat_of_nat8 [OF v] using ab by simp
  moreover have "hex_of_bytes (bytes_of_hex cs) = cs" using 1 by (simp add: all_in_def)
  ultimately show ?case by (simp only: hex_of_bytes_def bytes_of_hex.simps list.map concat.simps append.simps)
qed (auto simp: hex_of_bytes_def)

lemma length_bytes_of_hex [simp]: "length (bytes_of_hex s) = length s div 2"
  by (induction s rule: bytes_of_hex.induct) auto

lemma hex_of_bytes_inject: "hex_of_bytes a = hex_of_bytes b \<longleftrightarrow> a = b"
  by (metis bytes_of_hex_of_bytes)

section \<open>UTF-8 is injective\<close>

lemma byte_of_nat_inject: "m < 256 \<Longrightarrow> n < 256 \<Longrightarrow> (of_nat m :: byte) = of_nat n \<longleftrightarrow> m = n"
proof -
  assume "m < 256" "n < 256"
  then have "unat (of_nat m :: byte) = m" "unat (of_nat n :: byte) = n"
    by (simp_all add: unsigned_of_nat take_bit_nat_eq_self)
  then show ?thesis by metis
qed

lemma utf8_char_prefix: "utf8_char c @ xs = utf8_char d @ ys \<Longrightarrow> c = d \<and> xs = ys"
proof -
  assume e: "utf8_char c @ xs = utf8_char d @ ys"
  have b: "(of_char c :: nat) < 256" "(of_char d :: nat) < 256" by simp_all
  have d: "n div 64 < 64" if "n < 256" for n :: nat using less_mult_imp_div_less [of n 64 64] that by simp
  have q: "192 + (of_char c :: nat) div 64 < 256" "192 + (of_char d :: nat) div 64 < 256"
     "128 + (of_char c :: nat) mod 64 < 256" "128 + (of_char d :: nat) mod 64 < 256"
    using d [OF b(1)] d [OF b(2)] by simp_all
  have "(of_char c :: nat) = of_char d \<and> xs = ys"
  proof (cases "(of_char c :: nat) < 128"; cases "(of_char d :: nat) < 128")
    assume "(of_char c :: nat) < 128" "(of_char d :: nat) < 128"
    with e b byte_of_nat_inject show ?thesis by (auto simp: utf8_char_def Let_def)
  next
    assume "(of_char c :: nat) < 128" "\<not> (of_char d :: nat) < 128"
    with e b q byte_of_nat_inject [of "of_char c" "192 + (of_char d :: nat) div 64"] show ?thesis
      by (auto simp: utf8_char_def Let_def)
  next
    assume "\<not> (of_char c :: nat) < 128" "(of_char d :: nat) < 128"
    with e b q byte_of_nat_inject [of "192 + (of_char c :: nat) div 64" "of_char d"] show ?thesis
      by (auto simp: utf8_char_def Let_def)
  next
    assume "\<not> (of_char c :: nat) < 128" "\<not> (of_char d :: nat) < 128"
    then have "(of_nat (192 + (of_char c :: nat) div 64) :: byte) = of_nat (192 + (of_char d :: nat) div 64)"
       "(of_nat (128 + (of_char c :: nat) mod 64) :: byte) = of_nat (128 + (of_char d :: nat) mod 64)" "xs = ys"
      using e by (simp_all add: utf8_char_def Let_def)
    with byte_of_nat_inject [OF q(1,2)] byte_of_nat_inject [OF q(3,4)]
    have "(of_char c :: nat) div 64 = of_char d div 64" "(of_char c :: nat) mod 64 = of_char d mod 64" "xs = ys" by simp_all
    moreover have "n = m" if "n div 64 = m div 64" "n mod 64 = m mod 64" for n m :: nat
      by (metis div_mult_mod_eq that)
    ultimately show ?thesis by blast
  qed
  then show ?thesis by simp
qed

lemma utf8_inject [simp]: "utf8 a = utf8 b \<longleftrightarrow> a = b"
proof
  show "utf8 a = utf8 b \<Longrightarrow> a = b"
  proof (induction a arbitrary: b)
    case Nil
    then show ?case by (cases b) (auto simp: utf8_def utf8_char_def Let_def split: if_splits)
  next
    case (Cons c a)
    then obtain d b' where "b = d # b'" by (cases b) (auto simp: utf8_def utf8_char_def Let_def split: if_splits)
    with Cons utf8_char_prefix [of c "utf8 a" d "utf8 b'"] show ?case by (auto simp: utf8_def)
  qed
qed simp

end
