(* ===== verification/Merkle.thy ===== *)
theory Merkle
  imports Sha256
begin

text \<open>
  The Merkle tree specification that the transparency-log verifier is proved against.

  \<open>mth\<close>, \<open>audit_path\<close> and \<open>subproof\<close> are RFC 6962 section 2.1 (MTH, PATH, SUBPROOF) on the
  list of leaf hashes, recursing at the largest power of two below the size. The verifier of
  \<open>src/src/audit/log-verify.ts\<close> instead walks the levels bottom-up. The bridge is \<open>pair_up\<close>,
  one level of pairing in which a lone last node is promoted: \<open>mth_pair_up\<close>,
  \<open>audit_path_pair_up\<close> and the \<open>subproof\<close> equations show that the RFC recursion can be read
  level by level. \<open>mth_inputs\<close> is the set of byte strings hashed while building a tree.
\<close>

definition nodeHash :: "bytes \<Rightarrow> bytes \<Rightarrow> bytes" where
  "nodeHash left right = sha256 (0x01 # left @ right)"

lemma length_nodeHash [simp]: "length (nodeHash l r) = 32"
  by (simp add: nodeHash_def)

section \<open>The RFC 6962 recursion\<close>

text \<open>The largest power of two below \<open>n\<close> (for \<open>n \<ge> 2\<close>).\<close>

fun split_point :: "nat \<Rightarrow> nat" where
  "split_point n = (if n \<le> 2 then 1 else 2 * split_point ((n + 1) div 2))"

declare split_point.simps [simp del]

lemma split_point_pos [simp]: "0 < split_point n"
  by (induction n rule: split_point.induct) (simp add: split_point.simps)

lemma split_point_2 [simp]: "split_point 2 = 1" "split_point (Suc (Suc 0)) = 1"
  by (simp_all add: split_point.simps)

lemma split_point_bounds:
  "2 \<le> n \<Longrightarrow> 0 < split_point n \<and> split_point n < n \<and> n \<le> 2 * split_point n"
proof (induction n rule: split_point.induct)
  case (1 n)
  show ?case
  proof (cases "n = 2")
    case False
    with 1 have n: "2 < n" by simp
    then have "2 \<le> (n + 1) div 2" by simp
    with 1 n have "split_point ((n + 1) div 2) < (n + 1) div 2"
      and "(n + 1) div 2 \<le> 2 * split_point ((n + 1) div 2)" by simp_all
    moreover have "2 * ((n + 1) div 2) \<le> n + 1" "n \<le> 2 * ((n + 1) div 2)" by auto
    moreover have "split_point n = 2 * split_point ((n + 1) div 2)" using n by (subst split_point.simps) simp
    ultimately show ?thesis by linarith
  qed simp
qed

lemma split_point_less: "2 \<le> n \<Longrightarrow> split_point n < n"
  using split_point_bounds by blast

lemma split_point_power: "\<exists>j. split_point n = 2 ^ j"
proof (induction n rule: split_point.induct)
  case (1 n)
  show ?case
  proof (cases "n \<le> 2")
    case True
    then have "split_point n = 2 ^ 0" by (simp add: split_point.simps)
    then show ?thesis by blast
  next
    case False
    with 1 obtain j where "split_point ((n + 1) div 2) = 2 ^ j" by auto
    with False have "split_point n = 2 ^ Suc j" by (simp add: split_point.simps [of n])
    then show ?thesis by blast
  qed
qed

lemma split_point_halve: "2 < n \<Longrightarrow> split_point n = 2 * split_point ((n + 1) div 2)"
  by (simp add: split_point.simps [of n])

function mth :: "bytes list \<Rightarrow> bytes" where
  "mth hs = (if hs = [] then sha256 []
     else if length hs = 1 then hd hs
     else nodeHash (mth (take (split_point (length hs)) hs)) (mth (drop (split_point (length hs)) hs)))"
  by auto
termination
proof (relation "measure length", goal_cases)
  case 1
  show ?case by simp
next
  case (2 hs)
  then have "2 \<le> length hs" by (cases hs; cases "tl hs") auto
  with split_point_less 2 show ?case by auto
next
  case (3 hs)
  then show ?case by (cases hs) auto
qed

declare mth.simps [simp del]

lemma mth_single [simp]: "mth [h] = h"
  by (simp add: mth.simps)

lemma mth_split:
  "2 \<le> length hs \<Longrightarrow>
   mth hs = nodeHash (mth (take (split_point (length hs)) hs)) (mth (drop (split_point (length hs)) hs))"
  by (subst mth.simps) auto

function audit_path :: "nat \<Rightarrow> bytes list \<Rightarrow> bytes list" where
  "audit_path m hs = (if length hs \<le> 1 then []
     else let k = split_point (length hs) in
       if m < k then audit_path m (take k hs) @ [mth (drop k hs)]
       else audit_path (m - k) (drop k hs) @ [mth (take k hs)])"
  by auto
termination
proof (relation "measure (length \<circ> snd)", goal_cases)
  case 1
  show ?case by simp
next
  case (2 m hs k)
  then show ?case using split_point_less [of "length hs"] by simp
next
  case (3 m hs k)
  then show ?case by (auto intro!: diff_less)
qed

declare audit_path.simps [simp del]

function subproof :: "nat \<Rightarrow> bytes list \<Rightarrow> bool \<Rightarrow> bytes list" where
  "subproof m hs b = (if m \<ge> length hs then (if b then [] else [mth hs])
     else if m = 0 then []
     else let k = split_point (length hs) in
       if m \<le> k then subproof m (take k hs) b @ [mth (drop k hs)]
       else subproof (m - k) (drop k hs) False @ [mth (take k hs)])"
  by auto
termination
proof (relation "measure (\<lambda>(m, hs, b). length hs)", goal_cases)
  case 1
  show ?case by simp
next
  case (2 m hs b k)
  then show ?case using split_point_less [of "length hs"] by simp
next
  case (3 m hs b k)
  then show ?case by (auto intro!: diff_less)
qed

declare subproof.simps [simp del]

definition consistency_proof :: "nat \<Rightarrow> bytes list \<Rightarrow> bytes list" where
  "consistency_proof m hs = subproof m hs True"

text \<open>The byte strings hashed while building the tree over \<open>hs\<close>.\<close>

function mth_inputs :: "bytes list \<Rightarrow> bytes set" where
  "mth_inputs hs = (if length hs \<le> 1 then {}
     else let k = split_point (length hs) in
       insert (0x01 # mth (take k hs) @ mth (drop k hs)) (mth_inputs (take k hs) \<union> mth_inputs (drop k hs)))"
  by auto
termination
proof (relation "measure length", goal_cases)
  case 1
  show ?case by simp
next
  case (2 hs k)
  then show ?case using split_point_less [of "length hs"] by simp
next
  case (3 hs k)
  then show ?case by (auto intro!: diff_less)
qed

declare mth_inputs.simps [simp del]

section \<open>Levels\<close>

fun pair_up :: "bytes list \<Rightarrow> bytes list" where
  "pair_up (a # b # hs) = nodeHash a b # pair_up hs"
| "pair_up hs = hs"

lemma length_pair_up [simp]: "length (pair_up hs) = (length hs + 1) div 2"
  by (induction hs rule: pair_up.induct) auto

lemma pair_up_eq_Nil [simp]: "pair_up hs = [] \<longleftrightarrow> hs = []"
  by (cases hs rule: pair_up.cases) auto

lemma pair_up_append: "even (length xs) \<Longrightarrow> pair_up (xs @ ys) = pair_up xs @ pair_up ys"
  by (induction xs rule: pair_up.induct) auto

lemma pair_up_nth:
  "2 * i + 1 < length hs \<Longrightarrow> pair_up hs ! i = nodeHash (hs ! (2 * i)) (hs ! (2 * i + 1))"
proof (induction hs arbitrary: i rule: pair_up.induct)
  case (1 a b hs)
  then show ?case by (cases i) auto
qed auto

lemma pair_up_last:
  "length hs = 2 * i + 1 \<Longrightarrow> pair_up hs ! i = hs ! (2 * i)"
proof (induction hs arbitrary: i rule: pair_up.induct)
  case (1 a b hs)
  then show ?case by (cases i) auto
qed auto

lemma pair_up_hash_length:
  "\<forall>h \<in> set hs. length h = 32 \<Longrightarrow> h \<in> set (pair_up hs) \<Longrightarrow> length h = 32"
  by (induction hs rule: pair_up.induct) auto

lemma take_pair_up:
  assumes "even k" "k \<le> length hs"
  shows "take (k div 2) (pair_up hs) = pair_up (take k hs)"
    and "drop (k div 2) (pair_up hs) = pair_up (drop k hs)"
proof -
  have "pair_up hs = pair_up (take k hs) @ pair_up (drop k hs)"
    using assms pair_up_append [of "take k hs" "drop k hs"] by simp
  moreover have "length (pair_up (take k hs)) = k div 2" using assms by auto
  ultimately show "take (k div 2) (pair_up hs) = pair_up (take k hs)"
    and "drop (k div 2) (pair_up hs) = pair_up (drop k hs)" by simp_all
qed

lemma split_even: "2 < n \<Longrightarrow> even (split_point n)"
  by (simp add: split_point_halve)

text \<open>How the RFC split of a list of at least three nodes meets one level of pairing.\<close>

lemma split_pair_up:
  assumes "2 < length hs" and "k = split_point (length hs)"
  shows "split_point (length (pair_up hs)) = k div 2"
    and "take (k div 2) (pair_up hs) = pair_up (take k hs)"
    and "drop (k div 2) (pair_up hs) = pair_up (drop k hs)"
    and "even k" and "2 \<le> k" and "k < length hs"
proof -
  from assms have k: "k = 2 * split_point ((length hs + 1) div 2)" by (simp add: split_point_halve)
  then show "even k" by simp
  from k split_point_pos [of "(length hs + 1) div 2"] show "2 \<le> k" by linarith
  from assms show kl: "k < length hs" using split_point_less [of "length hs"] by simp
  from k show "split_point (length (pair_up hs)) = k div 2" by simp
  from take_pair_up [OF \<open>even k\<close>, of hs] kl
  show "take (k div 2) (pair_up hs) = pair_up (take k hs)"
    and "drop (k div 2) (pair_up hs) = pair_up (drop k hs)" by simp_all
qed

lemma list_len2: "length hs = 2 \<Longrightarrow> \<exists>a b. hs = [a, b]"
  by (cases hs; cases "tl hs") auto

lemma list_len1: "length hs = 1 \<Longrightarrow> \<exists>a. hs = [a]"
  by (cases hs) auto

lemma mth_two: "mth [a, b] = nodeHash a b"
  by (simp add: mth_split)

theorem mth_pair_up: "hs \<noteq> [] \<Longrightarrow> mth (pair_up hs) = mth hs"
proof (induction "length hs" arbitrary: hs rule: less_induct)
  case less
  consider "length hs = 1" | "length hs = 2" | "2 < length hs"
    using less.prems by (cases "length hs") (auto, linarith)
  then show ?case
  proof cases
    case 1
    then obtain a where "hs = [a]" using list_len1 by blast
    then show ?thesis by simp
  next
    case 2
    then obtain a b where "hs = [a, b]" using list_len2 by blast
    then show ?thesis by (simp add: mth_two)
  next
    case 3
    define k where "k = split_point (length hs)"
    note sp = split_pair_up [OF 3 k_def]
    have "mth (pair_up hs) = nodeHash (mth (pair_up (take k hs))) (mth (pair_up (drop k hs)))"
      using 3 by (subst mth_split) (simp, simp only: sp)
    moreover have "mth (pair_up (take k hs)) = mth (take k hs)"
      using sp(5,6) by (intro less.hyps) auto
    moreover have "mth (pair_up (drop k hs)) = mth (drop k hs)"
      using sp(5,6) by (intro less.hyps) auto
    ultimately show ?thesis using 3 k_def by (simp add: mth_split [of hs])
  qed
qed

lemma audit_path_small [simp]: "length hs \<le> 1 \<Longrightarrow> audit_path m hs = []"
  by (subst audit_path.simps) simp

lemma audit_path_split:
  assumes "2 \<le> length hs" "k = split_point (length hs)"
  shows "m < k \<Longrightarrow> audit_path m hs = audit_path m (take k hs) @ [mth (drop k hs)]"
    and "k \<le> m \<Longrightarrow> audit_path m hs = audit_path (m - k) (drop k hs) @ [mth (take k hs)]"
  using assms by (simp_all add: audit_path.simps [of m hs] Let_def)

text \<open>The sibling of node \<open>m\<close> in one level; a lone last node has none.\<close>

definition sibling :: "nat \<Rightarrow> bytes list \<Rightarrow> bytes list" where
  "sibling m hs = (if odd m then [hs ! (m - 1)] else if m + 1 = length hs then [] else [hs ! (m + 1)])"

theorem audit_path_pair_up:
  "m < length hs \<Longrightarrow> audit_path m hs = sibling m hs @ audit_path (m div 2) (pair_up hs)"
proof (induction "length hs" arbitrary: hs m rule: less_induct)
  case less
  consider "length hs = 1" | "length hs = 2" | "2 < length hs"
    using less.prems by (cases "length hs") (auto, linarith)
  then show ?case
  proof cases
    case 1
    with less.prems show ?thesis by (simp add: sibling_def)
  next
    case 2
    then obtain a b where "hs = [a, b]" using list_len2 by blast
    with less.prems show ?thesis
      by (cases m) (simp_all add: sibling_def audit_path_split [OF _ refl])
  next
    case 3
    define k where "k = split_point (length hs)"
    note sp = split_pair_up [OF 3 k_def]
    have 2: "2 \<le> length hs" "2 \<le> length (pair_up hs)" using 3 by auto
    have inner: "mth (pair_up (take k hs)) = mth (take k hs)" "mth (pair_up (drop k hs)) = mth (drop k hs)"
      using sp(5,6) by (intro mth_pair_up; auto)+
    show ?thesis
    proof (cases "m < k")
      case True
      have "audit_path m hs = audit_path m (take k hs) @ [mth (drop k hs)]"
        using True by (rule audit_path_split(1) [OF 2(1) k_def])
      also have "audit_path m (take k hs)
          = sibling m (take k hs) @ audit_path (m div 2) (pair_up (take k hs))"
        using sp(5,6) True by (intro less.hyps) auto
      also have "sibling m (take k hs) = sibling m hs"
      proof -
        have "m + 1 < k \<or> odd m" using True sp(4) by (cases "m + 1 = k") auto
        then show ?thesis using True sp(6) by (auto simp: sibling_def)
      qed
      also have "audit_path (m div 2) (pair_up hs)
          = audit_path (m div 2) (pair_up (take k hs)) @ [mth (pair_up (drop k hs))]"
        using True sp(4) by (subst audit_path_split(1) [OF 2(2) sp(1) [symmetric]]) (auto simp: sp(2,3))
      ultimately show ?thesis using inner by simp
    next
      case False
      have md: "(m - k) div 2 = m div 2 - k div 2"
        using False sp(4) by (auto elim!: evenE)
      have "audit_path m hs = audit_path (m - k) (drop k hs) @ [mth (take k hs)]"
        using False by (intro audit_path_split(2) [OF 2(1) k_def]) simp
      also have "audit_path (m - k) (drop k hs)
          = sibling (m - k) (drop k hs) @ audit_path ((m - k) div 2) (pair_up (drop k hs))"
        using sp(5,6) False less.prems by (intro less.hyps) auto
      also have "sibling (m - k) (drop k hs) = sibling m hs"
      proof -
        from False obtain d where "m = k + d" using le_Suc_ex not_less by blast
        with sp(4) less.prems show ?thesis by (cases d) (auto simp: sibling_def)
      qed
      also have "audit_path (m div 2) (pair_up hs)
          = audit_path ((m - k) div 2) (pair_up (drop k hs)) @ [mth (pair_up (take k hs))]"
        using False sp(4) by (subst audit_path_split(2) [OF 2(2) sp(1) [symmetric]])
          (auto simp: sp(2,3) md)
      ultimately show ?thesis using inner by simp
    qed
  qed
qed

section \<open>Hash inputs by level\<close>

fun pair_inputs :: "bytes list \<Rightarrow> bytes set" where
  "pair_inputs (a # b # hs) = insert (0x01 # a @ b) (pair_inputs hs)"
| "pair_inputs _ = {}"

lemma pair_inputs_append:
  "even (length xs) \<Longrightarrow> pair_inputs (xs @ ys) = pair_inputs xs \<union> pair_inputs ys"
  by (induction xs rule: pair_inputs.induct) auto

lemma pair_inputs_nth:
  "2 * i + 1 < length hs \<Longrightarrow> 0x01 # hs ! (2 * i) @ hs ! (2 * i + 1) \<in> pair_inputs hs"
proof (induction hs arbitrary: i rule: pair_inputs.induct)
  case (1 a b hs)
  then show ?case by (cases i) auto
qed auto

lemma mth_inputs_small [simp]: "length hs \<le> 1 \<Longrightarrow> mth_inputs hs = {}"
  by (subst mth_inputs.simps) simp

lemma mth_inputs_split:
  "2 \<le> length hs \<Longrightarrow> k = split_point (length hs) \<Longrightarrow> mth_inputs hs =
    insert (0x01 # mth (take k hs) @ mth (drop k hs)) (mth_inputs (take k hs) \<union> mth_inputs (drop k hs))"
  by (simp add: mth_inputs.simps [of hs] Let_def)

lemma mth_inputs_pair_up:
  "hs \<noteq> [] \<Longrightarrow> mth_inputs hs = pair_inputs hs \<union> mth_inputs (pair_up hs)"
proof (induction "length hs" arbitrary: hs rule: less_induct)
  case less
  consider "length hs = 1" | "length hs = 2" | "2 < length hs"
    using less.prems by (cases "length hs") (auto, linarith)
  then show ?case
  proof cases
    case 1
    then obtain a where "hs = [a]" using list_len1 by blast
    then show ?thesis by simp
  next
    case 2
    then obtain a b where "hs = [a, b]" using list_len2 by blast
    then show ?thesis by (simp add: mth_inputs_split [OF _ refl])
  next
    case 3
    define k where "k = split_point (length hs)"
    note sp = split_pair_up [OF 3 k_def]
    have 2: "2 \<le> length hs" "2 \<le> length (pair_up hs)" using 3 by auto
    have "mth_inputs (take k hs) = pair_inputs (take k hs) \<union> mth_inputs (pair_up (take k hs))"
      "mth_inputs (drop k hs) = pair_inputs (drop k hs) \<union> mth_inputs (pair_up (drop k hs))"
      using sp(5,6) by (intro less.hyps; auto)+
    moreover have "mth (pair_up (take k hs)) = mth (take k hs)" "mth (pair_up (drop k hs)) = mth (drop k hs)"
      using sp(5,6) by (intro mth_pair_up; auto)+
    moreover have "pair_inputs hs = pair_inputs (take k hs) \<union> pair_inputs (drop k hs)"
      using pair_inputs_append [of "take k hs" "drop k hs"] sp(4,6) by simp
    ultimately show ?thesis
      using mth_inputs_split [OF 2(1) k_def] mth_inputs_split [OF 2(2) sp(1) [symmetric]]
      by (simp add: sp(2,3)) blast
  qed
qed

lemma mth_inputs_up: "mth_inputs (pair_up hs) \<subseteq> mth_inputs hs"
  by (cases "hs = []") (auto simp: mth_inputs_pair_up [of hs])

lemma mth_inputs_nth:
  assumes "2 * i + 1 < length hs"
  shows "0x01 # hs ! (2 * i) @ hs ! (2 * i + 1) \<in> mth_inputs hs"
  using pair_inputs_nth [OF assms] assms by (subst mth_inputs_pair_up) auto

text \<open>Injectivity of the node hash, on inputs for which SHA-256 is injective.\<close>

lemma nodeHash_inject:
  assumes "inj_on sha256 S" "0x01 # a @ b \<in> S" "0x01 # c @ d \<in> S"
    and "nodeHash a b = nodeHash c d" "length a = length c"
  shows "a = c \<and> b = d"
proof -
  have "0x01 # a @ b = 0x01 # c @ d"
    using assms(1-4) unfolding nodeHash_def by (metis inj_onD)
  with assms(5) show ?thesis by simp
qed

section \<open>RFC consistency proofs by level\<close>

lemma subproof_full: "m \<ge> length hs \<Longrightarrow> subproof m hs b = (if b then [] else [mth hs])"
  by (subst subproof.simps) simp

lemma subproof_split:
  assumes "0 < m" "m < length hs" "k = split_point (length hs)"
  shows "m \<le> k \<Longrightarrow> subproof m hs b = subproof m (take k hs) b @ [mth (drop k hs)]"
    and "k < m \<Longrightarrow> subproof m hs b = subproof (m - k) (drop k hs) False @ [mth (take k hs)]"
  using assms by (simp_all add: subproof.simps [of m hs] Let_def)

text \<open>An odd old size: the proof is the last old leaf (left out when it is the whole old tree)
  followed by the audit path of that leaf in the new tree.\<close>

lemma subproof_odd:
  "odd m \<Longrightarrow> m < length hs \<Longrightarrow>
   subproof m hs b = (if m = 1 \<and> b then [] else [hs ! (m - 1)]) @ audit_path (m - 1) hs"
proof (induction "length hs" arbitrary: hs m b rule: less_induct)
  case less
  have m0: "0 < m" using less.prems(1) by (cases m) auto
  have len: "2 \<le> length hs" using m0 less.prems(2) by linarith
  show ?case
  proof (cases "length hs = 2")
    case True
    then obtain a c where hs: "hs = [a, c]" using list_len2 by blast
    with less.prems(2) m0 have "m = 1" by auto
    then show ?thesis
      by (simp add: hs subproof_split(1) [OF _ _ refl] audit_path_split(1) [OF _ refl] subproof_full)
  next
    case False
    then have 3: "2 < length hs" using len by simp
    define k where "k = split_point (length hs)"
    note sp = split_pair_up [OF 3 k_def]
    have "m \<noteq> k" using sp(4) less.prems(1) by auto
    show ?thesis
    proof (cases "m < k")
      case True
      have "subproof m (take k hs) b
          = (if m = 1 \<and> b then [] else [take k hs ! (m - 1)]) @ audit_path (m - 1) (take k hs)"
        using True sp(6) less.prems(1) by (intro less.hyps) auto
      with True m0 show ?thesis
        by (simp add: subproof_split(1) [OF m0 less.prems(2) k_def] audit_path_split(1) [OF len k_def])
    next
      case False
      with \<open>m \<noteq> k\<close> have km: "k < m" by simp
      have "subproof (m - k) (drop k hs) False
          = (if m - k = 1 \<and> False then [] else [drop k hs ! (m - k - 1)]) @ audit_path (m - k - 1) (drop k hs)"
        using km sp(4,5,6) less.prems by (intro less.hyps) auto
      moreover have "k \<le> m - 1" "m \<noteq> 1" "m - 1 - k = m - k - 1" "k + (m - k - 1) = m - 1"
        using km sp(5) by auto
      ultimately show ?thesis
        using km sp(6) by (simp add: subproof_split(2) [OF m0 less.prems(2) k_def]
            audit_path_split(2) [OF len k_def])
    qed
  qed
qed

text \<open>An even old size: the proof is the proof one level up.\<close>

lemma subproof_even:
  "even m \<Longrightarrow> 0 < m \<Longrightarrow> m \<le> length hs \<Longrightarrow>
   subproof m hs b = subproof (m div 2) (pair_up hs) b"
proof (induction "length hs" arbitrary: hs m b rule: less_induct)
  case less
  have len: "2 \<le> length hs" using less.prems by (auto elim!: evenE)
  show ?case
  proof (cases "m = length hs")
    case True
    then show ?thesis using less.prems(1,2) by (auto simp: subproof_full mth_pair_up)
  next
    case False
    with less.prems have ml: "m < length hs" "2 < length hs" by (auto elim!: evenE)
    define k where "k = split_point (length hs)"
    note sp = split_pair_up [OF ml(2) k_def]
    have m2: "0 < m div 2" "m div 2 < length (pair_up hs)" using less.prems ml by auto
    have inner: "mth (pair_up (take k hs)) = mth (take k hs)" "mth (pair_up (drop k hs)) = mth (drop k hs)"
      using sp(5,6) by (intro mth_pair_up; auto)+
    show ?thesis
    proof (cases "m \<le> k")
      case True
      have "subproof m (take k hs) b = subproof (m div 2) (pair_up (take k hs)) b"
        using True sp(6) less.prems by (intro less.hyps) auto
      with True show ?thesis
        by (simp add: subproof_split(1) [OF less.prems(2) ml(1) k_def]
            subproof_split(1) [OF m2 sp(1) [symmetric]] sp(2,3) inner)
    next
      case False
      have "subproof (m - k) (drop k hs) False = subproof ((m - k) div 2) (pair_up (drop k hs)) False"
        using False sp(4,5,6) less.prems by (intro less.hyps) auto
      moreover have "(m - k) div 2 = m div 2 - k div 2" "k div 2 < m div 2"
        using False sp(4) less.prems(1) by (auto elim!: evenE)
      ultimately show ?thesis using False
        by (simp add: subproof_split(2) [OF less.prems(2) ml(1) k_def]
            subproof_split(2) [OF m2 sp(1) [symmetric]] sp(2,3) inner)
    qed
  qed
qed

section \<open>Folding a path level by level\<close>

text \<open>Folding an audit path from node \<open>fn\<close> of a level with last index \<open>sn\<close>: a lone last node is
  promoted without consuming the path.\<close>

fun lvl_fold :: "nat \<Rightarrow> nat \<Rightarrow> bytes \<Rightarrow> bytes list \<Rightarrow> bytes option" where
  "lvl_fold fn sn r ps =
     (if sn = 0 then (if ps = [] then Some r else None)
      else if even fn \<and> fn = sn then lvl_fold (fn div 2) (sn div 2) r ps
      else (case ps of [] \<Rightarrow> None
        | p # ps' \<Rightarrow> lvl_fold (fn div 2) (sn div 2) (if odd fn then nodeHash p r else nodeHash r p) ps'))"

declare lvl_fold.simps [simp del]

fun lvl_inputs :: "nat \<Rightarrow> nat \<Rightarrow> bytes \<Rightarrow> bytes list \<Rightarrow> bytes set" where
  "lvl_inputs fn sn r ps =
     (if sn = 0 then {}
      else if even fn \<and> fn = sn then lvl_inputs (fn div 2) (sn div 2) r ps
      else (case ps of [] \<Rightarrow> {}
        | p # ps' \<Rightarrow> insert (0x01 # (if odd fn then p @ r else r @ p))
            (lvl_inputs (fn div 2) (sn div 2) (if odd fn then nodeHash p r else nodeHash r p) ps')))"

declare lvl_inputs.simps [simp del]

lemma level_up:
  assumes "sn + 1 = length hs" "fn \<le> sn" "0 < sn"
  shows "sn div 2 + 1 = length (pair_up hs)" "fn div 2 \<le> sn div 2"
    and "length (pair_up hs) < length hs"
    and "even fn \<Longrightarrow> fn = sn \<Longrightarrow> pair_up hs ! (fn div 2) = hs ! fn"
    and "even fn \<Longrightarrow> fn \<noteq> sn \<Longrightarrow> pair_up hs ! (fn div 2) = nodeHash (hs ! fn) (hs ! (fn + 1))"
    and "odd fn \<Longrightarrow> pair_up hs ! (fn div 2) = nodeHash (hs ! (fn - 1)) (hs ! fn)"
proof -
  show "sn div 2 + 1 = length (pair_up hs)" "fn div 2 \<le> sn div 2" "length (pair_up hs) < length hs"
    using assms by auto
  show "even fn \<Longrightarrow> fn = sn \<Longrightarrow> pair_up hs ! (fn div 2) = hs ! fn"
    using assms pair_up_last [of hs "fn div 2"] by simp
  show "even fn \<Longrightarrow> fn \<noteq> sn \<Longrightarrow> pair_up hs ! (fn div 2) = nodeHash (hs ! fn) (hs ! (fn + 1))"
    using assms pair_up_nth [of "fn div 2" hs] by simp
  show "odd fn \<Longrightarrow> pair_up hs ! (fn div 2) = nodeHash (hs ! (fn - 1)) (hs ! fn)"
    using assms pair_up_nth [of "fn div 2" hs] by (auto elim!: oddE)
qed

lemma lvl_fold_complete:
  "sn + 1 = length hs \<Longrightarrow> fn \<le> sn \<Longrightarrow> lvl_fold fn sn (hs ! fn) (audit_path fn hs) = Some (mth hs)"
proof (induction "length hs" arbitrary: hs fn sn rule: less_induct)
  case less
  show ?case
  proof (cases "sn = 0")
    case True
    with less.prems obtain h where "hs = [h]" using list_len1 by force
    with True less.prems show ?thesis by (simp add: lvl_fold.simps)
  next
    case False
    note up = level_up [OF less.prems] and ap = audit_path_pair_up [of fn hs]
    have "lvl_fold (fn div 2) (sn div 2) (pair_up hs ! (fn div 2)) (audit_path (fn div 2) (pair_up hs))
        = Some (mth (pair_up hs))"
      using False up by (intro less.hyps) auto
    moreover have "mth (pair_up hs) = mth hs" using less.prems by (intro mth_pair_up) auto
    ultimately show ?thesis
      using False up less.prems ap by (subst lvl_fold.simps) (auto simp: sibling_def)
  qed
qed

theorem lvl_fold_sound:
  "lvl_fold fn sn r ps = Some (mth hs) \<Longrightarrow> sn + 1 = length hs \<Longrightarrow> fn \<le> sn \<Longrightarrow>
   \<forall>h \<in> set hs. length h = 32 \<Longrightarrow> length r = 32 \<Longrightarrow> \<forall>p \<in> set ps. length p = 32 \<Longrightarrow>
   inj_on sha256 (mth_inputs hs \<union> lvl_inputs fn sn r ps) \<Longrightarrow>
   r = hs ! fn \<and> ps = audit_path fn hs"
proof (induction fn sn r ps arbitrary: hs rule: lvl_fold.induct)
  case (1 fn sn r ps)
  note prems = "1.prems" and IH = "1.IH"
  show ?case
  proof (cases "sn = 0")
    case True
    with prems(2) obtain h where "hs = [h]" using list_len1 by force
    with True prems(1,3) show ?thesis by (auto simp: lvl_fold.simps split: if_splits)
  next
    case False
    note up = level_up [OF prems(2,3)] and ap = audit_path_pair_up [of fn hs]
    have top: "mth (pair_up hs) = mth hs" using prems(2) by (intro mth_pair_up) auto
    have len: "\<forall>h \<in> set (pair_up hs). length h = 32" using prems(4) pair_up_hash_length by blast
    have sub: "mth_inputs (pair_up hs) \<subseteq> mth_inputs hs" by (rule mth_inputs_up)
    show ?thesis
    proof (cases "even fn \<and> fn = sn")
      case True
      have inp: "lvl_inputs fn sn r ps = lvl_inputs (fn div 2) (sn div 2) r ps"
        using False True by (subst lvl_inputs.simps) auto
      have "r = pair_up hs ! (fn div 2) \<and> ps = audit_path (fn div 2) (pair_up hs)"
      proof (rule IH(1) [OF False True])
        show "inj_on sha256 (mth_inputs (pair_up hs) \<union> lvl_inputs (fn div 2) (sn div 2) r ps)"
          using prems(7) sub unfolding inp by (elim inj_on_subset) auto
        show "lvl_fold (fn div 2) (sn div 2) r ps = Some (mth (pair_up hs))"
          using prems(1) False True top by (auto simp: lvl_fold.simps [of sn sn])
      qed (use prems False up len in auto)
      with True up False ap prems(2,3) show ?thesis by (auto simp: sibling_def)
    next
      case br: False
      then obtain p ps' where ps: "ps = p # ps'"
        using prems(1) False by (cases ps) (auto simp: lvl_fold.simps [of fn sn])
      define r' where "r' = (if odd fn then nodeHash p r else nodeHash r p)"
      have inp: "lvl_inputs fn sn r ps
          = insert (0x01 # (if odd fn then p @ r else r @ p)) (lvl_inputs (fn div 2) (sn div 2) r' ps')"
        using False br by (subst lvl_inputs.simps) (auto simp: ps r'_def)
      have "r' = pair_up hs ! (fn div 2) \<and> ps' = audit_path (fn div 2) (pair_up hs)"
        unfolding r'_def
      proof (rule IH(2) [OF False br ps])
        show "inj_on sha256 (mth_inputs (pair_up hs) \<union> lvl_inputs (fn div 2) (sn div 2)
            (if odd fn then nodeHash p r else nodeHash r p) ps')"
          using prems(7) sub unfolding inp r'_def by (elim inj_on_subset) auto
        show "lvl_fold (fn div 2) (sn div 2) (if odd fn then nodeHash p r else nodeHash r p) ps'
            = Some (mth (pair_up hs))"
          using prems(1) False br top by (simp add: lvl_fold.simps [of fn sn] ps)
      qed (use prems False up len ps in auto)
      then have r': "r' = pair_up hs ! (fn div 2)" and ps': "ps' = audit_path (fn div 2) (pair_up hs)"
        by auto
      have mem: "0x01 # (if odd fn then p @ r else r @ p) \<in> mth_inputs hs \<union> lvl_inputs fn sn r ps"
        unfolding inp by simp
      show ?thesis
      proof (cases "odd fn")
        case True
        have "0x01 # hs ! (fn - 1) @ hs ! fn \<in> mth_inputs hs"
          using mth_inputs_nth [of "fn div 2" hs] True prems(2,3) by (auto elim!: oddE)
        moreover have "length (hs ! (fn - 1)) = 32" using prems(2,3,4) by (simp add: nth_mem)
        ultimately have "p = hs ! (fn - 1) \<and> r = hs ! fn"
          using nodeHash_inject [OF prems(7), of p r "hs ! (fn - 1)" "hs ! fn"] mem True r' up(6) False
            prems(6) ps by (auto simp: r'_def)
        with True ap prems(2,3) ps ps' show ?thesis by (simp add: sibling_def)
      next
        case ev: False
        with br have ne: "fn \<noteq> sn" by auto
        have "0x01 # hs ! fn @ hs ! (fn + 1) \<in> mth_inputs hs"
          using mth_inputs_nth [of "fn div 2" hs] ev ne prems(2,3) by auto
        moreover have "length (hs ! fn) = 32" using prems(2,3,4) by (simp add: nth_mem)
        ultimately have "r = hs ! fn \<and> p = hs ! (fn + 1)"
          using nodeHash_inject [OF prems(7), of r p "hs ! fn" "hs ! (fn + 1)"] mem ev r' up(5) ne False
            prems(5) by (auto simp: r'_def)
        with ev ne ap prems(2,3) ps ps' show ?thesis by (simp add: sibling_def)
      qed
    qed
  qed
qed

text \<open>The same walk over two trees at once: \<open>fr\<close> is node \<open>fn\<close> of the old tree (its last node on
  this level), \<open>sr\<close> node \<open>fn\<close> of the new one.\<close>

fun lvl_cons :: "nat \<Rightarrow> nat \<Rightarrow> bytes \<Rightarrow> bytes \<Rightarrow> bytes list \<Rightarrow> (bytes \<times> bytes) option" where
  "lvl_cons fn sn fr sr ps =
     (if sn = 0 then (if ps = [] then Some (fr, sr) else None)
      else if even fn \<and> fn = sn then lvl_cons (fn div 2) (sn div 2) fr sr ps
      else (case ps of [] \<Rightarrow> None
        | c # ps' \<Rightarrow>
            (if odd fn then lvl_cons (fn div 2) (sn div 2) (nodeHash c fr) (nodeHash c sr) ps'
             else lvl_cons (fn div 2) (sn div 2) fr (nodeHash sr c) ps')))"

declare lvl_cons.simps [simp del]

fun cons_inputs :: "nat \<Rightarrow> nat \<Rightarrow> bytes \<Rightarrow> bytes \<Rightarrow> bytes list \<Rightarrow> bytes set" where
  "cons_inputs fn sn fr sr ps =
     (if sn = 0 then {}
      else if even fn \<and> fn = sn then cons_inputs (fn div 2) (sn div 2) fr sr ps
      else (case ps of [] \<Rightarrow> {}
        | c # ps' \<Rightarrow>
            (if odd fn then {0x01 # c @ fr, 0x01 # c @ sr} \<union>
                 cons_inputs (fn div 2) (sn div 2) (nodeHash c fr) (nodeHash c sr) ps'
             else insert (0x01 # sr @ c) (cons_inputs (fn div 2) (sn div 2) fr (nodeHash sr c) ps'))))"

declare cons_inputs.simps [simp del]

lemma take_pair_up_eq:
  assumes "take fn old = take fn new" "fn < length old" "fn < length new"
  shows "take (fn div 2) (pair_up old) = take (fn div 2) (pair_up new)"
proof -
  have e: "even (2 * (fn div 2))" "2 * (fn div 2) \<le> fn" by auto
  have "take (2 * (fn div 2)) old = take (2 * (fn div 2)) new"
    using assms(1) e(2) by (metis min.absorb1 take_take)
  with take_pair_up(1) [OF e(1), of old] take_pair_up(1) [OF e(1), of new] assms(2,3) e(2)
  show ?thesis by simp
qed

lemma nth_of_take_eq: "take n xs = take n ys \<Longrightarrow> i < n \<Longrightarrow> xs ! i = ys ! i"
  by (metis nth_take)

lemma old_last:
  assumes "length old = fn + 1" "0 < fn"
  shows "length (pair_up old) = fn div 2 + 1"
    and "even fn \<Longrightarrow> pair_up old ! (fn div 2) = old ! fn"
    and "odd fn \<Longrightarrow> pair_up old ! (fn div 2) = nodeHash (old ! (fn - 1)) (old ! fn)"
  using assms level_up(4) [of fn old fn] level_up(6) [of fn old fn] by simp_all

lemma lvl_cons_complete:
  "sn + 1 = length new \<Longrightarrow> fn + 1 = length old \<Longrightarrow> fn \<le> sn \<Longrightarrow> take fn old = take fn new \<Longrightarrow>
   lvl_cons fn sn (old ! fn) (new ! fn) (audit_path fn new) = Some (mth old, mth new)"
proof (induction "length new" arbitrary: old new fn sn rule: less_induct)
  case less
  show ?case
  proof (cases "sn = 0")
    case True
    with less.prems obtain h g where "new = [h]" "old = [g]"
      using list_len1 [of new] list_len1 [of old] by force
    with True less.prems show ?thesis by (simp add: lvl_cons.simps)
  next
    case False
    note up = level_up [OF less.prems(1,3)] and ap = audit_path_pair_up [of fn new]
    have top: "mth (pair_up new) = mth new" "mth (pair_up old) = mth old"
      using less.prems by (intro mth_pair_up; auto)+
    have ol: "fn div 2 + 1 = length (pair_up old)" using less.prems(2) by simp
    have fr: "pair_up old ! (fn div 2) = (if odd fn then nodeHash (old ! (fn - 1)) (old ! fn) else old ! fn)"
    proof (cases "fn = 0")
      case True
      with less.prems(2) obtain g where "old = [g]" using list_len1 [of old] by force
      with True show ?thesis by simp
    next
      case False
      with old_last [of old fn] less.prems(2) show ?thesis by auto
    qed
    have "lvl_cons (fn div 2) (sn div 2) (pair_up old ! (fn div 2)) (pair_up new ! (fn div 2))
          (audit_path (fn div 2) (pair_up new)) = Some (mth (pair_up old), mth (pair_up new))"
      using False up(1-3) ol less.prems(1-3) take_pair_up_eq [OF less.prems(4)] by (intro less.hyps) simp_all
    moreover have "odd fn \<Longrightarrow> old ! (fn - 1) = new ! (fn - 1)"
      using nth_of_take_eq [OF less.prems(4), of "fn - 1"] by (cases fn) auto
    ultimately show ?thesis
      using False up less.prems ap top fr by (subst lvl_cons.simps) (auto simp: sibling_def)
  qed
qed

lemma pairs_agree:
  assumes inj: "inj_on sha256 S" and sub: "mth_inputs old \<union> mth_inputs new \<subseteq> S"
    and len: "\<forall>h \<in> set old \<union> set new. length h = 32"
    and k: "2 * k \<le> length old" "2 * k \<le> length new"
    and eq: "\<forall>i < k. pair_up old ! i = pair_up new ! i"
  shows "\<forall>i < 2 * k. old ! i = new ! i"
proof (intro allI impI)
  fix i assume i: "i < 2 * k"
  define j where "j = i div 2"
  have jk: "j < k" using i by (simp add: j_def)
  then have "2 * j + 1 < 2 * k" by simp
  with jk k have j: "j < k" "2 * j + 1 < length old" "2 * j + 1 < length new" by linarith+
  have "nodeHash (old ! (2 * j)) (old ! (2 * j + 1)) = nodeHash (new ! (2 * j)) (new ! (2 * j + 1))"
    using eq j pair_up_nth by metis
  moreover have "length (old ! (2 * j)) = length (new ! (2 * j))" using len j by (simp add: nth_mem)
  ultimately have "old ! (2 * j) = new ! (2 * j) \<and> old ! (2 * j + 1) = new ! (2 * j + 1)"
    using nodeHash_inject [OF inj] mth_inputs_nth [OF j(2)] mth_inputs_nth [OF j(3)] sub by blast
  moreover have "i = 2 * j \<or> i = 2 * j + 1" by (auto simp: j_def)
  ultimately show "old ! i = new ! i" by auto
qed

theorem lvl_cons_sound:
  "lvl_cons fn sn fr sr ps = Some (mth old, mth new) \<Longrightarrow>
   fn + 1 = length old \<Longrightarrow> sn + 1 = length new \<Longrightarrow> fn \<le> sn \<Longrightarrow>
   \<forall>h \<in> set old \<union> set new \<union> set ps. length h = 32 \<Longrightarrow> length fr = 32 \<Longrightarrow> length sr = 32 \<Longrightarrow>
   inj_on sha256 (mth_inputs old \<union> mth_inputs new \<union> cons_inputs fn sn fr sr ps) \<Longrightarrow>
   fr = old ! fn \<and> sr = new ! fn \<and> (\<forall>i < fn. old ! i = new ! i)"
proof (induction fn sn fr sr ps arbitrary: old new rule: lvl_cons.induct)
  case (1 fn sn fr sr ps)
  note prems = "1.prems" and IH = "1.IH"
  show ?case
  proof (cases "sn = 0")
    case True
    with prems(2-4) obtain h g where "old = [h]" "new = [g]" "fn = 0"
      using list_len1 [of old] list_len1 [of new] by force
    with True prems(1) show ?thesis by (auto simp: lvl_cons.simps split: if_splits)
  next
    case False
    define S where "S = mth_inputs old \<union> mth_inputs new \<union> cons_inputs fn sn fr sr ps"
    have inj: "inj_on sha256 S" using prems(8) by (simp add: S_def)
    note up = level_up [OF prems(3,4)]
    have top: "mth (pair_up old) = mth old" "mth (pair_up new) = mth new"
      using prems(2,3) by (intro mth_pair_up; auto)+
    have len: "\<forall>h \<in> set (pair_up old) \<union> set (pair_up new). length h = 32"
      using prems(5) pair_up_hash_length [of old] pair_up_hash_length [of new] by blast
    have ol: "fn div 2 + 1 = length (pair_up old)" using prems(2) by simp
    have sub: "mth_inputs (pair_up old) \<union> mth_inputs (pair_up new) \<subseteq> S"
      using mth_inputs_up [of old] mth_inputs_up [of new] by (auto simp: S_def)
    have agree: "\<forall>i < fn div 2. pair_up old ! i = pair_up new ! i \<Longrightarrow> \<forall>i < 2 * (fn div 2). old ! i = new ! i"
      using prems(2-5) by (intro pairs_agree [OF inj]) (auto simp: S_def)
    show ?thesis
    proof (cases "odd fn")
      case odd: True
      then obtain c ps' where ps: "ps = c # ps'"
        using prems(1) False by (cases ps) (auto simp: lvl_cons.simps [of fn sn])
      have inp: "cons_inputs fn sn fr sr ps = {0x01 # c @ fr, 0x01 # c @ sr} \<union>
          cons_inputs (fn div 2) (sn div 2) (nodeHash c fr) (nodeHash c sr) ps'"
        using False odd by (subst cons_inputs.simps) (simp add: ps)
      have up_eq: "nodeHash c fr = pair_up old ! (fn div 2) \<and> nodeHash c sr = pair_up new ! (fn div 2)
          \<and> (\<forall>i < fn div 2. pair_up old ! i = pair_up new ! i)"
      proof (rule IH(2) [OF False _ ps odd])
        show "inj_on sha256 (mth_inputs (pair_up old) \<union> mth_inputs (pair_up new) \<union>
            cons_inputs (fn div 2) (sn div 2) (nodeHash c fr) (nodeHash c sr) ps')"
          using inj sub inp by (elim inj_on_subset) (auto simp: S_def)
        show "lvl_cons (fn div 2) (sn div 2) (nodeHash c fr) (nodeHash c sr) ps'
            = Some (mth (pair_up old), mth (pair_up new))"
          using prems(1) False odd top by (simp add: lvl_cons.simps [of fn sn] ps)
      qed (use odd False up ol len prems(5) ps in auto)
      have f1: "fn - 1 = 2 * (fn div 2)" "fn = 2 * (fn div 2) + 1" using odd by (auto elim!: oddE)
      have "0x01 # old ! (fn - 1) @ old ! fn \<in> S" "0x01 # new ! (fn - 1) @ new ! fn \<in> S"
        using mth_inputs_nth [of "fn div 2" old] mth_inputs_nth [of "fn div 2" new] f1 prems(2-4)
        by (auto simp: S_def)
      moreover have "0x01 # c @ fr \<in> S" "0x01 # c @ sr \<in> S" using inp by (auto simp: S_def)
      moreover have "length c = 32" "length (old ! (fn - 1)) = 32" "length (new ! (fn - 1)) = 32"
        using prems(2-5) ps by (auto simp: nth_mem)
      moreover have "nodeHash c fr = nodeHash (old ! (fn - 1)) (old ! fn)"
        using up_eq odd old_last(3) [of old fn] prems(2) by (cases fn) auto
      moreover have "nodeHash c sr = nodeHash (new ! (fn - 1)) (new ! fn)"
        using up_eq odd up(6) False by simp
      ultimately have "c = old ! (fn - 1)" "fr = old ! fn" "c = new ! (fn - 1)" "sr = new ! fn"
        using nodeHash_inject [OF inj] by metis+
      moreover have "\<forall>i < fn - 1. old ! i = new ! i" using agree up_eq f1(1) by simp
      ultimately show ?thesis using f1(2) by (metis less_SucE Suc_eq_plus1 f1(1))
    next
      case even: False
      have fo: "fr = old ! fn" if "fr = pair_up old ! (fn div 2)"
      proof (cases "fn = 0")
        case True
        with prems(2) obtain g where "old = [g]" using list_len1 [of old] by force
        with True that show ?thesis by simp
      next
        case False
        with that even old_last(2) [of old fn] prems(2) show ?thesis by simp
      qed
      have f2: "2 * (fn div 2) = fn" using even by simp
      show ?thesis
      proof (cases "fn = sn")
        case True
        have inp: "cons_inputs fn sn fr sr ps = cons_inputs (fn div 2) (sn div 2) fr sr ps"
          using False even True by (subst cons_inputs.simps) simp
        have "fr = pair_up old ! (fn div 2) \<and> sr = pair_up new ! (fn div 2)
            \<and> (\<forall>i < fn div 2. pair_up old ! i = pair_up new ! i)"
        proof (rule IH(1) [OF False])
          show "inj_on sha256 (mth_inputs (pair_up old) \<union> mth_inputs (pair_up new) \<union>
              cons_inputs (fn div 2) (sn div 2) fr sr ps)"
            using inj sub inp by (elim inj_on_subset) (auto simp: S_def)
          show "lvl_cons (fn div 2) (sn div 2) fr sr ps = Some (mth (pair_up old), mth (pair_up new))"
            using prems(1) False even True top by (simp add: lvl_cons.simps [of sn sn])
        qed (use even True False up(1,2) ol len prems(5-7) in auto)
        with fo agree f2 up(4) even True False show ?thesis by auto
      next
        case ne: False
        then obtain c ps' where ps: "ps = c # ps'"
          using prems(1) False even by (cases ps) (auto simp: lvl_cons.simps [of fn sn])
        have inp: "cons_inputs fn sn fr sr ps =
            insert (0x01 # sr @ c) (cons_inputs (fn div 2) (sn div 2) fr (nodeHash sr c) ps')"
          using False even ne by (subst cons_inputs.simps) (simp add: ps)
        have up_eq: "fr = pair_up old ! (fn div 2) \<and> nodeHash sr c = pair_up new ! (fn div 2)
            \<and> (\<forall>i < fn div 2. pair_up old ! i = pair_up new ! i)"
        proof (rule IH(3) [OF False _ ps])
          show "inj_on sha256 (mth_inputs (pair_up old) \<union> mth_inputs (pair_up new) \<union>
              cons_inputs (fn div 2) (sn div 2) fr (nodeHash sr c) ps')"
            using inj sub inp by (elim inj_on_subset) (auto simp: S_def)
          show "lvl_cons (fn div 2) (sn div 2) fr (nodeHash sr c) ps'
              = Some (mth (pair_up old), mth (pair_up new))"
            using prems(1) False even ne top by (simp add: lvl_cons.simps [of fn sn] ps)
        qed (use even ne False up(1,2) ol len prems(5,6) ps in auto)
        have "0x01 # new ! fn @ new ! (fn + 1) \<in> S"
          using mth_inputs_nth [of "fn div 2" new] f2 prems(3,4) ne by (auto simp: S_def)
        moreover have "0x01 # sr @ c \<in> S" using inp by (auto simp: S_def)
        moreover have "length (new ! fn) = 32" using prems(3-5) by (auto simp: nth_mem)
        moreover have "nodeHash sr c = nodeHash (new ! fn) (new ! (fn + 1))"
          using up_eq up(5) even ne False by simp
        ultimately have "sr = new ! fn" using nodeHash_inject [OF inj] prems(7) by metis
        with fo agree f2 up_eq show ?thesis by auto
      qed
    qed
  qed
qed

end
