(* ===== verification/AcdpVerify.thy ===== *)
theory AcdpVerify
  imports Prelude
begin

text \<open>
  \<open>src/src/auth/acdp-verify.ts\<close>: the boundary to the signature primitives of the \<open>acdp\<close>
  binding. The binding is not part of the repository, so its two static methods are the fields of
  a record; each takes the key, the signature and the message and answers \<open>Some b\<close>, or \<open>None\<close>
  when it throws.
\<close>

record acdp_verifier =
  av_verifySignature :: "string \<Rightarrow> string \<Rightarrow> string \<Rightarrow> bool option"
  av_verifySignatureP256 :: "string \<Rightarrow> string \<Rightarrow> string \<Rightarrow> bool option"

definition verifySignatureB64 ::
  "acdp_verifier \<Rightarrow> string \<Rightarrow> string \<Rightarrow> string \<Rightarrow> string \<Rightarrow> bool" where
  "verifySignatureB64 V algorithm publicKeyB64 message signatureB64 =
     (case (if algorithm = ''ed25519''
            then av_verifySignature V publicKeyB64 signatureB64 message
            else av_verifySignatureP256 V publicKeyB64 signatureB64 message)
      of Some b \<Rightarrow> b | None \<Rightarrow> False)"

text \<open>The boot self-test on the small-order forgery of RFC-ACDP-0001.\<close>

definition SIG_004_PUBLIC_KEY_B64 :: string where
  "SIG_004_PUBLIC_KEY_B64 = ''AQAAAAAAAAAAAAAAAAAAAAAAAAAAAAAAAAAAAAAAAAA=''"

definition SIG_004_SIGNATURE_B64 :: string where
  "SIG_004_SIGNATURE_B64 =
     ''AQAAAAAAAAAAAAAAAAAAAAAAAAAAAAAAAAAAAAAAAAAAAAAAAAAAAAAAAAAAAAAAAAAAAAAAAAAAAAAAAAAAAA==''"

definition SIG_004_SIGNATURE_INPUT :: string where
  "SIG_004_SIGNATURE_INPUT =
     ''sha256:ccd2641662848a5168095e629c2c90336441bc0d61464e3d8066ea3c147fbaea''"

definition assertStrictEd25519 :: "acdp_verifier \<Rightarrow> unit option" where
  "assertStrictEd25519 V =
     (if verifySignatureB64 V ''ed25519'' SIG_004_PUBLIC_KEY_B64 SIG_004_SIGNATURE_INPUT
           SIG_004_SIGNATURE_B64
      then None else Some ())"

lemma verifySignatureB64_ed25519:
  "verifySignatureB64 V ''ed25519'' k m s \<longleftrightarrow> av_verifySignature V k s m = Some True"
  by (auto simp: verifySignatureB64_def split: option.splits)

end
