(* ===== verification/LogVerify.thy ===== *)
theory LogVerify
  imports Merkle AcdpVerify
begin

unbundle bit_operations_syntax

text \<open>
  \<open>src/src/audit/log-verify.ts\<close>: the transparency-log verifier of RFC-ACDP-0012.

  Parsing of checkpoints and proofs is modelled on JSON values; the Merkle arithmetic is the host
  fold with its loops (\<open>inclusion_loop\<close>, \<open>consistency_loop\<close>, \<open>strip_even\<close>, \<open>strip_odd\<close>) as
  recursive functions. \<open>BigInt\<close> indices are naturals. The JCS canonicalizer of the \<open>acdp\<close> binding
  is the parameter \<open>jcs\<close>, composed with \<open>JSON.stringify\<close>; \<open>None\<close> is a throw.

  The loops are related to the level folds of \<open>Merkle\<close>, which gives completeness and soundness
  against RFC 6962.
\<close>

section \<open>Outcomes\<close>

datatype verify_reason =
    MalformedExpectedRoot
  | SizesNotIntegers
  | LeafIndexTooLarge
  | MalformedPathElement
  | PathTooLong
  | PathExhausted
  | RootMismatch
  | MalformedRoots
  | PathNotEmpty
  | SplitView
  | BadProofShape
  | FirstRootMismatch
  | SecondRootMismatch
  | UnsupportedSignatureAlgorithm
  | NotCanonicalizable
  | SignatureInvalid
  | TimestampInFuture
  | NativeThrew string
  | NativeNotJson
  | NativeError string
  | NativeFailed

type_synonym verify_outcome = "verify_reason + unit"

section \<open>Lexical classes\<close>

definition WIRE_HASH_PREFIX :: string where "WIRE_HASH_PREFIX = ''sha256:''"

definition WIRE_HASH_RE :: "string \<Rightarrow> bool" where
  "WIRE_HASH_RE s = (starts_with WIRE_HASH_PREFIX s \<and> length s = 71 \<and> all_in hex_digits (drop 7 s))"

definition matches_template :: "string \<Rightarrow> string \<Rightarrow> bool" where
  "matches_template t s =
     list_all2 (\<lambda>p c. if p = CHR ''d'' then c \<in> set digits else c = p) t s"

definition CANONICAL_TS_RE :: "string \<Rightarrow> bool" where
  "CANONICAL_TS_RE s = matches_template ''dddd-dd-ddTdd:dd:dd.dddZ'' s"

definition LOG_ID_AUTHORITY :: string where
  "LOG_ID_AUTHORITY = lower_letters @ upper_letters @ digits @ ''.%:-''"

definition LOG_ID_INSTANCE :: string where
  "LOG_ID_INSTANCE = lower_letters @ digits @ ''-''"

text \<open>Group 1 of \<open>LOG_ID_CAPTURE_RE\<close>. The authority class has no slash, so the match is unique.\<close>

definition logIdRegistryDid :: "string \<Rightarrow> string option" where
  "logIdRegistryDid s =
     (let rest = drop 8 s;
          auth = takeWhile (\<lambda>c. c \<noteq> CHR ''/'') rest;
          tl' = drop (length auth) rest;
          inst = drop 5 tl'
      in if starts_with ''did:web:'' s \<and> auth \<noteq> [] \<and> all_in LOG_ID_AUTHORITY auth
            \<and> starts_with ''/log/'' tl' \<and> inst \<noteq> [] \<and> length inst \<le> 32 \<and> all_in LOG_ID_INSTANCE inst
         then Some (''did:web:'' @ auth) else None)"

definition LOG_ID_RE :: "string \<Rightarrow> bool" where
  "LOG_ID_RE s = (logIdRegistryDid s \<noteq> None)"

section \<open>Time\<close>

text \<open>\<open>Date.parse\<close> on the canonical shape, as V8 computes it: month 1 to 12, day 1 to 31 (a day past
  the end of the month runs into the next one), hour up to 23, or 24 with the rest zero.\<close>

definition num_at :: "nat \<Rightarrow> nat \<Rightarrow> string \<Rightarrow> nat" where
  "num_at i k s = (case read_nat (take k (drop i s)) of Some n \<Rightarrow> n | None \<Rightarrow> 0)"

definition days_from_civil :: "int \<Rightarrow> int \<Rightarrow> int" where
  "days_from_civil y m =
     (let y' = (if m \<le> 2 then y - 1 else y);
          era = y' div 400;
          yoe = y' mod 400;
          mp = (m + 9) mod 12;
          doy = (153 * mp + 2) div 5;
          doe = yoe * 365 + yoe div 4 - yoe div 100 + doy
      in era * 146097 + doe - 719468)"

definition date_parse :: "string \<Rightarrow> int option" where
  "date_parse s =
     (let y = num_at 0 4 s; mo = num_at 5 2 s; d = num_at 8 2 s;
          h = num_at 11 2 s; mi = num_at 14 2 s; sec = num_at 17 2 s; ms = num_at 20 3 s
      in if 1 \<le> mo \<and> mo \<le> 12 \<and> 1 \<le> d \<and> d \<le> 31 \<and>
            ((h \<le> 23 \<and> mi \<le> 59 \<and> sec \<le> 59) \<or> (h = 24 \<and> mi = 0 \<and> sec = 0 \<and> ms = 0))
         then Some ((days_from_civil (int y) (int mo) + int d - 1) * 86400000
                    + int h * 3600000 + int mi * 60000 + int sec * 1000 + int ms)
         else None)"

section \<open>Checkpoints\<close>

record wire_signature =
  sig_algorithm :: string
  sig_key_id :: string
  sig_value :: string

record log_checkpoint =
  cp_version :: string
  cp_log_id :: string
  cp_tree_size :: int
  cp_root_hash :: string
  cp_timestamp :: string
  cp_signature :: wire_signature
  cp_raw :: jobj

datatype checkpoint_error =
    CpNotObject
  | CpSchemaViolation "string list" "string list"
  | CpBadVersion
  | CpBadLogId
  | CpBadTreeSize
  | CpBadRootHash
  | CpBadTimestamp
  | CpSignatureNotObject
  | CpSignatureNotClosed

definition checkpoint_fields :: "string list" where
  "checkpoint_fields =
     [''checkpoint_version'', ''log_id'', ''tree_size'', ''root_hash'', ''timestamp'', ''signature'']"

text \<open>The closed \<open>{algorithm,key_id,value}\<close> object, also used for cosignatures.\<close>

definition parseClosedSignature :: "jobj \<Rightarrow> wire_signature option" where
  "parseClosedSignature s =
     (if join_with '','' (sort (object_keys s)) \<noteq> ''algorithm,key_id,value'' then None
      else (case (as_string (get_prop s ''algorithm''), as_string (get_prop s ''key_id''),
                  as_string (get_prop s ''value'')) of
          (Some a, Some k, Some v) \<Rightarrow> Some \<lparr>sig_algorithm = a, sig_key_id = k, sig_value = v\<rparr>
        | _ \<Rightarrow> None))"

definition parseCheckpoint :: "json \<Rightarrow> checkpoint_error + log_checkpoint" where
  "parseCheckpoint raw = (case raw of
     JObj obj \<Rightarrow>
       (let keys = object_keys obj;
            extra = filter (\<lambda>k. k \<notin> set checkpoint_fields) keys;
            missing = filter (\<lambda>k. k \<notin> set keys) checkpoint_fields
        in if extra \<noteq> [] \<or> missing \<noteq> [] then Inl (CpSchemaViolation missing extra)
           else if get_prop obj ''checkpoint_version'' \<noteq> Some (JStr ''acdp-log/1'') then Inl CpBadVersion
           else (case as_string (get_prop obj ''log_id'') of None \<Rightarrow> Inl CpBadLogId | Some log_id \<Rightarrow>
             if \<not> LOG_ID_RE log_id then Inl CpBadLogId
             else (case as_int (get_prop obj ''tree_size'') of None \<Rightarrow> Inl CpBadTreeSize | Some tsize \<Rightarrow>
               if tsize < 0 then Inl CpBadTreeSize
               else (case as_string (get_prop obj ''root_hash'') of None \<Rightarrow> Inl CpBadRootHash | Some rootH \<Rightarrow>
                 if \<not> WIRE_HASH_RE rootH then Inl CpBadRootHash
                 else (case as_string (get_prop obj ''timestamp'') of None \<Rightarrow> Inl CpBadTimestamp | Some ts \<Rightarrow>
                   if \<not> CANONICAL_TS_RE ts \<or> date_parse ts = None then Inl CpBadTimestamp
                   else (case get_prop obj ''signature'' of
                       Some (JObj s) \<Rightarrow>
                         (case parseClosedSignature s of None \<Rightarrow> Inl CpSignatureNotClosed | Some sg \<Rightarrow>
                           Inr \<lparr>cp_version = ''acdp-log/1'', cp_log_id = log_id, cp_tree_size = tsize,
                                cp_root_hash = rootH, cp_timestamp = ts, cp_signature = sg, cp_raw = obj\<rparr>)
                     | _ \<Rightarrow> Inl CpSignatureNotObject))))))
   | _ \<Rightarrow> Inl CpNotObject)"

type_synonym jcs = "json \<Rightarrow> string option"

definition wire_digest :: "bytes \<Rightarrow> string" where
  "wire_digest m = WIRE_HASH_PREFIX @ sha256_hex m"

definition checkpointHash :: "jcs \<Rightarrow> log_checkpoint \<Rightarrow> string option" where
  "checkpointHash jcs cp =
     map_option (\<lambda>canonical. wire_digest (utf8 canonical))
       (jcs (JObj (omit_key ''signature'' (cp_raw cp))))"

definition verifyCheckpointSignature ::
  "acdp_verifier \<Rightarrow> jcs \<Rightarrow> log_checkpoint \<Rightarrow> string \<Rightarrow> verify_outcome" where
  "verifyCheckpointSignature V jcs cp registryPublicKeyB64 =
     (if sig_algorithm (cp_signature cp) \<noteq> ''ed25519'' then Inl UnsupportedSignatureAlgorithm
      else (case checkpointHash jcs cp of None \<Rightarrow> Inl NotCanonicalizable | Some hash \<Rightarrow>
        if verifySignatureB64 V ''ed25519'' registryPublicKeyB64 hash (sig_value (cp_signature cp))
        then Inr () else Inl SignatureInvalid))"

definition CHECKPOINT_MAX_FUTURE_SKEW_MS :: int where
  "CHECKPOINT_MAX_FUTURE_SKEW_MS = 120000"

text \<open>\<open>Date.parse\<close> of an unparsable timestamp is NaN, and a comparison with NaN is false.\<close>

definition checkpointTimestampOk :: "log_checkpoint \<Rightarrow> int \<Rightarrow> verify_outcome" where
  "checkpointTimestampOk cp nowMs = (case date_parse (cp_timestamp cp) of
     Some ts \<Rightarrow> if ts - nowMs > CHECKPOINT_MAX_FUTURE_SKEW_MS then Inl TimestampInFuture else Inr ()
   | None \<Rightarrow> Inr ())"

section \<open>Merkle arithmetic\<close>

definition wireHashToBuf :: "string \<Rightarrow> bytes option" where
  "wireHashToBuf wire = (if WIRE_HASH_RE wire then Some (bytes_of_hex (drop 7 wire)) else None)"

definition leafHash :: "jcs \<Rightarrow> jobj \<Rightarrow> bytes option" where
  "leafHash jcs leaf = map_option (\<lambda>canonical. sha256 (0x00 # utf8 canonical)) (jcs (JObj leaf))"

text \<open>\<open>while (fn % 2 == 0 && fn != 0) { fn >>= 1; sn >>= 1 }\<close> and
  \<open>while (fn % 2 == 1) { fn >>= 1; sn >>= 1 }\<close>.\<close>

fun strip_even :: "nat \<Rightarrow> nat \<Rightarrow> nat \<times> nat" where
  "strip_even fn sn = (if even fn \<and> fn \<noteq> 0 then strip_even (fn div 2) (sn div 2) else (fn, sn))"

function strip_odd :: "nat \<Rightarrow> nat \<Rightarrow> nat \<times> nat" where
  "strip_odd fn sn = (if odd fn then strip_odd (fn div 2) (sn div 2) else (fn, sn))"
  by auto
termination by (relation "measure fst") (auto dest: odd_pos)

declare strip_even.simps [simp del] strip_odd.simps [simp del]

fun inclusion_loop :: "nat \<Rightarrow> nat \<Rightarrow> bytes \<Rightarrow> string list \<Rightarrow> bytes \<Rightarrow> verify_outcome" where
  "inclusion_loop fn sn r [] expectedRoot =
     (if sn \<noteq> 0 then Inl PathExhausted
      else if r \<noteq> expectedRoot then Inl RootMismatch
      else Inr ())"
| "inclusion_loop fn sn r (element # es) expectedRoot =
     (case wireHashToBuf element of
        None \<Rightarrow> Inl MalformedPathElement
      | Some p \<Rightarrow>
          if sn = 0 then Inl PathTooLong
          else if odd fn \<or> fn = sn then
            (let (f, s) = (if even fn then strip_even fn sn else (fn, sn))
             in inclusion_loop (f div 2) (s div 2) (nodeHash p r) es expectedRoot)
          else inclusion_loop (fn div 2) (sn div 2) (nodeHash r p) es expectedRoot)"

definition verifyInclusionPath ::
  "jsnum \<Rightarrow> jsnum \<Rightarrow> bytes \<Rightarrow> string list \<Rightarrow> string \<Rightarrow> verify_outcome" where
  "verifyInclusionPath leafIndex treeSize leaf inclusionPath expectedRootHash =
     (case wireHashToBuf expectedRootHash of
        None \<Rightarrow> Inl MalformedExpectedRoot
      | Some expectedRoot \<Rightarrow>
          if \<not> isInteger leafIndex \<or> \<not> isInteger treeSize \<or> int_of_num leafIndex < 0
          then Inl SizesNotIntegers
          else if int_of_num leafIndex \<ge> int_of_num treeSize then Inl LeafIndexTooLarge
          else inclusion_loop (nat (int_of_num leafIndex)) (nat (int_of_num treeSize - 1))
                 leaf inclusionPath expectedRoot)"

text \<open>JavaScript \<open>&\<close> works on the operands modulo \<open>2 ^ 32\<close>.\<close>

definition isPowerOfTwo :: "int \<Rightarrow> bool" where
  "isPowerOfTwo n = (n > 0 \<and> (word_of_int n :: 32 word) AND word_of_int (n - 1) = 0)"

fun consistency_loop ::
  "nat \<Rightarrow> nat \<Rightarrow> bytes \<Rightarrow> bytes \<Rightarrow> bytes list \<Rightarrow> bytes \<Rightarrow> bytes \<Rightarrow> verify_outcome" where
  "consistency_loop fn sn fr sr [] firstRoot secondRoot =
     (if fr \<noteq> firstRoot then Inl FirstRootMismatch
      else if sr \<noteq> secondRoot then Inl SecondRootMismatch
      else if sn \<noteq> 0 then Inl PathExhausted
      else Inr ())"
| "consistency_loop fn sn fr sr (c # cs) firstRoot secondRoot =
     (if sn = 0 then Inl PathTooLong
      else if odd fn \<or> fn = sn then
        (let (f, s) = (if even fn then strip_even fn sn else (fn, sn))
         in consistency_loop (f div 2) (s div 2) (nodeHash c fr) (nodeHash c sr) cs firstRoot secondRoot)
      else consistency_loop (fn div 2) (sn div 2) fr (nodeHash sr c) cs firstRoot secondRoot)"

fun decode_path :: "string list \<Rightarrow> bytes list option" where
  "decode_path [] = Some []"
| "decode_path (e # es) = (case wireHashToBuf e of
      None \<Rightarrow> None
    | Some p \<Rightarrow> map_option (\<lambda>ps. p # ps) (decode_path es))"

definition verifyConsistencyPath ::
  "jsnum \<Rightarrow> jsnum \<Rightarrow> string list \<Rightarrow> string \<Rightarrow> string \<Rightarrow> verify_outcome" where
  "verifyConsistencyPath first second consistencyPath firstRootHash secondRootHash =
     (case (wireHashToBuf firstRootHash, wireHashToBuf secondRootHash) of
        (Some firstRoot, Some secondRoot) \<Rightarrow>
          (let m = int_of_num first; n = int_of_num second in
           if \<not> isInteger first \<or> \<not> isInteger second \<or> m < 0 \<or> n < 0 then Inl SizesNotIntegers
           else if m = n then
             (if consistencyPath \<noteq> [] then Inl PathNotEmpty
              else if firstRoot = secondRoot then Inr () else Inl SplitView)
           else if m = 0 \<or> m > n \<or> consistencyPath = [] then Inl BadProofShape
           else (case decode_path consistencyPath of
               None \<Rightarrow> Inl MalformedPathElement
             | Some rawPath \<Rightarrow>
                 (let path = (if isPowerOfTwo m then firstRoot # rawPath else rawPath);
                      (fn, sn) = strip_odd (nat (m - 1)) (nat (n - 1))
                  in consistency_loop fn sn (hd path) (hd path) (tl path) firstRoot secondRoot)))
      | _ \<Rightarrow> Inl MalformedRoots)"

section \<open>Leaf reconstruction and proof responses\<close>

datatype leaf_error = LeafFieldMissing string | LeafNotCanonicalizable

definition leaf_fields :: "string list" where
  "leaf_fields = [''ctx_id'', ''lineage_id'', ''origin_registry'', ''created_at'', ''content_hash'',
                  ''key_fingerprint'']"

definition usable_field :: "jobj \<Rightarrow> string \<Rightarrow> bool" where
  "usable_field receipt f = (case as_string (get_prop receipt f) of Some s \<Rightarrow> s \<noteq> [] | None \<Rightarrow> False)"

definition copied_field :: "jobj \<Rightarrow> string \<Rightarrow> string \<times> json" where
  "copied_field receipt f = (f, case get_prop receipt f of Some v \<Rightarrow> v | None \<Rightarrow> JNull)"

definition buildLogLeaf :: "jcs \<Rightarrow> jobj \<Rightarrow> leaf_error + jobj" where
  "buildLogLeaf jcs receipt =
     (case find (\<lambda>f. \<not> usable_field receipt f) leaf_fields of
        Some f \<Rightarrow> Inl (LeafFieldMissing f)
      | None \<Rightarrow> (case jcs (JObj (omit_key ''signature'' receipt)) of
            None \<Rightarrow> Inl LeafNotCanonicalizable
          | Some canonical \<Rightarrow>
              Inr ([(''leaf_version'', JStr ''acdp-log-leaf/1'')]
                   @ map (copied_field receipt) leaf_fields
                   @ [(''receipt_hash'', JStr (wire_digest (utf8 canonical)))])))"

record inclusion_proof =
  ip_log_id :: string
  ip_leaf_index :: int
  ip_tree_size :: int
  ip_path :: "string list"
  ip_checkpoint :: json

record consistency_proof_msg =
  cq_log_id :: string
  cq_first_tree_size :: int
  cq_second_tree_size :: int
  cq_path :: "string list"
  cq_checkpoint :: json

datatype proof_error =
    ProofNotObject | ProofNoLogId | ProofBadIndex | ProofBadSize | ProofBadPath | ProofNoCheckpoint

fun wire_strings :: "json list \<Rightarrow> string list option" where
  "wire_strings [] = Some []"
| "wire_strings (v # vs) = (case v of
      JStr e \<Rightarrow> if WIRE_HASH_RE e then map_option (\<lambda>es. e # es) (wire_strings vs) else None
    | _ \<Rightarrow> None)"

text \<open>\<open>isWireHashArray\<close>, with the array it accepts.\<close>

definition isWireHashArray :: "json option \<Rightarrow> string list option" where
  "isWireHashArray v = (case v of Some (JArr vs) \<Rightarrow> wire_strings vs | _ \<Rightarrow> None)"

text \<open>\<open>typeof v === 'object'\<close> and not null: an object or an array.\<close>

definition nonnull_object :: "json option \<Rightarrow> json option" where
  "nonnull_object v = (case v of Some (JObj ob) \<Rightarrow> Some (JObj ob) | Some (JArr vs) \<Rightarrow> Some (JArr vs)
     | _ \<Rightarrow> None)"

definition nonneg_int :: "json option \<Rightarrow> int option" where
  "nonneg_int v = (case as_int v of Some i \<Rightarrow> if i < 0 then None else Some i | None \<Rightarrow> None)"

definition parseInclusionProof :: "json \<Rightarrow> proof_error + inclusion_proof" where
  "parseInclusionProof raw = (case raw of
     JObj ob \<Rightarrow>
       (case as_string (get_prop ob ''log_id'') of None \<Rightarrow> Inl ProofNoLogId | Some lid \<Rightarrow>
        case nonneg_int (get_prop ob ''leaf_index'') of None \<Rightarrow> Inl ProofBadIndex | Some i \<Rightarrow>
        case nonneg_int (get_prop ob ''tree_size'') of None \<Rightarrow> Inl ProofBadSize | Some n \<Rightarrow>
        case isWireHashArray (get_prop ob ''inclusion_path'') of None \<Rightarrow> Inl ProofBadPath | Some ps \<Rightarrow>
        case nonnull_object (get_prop ob ''log_checkpoint'') of None \<Rightarrow> Inl ProofNoCheckpoint | Some cp \<Rightarrow>
          Inr \<lparr>ip_log_id = lid, ip_leaf_index = i, ip_tree_size = n, ip_path = ps, ip_checkpoint = cp\<rparr>)
   | _ \<Rightarrow> Inl ProofNotObject)"

definition parseConsistencyProof :: "json \<Rightarrow> proof_error + consistency_proof_msg" where
  "parseConsistencyProof raw = (case raw of
     JObj ob \<Rightarrow>
       (case as_string (get_prop ob ''log_id'') of None \<Rightarrow> Inl ProofNoLogId | Some lid \<Rightarrow>
        case nonneg_int (get_prop ob ''first_tree_size'') of None \<Rightarrow> Inl ProofBadIndex | Some m \<Rightarrow>
        case nonneg_int (get_prop ob ''second_tree_size'') of None \<Rightarrow> Inl ProofBadSize | Some n \<Rightarrow>
        case isWireHashArray (get_prop ob ''consistency_path'') of None \<Rightarrow> Inl ProofBadPath | Some ps \<Rightarrow>
        case nonnull_object (get_prop ob ''log_checkpoint'') of None \<Rightarrow> Inl ProofNoCheckpoint | Some cp \<Rightarrow>
          Inr \<lparr>cq_log_id = lid, cq_first_tree_size = m, cq_second_tree_size = n, cq_path = ps,
               cq_checkpoint = cp\<rparr>)
   | _ \<Rightarrow> Inl ProofNotObject)"

section \<open>Native binding with the host fallback\<close>

text \<open>What a call into the binding does: it throws (with or without a code), or returns a string
  that is a JSON object, or returns something else.\<close>

datatype native_run = Threw "string option" string | Returned jobj | ReturnedNonJson

definition nativeErr :: "string option \<Rightarrow> string \<Rightarrow> string" where
  "nativeErr code msg = (case code of Some c \<Rightarrow> c @ '': '' @ msg | None \<Rightarrow> msg)"

definition nativeVerdict :: "native_run \<Rightarrow> verify_outcome" where
  "nativeVerdict run = (case run of
     Threw code msg \<Rightarrow> Inl (NativeThrew (nativeErr code msg))
   | ReturnedNonJson \<Rightarrow> Inl NativeNotJson
   | Returned parsed \<Rightarrow>
       if get_prop parsed ''valid'' = Some (JBool True) then Inr ()
       else (case as_string (get_prop parsed ''error'') of
           Some e \<Rightarrow> Inl (NativeError e)
         | None \<Rightarrow> Inl NativeFailed))"

record closed_inclusion_proof =
  ci_log_id :: string
  ci_leaf_index :: int
  ci_tree_size :: int
  ci_path :: "string list"

record closed_consistency_proof =
  cc_log_id :: string
  cc_first_tree_size :: int
  cc_second_tree_size :: int
  cc_path :: "string list"

definition toClosedInclusionProof :: "inclusion_proof \<Rightarrow> closed_inclusion_proof" where
  "toClosedInclusionProof p =
     \<lparr>ci_log_id = ip_log_id p, ci_leaf_index = ip_leaf_index p, ci_tree_size = ip_tree_size p,
      ci_path = ip_path p\<rparr>"

definition toClosedConsistencyProof :: "consistency_proof_msg \<Rightarrow> closed_consistency_proof" where
  "toClosedConsistencyProof p =
     \<lparr>cc_log_id = cq_log_id p, cc_first_tree_size = cq_first_tree_size p,
      cc_second_tree_size = cq_second_tree_size p, cc_path = cq_path p\<rparr>"

text \<open>The log surface of the binding: which methods exist at run time, and the two folds.\<close>

record log_surface =
  has_verifyLogCheckpoint :: bool
  has_verifyLogInclusion :: bool
  has_verifyLogConsistency :: bool
  has_buildLogLeaf :: bool
  verifyLogInclusion :: "closed_inclusion_proof \<Rightarrow> jobj \<Rightarrow> jobj \<Rightarrow> native_run"
  verifyLogConsistency :: "closed_consistency_proof \<Rightarrow> jobj \<Rightarrow> string \<Rightarrow> native_run"

definition sdkHasLogSurface :: "log_surface \<Rightarrow> bool" where
  "sdkHasLogSurface B = (has_verifyLogCheckpoint B \<and> has_verifyLogInclusion B
     \<and> has_verifyLogConsistency B \<and> has_buildLogLeaf B)"

definition nativeVerifyInclusion ::
  "log_surface \<Rightarrow> inclusion_proof \<Rightarrow> log_checkpoint \<Rightarrow> jobj \<Rightarrow> verify_outcome" where
  "nativeVerifyInclusion B p cp leaf =
     nativeVerdict (verifyLogInclusion B (toClosedInclusionProof p) (cp_raw cp) leaf)"

definition tsVerifyInclusion ::
  "jcs \<Rightarrow> inclusion_proof \<Rightarrow> log_checkpoint \<Rightarrow> jobj \<Rightarrow> verify_outcome" where
  "tsVerifyInclusion jcs p cp leaf = (case leafHash jcs leaf of
     None \<Rightarrow> Inl NotCanonicalizable
   | Some leafH \<Rightarrow> verifyInclusionPath (num_of_int (ip_leaf_index p)) (num_of_int (ip_tree_size p))
       leafH (ip_path p) (cp_root_hash cp))"

definition verifyInclusion ::
  "log_surface \<Rightarrow> jcs \<Rightarrow> inclusion_proof \<Rightarrow> log_checkpoint \<Rightarrow> jobj \<Rightarrow> verify_outcome" where
  "verifyInclusion B jcs p cp leaf =
     (if sdkHasLogSurface B then nativeVerifyInclusion B p cp leaf
      else tsVerifyInclusion jcs p cp leaf)"

definition nativeVerifyConsistency ::
  "log_surface \<Rightarrow> consistency_proof_msg \<Rightarrow> log_checkpoint \<Rightarrow> string \<Rightarrow> verify_outcome" where
  "nativeVerifyConsistency B p cp firstRootHash =
     nativeVerdict (verifyLogConsistency B (toClosedConsistencyProof p) (cp_raw cp) firstRootHash)"

definition tsVerifyConsistency ::
  "consistency_proof_msg \<Rightarrow> log_checkpoint \<Rightarrow> string \<Rightarrow> verify_outcome" where
  "tsVerifyConsistency p cp firstRootHash =
     verifyConsistencyPath (num_of_int (cq_first_tree_size p)) (num_of_int (cq_second_tree_size p))
       (cq_path p) firstRootHash (cp_root_hash cp)"

definition verifyConsistency ::
  "log_surface \<Rightarrow> consistency_proof_msg \<Rightarrow> log_checkpoint \<Rightarrow> string \<Rightarrow> verify_outcome" where
  "verifyConsistency B p cp firstRootHash =
     (if sdkHasLogSurface B then nativeVerifyConsistency B p cp firstRootHash
      else tsVerifyConsistency p cp firstRootHash)"

section \<open>Wire hashes\<close>

definition wire_hash :: "bytes \<Rightarrow> string" where
  "wire_hash b = WIRE_HASH_PREFIX @ hex_of_bytes b"

lemma wireHashToBuf_wire [simp]: "length b = 32 \<Longrightarrow> wireHashToBuf (wire_hash b) = Some b"
  by (simp add: wireHashToBuf_def WIRE_HASH_RE_def wire_hash_def WIRE_HASH_PREFIX_def starts_with_def)

lemma wireHashToBuf_SomeD:
  assumes "wireHashToBuf w = Some b"
  shows "length b = 32" "w = wire_hash b"
proof -
  from assms have re: "starts_with WIRE_HASH_PREFIX w" "length w = 71" "all_in hex_digits (drop 7 w)"
    and b: "b = bytes_of_hex (drop 7 w)"
    by (auto simp: wireHashToBuf_def WIRE_HASH_RE_def split: if_splits)
  from re(2) b show "length b = 32" by simp
  have "hex_of_bytes b = drop 7 w" using re b by (simp add: hex_of_bytes_of_hex)
  moreover have "length WIRE_HASH_PREFIX = 7" by (simp add: WIRE_HASH_PREFIX_def)
  with starts_withD [OF re(1)] have "w = WIRE_HASH_PREFIX @ drop 7 w" by simp
  ultimately show "w = wire_hash b" by (simp add: wire_hash_def)
qed

lemma decode_path_wire [simp]:
  "\<forall>p \<in> set ps. length p = 32 \<Longrightarrow> decode_path (map wire_hash ps) = Some ps"
  by (induction ps) auto

lemma decode_path_SomeD:
  "decode_path es = Some ps \<Longrightarrow> es = map wire_hash ps \<and> (\<forall>p \<in> set ps. length p = 32)"
  by (induction es arbitrary: ps) (auto split: option.splits dest: wireHashToBuf_SomeD)

section \<open>The loops as level folds\<close>

text \<open>The byte strings the two loops hash.\<close>

fun inclusion_hashed :: "nat \<Rightarrow> nat \<Rightarrow> bytes \<Rightarrow> bytes list \<Rightarrow> bytes set" where
  "inclusion_hashed fn sn r [] = {}"
| "inclusion_hashed fn sn r (p # ps) =
     (if sn = 0 then {}
      else if odd fn \<or> fn = sn then
        (let (f, s) = (if even fn then strip_even fn sn else (fn, sn))
         in insert (0x01 # p @ r) (inclusion_hashed (f div 2) (s div 2) (nodeHash p r) ps))
      else insert (0x01 # r @ p) (inclusion_hashed (fn div 2) (sn div 2) (nodeHash r p) ps))"

fun consistency_hashed :: "nat \<Rightarrow> nat \<Rightarrow> bytes \<Rightarrow> bytes \<Rightarrow> bytes list \<Rightarrow> bytes set" where
  "consistency_hashed fn sn fr sr [] = {}"
| "consistency_hashed fn sn fr sr (c # cs) =
     (if sn = 0 then {}
      else if odd fn \<or> fn = sn then
        (let (f, s) = (if even fn then strip_even fn sn else (fn, sn))
         in {0x01 # c @ fr, 0x01 # c @ sr} \<union>
              consistency_hashed (f div 2) (s div 2) (nodeHash c fr) (nodeHash c sr) cs)
      else insert (0x01 # sr @ c) (consistency_hashed (fn div 2) (sn div 2) fr (nodeHash sr c) cs))"

lemma strip_even_same: "0 < n \<Longrightarrow> \<exists>f. strip_even n n = (f, f) \<and> odd f"
proof (induction n rule: less_induct)
  case (less n)
  show ?case
  proof (cases "even n")
    case True
    with less.prems have "0 < n div 2" "n div 2 < n" by (auto elim!: evenE)
    then obtain f where "strip_even (n div 2) (n div 2) = (f, f)" "odd f" using less.IH by blast
    with True less.prems show ?thesis by (auto simp: strip_even.simps [of n n])
  qed (simp add: strip_even.simps)
qed

lemma strip_even_invariant:
  assumes step: "\<And>k. 0 < k \<Longrightarrow> even k \<Longrightarrow> P k = P (k div 2)"
  shows "0 < n \<Longrightarrow> strip_even n n = (f, f) \<Longrightarrow> P n = P f"
proof (induction n rule: less_induct)
  case (less n)
  show ?case
  proof (cases "even n")
    case True
    with less.prems have h: "0 < n div 2" "n div 2 < n" by (auto elim!: evenE)
    have "strip_even (n div 2) (n div 2) = (f, f)"
      using less.prems True by (simp add: strip_even.simps [of n n])
    with less.IH [OF h(2,1)] step True less.prems show ?thesis by simp
  next
    case False
    with less.prems show ?thesis by (simp add: strip_even.simps [of n n])
  qed
qed

lemma lvl_fold_strip: "0 < n \<Longrightarrow> strip_even n n = (f, f) \<Longrightarrow> lvl_fold n n r ps = lvl_fold f f r ps"
  by (rule strip_even_invariant) (simp add: lvl_fold.simps)

lemma lvl_inputs_strip: "0 < n \<Longrightarrow> strip_even n n = (f, f) \<Longrightarrow> lvl_inputs n n r ps = lvl_inputs f f r ps"
  by (rule strip_even_invariant) (simp add: lvl_inputs.simps)

lemma lvl_cons_strip:
  "0 < n \<Longrightarrow> strip_even n n = (f, f) \<Longrightarrow> lvl_cons n n fr sr ps = lvl_cons f f fr sr ps"
  by (rule strip_even_invariant) (simp add: lvl_cons.simps)

lemma cons_inputs_strip:
  "0 < n \<Longrightarrow> strip_even n n = (f, f) \<Longrightarrow> cons_inputs n n fr sr ps = cons_inputs f f fr sr ps"
  by (rule strip_even_invariant) (simp add: cons_inputs.simps)

lemma lvl_fold_Nil: "0 < sn \<Longrightarrow> lvl_fold fn sn r [] = None"
proof (induction sn arbitrary: fn rule: less_induct)
  case (less sn)
  show ?case
  proof (cases "even fn \<and> fn = sn")
    case True
    with less.prems have "0 < sn div 2" "sn div 2 < sn" by (auto elim!: evenE)
    with True less.IH [of "sn div 2" "sn div 2"] less.prems show ?thesis
      by (auto simp: lvl_fold.simps [of sn sn])
  next
    case False
    with less.prems show ?thesis by (auto simp: lvl_fold.simps [of fn sn])
  qed
qed

lemma lvl_inputs_Nil: "lvl_inputs fn sn r [] = {}"
  by (induction sn arbitrary: fn rule: less_induct) (subst lvl_inputs.simps, auto)

text \<open>One turn of the loop body against the level fold.\<close>

lemma lvl_fold_turn:
  assumes "0 < sn" "fn \<le> sn"
  shows "lvl_fold fn sn r (p # ps) =
    (if odd fn \<or> fn = sn
     then (let (f, s) = (if even fn then strip_even fn sn else (fn, sn))
           in lvl_fold (f div 2) (s div 2) (nodeHash p r) ps)
     else lvl_fold (fn div 2) (sn div 2) (nodeHash r p) ps)"
proof (cases "even fn \<and> fn = sn")
  case True
  with assms obtain f where f: "strip_even sn sn = (f, f)" "odd f" using strip_even_same by blast
  then have "0 < f" by (simp add: odd_pos)
  with f True assms lvl_fold_strip [OF assms(1) f(1), of r "p # ps"] show ?thesis
    by (auto simp: lvl_fold.simps [of f f])
next
  case False
  with assms show ?thesis by (auto simp: lvl_fold.simps [of fn sn])
qed

lemma lvl_inputs_turn:
  assumes "0 < sn" "fn \<le> sn"
  shows "lvl_inputs fn sn r (p # ps) =
    (if odd fn \<or> fn = sn
     then (let (f, s) = (if even fn then strip_even fn sn else (fn, sn))
           in insert (0x01 # p @ r) (lvl_inputs (f div 2) (s div 2) (nodeHash p r) ps))
     else insert (0x01 # r @ p) (lvl_inputs (fn div 2) (sn div 2) (nodeHash r p) ps))"
proof (cases "even fn \<and> fn = sn")
  case True
  with assms obtain f where f: "strip_even sn sn = (f, f)" "odd f" using strip_even_same by blast
  then have "0 < f" by (simp add: odd_pos)
  with f True assms lvl_inputs_strip [OF assms(1) f(1), of r "p # ps"] show ?thesis
    by (auto simp: lvl_inputs.simps [of f f])
next
  case False
  with assms show ?thesis by (auto simp: lvl_inputs.simps [of fn sn])
qed

lemma strip_even_le: "fn \<le> sn \<Longrightarrow> fst (strip_even fn sn) \<le> snd (strip_even fn sn)"
proof (induction fn sn rule: strip_even.induct)
  case (1 fn sn)
  then show ?case by (subst (1 2) strip_even.simps) (auto intro: div_le_mono)
qed

lemma inclusion_loop_lvl:
  "fn \<le> sn \<Longrightarrow> \<forall>p \<in> set ps. length p = 32 \<Longrightarrow>
   inclusion_loop fn sn r (map wire_hash ps) R = Inr () \<longleftrightarrow> lvl_fold fn sn r ps = Some R"
proof (induction ps arbitrary: fn sn r)
  case Nil
  then show ?case by (cases "sn = 0") (auto simp: lvl_fold_Nil lvl_fold.simps [of 0 0])
next
  case (Cons p ps)
  show ?case
  proof (cases "sn = 0")
    case True
    with Cons.prems show ?thesis by (simp add: lvl_fold.simps [of 0 0])
  next
    case False
    then have pos: "0 < sn" by simp
    define fs where "fs = (if even fn then strip_even fn sn else (fn, sn))"
    have "fst fs div 2 \<le> snd fs div 2"
      using Cons.prems(1) strip_even_le [of fn sn] by (auto simp: fs_def intro: div_le_mono)
    with False Cons show ?thesis
      by (auto simp: lvl_fold_turn [OF pos Cons.prems(1)] fs_def [symmetric] div_le_mono Let_def
          split: prod.splits)
  qed
qed

lemma inclusion_hashed_lvl: "fn \<le> sn \<Longrightarrow> inclusion_hashed fn sn r ps = lvl_inputs fn sn r ps"
proof (induction ps arbitrary: fn sn r)
  case Nil
  show ?case by (simp add: lvl_inputs_Nil)
next
  case (Cons p ps)
  show ?case
  proof (cases "sn = 0")
    case True
    then show ?thesis by (simp add: lvl_inputs.simps [of fn 0])
  next
    case False
    then have pos: "0 < sn" by simp
    define fs where "fs = (if even fn then strip_even fn sn else (fn, sn))"
    have "fst fs div 2 \<le> snd fs div 2"
      using Cons.prems(1) strip_even_le [of fn sn] by (auto simp: fs_def intro: div_le_mono)
    with False Cons show ?thesis
      by (auto simp: lvl_inputs_turn [OF pos Cons.prems(1)] fs_def [symmetric] div_le_mono Let_def
          split: prod.splits)
  qed
qed

lemma inclusion_loop_wire:
  "inclusion_loop fn sn r es R = Inr () \<Longrightarrow> \<exists>ps. es = map wire_hash ps \<and> (\<forall>p \<in> set ps. length p = 32)"
proof (induction es arbitrary: fn sn r)
  case (Cons e es)
  then obtain p where p: "wireHashToBuf e = Some p" by (cases "wireHashToBuf e") auto
  with Cons.prems have "\<exists>fn' sn' r'. inclusion_loop fn' sn' r' es R = Inr ()"
    by (auto simp: Let_def split: if_splits prod.splits)
  with Cons.IH obtain ps where "es = map wire_hash ps" "\<forall>p \<in> set ps. length p = 32" by blast
  with wireHashToBuf_SomeD [OF p] show ?case by (intro exI [of _ "p # ps"]) auto
qed simp

lemma lvl_cons_Nil: "0 < sn \<Longrightarrow> lvl_cons fn sn fr sr [] = None"
proof (induction sn arbitrary: fn rule: less_induct)
  case (less sn)
  show ?case
  proof (cases "even fn \<and> fn = sn")
    case True
    with less.prems have "0 < sn div 2" "sn div 2 < sn" by (auto elim!: evenE)
    with True less.IH [of "sn div 2" "sn div 2"] less.prems show ?thesis
      by (auto simp: lvl_cons.simps [of sn sn])
  next
    case False
    with less.prems show ?thesis by (auto simp: lvl_cons.simps [of fn sn])
  qed
qed

lemma cons_inputs_Nil: "cons_inputs fn sn fr sr [] = {}"
  by (induction sn arbitrary: fn rule: less_induct) (subst cons_inputs.simps, auto)

lemma lvl_cons_turn:
  assumes "0 < sn" "fn \<le> sn"
  shows "lvl_cons fn sn fr sr (c # cs) =
    (if odd fn \<or> fn = sn
     then (let (f, s) = (if even fn then strip_even fn sn else (fn, sn))
           in lvl_cons (f div 2) (s div 2) (nodeHash c fr) (nodeHash c sr) cs)
     else lvl_cons (fn div 2) (sn div 2) fr (nodeHash sr c) cs)"
proof (cases "even fn \<and> fn = sn")
  case True
  with assms obtain f where f: "strip_even sn sn = (f, f)" "odd f" using strip_even_same by blast
  then have "0 < f" by (simp add: odd_pos)
  with f True assms lvl_cons_strip [OF assms(1) f(1), of fr sr "c # cs"] show ?thesis
    by (auto simp: lvl_cons.simps [of f f])
next
  case False
  with assms show ?thesis by (auto simp: lvl_cons.simps [of fn sn])
qed

lemma cons_inputs_turn:
  assumes "0 < sn" "fn \<le> sn"
  shows "cons_inputs fn sn fr sr (c # cs) =
    (if odd fn \<or> fn = sn
     then (let (f, s) = (if even fn then strip_even fn sn else (fn, sn))
           in {0x01 # c @ fr, 0x01 # c @ sr} \<union>
                cons_inputs (f div 2) (s div 2) (nodeHash c fr) (nodeHash c sr) cs)
     else insert (0x01 # sr @ c) (cons_inputs (fn div 2) (sn div 2) fr (nodeHash sr c) cs))"
proof (cases "even fn \<and> fn = sn")
  case True
  with assms obtain f where f: "strip_even sn sn = (f, f)" "odd f" using strip_even_same by blast
  then have "0 < f" by (simp add: odd_pos)
  with f True assms cons_inputs_strip [OF assms(1) f(1), of fr sr "c # cs"] show ?thesis
    by (auto simp: cons_inputs.simps [of f f])
next
  case False
  with assms show ?thesis by (auto simp: cons_inputs.simps [of fn sn])
qed

lemma consistency_loop_lvl:
  "fn \<le> sn \<Longrightarrow>
   consistency_loop fn sn fr sr cs R1 R2 = Inr () \<longleftrightarrow> lvl_cons fn sn fr sr cs = Some (R1, R2)"
proof (induction cs arbitrary: fn sn fr sr)
  case Nil
  then show ?case by (cases "sn = 0") (auto simp: lvl_cons_Nil lvl_cons.simps [of 0 0])
next
  case (Cons c cs)
  show ?case
  proof (cases "sn = 0")
    case True
    with Cons.prems show ?thesis by (simp add: lvl_cons.simps [of 0 0])
  next
    case False
    then have pos: "0 < sn" by simp
    define fs where "fs = (if even fn then strip_even fn sn else (fn, sn))"
    have "fst fs div 2 \<le> snd fs div 2"
      using Cons.prems(1) strip_even_le [of fn sn] by (auto simp: fs_def intro: div_le_mono)
    with False Cons show ?thesis
      by (auto simp: lvl_cons_turn [OF pos Cons.prems(1)] fs_def [symmetric] div_le_mono Let_def
          split: prod.splits)
  qed
qed

lemma consistency_hashed_lvl:
  "fn \<le> sn \<Longrightarrow> consistency_hashed fn sn fr sr cs = cons_inputs fn sn fr sr cs"
proof (induction cs arbitrary: fn sn fr sr)
  case Nil
  show ?case by (simp add: cons_inputs_Nil)
next
  case (Cons c cs)
  show ?case
  proof (cases "sn = 0")
    case True
    then show ?thesis by (simp add: cons_inputs.simps [of fn 0])
  next
    case False
    then have pos: "0 < sn" by simp
    define fs where "fs = (if even fn then strip_even fn sn else (fn, sn))"
    have "fst fs div 2 \<le> snd fs div 2"
      using Cons.prems(1) strip_even_le [of fn sn] by (auto simp: fs_def intro: div_le_mono)
    with False Cons show ?thesis
      by (auto simp: cons_inputs_turn [OF pos Cons.prems(1)] fs_def [symmetric] div_le_mono Let_def
          split: prod.splits)
  qed
qed

section \<open>Powers of two\<close>

lemma and_pred_zero: "0 < n \<Longrightarrow> n AND (n - 1) = 0 \<longleftrightarrow> (\<exists>k. n = 2 ^ k)" for n :: int
proof (induction "nat n" arbitrary: n rule: less_induct)
  case less
  show ?case
  proof (cases "even n")
    case True
    then obtain m where m: "n = 2 * m" by (elim evenE)
    with less.prems have pos: "0 < m" "nat m < nat n" by auto
    have "(2 * m - 1) div 2 = m - 1" by presburger
    then have "n AND (n - 1) = 2 * (m AND (m - 1))"
      by (subst and_int_rec) (simp add: m)
    then have "n AND (n - 1) = 0 \<longleftrightarrow> (\<exists>k. m = 2 ^ k)" using less.hyps [OF pos(2,1)] by simp
    also have "\<dots> \<longleftrightarrow> (\<exists>k. n = 2 ^ k)"
    proof
      assume "\<exists>k. m = 2 ^ k" then show "\<exists>k. n = 2 ^ k" using m by (metis power_Suc)
    next
      assume "\<exists>k. n = 2 ^ k"
      then obtain k where "n = 2 ^ k" by blast
      with m show "\<exists>k. m = 2 ^ k" by (cases k) (auto, presburger)
    qed
    finally show ?thesis .
  next
    case False
    then obtain m where m: "n = 2 * m + 1" by (elim oddE)
    have "n AND (n - 1) = 2 * (m AND m)" by (subst and_int_rec) (simp add: m)
    then have "n AND (n - 1) = 0 \<longleftrightarrow> n = 1" by (simp add: m)
    moreover have "(\<exists>k. n = 2 ^ k) \<longleftrightarrow> n = 1"
    proof
      assume "\<exists>k. n = 2 ^ k"
      then obtain k where "n = 2 ^ k" by blast
      with False show "n = 1" by (cases k) auto
    next
      assume "n = 1" then show "\<exists>k. n = 2 ^ k" by (intro exI [of _ 0]) simp
    qed
    ultimately show ?thesis by simp
  qed
qed

lemma uint_small: "0 \<le> k \<Longrightarrow> k < 2 ^ 32 \<Longrightarrow> uint (word_of_int k :: 32 word) = k"
  by (simp add: unsigned_of_int take_bit_int_eq_self)

lemma isPowerOfTwo_iff:
  assumes "0 < n" "n \<le> 2 ^ 32"
  shows "isPowerOfTwo n \<longleftrightarrow> (\<exists>k. n = 2 ^ k)"
proof (cases "n = 2 ^ 32")
  case True
  then show ?thesis by (auto simp: isPowerOfTwo_def intro!: exI [of _ 32])
next
  case False
  with assms have n: "n < 2 ^ 32" by simp
  have "uint ((word_of_int n :: 32 word) AND word_of_int (n - 1)) = n AND (n - 1)"
    using assms n uint_small [of n] uint_small [of "n - 1"] by (simp only: unsigned_and_eq)
  then have "(word_of_int n :: 32 word) AND word_of_int (n - 1) = 0 \<longleftrightarrow> n AND (n - 1) = 0"
    by (metis uint_0_iff)
  with assms(1) and_pred_zero [OF assms(1)] show ?thesis by (simp add: isPowerOfTwo_def)
qed

section \<open>Proof shapes\<close>

lemma length_mth: "\<forall>h \<in> set hs. length h = 32 \<Longrightarrow> length (mth hs) = 32"
  by (subst mth.simps) (simp add: hd_in_set)

lemma audit_path_lengths:
  "\<forall>h \<in> set hs. length h = 32 \<Longrightarrow> p \<in> set (audit_path m hs) \<Longrightarrow> length p = 32"
proof (induction "length hs" arbitrary: m hs rule: less_induct)
  case less
  define k where "k = split_point (length hs)"
  show ?case
  proof (cases "length hs \<le> 1")
    case False
    then have len: "2 \<le> length hs" by simp
    have k: "0 < k" "k < length hs" using len split_point_less by (simp_all add: k_def)
    have sub: "\<forall>h \<in> set (take k hs). length h = 32" "\<forall>h \<in> set (drop k hs). length h = 32"
      using less.prems(1) by (auto dest: in_set_takeD in_set_dropD)
    show ?thesis
    proof (cases "m < k")
      case True
      with less.prems(2) have "p \<in> set (audit_path m (take k hs)) \<or> p = mth (drop k hs)"
        by (auto simp: audit_path_split(1) [OF len k_def])
      with less.hyps [of "take k hs"] sub k length_mth [of "drop k hs"] show ?thesis by auto
    next
      case False
      with less.prems(2) have "p \<in> set (audit_path (m - k) (drop k hs)) \<or> p = mth (take k hs)"
        by (auto simp: audit_path_split(2) [OF len k_def])
      with less.hyps [of "drop k hs"] sub k length_mth [of "take k hs"] show ?thesis by auto
    qed
  qed (use less.prems in simp)
qed

lemma audit_path_nonempty: "2 \<le> length hs \<Longrightarrow> audit_path m hs \<noteq> []"
  using audit_path_split [of hs _ m] by (cases "m < split_point (length hs)") auto

text \<open>Shifting both indices past the trailing ones is moving both trees up their full levels.\<close>

lemma strip_levels:
  assumes "strip_odd (m - 1) (length new - 1) = (fn, sn)" "0 < m" "m < length new"
    and "\<forall>h \<in> set new. length h = 32"
  shows "\<exists>new' t. length new' = sn + 1 \<and> fn < sn \<and> even fn \<and> m = (fn + 1) * 2 ^ t
    \<and> (\<forall>h \<in> set new'. length h = 32) \<and> mth new' = mth new \<and> mth (take (fn + 1) new') = mth (take m new)
    \<and> (\<forall>b. subproof m new b = subproof (fn + 1) new' b)"
  using assms
proof (induction m arbitrary: new rule: less_induct)
  case (less m)
  show ?case
  proof (cases "odd m")
    case True
    then have "even (m - 1)" by simp
    with less.prems have "fn = m - 1" "sn = length new - 1" by (auto simp: strip_odd.simps [of "m - Suc 0"])
    with less.prems True show ?thesis by (intro exI [of _ new] exI [of _ 0]) auto
  next
    case False
    with less.prems(2) obtain k where k: "m = 2 * k" "0 < k" by (auto elim!: evenE)
    have idx: "(m - 1) div 2 = k - 1" "(length new - 1) div 2 = length (pair_up new) - 1"
      using k less.prems(3) by (cases k; auto)+
    have odd: "odd (m - 1)" using k by simp
    have st: "strip_odd (k - 1) (length (pair_up new) - 1) = (fn, sn)"
      using less.prems(1) strip_odd.simps [of "m - 1" "length new - 1"] odd idx by simp
    have "k < length (pair_up new)" using k less.prems(3) by simp
    then obtain new' t where *: "length new' = sn + 1" "fn < sn" "even fn" "k = (fn + 1) * 2 ^ t"
      "\<forall>h \<in> set new'. length h = 32" "mth new' = mth (pair_up new)"
      "mth (take (fn + 1) new') = mth (take k (pair_up new))"
      "\<forall>b. subproof k (pair_up new) b = subproof (fn + 1) new' b"
      using less.IH [of k "pair_up new"] k st less.prems(4) pair_up_hash_length by auto
    have "mth (pair_up new) = mth new" using less.prems(3) by (intro mth_pair_up) auto
    moreover have "take k (pair_up new) = pair_up (take m new)"
      using take_pair_up(1) [of m new] k less.prems(3) by simp
    moreover have "take m new \<noteq> []" using k less.prems(3) by auto
    ultimately have "mth (pair_up new) = mth new" "mth (take k (pair_up new)) = mth (take m new)"
      using mth_pair_up [of "take m new"] by simp_all
    moreover have "subproof m new b = subproof k (pair_up new) b" for b
      using subproof_even [of m new b] k less.prems(3) by simp
    moreover have "m = (fn + 1) * 2 ^ Suc t" using k *(4) by simp
    ultimately show ?thesis using * by (intro exI [of _ new'] exI [of _ "Suc t"]) auto
  qed
qed

lemma odd_times_power:
  assumes "odd a" "a * 2 ^ t = 2 ^ k" shows "a = (1::nat)"
proof -
  have "a dvd 2 ^ k" using assms(2) by (metis dvd_triv_left)
  moreover have "coprime a (2 ^ k)" using assms(1) by simp
  ultimately show ?thesis using coprime_common_divisor_nat by (metis dvd_refl nat_dvd_1_iff_1)
qed

lemma strip_zero_iff_power:
  assumes "even fn" "m = (fn + 1) * 2 ^ t" "m \<le> 2 ^ 32"
  shows "isPowerOfTwo (int m) \<longleftrightarrow> fn = 0"
proof -
  have "0 < m" using assms(2) by simp
  then have "0 < int m" by simp
  moreover have "int m \<le> 2 ^ 32"
  proof -
    have "int m \<le> int (2 ^ 32)" using assms(3) by (rule zle_int [THEN iffD2])
    then show ?thesis by simp
  qed
  ultimately have "isPowerOfTwo (int m) \<longleftrightarrow> (\<exists>k. int m = 2 ^ k)" by (rule isPowerOfTwo_iff)
  also have "\<dots> \<longleftrightarrow> (\<exists>k. m = 2 ^ k)" by (metis of_nat_eq_iff of_nat_numeral of_nat_power)
  also have "\<dots> \<longleftrightarrow> fn = 0" using odd_times_power [of "fn + 1" t] assms by force
  finally show ?thesis .
qed

text \<open>Equal roots over lists of the same size are roots of the same leaves.\<close>

lemma mth_inject:
  "length old = length new \<Longrightarrow> mth old = mth new \<Longrightarrow> old \<noteq> [] \<Longrightarrow>
   \<forall>h \<in> set old \<union> set new. length h = 32 \<Longrightarrow>
   inj_on sha256 (mth_inputs old \<union> mth_inputs new) \<Longrightarrow> old = new"
proof (induction "length new" arbitrary: old new rule: less_induct)
  case less
  show ?case
  proof (cases "length new \<le> 1")
    case True
    with less.prems(1,3) have "length old = 1" "length new = 1" by (cases old; auto)+
    then obtain a b where "old = [a]" "new = [b]" using list_len1 by metis
    with less.prems(2) show ?thesis by simp
  next
    case False
    let ?S = "mth_inputs old \<union> mth_inputs new"
    have "new \<noteq> []" using False by auto
    have len: "\<forall>h \<in> set (pair_up old) \<union> set (pair_up new). length h = 32"
      using less.prems(4) pair_up_hash_length [of old] pair_up_hash_length [of new] by blast
    have sub: "mth_inputs (pair_up old) \<union> mth_inputs (pair_up new) \<subseteq> ?S"
      using mth_inputs_up [of old] mth_inputs_up [of new] by blast
    have eq: "pair_up old = pair_up new"
    proof (rule less.hyps)
      show "length (pair_up new) < length new" using False by simp
      show "mth (pair_up old) = mth (pair_up new)"
        using less.prems(2,3) \<open>new \<noteq> []\<close> by (simp add: mth_pair_up)
      show "inj_on sha256 (mth_inputs (pair_up old) \<union> mth_inputs (pair_up new))"
        using less.prems(5) sub by (rule inj_on_subset)
    qed (use less.prems(1,3) len in auto)
    define k where "k = length new div 2"
    have all: "\<forall>i < 2 * k. old ! i = new ! i"
      using less.prems(1,4) eq by (intro pairs_agree [OF less.prems(5)]) (auto simp: k_def)
    have "old ! i = new ! i" if i: "i < length new" for i
    proof (cases "i < 2 * k")
      case False
      then have "length new = 2 * k + 1" "i = 2 * k" using i by (auto simp: k_def)
      with pair_up_last [of new k] pair_up_last [of old k] eq less.prems(1) show ?thesis by simp
    qed (use all in simp)
    with less.prems(1) show ?thesis by (simp add: list_eq_iff_nth_eq)
  qed
qed

text \<open>Going down the full levels again: agreement of the stripped trees is agreement of the leaves.\<close>

lemma strip_levels_back:
  assumes "strip_odd (m - 1) (length new - 1) = (fn, sn)" "0 < m" "length old = m" "m < length new"
    and "\<forall>h \<in> set old \<union> set new. length h = 32" "inj_on sha256 S" "mth_inputs old \<union> mth_inputs new \<subseteq> S"
  shows "\<exists>old' new'. length old' = fn + 1 \<and> length new' = sn + 1 \<and> fn \<le> sn
    \<and> (\<forall>h \<in> set old' \<union> set new'. length h = 32) \<and> mth_inputs old' \<union> mth_inputs new' \<subseteq> S
    \<and> mth old' = mth old \<and> mth new' = mth new
    \<and> ((\<forall>i < fn + 1. old' ! i = new' ! i) \<longrightarrow> (\<forall>i < m. old ! i = new ! i))"
  using assms
proof (induction m arbitrary: old new rule: less_induct)
  case (less m)
  show ?case
  proof (cases "odd m")
    case True
    then have "even (m - 1)" by simp
    with less.prems have "fn = m - 1" "sn = length new - 1"
      by (auto simp: strip_odd.simps [of "m - Suc 0"])
    with less.prems True show ?thesis by (intro exI [of _ old] exI [of _ new]) auto
  next
    case False
    with less.prems(2) obtain k where k: "m = 2 * k" "0 < k" by (auto elim!: evenE)
    have idx: "(m - 1) div 2 = k - 1" "(length new - 1) div 2 = length (pair_up new) - 1"
      using k less.prems(4) by (cases k; auto)+
    have odd: "odd (m - 1)" using k by simp
    have st: "strip_odd (k - 1) (length (pair_up new) - 1) = (fn, sn)"
      using less.prems(1) strip_odd.simps [of "m - 1" "length new - 1"] odd idx by simp
    have lens: "length (pair_up old) = k" "k < length (pair_up new)" using k less.prems(3,4) by auto
    have h32: "\<forall>h \<in> set (pair_up old) \<union> set (pair_up new). length h = 32"
      using less.prems(5) pair_up_hash_length [of old] pair_up_hash_length [of new] by blast
    have sub: "mth_inputs (pair_up old) \<union> mth_inputs (pair_up new) \<subseteq> S"
      using mth_inputs_up [of old] mth_inputs_up [of new] less.prems(7) by blast
    have "k < m" using k by simp
    from less.IH [OF this st k(2) lens h32 less.prems(6) sub]
    obtain old' new' where *: "length old' = fn + 1" "length new' = sn + 1" "fn \<le> sn"
      "\<forall>h \<in> set old' \<union> set new'. length h = 32" "mth_inputs old' \<union> mth_inputs new' \<subseteq> S"
      "mth old' = mth (pair_up old)" "mth new' = mth (pair_up new)"
      "(\<forall>i < fn + 1. old' ! i = new' ! i) \<longrightarrow> (\<forall>i < k. pair_up old ! i = pair_up new ! i)"
      by blast
    have "(\<forall>i < k. pair_up old ! i = pair_up new ! i) \<longrightarrow> (\<forall>i < m. old ! i = new ! i)"
      using pairs_agree [OF less.prems(6,7,5), of k] k less.prems(3,4) by auto
    moreover have "mth (pair_up old) = mth old" "mth (pair_up new) = mth new"
      using less.prems(2-4) by (intro mth_pair_up; auto)+
    ultimately show ?thesis using * by (intro exI [of _ old'] exI [of _ new']) auto
  qed
qed

section \<open>Completeness and soundness of the verifier\<close>

definition path_bytes :: "string list \<Rightarrow> bytes list" where
  "path_bytes es = (case decode_path es of Some ps \<Rightarrow> ps | None \<Rightarrow> [])"

lemma path_bytes_wire [simp]: "\<forall>p \<in> set ps. length p = 32 \<Longrightarrow> path_bytes (map wire_hash ps) = ps"
  by (simp add: path_bytes_def)

text \<open>The byte strings hashed by one run of the inclusion, respectively consistency, verifier.\<close>

definition inclusion_run_inputs :: "nat \<Rightarrow> nat \<Rightarrow> bytes \<Rightarrow> string list \<Rightarrow> bytes set" where
  "inclusion_run_inputs m n leaf es = inclusion_hashed m (n - 1) leaf (path_bytes es)"

definition consistency_run_inputs :: "nat \<Rightarrow> nat \<Rightarrow> string list \<Rightarrow> bytes \<Rightarrow> bytes set" where
  "consistency_run_inputs m n es firstRoot =
     (let path = (if isPowerOfTwo (int m) then firstRoot # path_bytes es else path_bytes es);
          (fn, sn) = strip_odd (m - 1) (n - 1)
      in consistency_hashed fn sn (hd path) (hd path) (tl path))"

lemma inclusion_path_loop:
  assumes "m < length hs" "\<forall>h \<in> set hs. length h = 32"
  shows "verifyInclusionPath (num_of_int (int m)) (num_of_int (int (length hs))) leaf es (wire_hash (mth hs))
    = inclusion_loop m (length hs - 1) leaf es (mth hs)"
proof -
  have "nat (int (length hs) - 1) = length hs - 1" by simp
  with assms show ?thesis by (simp add: verifyInclusionPath_def length_mth)
qed

lemma inclusion_complete:
  assumes "m < length hs" "\<forall>h \<in> set hs. length h = 32"
  shows "verifyInclusionPath (num_of_int (int m)) (num_of_int (int (length hs))) (hs ! m)
    (map wire_hash (audit_path m hs)) (wire_hash (mth hs)) = Inr ()"
proof -
  have "lvl_fold m (length hs - 1) (hs ! m) (audit_path m hs) = Some (mth hs)"
    using assms(1) by (intro lvl_fold_complete) auto
  moreover have "\<forall>p \<in> set (audit_path m hs). length p = 32" using audit_path_lengths assms(2) by blast
  ultimately show ?thesis
    using assms inclusion_loop_lvl [of m "length hs - 1" "audit_path m hs"]
    by (simp add: inclusion_path_loop)
qed

lemma consistency_path_loop:
  assumes "0 < m" "m < length new" "es \<noteq> []" "decode_path es = Some ps" "length R1 = 32" "length R2 = 32"
    and "strip_odd (m - 1) (length new - 1) = (fn, sn)"
    and "path = (if isPowerOfTwo (int m) then R1 # ps else ps)"
  shows "verifyConsistencyPath (num_of_int (int m)) (num_of_int (int (length new))) es (wire_hash R1) (wire_hash R2)
    = consistency_loop fn sn (hd path) (hd path) (tl path) R1 R2"
proof -
  have "nat (int m - 1) = m - 1" "nat (int (length new) - 1) = length new - 1" by simp_all
  with assms show ?thesis by (simp add: verifyConsistencyPath_def)
qed

lemma consistency_complete:
  assumes "0 < m" "m \<le> length new" "m \<le> 2 ^ 32" "\<forall>h \<in> set new. length h = 32"
  shows "verifyConsistencyPath (num_of_int (int m)) (num_of_int (int (length new)))
    (map wire_hash (consistency_proof m new)) (wire_hash (mth (take m new))) (wire_hash (mth new)) = Inr ()"
proof (cases "m = length new")
  case True
  then show ?thesis
    using assms(4) by (simp add: consistency_proof_def subproof_full verifyConsistencyPath_def length_mth)
next
  case False
  with assms(2) have lt: "m < length new" by simp
  obtain fn sn where st: "strip_odd (m - 1) (length new - 1) = (fn, sn)" by (cases "strip_odd (m - 1) (length new - 1)")
  from strip_levels [OF st assms(1) lt assms(4)] obtain new' t where
    l: "length new' = sn + 1" "fn < sn" "even fn" "m = (fn + 1) * 2 ^ t" "\<forall>h \<in> set new'. length h = 32"
    and r: "mth new' = mth new" "mth (take (fn + 1) new') = mth (take m new)"
    and sub: "subproof m new True = subproof (fn + 1) new' True" by metis
  have pow: "isPowerOfTwo (int m) \<longleftrightarrow> fn = 0" using l(3,4) assms(3) by (rule strip_zero_iff_power)
  define ap where "ap = audit_path fn new'"
  have pf: "consistency_proof m new = (if fn = 0 then [] else [new' ! fn]) @ ap"
    using subproof_odd [of "fn + 1" new' True] l sub by (simp add: consistency_proof_def ap_def)
  have ap: "ap \<noteq> []" "\<forall>p \<in> set ap. length p = 32"
    using audit_path_nonempty [of new' fn] audit_path_lengths [of new'] l by (auto simp: ap_def)
  have len: "\<forall>p \<in> set (consistency_proof m new). length p = 32"
    using ap(2) l(1,2,5) by (auto simp: pf nth_mem)
  have R: "length (mth (take m new)) = 32" "length (mth new) = 32"
    using assms(4) length_mth by (auto dest: in_set_takeD)
  have seed0: "fn = 0 \<Longrightarrow> mth (take m new) = new' ! 0"
    using r(2) l(1) by (cases new') auto
  define path where "path = (if isPowerOfTwo (int m) then mth (take m new) # consistency_proof m new
    else consistency_proof m new)"
  have path: "hd path = new' ! fn" "tl path = ap" by (auto simp: path_def pow pf seed0)
  have "lvl_cons fn sn (take (fn + 1) new' ! fn) (new' ! fn) ap = Some (mth (take (fn + 1) new'), mth new')"
    unfolding ap_def using l by (intro lvl_cons_complete) auto
  then have "consistency_loop fn sn (new' ! fn) (new' ! fn) ap (mth (take m new)) (mth new) = Inr ()"
    using l(1,2) r by (subst consistency_loop_lvl) auto
  moreover have "map wire_hash (consistency_proof m new) \<noteq> []" using ap(1) by (simp add: pf)
  ultimately show ?thesis
    using consistency_path_loop [OF assms(1) lt _ decode_path_wire [OF len] R st path_def] path by simp
qed

lemma consistency_sound:
  assumes "verifyConsistencyPath (num_of_int (int (length old))) (num_of_int (int (length new))) es
      (wire_hash (mth old)) (wire_hash (mth new)) = Inr ()"
    and "old \<noteq> []" "\<forall>h \<in> set old \<union> set new. length h = 32"
    and inj: "inj_on sha256 (mth_inputs old \<union> mth_inputs new \<union>
          consistency_run_inputs (length old) (length new) es (mth old))"
  shows "prefix old new"
proof -
  have R: "length (mth old) = 32" "length (mth new) = 32" using assms(3) length_mth by auto
  have inj': "inj_on sha256 (mth_inputs old \<union> mth_inputs new)" using inj by (rule inj_on_subset) auto
  show ?thesis
  proof (cases "length old = length new")
    case True
    with assms(1) R have "mth old = mth new" by (auto simp: verifyConsistencyPath_def split: if_splits)
    with True assms(2,3) inj' show ?thesis using mth_inject by blast
  next
    case False
    with assms(1) R have lt: "length old < length new" and es: "es \<noteq> []"
      by (auto simp: verifyConsistencyPath_def Let_def split: if_splits)
    from False assms(1) R lt es obtain ps where dec: "decode_path es = Some ps"
      by (auto simp: verifyConsistencyPath_def Let_def split: if_splits option.splits)
    obtain fn sn where st: "strip_odd (length old - 1) (length new - 1) = (fn, sn)"
      by (cases "strip_odd (length old - 1) (length new - 1)")
    define path where "path = (if isPowerOfTwo (int (length old)) then mth old # ps else ps)"
    have pos: "0 < length old" using assms(2) by simp
    have ps: "es = map wire_hash ps" "\<forall>p \<in> set ps. length p = 32" using decode_path_SomeD [OF dec] by auto
    have nonempty: "path \<noteq> []" and p32: "\<forall>p \<in> set path. length p = 32"
      using ps es R by (auto simp: path_def)
    have hd32: "length (hd path) = 32" "\<forall>p \<in> set (tl path). length p = 32"
      using nonempty p32 by (cases path; simp)+
    have loop: "consistency_loop fn sn (hd path) (hd path) (tl path) (mth old) (mth new) = Inr ()"
      using assms(1) consistency_path_loop [OF pos lt es dec R st path_def] by simp
    have run: "consistency_run_inputs (length old) (length new) es (mth old)
        = consistency_hashed fn sn (hd path) (hd path) (tl path)"
      using st dec by (simp add: consistency_run_inputs_def path_bytes_def path_def)
    let ?S = "mth_inputs old \<union> mth_inputs new"
    from strip_levels_back [OF st pos refl lt assms(3) inj' subset_refl] obtain old' new' where
      l: "length old' = fn + 1" "length new' = sn + 1" "fn \<le> sn" "\<forall>h \<in> set old' \<union> set new'. length h = 32"
      and sub: "mth_inputs old' \<union> mth_inputs new' \<subseteq> ?S" and r: "mth old' = mth old" "mth new' = mth new"
      and down: "(\<forall>i < fn + 1. old' ! i = new' ! i) \<longrightarrow> (\<forall>i < length old. old ! i = new ! i)" by blast
    have "lvl_cons fn sn (hd path) (hd path) (tl path) = Some (mth old', mth new')"
      using loop consistency_loop_lvl [OF l(3)] r by simp
    moreover have "inj_on sha256 (mth_inputs old' \<union> mth_inputs new' \<union> cons_inputs fn sn (hd path) (hd path) (tl path))"
      using inj sub unfolding run consistency_hashed_lvl [OF l(3)] by (elim inj_on_subset) auto
    ultimately have "hd path = old' ! fn \<and> hd path = new' ! fn \<and> (\<forall>i < fn. old' ! i = new' ! i)"
      using l hd32 by (intro lvl_cons_sound) auto
    then have "\<forall>i < fn + 1. old' ! i = new' ! i" by (auto simp: less_Suc_eq)
    with down have "\<forall>i < length old. old ! i = new ! i" by blast
    then have "old = take (length old) new" using lt by (simp add: list_eq_iff_nth_eq)
    then show ?thesis by (metis take_is_prefix)
  qed
qed

lemma inclusion_sound:
  assumes "verifyInclusionPath (num_of_int (int m)) (num_of_int (int (length hs))) leaf es (wire_hash (mth hs))
      = Inr ()"
    and "m < length hs" "\<forall>h \<in> set hs. length h = 32" "length leaf = 32"
    and inj: "inj_on sha256 (mth_inputs hs \<union> inclusion_run_inputs m (length hs) leaf es)"
  shows "leaf = hs ! m \<and> es = map wire_hash (audit_path m hs)"
proof -
  have loop: "inclusion_loop m (length hs - 1) leaf es (mth hs) = Inr ()"
    using assms(1) inclusion_path_loop [OF assms(2,3)] by simp
  then obtain ps where ps: "es = map wire_hash ps" "\<forall>p \<in> set ps. length p = 32"
    using inclusion_loop_wire by blast
  have le: "m \<le> length hs - 1" using assms(2) by simp
  have "lvl_fold m (length hs - 1) leaf ps = Some (mth hs)"
    using loop inclusion_loop_lvl [OF le ps(2)] ps(1) by simp
  moreover have "inj_on sha256 (mth_inputs hs \<union> lvl_inputs m (length hs - 1) leaf ps)"
    using inj unfolding inclusion_run_inputs_def inclusion_hashed_lvl [OF le] by (simp add: ps)
  ultimately have "leaf = hs ! m \<and> ps = audit_path m hs"
    using assms(2-4) le ps(2) by (intro lvl_fold_sound) auto
  with ps(1) show ?thesis by simp
qed

section \<open>Properties\<close>

text \<open>Completeness of the inclusion verifier: for every log of leaf hashes and every leaf of it, the
  host fold \<open>verifyInclusionPath\<close> accepts the RFC 6962 audit path of that leaf against the RFC 6962
  root. The verifier walks the levels bottom-up with two shifted counters; the specification recurses
  top-down at powers of two.\<close>

theorem verifyInclusionPath_complete:
  assumes "m < length hs" "\<forall>h \<in> set hs. length h = 32"
  shows "verifyInclusionPath (num_of_int (int m)) (num_of_int (int (length hs))) (hs ! m)
    (map wire_hash (audit_path m hs)) (wire_hash (mth hs)) = Inr ()"
  using assms by (rule inclusion_complete)

theorem verifyInclusionPath_complete_witness:
  "verifyInclusionPath (num_of_int 2) (num_of_int 3) (replicate 32 7)
    (map wire_hash [nodeHash (replicate 32 5) (replicate 32 6)])
    (wire_hash (nodeHash (nodeHash (replicate 32 5) (replicate 32 6)) (replicate 32 7))) = Inr ()"
proof -
  let ?hs = "[replicate 32 5, replicate 32 6, replicate 32 7] :: bytes list"
  have sp: "split_point 3 = 2" by (simp add: split_point.simps)
  have m: "mth ?hs = nodeHash (nodeHash (replicate 32 5) (replicate 32 6)) (replicate 32 7)"
    by (simp add: mth_split sp numeral_3_eq_3 [symmetric] mth_two numeral_2_eq_2)
  have p: "audit_path 2 ?hs = [nodeHash (replicate 32 5) (replicate 32 6)]"
    by (simp add: audit_path_split [OF _ refl] sp numeral_3_eq_3 [symmetric] mth_two numeral_2_eq_2)
  show ?thesis using verifyInclusionPath_complete [of 2 ?hs] m p by simp
qed

text \<open>C6. Soundness of the inclusion verifier: when the fold accepts a leaf hash and a path against the
  root of a log, the leaf hash is the one logged at that index and the path is its audit path, provided
  SHA-256 has no collision among the finitely many byte strings hashed while building the tree and
  while checking the proof.\<close>

theorem verifyInclusionPath_sound:
  assumes "verifyInclusionPath (num_of_int (int m)) (num_of_int (int (length hs))) leaf es (wire_hash (mth hs))
      = Inr ()"
    and "m < length hs" "\<forall>h \<in> set hs. length h = 32" "length leaf = 32"
    and "inj_on sha256 (mth_inputs hs \<union> inclusion_run_inputs m (length hs) leaf es)"
  shows "leaf = hs ! m \<and> es = map wire_hash (audit_path m hs)"
  using assms by (rule inclusion_sound)

lemma two_leaf_log:
  fixes a b :: bytes
  shows "mth [a, b] = nodeHash a b" "audit_path 0 [a, b] = [b]" "mth_inputs [a, b] = {0x01 # a @ b}"
  by (simp_all add: mth_two audit_path_split [OF _ refl] mth_inputs_split [OF _ refl])

theorem verifyInclusionPath_sound_witness:
  "(replicate 32 5 :: bytes) = [replicate 32 5, replicate 32 6] ! 0 \<and>
   [wire_hash (replicate 32 6)] = map wire_hash (audit_path 0 [replicate 32 5, replicate 32 6])"
proof -
  let ?hs = "[replicate 32 5, replicate 32 6] :: bytes list"
  have 1: "verifyInclusionPath (num_of_int (int 0)) (num_of_int (int (length ?hs))) (replicate 32 5)
      [wire_hash (replicate 32 6)] (wire_hash (mth ?hs)) = Inr ()"
    using inclusion_complete [of 0 ?hs] by (simp add: two_leaf_log)
  have 2: "inclusion_run_inputs 0 (length ?hs) (replicate 32 5) [wire_hash (replicate 32 6)]
      = {0x01 # replicate 32 5 @ replicate 32 6}"
    using path_bytes_wire [of "[replicate 32 6]"] by (simp add: inclusion_run_inputs_def)
  show ?thesis
    using verifyInclusionPath_sound [of 0 ?hs "replicate 32 5" "[wire_hash (replicate 32 6)]", OF 1]
    unfolding 2 two_leaf_log by simp
qed

text \<open>C25. Completeness of the consistency verifier: for every log and every earlier size up to
  \<open>2 ^ 32\<close>, \<open>verifyConsistencyPath\<close> accepts the RFC 6962 consistency proof between the two roots. The
  bound is where the 32-bit test \<open>isPowerOfTwo\<close> stops being a test for powers of two.\<close>

theorem verifyConsistencyPath_complete:
  assumes "0 < m" "m \<le> length new" "m \<le> 2 ^ 32" "\<forall>h \<in> set new. length h = 32"
  shows "verifyConsistencyPath (num_of_int (int m)) (num_of_int (int (length new)))
    (map wire_hash (consistency_proof m new)) (wire_hash (mth (take m new))) (wire_hash (mth new)) = Inr ()"
  using assms by (rule consistency_complete)

theorem verifyConsistencyPath_complete_witness:
  "verifyConsistencyPath (num_of_int 1) (num_of_int 2) [wire_hash (replicate 32 6)]
    (wire_hash (replicate 32 5)) (wire_hash (nodeHash (replicate 32 5) (replicate 32 6))) = Inr ()"
proof -
  let ?hs = "[replicate 32 5, replicate 32 6] :: bytes list"
  have "consistency_proof 1 ?hs = [replicate 32 6]"
    by (simp add: consistency_proof_def subproof_odd two_leaf_log)
  with verifyConsistencyPath_complete [of 1 ?hs] show ?thesis by (simp add: two_leaf_log)
qed

text \<open>C1. Soundness of the consistency verifier: when it accepts a proof between the roots of two logs,
  the older log is a prefix of the newer one, so no retained entry was dropped or rewritten, provided
  SHA-256 has no collision among the byte strings hashed while building the two trees and while checking
  the proof. There is no bound on the sizes here.\<close>

theorem verifyConsistencyPath_sound:
  assumes "verifyConsistencyPath (num_of_int (int (length old))) (num_of_int (int (length new))) es
      (wire_hash (mth old)) (wire_hash (mth new)) = Inr ()"
    and "old \<noteq> []" "\<forall>h \<in> set old \<union> set new. length h = 32"
    and "inj_on sha256 (mth_inputs old \<union> mth_inputs new \<union>
          consistency_run_inputs (length old) (length new) es (mth old))"
  shows "prefix old new"
  using assms by (rule consistency_sound)

theorem verifyConsistencyPath_sound_witness:
  "prefix [replicate 32 5 :: bytes] [replicate 32 5, replicate 32 6]"
proof -
  let ?old = "[replicate 32 5] :: bytes list" and ?new = "[replicate 32 5, replicate 32 6] :: bytes list"
  have pf: "consistency_proof 1 ?new = [replicate 32 6]"
    by (simp add: consistency_proof_def subproof_odd two_leaf_log)
  have 1: "verifyConsistencyPath (num_of_int (int (length ?old))) (num_of_int (int (length ?new)))
      [wire_hash (replicate 32 6)] (wire_hash (mth ?old)) (wire_hash (mth ?new)) = Inr ()"
    using consistency_complete [of 1 ?new] pf by simp
  have 2: "consistency_run_inputs (length ?old) (length ?new) [wire_hash (replicate 32 6)] (mth ?old)
      \<subseteq> {0x01 # replicate 32 5 @ replicate 32 6}"
    using path_bytes_wire [of "[replicate 32 6]"]
    by (simp add: consistency_run_inputs_def strip_odd.simps isPowerOfTwo_def)
  have 3: "inj_on sha256 (mth_inputs ?old \<union> mth_inputs ?new \<union>
      consistency_run_inputs (length ?old) (length ?new) [wire_hash (replicate 32 6)] (mth ?old))"
    by (rule inj_on_subset [of _ "{0x01 # replicate 32 5 @ replicate 32 6}"])
      (use 2 in \<open>auto simp: two_leaf_log\<close>)
  show ?thesis using verifyConsistencyPath_sound [OF 1 _ _ 3] by simp
qed

text \<open>The bitwise test \<open>isPowerOfTwo\<close> recognises exactly the powers of two among the sizes from
  1 to \<open>2 ^ 32\<close>.\<close>

theorem isPowerOfTwo_correct:
  assumes "0 < n" "n \<le> 2 ^ 32"
  shows "isPowerOfTwo n \<longleftrightarrow> (\<exists>k. n = 2 ^ k)"
  using assms by (rule isPowerOfTwo_iff)

theorem isPowerOfTwo_correct_witness:
  "isPowerOfTwo (2 ^ 32) \<longleftrightarrow> (\<exists>k. (2 ^ 32 :: int) = 2 ^ k)"
  using isPowerOfTwo_correct [of "2 ^ 32"] by simp

text \<open>Beyond that bound the test is wrong: \<open>2 ^ 32 + 1\<close> passes, because the operands of the
  JavaScript \<open>&\<close> are reduced modulo \<open>2 ^ 32\<close>, and it is not a power of two. For a retained size of
  \<open>2 ^ 32 + 1\<close> the consistency verifier therefore seeds its fold with the retained root.\<close>

theorem isPowerOfTwo_wraps: "isPowerOfTwo (2 ^ 32 + 1) \<and> (\<nexists>k. (2 ^ 32 + 1 :: int) = 2 ^ k)"
proof
  show "isPowerOfTwo (2 ^ 32 + 1)" by (simp add: isPowerOfTwo_def)
  show "\<nexists>k. (2 ^ 32 + 1 :: int) = 2 ^ k"
  proof
    assume "\<exists>k. (2 ^ 32 + 1 :: int) = 2 ^ k"
    then obtain k where e: "(2 ^ 32 + 1 :: int) = 2 ^ k" by blast
    have "odd (2 ^ 32 + 1 :: int)" by simp
    then have "odd (2 ^ k :: int)" unfolding e .
    then have "k = 0" by (cases k) auto
    with e show False by simp
  qed
qed

end
