(* ===== verification/Challenge.thy ===== *)
theory Challenge
  imports Prelude
begin

text \<open>
  Challenge nonces: \<open>src/src/auth/challenge-repository.ts\<close> (the interface),
  \<open>in-memory-challenge.repository.ts\<close> and \<open>postgres-challenge.repository.ts\<close> (the two providers) and
  \<open>challenge-store.service.ts\<close> (issue, consume and the signing input).

  Both stores are association lists from the nonce: a \<open>Map\<close>, or the rows of \<open>auth_challenges\<close> under its
  primary key. An \<open>await\<close>ed repository call is one atomic step (a \<open>Map\<close> operation runs to completion, the
  Postgres \<open>take\<close> is one \<open>DELETE ... RETURNING\<close>), so concurrent callers are an interleaved sequence of
  steps. The locale \<open>challenge_repository\<close> states what the token issuer relies on, and proves once that a
  nonce is consumed at most as often as it was issued; both providers are interpretations of it.
\<close>

record challenge_record =
  nonce :: string
  agentDid :: string
  registryAuthority :: string
  signingInput :: string
  expiresAt :: int

type_synonym challenge_map = "(string, challenge_record) jsmap"

section \<open>The in-memory repository\<close>

definition mem_put :: "challenge_record \<Rightarrow> challenge_map \<Rightarrow> challenge_map" where
  "mem_put rc store = AList.update (nonce rc) rc store"

definition mem_take :: "clock \<Rightarrow> string \<Rightarrow> challenge_map \<Rightarrow> challenge_record option \<times> challenge_map" where
  "mem_take us n store = (case map_of store n of
     None \<Rightarrow> (None, store)
   | Some rc \<Rightarrow>
       (if expiresAt rc < now_seconds us then None else Some rc, AList.delete n store))"

definition mem_evictExpired :: "clock \<Rightarrow> challenge_map \<Rightarrow> nat \<times> challenge_map" where
  "mem_evictExpired us store =
     (let keep = filter (\<lambda>(k, rc). \<not> expiresAt rc < now_seconds us) store
      in (length store - length keep, keep))"

definition mem_size :: "clock \<Rightarrow> challenge_map \<Rightarrow> nat \<times> challenge_map" where
  "mem_size us store = (let s = snd (mem_evictExpired us store) in (length s, s))"

section \<open>The Postgres repository\<close>

text \<open>An insert that meets the primary key raises; \<open>None\<close> is that exception.\<close>

definition pg_put :: "challenge_record \<Rightarrow> challenge_map \<Rightarrow> challenge_map option" where
  "pg_put rc rows = (case map_of rows (nonce rc) of
     None \<Rightarrow> Some (rows @ [(nonce rc, rc)])
   | Some _ \<Rightarrow> None)"

definition pg_take :: "clock \<Rightarrow> string \<Rightarrow> challenge_map \<Rightarrow> challenge_record option \<times> challenge_map" where
  "pg_take us n rows = (case map_of rows n of
     Some rc \<Rightarrow> if after_epoch_now (expiresAt rc) us then (Some rc, AList.delete n rows) else (None, rows)
   | None \<Rightarrow> (None, rows))"

definition pg_evictExpired :: "clock \<Rightarrow> challenge_map \<Rightarrow> nat \<times> challenge_map" where
  "pg_evictExpired us rows =
     (let keep = filter (\<lambda>(k, rc). \<not> expiresAt rc < now_seconds us) rows
      in (length rows - length keep, keep))"

definition pg_size :: "clock \<Rightarrow> challenge_map \<Rightarrow> nat" where
  "pg_size us rows = length (filter (\<lambda>(k, rc). after_epoch_now (expiresAt rc) us) rows)"

section \<open>The challenge store service\<close>

definition signingInputFor :: "string \<Rightarrow> string \<Rightarrow> string \<Rightarrow> int \<Rightarrow> string" where
  "signingInputFor n did authority expires =
     ''acdp-registry-auth:v1:'' @ n @ '':'' @ did @ '':'' @ authority @ '':'' @ show_int expires"

text \<open>The record \<open>issue\<close> persists and returns; the nonce is the base64url text of 16 random bytes.\<close>

definition issue_record :: "clock \<Rightarrow> string \<Rightarrow> string \<Rightarrow> string \<Rightarrow> int \<Rightarrow> challenge_record" where
  "issue_record us n did authority ttlSeconds =
     (let expires = now_seconds us + ttlSeconds
      in \<lparr>nonce = n, agentDid = did, registryAuthority = authority,
          signingInput = signingInputFor n did authority expires, expiresAt = expires\<rparr>)"

section \<open>The interface\<close>

datatype challenge_op = Put challenge_record | Take clock string | EvictExpired clock

definition mem_step :: "challenge_op \<Rightarrow> challenge_map \<Rightarrow> challenge_record option \<times> challenge_map" where
  "mem_step op s = (case op of
     Put rc \<Rightarrow> (None, mem_put rc s)
   | Take us n \<Rightarrow> mem_take us n s
   | EvictExpired us \<Rightarrow> (None, snd (mem_evictExpired us s)))"

definition pg_step :: "challenge_op \<Rightarrow> challenge_map \<Rightarrow> challenge_record option \<times> challenge_map" where
  "pg_step op s = (case op of
     Put rc \<Rightarrow> (None, case pg_put rc s of Some s' \<Rightarrow> s' | None \<Rightarrow> s)
   | Take us n \<Rightarrow> pg_take us n s
   | EvictExpired us \<Rightarrow> (None, snd (pg_evictExpired us s)))"

definition puts_of :: "string \<Rightarrow> challenge_op list \<Rightarrow> nat" where
  "puts_of n ops = length (filter (\<lambda>op. case op of Put rc \<Rightarrow> nonce rc = n | _ \<Rightarrow> False) ops)"

definition takes_of :: "string \<Rightarrow> challenge_record option list \<Rightarrow> nat" where
  "takes_of n rs = length (filter (\<lambda>r. case r of Some rc \<Rightarrow> nonce rc = n | None \<Rightarrow> False) rs)"

locale challenge_repository =
  fixes step :: "challenge_op \<Rightarrow> 's \<Rightarrow> challenge_record option \<times> 's"
    and lookup :: "'s \<Rightarrow> string \<Rightarrow> challenge_record option"
    and inv :: "'s \<Rightarrow> bool"
  assumes inv_step: "inv s \<Longrightarrow> inv (snd (step op s))"
    and put_result: "fst (step (Put rc) s) = None"
    and put_lookup: "inv s \<Longrightarrow> m \<noteq> nonce rc \<Longrightarrow> lookup (snd (step (Put rc) s)) m = lookup s m"
    and take_result: "inv s \<Longrightarrow> fst (step (Take us n) s) = Some rc \<Longrightarrow>
      lookup s n = Some rc \<and> lookup (snd (step (Take us n) s)) n = None \<and> now_seconds us \<le> expiresAt rc"
    and take_sub: "inv s \<Longrightarrow> lookup (snd (step (Take us n) s)) m = Some rc \<Longrightarrow> lookup s m = Some rc"
    and evict_result: "fst (step (EvictExpired us) s) = None"
    and evict_sub: "inv s \<Longrightarrow> lookup (snd (step (EvictExpired us) s)) m = Some rc \<Longrightarrow> lookup s m = Some rc"
    and keyed: "inv s \<Longrightarrow> lookup s n = Some rc \<Longrightarrow> nonce rc = n"
begin

text \<open>What one step does to the balance of one nonce.\<close>

lemma step_balance:
  assumes "inv s"
  shows "takes_of n [fst (step op s)] + (if lookup (snd (step op s)) n = None then 0 else 1)
    \<le> puts_of n [op] + (if lookup s n = None then 0 else 1)"
proof (cases op)
  case (Put rc)
  then show ?thesis using put_lookup [OF assms, of n rc] put_result [of rc s]
    by (auto simp: takes_of_def puts_of_def)
next
  case (Take us m)
  show ?thesis
  proof (cases "fst (step op s)")
    case None
    then show ?thesis using take_sub [OF assms, of us m n] Take
      by (fastforce simp: takes_of_def puts_of_def)
  next
    case (Some rc)
    with Take take_result [OF assms, of us m rc] keyed [OF assms, of m rc]
    have r: "lookup s m = Some rc" "lookup (snd (step op s)) m = None" "nonce rc = m" by auto
    show ?thesis
    proof (cases "n = m")
      case True
      with r Some show ?thesis by (simp add: takes_of_def)
    next
      case False
      then show ?thesis using take_sub [OF assms, of us m n] Take Some r
        by (fastforce simp: takes_of_def puts_of_def)
    qed
  qed
next
  case (EvictExpired us)
  then show ?thesis using evict_sub [OF assms, of us n] evict_result [of us s]
    by (fastforce simp: takes_of_def puts_of_def)
qed

lemma takes_bounded:
  "inv s \<Longrightarrow> takes_of n (fst (run_ops step ops s)) \<le> puts_of n ops + (if lookup s n = None then 0 else 1)"
proof (induction ops arbitrary: s)
  case Nil
  then show ?case by (simp add: takes_of_def)
next
  case (Cons op ops)
  define s' where "s' = snd (step op s)"
  have "inv s'" using inv_step [OF Cons.prems] by (simp add: s'_def)
  note IH = Cons.IH [OF this]
  have "takes_of n (fst (run_ops step (op # ops) s))
      = takes_of n [fst (step op s)] + takes_of n (fst (run_ops step ops s'))"
    by (simp add: takes_of_def s'_def split: prod.splits)
  moreover have "puts_of n (op # ops) = puts_of n [op] + puts_of n ops" by (simp add: puts_of_def)
  ultimately show ?case using IH step_balance [OF Cons.prems, of n op] by (simp add: s'_def)
qed

text \<open>A replayed \<open>take\<close> of a consumed nonce finds nothing.\<close>

lemma take_twice:
  assumes "inv s" "fst (step (Take us n) s) = Some rc"
  shows "fst (step (Take us' n) (snd (step (Take us n) s))) = None"
proof (rule ccontr)
  assume "fst (step (Take us' n) (snd (step (Take us n) s))) \<noteq> None"
  then obtain rc' where "fst (step (Take us' n) (snd (step (Take us n) s))) = Some rc'" by blast
  from take_result [OF inv_step [OF assms(1)] this] take_result [OF assms] show False by simp
qed

end

definition keyed_map :: "challenge_map \<Rightarrow> bool" where
  "keyed_map s = (wf_map s \<and> (\<forall>(k, rc) \<in> set s. nonce rc = k))"

lemma keyed_lookup: "keyed_map s \<Longrightarrow> map_of s n = Some rc \<Longrightarrow> nonce rc = n"
  by (auto simp: keyed_map_def dest: map_of_SomeD)

lemma keyed_delete: "keyed_map s \<Longrightarrow> keyed_map (AList.delete n s)"
  by (auto simp: keyed_map_def AList.delete_eq)

lemma keyed_filter: "keyed_map s \<Longrightarrow> keyed_map (filter P s)"
  by (auto simp: keyed_map_def)

lemma keyed_update: "keyed_map s \<Longrightarrow> keyed_map (AList.update (nonce rc) rc s)"
  using set_update_subset [of "nonce rc" rc s] by (auto simp: keyed_map_def)

lemma keyed_insert:
  "keyed_map s \<Longrightarrow> map_of s (nonce rc) = None \<Longrightarrow> keyed_map (s @ [(nonce rc, rc)])"
  by (auto simp: keyed_map_def wf_map_def map_of_eq_None_iff)

lemma expiry_seconds: "after_epoch_now t us \<Longrightarrow> now_seconds us \<le> t"
  by (simp add: after_epoch_now_def now_seconds_eq)

interpretation mem: challenge_repository mem_step map_of keyed_map
proof
  fix s op us n m rc
  show "keyed_map (snd (mem_step op s))" if "keyed_map s"
    using that by (auto simp: mem_step_def mem_put_def mem_take_def mem_evictExpired_def Let_def
        keyed_update keyed_delete keyed_filter split: challenge_op.splits option.splits)
  show "fst (mem_step (Put rc) s) = None" by (simp add: mem_step_def)
  show "map_of (snd (mem_step (Put rc) s)) m = map_of s m" if "keyed_map s" "m \<noteq> nonce rc"
    using that by (simp add: mem_step_def mem_put_def update_conv)
  show "map_of s n = Some rc \<and> map_of (snd (mem_step (Take us n) s)) n = None \<and> now_seconds us \<le> expiresAt rc"
    if "keyed_map s" "fst (mem_step (Take us n) s) = Some rc"
    using that by (auto simp: mem_step_def mem_take_def delete_conv split: option.splits if_splits)
  show "map_of s m = Some rc" if "keyed_map s" "map_of (snd (mem_step (Take us n) s)) m = Some rc"
    using that by (auto simp: mem_step_def mem_take_def delete_conv split: option.splits if_splits)
  show "fst (mem_step (EvictExpired us) s) = None" by (simp add: mem_step_def)
  show "map_of s m = Some rc" if "keyed_map s" "map_of (snd (mem_step (EvictExpired us) s)) m = Some rc"
    using that by (auto simp: mem_step_def mem_evictExpired_def Let_def keyed_map_def
        map_of_filter_wf [where P = "\<lambda>rc. \<not> expiresAt rc < now_seconds us"] split: option.splits if_splits)
  show "nonce rc = n" if "keyed_map s" "map_of s n = Some rc" using that by (rule keyed_lookup)
qed

interpretation pg: challenge_repository pg_step map_of keyed_map
proof
  fix s op us n m rc
  show "keyed_map (snd (pg_step op s))" if "keyed_map s"
    using that by (auto simp: pg_step_def pg_put_def pg_take_def pg_evictExpired_def Let_def
        keyed_insert keyed_delete keyed_filter split: challenge_op.splits option.splits)
  show "fst (pg_step (Put rc) s) = None" by (simp add: pg_step_def)
  show "map_of (snd (pg_step (Put rc) s)) m = map_of s m" if "keyed_map s" "m \<noteq> nonce rc"
    using that by (auto simp: pg_step_def pg_put_def map_add_def split: option.splits)
  show "map_of s n = Some rc \<and> map_of (snd (pg_step (Take us n) s)) n = None \<and> now_seconds us \<le> expiresAt rc"
    if "keyed_map s" "fst (pg_step (Take us n) s) = Some rc"
    using that by (auto simp: pg_step_def pg_take_def delete_conv expiry_seconds split: option.splits if_splits)
  show "map_of s m = Some rc" if "keyed_map s" "map_of (snd (pg_step (Take us n) s)) m = Some rc"
    using that by (auto simp: pg_step_def pg_take_def delete_conv split: option.splits if_splits)
  show "fst (pg_step (EvictExpired us) s) = None" by (simp add: pg_step_def)
  show "map_of s m = Some rc" if "keyed_map s" "map_of (snd (pg_step (EvictExpired us) s)) m = Some rc"
    using that by (auto simp: pg_step_def pg_evictExpired_def Let_def keyed_map_def
        map_of_filter_wf [where P = "\<lambda>rc. \<not> expiresAt rc < now_seconds us"] split: option.splits if_splits)
  show "nonce rc = n" if "keyed_map s" "map_of s n = Some rc" using that by (rule keyed_lookup)
qed

section \<open>Properties\<close>

text \<open>Single use of challenge nonces, whatever the interleaving: in every sequence of put, take and
  sweep steps on an empty in-memory store, the steps that return the record of a nonce are at most as
  many as the steps that issued it.\<close>

theorem mem_single_use: "takes_of n (fst (run_ops mem_step ops [])) \<le> puts_of n ops"
  using mem.takes_bounded [of "[]" n ops] by (simp add: keyed_map_def)

text \<open>The same for the Postgres store, which filters expired rows in the deleting statement.\<close>

theorem pg_single_use: "takes_of n (fst (run_ops pg_step ops [])) \<le> puts_of n ops"
  using pg.takes_bounded [of "[]" n ops] by (simp add: keyed_map_def)

text \<open>What a consumed challenge is: a take that returns a record returns the stored one, before its
  expiry, and a second take of the same nonce on the resulting store returns nothing. Both stores.\<close>

theorem take_live_then_gone:
  assumes "keyed_map s"
  shows "(fst (mem_take us n s) = Some rc \<longrightarrow>
      map_of s n = Some rc \<and> now_seconds us \<le> expiresAt rc \<and> fst (mem_take us' n (snd (mem_take us n s))) = None)
    \<and> (fst (pg_take us n s) = Some rc \<longrightarrow>
      map_of s n = Some rc \<and> now_seconds us \<le> expiresAt rc \<and> fst (pg_take us' n (snd (pg_take us n s))) = None)"
  using mem.take_result [OF assms, of us n rc] mem.take_twice [OF assms, of us n rc us']
    pg.take_result [OF assms, of us n rc] pg.take_twice [OF assms, of us n rc us']
  by (auto simp: mem_step_def pg_step_def)

theorem take_live_then_gone_witness:
  "let rc = issue_record 1000000 ''nonce'' ''did:web:a'' ''auth'' 60; s = mem_put rc [] in
   fst (mem_take 2000000 ''nonce'' s) = Some rc \<and> fst (pg_take 2000000 ''nonce'' s) = Some rc \<and>
   fst (mem_take 3000000 ''nonce'' (snd (mem_take 2000000 ''nonce'' s))) = None \<and>
   fst (pg_take 3000000 ''nonce'' (snd (pg_take 2000000 ''nonce'' s))) = None"
proof -
  let ?rc = "issue_record 1000000 ''nonce'' ''did:web:a'' ''auth'' 60"
  have k: "keyed_map (mem_put ?rc [])" by (simp add: keyed_map_def mem_put_def wf_map_def issue_record_def)
  have m: "fst (mem_take 2000000 ''nonce'' (mem_put ?rc [])) = Some ?rc"
    by (simp add: mem_take_def mem_put_def issue_record_def now_seconds_eq)
  have p: "fst (pg_take 2000000 ''nonce'' (mem_put ?rc [])) = Some ?rc"
    by (simp add: pg_take_def mem_put_def issue_record_def now_seconds_eq after_epoch_now_def)
  from take_live_then_gone [OF k, of 2000000 "''nonce''" ?rc 3000000] m p show ?thesis by (simp add: Let_def)
qed

text \<open>The signing input binds the nonce, the agent and the expiry: for one authority and nonces over the
  base64url alphabet (no colon), two equal signing inputs come from equal nonces, agents and expiries.\<close>

theorem signingInputFor_inject:
  assumes "signingInputFor n did auth e = signingInputFor n' did' auth e'"
    and "CHR '':'' \<notin> set n" "CHR '':'' \<notin> set n'"
  shows "n = n' \<and> did = did' \<and> e = e'"
proof -
  have "n @ CHR '':'' # (did @ CHR '':'' # auth @ CHR '':'' # show_int e)
      = n' @ CHR '':'' # (did' @ CHR '':'' # auth @ CHR '':'' # show_int e')"
    using assms(1) by (simp add: signingInputFor_def)
  from append_sep_inject_left [OF this assms(2,3)]
  have n: "n = n'" and rest: "(did @ CHR '':'' # auth) @ CHR '':'' # show_int e
      = (did' @ CHR '':'' # auth) @ CHR '':'' # show_int e'" by auto
  from append_sep_inject_right [OF rest show_int_no_colon show_int_no_colon] n show ?thesis by simp
qed

theorem signingInputFor_inject_witness:
  "signingInputFor ''aGk'' ''did:web:a'' ''auth:8443'' 60 \<noteq> signingInputFor ''aGk'' ''did:web:b'' ''auth:8443'' 60"
  using signingInputFor_inject [of "''aGk''" "''did:web:a''" "''auth:8443''" 60 "''aGk''" "''did:web:b''" 60]
  by auto

end
