(* ===== verification/Revocation.thy ===== *)
theory Revocation
  imports Prelude
begin

text \<open>
  Revoked tokens: \<open>src/src/auth/revocation-repository.ts\<close> (the interface),
  \<open>in-memory-revocation.repository.ts\<close> and \<open>postgres-revocation.repository.ts\<close> (the providers).

  The in-memory store is a \<open>Map\<close> under the key \<open>iss NUL jti\<close>; the table \<open>revoked_tokens\<close> has the primary
  key \<open>(iss, jti)\<close>, a \<open>varchar(64)\<close> jti, a \<open>bigint\<close> exp and a microsecond \<open>revoked_at\<close> set by the database.
  \<open>localeCompare\<close>, which only orders entries of the same millisecond, is the parameter \<open>lc\<close>.

  The locale \<open>revocation_repository\<close> is the contract the token verifier relies on: a revoked token stays
  revoked until it expires, and one issuer's entries do not touch another's. The paging theorems are about
  the feed \<open>listSince\<close>.
\<close>

record revocation_record =
  rv_jti :: string
  rv_sub :: string
  rv_iss :: string
  rv_exp :: rat
  rv_revokedBy :: string
  rv_reason :: string
  rv_revokedAt :: "int option"

section \<open>The in-memory repository\<close>

type_synonym rv_map = "(string, revocation_record) jsmap"

definition keyOf :: "string \<Rightarrow> string \<Rightarrow> string" where
  "keyOf i j = i @ CHR 0x00 # j"

definition rv_mem_revoke :: "clock \<Rightarrow> revocation_record \<Rightarrow> rv_map \<Rightarrow> bool \<times> rv_map" where
  "rv_mem_revoke us rc store =
     (let key = keyOf (rv_iss rc) (rv_jti rc) in
      case map_of store key of
        Some _ \<Rightarrow> (False, store)
      | None \<Rightarrow> (True, AList.update key
          (rc\<lparr>rv_revokedAt := Some (case rv_revokedAt rc of Some t \<Rightarrow> t | None \<Rightarrow> now_ms us)\<rparr>) store))"

definition rv_mem_isRevoked :: "clock \<Rightarrow> string \<Rightarrow> string \<Rightarrow> rv_map \<Rightarrow> bool \<times> rv_map" where
  "rv_mem_isRevoked us i j store =
     (let key = keyOf i j in
      case map_of store key of
        None \<Rightarrow> (False, store)
      | Some rc \<Rightarrow> if rv_exp rc < of_int (now_seconds us) then (False, AList.delete key store) else (True, store))"

definition rv_mem_get :: "string \<Rightarrow> string \<Rightarrow> rv_map \<Rightarrow> revocation_record option" where
  "rv_mem_get i j store = map_of store (keyOf i j)"

definition rv_mem_evictExpired :: "clock \<Rightarrow> rv_map \<Rightarrow> nat \<times> rv_map" where
  "rv_mem_evictExpired us store =
     (let keep = filter (\<lambda>(k, rc). \<not> rv_exp rc < of_int (now_seconds us)) store
      in (length store - length keep, keep))"

definition rv_mem_size :: "clock \<Rightarrow> rv_map \<Rightarrow> nat \<times> rv_map" where
  "rv_mem_size us store = (let s = snd (rv_mem_evictExpired us store) in (length s, s))"

text \<open>\<open>limit | 0\<close> is the 32-bit signed value of the limit.\<close>

definition page_cap :: "int \<Rightarrow> nat" where
  "page_cap limit = nat (max 1 (min (sint (word_of_int limit :: 32 word)) 500))"

definition rv_time :: "revocation_record \<Rightarrow> int" where
  "rv_time rc = (case rv_revokedAt rc of Some t \<Rightarrow> t | None \<Rightarrow> 0)"

text \<open>The stable sort with the comparator of the source.\<close>

definition rv_before :: "(string \<Rightarrow> string \<Rightarrow> int) \<Rightarrow> revocation_record \<Rightarrow> revocation_record \<Rightarrow> bool" where
  "rv_before lc a b =
     (if rv_time a \<noteq> rv_time b then rv_time a - rv_time b \<le> 0 else lc (rv_jti a) (rv_jti b) \<le> 0)"

fun rv_insert ::
  "(string \<Rightarrow> string \<Rightarrow> int) \<Rightarrow> revocation_record \<Rightarrow> revocation_record list \<Rightarrow> revocation_record list" where
  "rv_insert lc x [] = [x]"
| "rv_insert lc x (y # ys) = (if rv_before lc x y then x # y # ys else y # rv_insert lc x ys)"

fun rv_sort :: "(string \<Rightarrow> string \<Rightarrow> int) \<Rightarrow> revocation_record list \<Rightarrow> revocation_record list" where
  "rv_sort lc [] = []"
| "rv_sort lc (x # xs) = rv_insert lc x (rv_sort lc xs)"

type_synonym rv_page = "revocation_record list \<times> int option"

definition rv_mem_listSince :: "(string \<Rightarrow> string \<Rightarrow> int) \<Rightarrow> int \<Rightarrow> int \<Rightarrow> rv_map \<Rightarrow> rv_page" where
  "rv_mem_listSince lc sinceMs limit store =
     (let cap = page_cap limit;
          sorted' = rv_sort lc (filter (\<lambda>r. rv_time r > sinceMs) (map snd store));
          entries = take cap sorted';
          entries' = (if length entries = cap \<and> length sorted' > cap
            then entries @ takeWhile (\<lambda>r. rv_time r = rv_time (last entries)) (drop cap sorted')
            else entries);
          nextCursor = (if length entries' < length sorted' then rv_revokedAt (last entries') else None)
      in (entries', nextCursor))"

type_synonym rv_cursors = "(string, jsnum) jsmap"

definition rv_getCursor :: "string \<Rightarrow> rv_cursors \<Rightarrow> jsnum option" where
  "rv_getCursor issuer cs = map_of cs issuer"

definition rv_setCursor :: "string \<Rightarrow> jsnum \<Rightarrow> rv_cursors \<Rightarrow> rv_cursors" where
  "rv_setCursor issuer c cs = AList.update issuer c cs"

section \<open>The Postgres repository\<close>

text \<open>A row is the record with its \<open>revoked_at\<close> in microseconds. The insert raises (\<open>None\<close>) on a jti longer
  than the column, on an exp that is not a \<open>bigint\<close> and on a text with a NUL, which Postgres cannot store.\<close>

definition nul_free :: "string \<Rightarrow> bool" where
  "nul_free s = (CHR 0x00 \<notin> set s)"

definition bigint :: "rat \<Rightarrow> bool" where
  "bigint r = (of_int \<lfloor>r\<rfloor> = r \<and> - (2 ^ 63) \<le> r \<and> r < 2 ^ 63)"

type_synonym rv_rows = "(string \<times> string, revocation_record \<times> int) jsmap"

definition rv_pg_revoke :: "clock \<Rightarrow> revocation_record \<Rightarrow> rv_rows \<Rightarrow> (bool \<times> rv_rows) option" where
  "rv_pg_revoke us rc rows =
     (if length (rv_jti rc) > 64 \<or> \<not> bigint (rv_exp rc)
         \<or> \<not> list_all nul_free [rv_jti rc, rv_sub rc, rv_iss rc, rv_revokedBy rc, rv_reason rc] then None
      else (case map_of rows (rv_iss rc, rv_jti rc) of
          Some _ \<Rightarrow> Some (False, rows)
        | None \<Rightarrow> Some (True, rows @ [((rv_iss rc, rv_jti rc), (rc, us))])))"

definition rv_pg_isRevoked :: "clock \<Rightarrow> string \<Rightarrow> string \<Rightarrow> rv_rows \<Rightarrow> bool" where
  "rv_pg_isRevoked us i j rows = (case map_of rows (i, j) of
     Some (rc, t) \<Rightarrow> rv_exp rc * 1000000 > of_int us
   | None \<Rightarrow> False)"

definition rv_pg_row :: "revocation_record \<times> int \<Rightarrow> revocation_record" where
  "rv_pg_row p = (fst p)\<lparr>rv_revokedAt := Some (snd p div 1000)\<rparr>"

definition rv_pg_get :: "string \<Rightarrow> string \<Rightarrow> rv_rows \<Rightarrow> revocation_record option" where
  "rv_pg_get i j rows = map_option rv_pg_row (map_of rows (i, j))"

definition rv_pg_evictExpired :: "clock \<Rightarrow> rv_rows \<Rightarrow> nat \<times> rv_rows" where
  "rv_pg_evictExpired us rows =
     (let keep = filter (\<lambda>(k, p). \<not> rv_exp (fst p) < of_int (now_seconds us)) rows
      in (length rows - length keep, keep))"

definition rv_pg_size :: "clock \<Rightarrow> rv_rows \<Rightarrow> nat" where
  "rv_pg_size us rows = length (filter (\<lambda>(k, p). rv_exp (fst p) * 1000000 > of_int us) rows)"

text \<open>\<open>ORDER BY revoked_at ASC, jti ASC\<close>; \<open>jle\<close> is the database's collation.\<close>

fun rv_pg_insert :: "(string \<Rightarrow> string \<Rightarrow> bool) \<Rightarrow> revocation_record \<times> int \<Rightarrow> (revocation_record \<times> int) list
    \<Rightarrow> (revocation_record \<times> int) list" where
  "rv_pg_insert jle x [] = [x]"
| "rv_pg_insert jle x (y # ys) =
     (if snd x < snd y \<or> snd x = snd y \<and> jle (rv_jti (fst x)) (rv_jti (fst y)) then x # y # ys
      else y # rv_pg_insert jle x ys)"

fun rv_pg_sort :: "(string \<Rightarrow> string \<Rightarrow> bool) \<Rightarrow> (revocation_record \<times> int) list \<Rightarrow> (revocation_record \<times> int) list" where
  "rv_pg_sort jle [] = []"
| "rv_pg_sort jle (x # xs) = rv_pg_insert jle x (rv_pg_sort jle xs)"

definition rv_pg_listSince :: "(string \<Rightarrow> string \<Rightarrow> bool) \<Rightarrow> int \<Rightarrow> int \<Rightarrow> rv_rows \<Rightarrow> rv_page" where
  "rv_pg_listSince jle sinceMs limit rows =
     (let cap = page_cap limit;
          entries = map rv_pg_row
            (take cap (rv_pg_sort jle (filter (\<lambda>p. snd p > sinceMs * 1000) (map snd rows))));
          nextCursor = (if length entries = cap then rv_revokedAt (last entries) else None)
      in (entries, nextCursor))"

definition rv_pg_getCursor :: "string \<Rightarrow> rv_cursors \<Rightarrow> jsnum option" where
  "rv_pg_getCursor issuer cs = (case map_of cs issuer of
     Some n \<Rightarrow> if isFinite n then Some n else None
   | None \<Rightarrow> None)"

definition rv_pg_setCursor :: "string \<Rightarrow> jsnum \<Rightarrow> rv_cursors \<Rightarrow> rv_cursors option" where
  "rv_pg_setCursor issuer c cs = (case c of
     Fin r \<Rightarrow> if bigint r \<and> nul_free issuer then Some (AList.update issuer c cs) else None
   | _ \<Rightarrow> None)"

section \<open>The interface\<close>

datatype revocation_op =
    Revoke clock revocation_record
  | IsRevoked clock string string
  | EvictRevoked clock

fun op_clock :: "revocation_op \<Rightarrow> clock" where
  "op_clock (Revoke us rc) = us"
| "op_clock (IsRevoked us i j) = us"
| "op_clock (EvictRevoked us) = us"

definition rv_mem_step :: "revocation_op \<Rightarrow> rv_map \<Rightarrow> bool \<times> rv_map" where
  "rv_mem_step op s = (case op of
     Revoke us rc \<Rightarrow> rv_mem_revoke us rc s
   | IsRevoked us i j \<Rightarrow> rv_mem_isRevoked us i j s
   | EvictRevoked us \<Rightarrow> (False, snd (rv_mem_evictExpired us s)))"

definition rv_pg_step :: "revocation_op \<Rightarrow> rv_rows \<Rightarrow> bool \<times> rv_rows" where
  "rv_pg_step op s = (case op of
     Revoke us rc \<Rightarrow> (case rv_pg_revoke us rc s of Some r \<Rightarrow> r | None \<Rightarrow> (False, s))
   | IsRevoked us i j \<Rightarrow> (rv_pg_isRevoked us i j s, s)
   | EvictRevoked us \<Rightarrow> (False, snd (rv_pg_evictExpired us s)))"

locale revocation_repository =
  fixes step :: "revocation_op \<Rightarrow> 's \<Rightarrow> bool \<times> 's"
    and stored :: "'s \<Rightarrow> string \<Rightarrow> string \<Rightarrow> rat option"
    and fresh :: "rat \<Rightarrow> clock \<Rightarrow> bool"
    and safe_iss :: "string \<Rightarrow> bool"
    and inv :: "'s \<Rightarrow> bool"
  assumes inv_step: "inv s \<Longrightarrow> inv (snd (step op s))"
    and query: "fst (step (IsRevoked us i j) s) =
      (case stored s i j of Some e \<Rightarrow> fresh e us | None \<Rightarrow> False)"
    and fresh_mono: "us \<le> us' \<Longrightarrow> fresh e us' \<Longrightarrow> fresh e us"
    and keep: "inv s \<Longrightarrow> stored s i j = Some e \<Longrightarrow> fresh e (op_clock op) \<Longrightarrow> stored (snd (step op s)) i j = Some e"
    and revoked: "fst (step (Revoke us rc) s) \<Longrightarrow>
      stored (snd (step (Revoke us rc) s)) (rv_iss rc) (rv_jti rc) = Some (rv_exp rc)"
    and created: "inv s \<Longrightarrow> safe_iss i \<Longrightarrow> stored s i j = None \<Longrightarrow> stored (snd (step op s)) i j \<noteq> None \<Longrightarrow>
      \<exists>us rc. op = Revoke us rc \<and> (safe_iss (rv_iss rc) \<longrightarrow> rv_iss rc = i \<and> rv_jti rc = j)"
begin

lemma keep_run:
  "inv s \<Longrightarrow> stored s i j = Some e \<Longrightarrow> \<forall>op \<in> set ops. op_clock op \<le> us \<Longrightarrow> fresh e us \<Longrightarrow>
   inv (snd (run_ops step ops s)) \<and> stored (snd (run_ops step ops s)) i j = Some e"
proof (induction ops arbitrary: s)
  case (Cons op ops)
  have "fresh e (op_clock op)" using fresh_mono Cons.prems(3,4) by auto
  with Cons.prems keep have "stored (snd (step op s)) i j = Some e" by blast
  with Cons.IH [OF inv_step [OF Cons.prems(1)]] Cons.prems show ?case
    unfolding run_ops_Cons by simp
qed simp

lemma stays_revoked:
  assumes "inv s" "fst (step (Revoke us0 rc) s)" "\<forall>op \<in> set ops. op_clock op \<le> us" "fresh (rv_exp rc) us"
  shows "fst (step (IsRevoked us (rv_iss rc) (rv_jti rc)) (snd (run_ops step ops (snd (step (Revoke us0 rc) s)))))"
  using keep_run [OF inv_step [OF assms(1)] revoked [OF assms(2)] assms(3,4)] assms(4) by (simp add: query)

lemma absent_run:
  "inv s \<Longrightarrow> safe_iss i \<Longrightarrow> stored s i j = None \<Longrightarrow>
   \<forall>us rc. Revoke us rc \<in> set ops \<longrightarrow> safe_iss (rv_iss rc) \<and> \<not> (rv_iss rc = i \<and> rv_jti rc = j) \<Longrightarrow>
   inv (snd (run_ops step ops s)) \<and> stored (snd (run_ops step ops s)) i j = None"
proof (induction ops arbitrary: s)
  case (Cons op ops)
  have "stored (snd (step op s)) i j = None"
    using created [OF Cons.prems(1-3)] Cons.prems(4) by (metis list.set_intros(1))
  with Cons.IH [OF inv_step [OF Cons.prems(1)] Cons.prems(2)] Cons.prems(4) show ?case
    unfolding run_ops_Cons by simp
qed simp

lemma never_revoked:
  assumes "inv s" "safe_iss i" "stored s i j = None"
    and "\<forall>us rc. Revoke us rc \<in> set ops \<longrightarrow> safe_iss (rv_iss rc) \<and> \<not> (rv_iss rc = i \<and> rv_jti rc = j)"
  shows "\<not> fst (step (IsRevoked us i j) (snd (run_ops step ops s)))"
  using absent_run [OF assms] by (simp add: query)

end

lemma keyOf_inject: "nul_free i \<Longrightarrow> nul_free i' \<Longrightarrow> keyOf i j = keyOf i' j' \<longleftrightarrow> i = i' \<and> j = j'"
  using append_sep_inject_left [of i "CHR 0x00" j i' j'] by (auto simp: keyOf_def nul_free_def)

definition mem_stored :: "rv_map \<Rightarrow> string \<Rightarrow> string \<Rightarrow> rat option" where
  "mem_stored s i j = map_option rv_exp (map_of s (keyOf i j))"

definition mem_fresh :: "rat \<Rightarrow> clock \<Rightarrow> bool" where
  "mem_fresh e us = (\<not> e < of_int (now_seconds us))"

definition pg_stored :: "rv_rows \<Rightarrow> string \<Rightarrow> string \<Rightarrow> rat option" where
  "pg_stored s i j = map_option (rv_exp \<circ> fst) (map_of s (i, j))"

definition pg_fresh :: "rat \<Rightarrow> clock \<Rightarrow> bool" where
  "pg_fresh e us = (e * 1000000 > of_int us)"

lemma mem_fresh_keep:
  "wf_map s \<Longrightarrow> map_of s k = Some rc \<Longrightarrow> mem_fresh (rv_exp rc) us \<Longrightarrow>
   map_of (filter (\<lambda>(k, rc). \<not> rv_exp rc < of_int (now_seconds us)) s) k = Some rc"
  by (simp add: map_of_filter_wf [where P = "\<lambda>rc. \<not> rv_exp rc < of_int (now_seconds us)"] mem_fresh_def)

lemma mem_fresh_none:
  "wf_map s \<Longrightarrow> map_of s k = None \<Longrightarrow>
   map_of (filter (\<lambda>(k, rc). \<not> rv_exp rc < of_int (now_seconds us)) s) k = None"
  by (simp add: map_of_filter_wf [where P = "\<lambda>rc. \<not> rv_exp rc < of_int (now_seconds us)"])

interpretation rv_mem: revocation_repository rv_mem_step mem_stored mem_fresh nul_free wf_map
proof
  fix s op us us' i j e rc
  show "wf_map (snd (rv_mem_step op s))" if "wf_map s"
    using that by (auto simp: rv_mem_step_def rv_mem_revoke_def rv_mem_isRevoked_def
        rv_mem_evictExpired_def Let_def split: revocation_op.splits option.splits)
  show "fst (rv_mem_step (IsRevoked us i j) s) =
      (case mem_stored s i j of Some e \<Rightarrow> mem_fresh e us | None \<Rightarrow> False)"
    by (simp add: rv_mem_step_def rv_mem_isRevoked_def mem_stored_def mem_fresh_def Let_def split: option.splits)
  show "mem_fresh e us" if "us \<le> us'" "mem_fresh e us'"
  proof -
    have "now_seconds us \<le> now_seconds us'" using that(1) by (simp add: now_seconds_eq zdiv_mono1)
    then have "(of_int (now_seconds us) :: rat) \<le> of_int (now_seconds us')" by simp
    with that(2) show ?thesis unfolding mem_fresh_def by (meson not_le order_less_le_trans)
  qed
  show "mem_stored (snd (rv_mem_step op s)) i j = Some e"
    if "wf_map s" "mem_stored s i j = Some e" "mem_fresh e (op_clock op)"
    using that by (cases op) (auto simp: rv_mem_step_def rv_mem_revoke_def rv_mem_isRevoked_def
        rv_mem_evictExpired_def Let_def mem_stored_def mem_fresh_keep update_conv delete_conv mem_fresh_def
        split: option.splits)
  show "mem_stored (snd (rv_mem_step (Revoke us rc) s)) (rv_iss rc) (rv_jti rc) = Some (rv_exp rc)"
    if "fst (rv_mem_step (Revoke us rc) s)"
    using that by (auto simp: rv_mem_step_def rv_mem_revoke_def Let_def mem_stored_def update_conv
        split: option.splits)
  show "\<exists>us rc. op = Revoke us rc \<and> (nul_free (rv_iss rc) \<longrightarrow> rv_iss rc = i \<and> rv_jti rc = j)"
    if "wf_map s" "nul_free i" "mem_stored s i j = None" "mem_stored (snd (rv_mem_step op s)) i j \<noteq> None"
    using that by (cases op) (auto simp: rv_mem_step_def rv_mem_revoke_def rv_mem_isRevoked_def
        rv_mem_evictExpired_def Let_def mem_stored_def mem_fresh_none update_conv delete_conv keyOf_inject
        split: option.splits if_splits)
qed

lemma pg_seconds: "pg_fresh e us \<Longrightarrow> \<not> e < of_int (now_seconds us)"
proof -
  assume "pg_fresh e us"
  then have "e * 1000000 > of_int us" by (simp add: pg_fresh_def)
  moreover have "now_seconds us * 1000000 \<le> us" by (simp add: now_seconds_eq)
  then have "(of_int (now_seconds us * 1000000) :: rat) \<le> of_int us" by (simp only: of_int_le_iff)
  ultimately have "of_int (now_seconds us) * 1000000 < e * 1000000" by simp
  then show ?thesis by simp
qed

lemma pg_fresh_keep:
  "wf_map s \<Longrightarrow> map_of s k = Some p \<Longrightarrow> pg_fresh (rv_exp (fst p)) us \<Longrightarrow>
   map_of (filter (\<lambda>(k, p). \<not> rv_exp (fst p) < of_int (now_seconds us)) s) k = Some p"
  using pg_seconds [of "rv_exp (fst p)" us]
  by (simp add: map_of_filter_wf [where P = "\<lambda>p. \<not> rv_exp (fst p) < of_int (now_seconds us)"])

lemma pg_fresh_none:
  "wf_map s \<Longrightarrow> map_of s k = None \<Longrightarrow>
   map_of (filter (\<lambda>(k, p). \<not> rv_exp (fst p) < of_int (now_seconds us)) s) k = None"
  by (simp add: map_of_filter_wf [where P = "\<lambda>p. \<not> rv_exp (fst p) < of_int (now_seconds us)"])

lemma wf_map_insert: "wf_map s \<Longrightarrow> map_of s k = None \<Longrightarrow> wf_map (s @ [(k, v)])"
  by (auto simp: wf_map_def map_of_eq_None_iff)

interpretation rv_pg: revocation_repository rv_pg_step pg_stored pg_fresh "\<lambda>_. True" wf_map
proof
  fix s op us us' i j e rc
  show "wf_map (snd (rv_pg_step op s))" if "wf_map s"
    using that by (auto simp: rv_pg_step_def rv_pg_revoke_def rv_pg_evictExpired_def wf_map_insert Let_def
        split: revocation_op.splits option.splits)
  show "fst (rv_pg_step (IsRevoked us i j) s) =
      (case pg_stored s i j of Some e \<Rightarrow> pg_fresh e us | None \<Rightarrow> False)"
    by (auto simp: rv_pg_step_def rv_pg_isRevoked_def pg_stored_def pg_fresh_def split: option.splits)
  show "pg_fresh e us" if "us \<le> us'" "pg_fresh e us'"
  proof -
    have "(of_int us :: rat) \<le> of_int us'" using that(1) by simp
    with that(2) show ?thesis unfolding pg_fresh_def by linarith
  qed
  show "pg_stored (snd (rv_pg_step op s)) i j = Some e"
    if "wf_map s" "pg_stored s i j = Some e" "pg_fresh e (op_clock op)"
    using that by (cases op) (auto simp: rv_pg_step_def rv_pg_revoke_def rv_pg_evictExpired_def
        Let_def pg_stored_def pg_fresh_keep map_add_def split: option.splits)
  show "pg_stored (snd (rv_pg_step (Revoke us rc) s)) (rv_iss rc) (rv_jti rc) = Some (rv_exp rc)"
    if "fst (rv_pg_step (Revoke us rc) s)"
    using that by (auto simp: rv_pg_step_def rv_pg_revoke_def Let_def pg_stored_def map_add_def
        split: option.splits if_splits)
  show "\<exists>us rc. op = Revoke us rc \<and> (True \<longrightarrow> rv_iss rc = i \<and> rv_jti rc = j)"
    if "wf_map s" "pg_stored s i j = None" "pg_stored (snd (rv_pg_step op s)) i j \<noteq> None"
    using that by (cases op) (auto simp: rv_pg_step_def rv_pg_revoke_def rv_pg_evictExpired_def
        Let_def pg_stored_def pg_fresh_none map_add_def split: option.splits if_splits)
qed

section \<open>Paging through the feed\<close>

text \<open>A consumer that follows \<open>nextCursor\<close> until it is null, at most \<open>n\<close> times.\<close>

fun pages :: "(int \<Rightarrow> rv_page) \<Rightarrow> nat \<Rightarrow> int \<Rightarrow> revocation_record list" where
  "pages f 0 since = []"
| "pages f (Suc n) since = (case f since of (es, nc) \<Rightarrow> es @ (case nc of None \<Rightarrow> [] | Some c \<Rightarrow> pages f n c))"

lemma set_rv_insert [simp]: "set (rv_insert lc x ys) = insert x (set ys)"
  by (induction ys) auto

lemma set_rv_sort [simp]: "set (rv_sort lc xs) = set xs"
  by (induction xs) auto

lemma length_rv_insert [simp]: "length (rv_insert lc x ys) = Suc (length ys)"
  by (induction ys) auto

lemma length_rv_sort [simp]: "length (rv_sort lc xs) = length xs"
  by (induction xs) auto

lemma sorted_rv_insert: "sorted (map rv_time ys) \<Longrightarrow> sorted (map rv_time (rv_insert lc x ys))"
  by (induction ys) (force simp: rv_before_def split: if_splits)+

lemma sorted_rv_sort: "sorted (map rv_time (rv_sort lc xs))"
  by (induction xs) (auto simp: sorted_rv_insert)

lemma filter_rv_insert:
  "sorted (map rv_time ys) \<Longrightarrow> filter (\<lambda>r. c < rv_time r) (rv_insert lc x ys) =
    (if c < rv_time x then rv_insert lc x (filter (\<lambda>r. c < rv_time r) ys)
     else filter (\<lambda>r. c < rv_time r) ys)"
  by (induction ys) (auto simp: rv_before_def split: if_splits)

lemma filter_rv_sort:
  "filter (\<lambda>r. c < rv_time r) (rv_sort lc xs) = rv_sort lc (filter (\<lambda>r. c < rv_time r) xs)"
  by (induction xs) (auto simp: filter_rv_insert sorted_rv_sort)

text \<open>Cutting a time-sorted list after a whole millisecond.\<close>

lemma cut_after_group:
  assumes "sorted (map t S)" "0 < cap" "cap < length S"
  defines "e \<equiv> take cap S @ takeWhile (\<lambda>r. t r = t (last (take cap S))) (drop cap S)"
  shows "S = e @ filter (\<lambda>r. t (last e) < t r) S \<and> e \<noteq> []"
proof -
  define b where "b = t (last (take cap S))"
  define g where "g = takeWhile (\<lambda>r. t r = b) (drop cap S)"
  define rest where "rest = dropWhile (\<lambda>r. t r = b) (drop cap S)"
  have ne: "take cap S \<noteq> []" using assms(2,3) by auto
  have e: "e = take cap S @ g" by (simp add: e_def g_def b_def)
  have S: "S = e @ rest" unfolding e g_def rest_def by simp
  have gb: "\<forall>r \<in> set g. t r = b" unfolding g_def by (auto dest: set_takeWhileD)
  have last: "t (last e) = b" using gb ne by (cases "g = []") (auto simp: e b_def)
  have "take cap S @ g @ rest = S" by (simp add: g_def rest_def)
  then have so: "sorted (map t (take cap S @ g @ rest))" using assms(1) by (simp only:)
  have "t r \<le> b" if "r \<in> set (take cap S)" for r
  proof -
    obtain xs y where xy: "take cap S = xs @ [y]" using ne by (metis rev_exhaust)
    then have "sorted (map t (xs @ [y]))" using so by (simp add: sorted_append)
    with that show ?thesis unfolding b_def xy by (auto simp: sorted_append)
  qed
  with gb have low: "\<forall>r \<in> set e. \<not> b < t r" by (fastforce simp: e)
  have high: "\<forall>r \<in> set rest. b < t r"
  proof (cases rest)
    case (Cons h tl')
    have "t h \<noteq> b" using Cons unfolding rest_def by (metis (mono_tags, lifting) dropWhile_eq_Cons_conv)
    moreover have "b \<le> t h"
      using so ne Cons by (auto simp: b_def sorted_append)
    moreover have "\<forall>r \<in> set tl'. t h \<le> t r" using so Cons by (auto simp: sorted_append)
    ultimately show ?thesis using Cons by auto
  qed simp
  have "filter (\<lambda>r. b < t r) (e @ rest) = rest" using low high by (simp add: filter_id_conv [THEN iffD2])
  then have "filter (\<lambda>r. b < t r) S = rest" by (simp only: S [symmetric])
  with S last ne show ?thesis by (metis append_is_Nil_conv e)
qed

lemma mem_pages_all:
  assumes "\<forall>(k, r) \<in> set store. rv_revokedAt r \<noteq> None"
  shows "length (filter (\<lambda>r. since < rv_time r) (map snd store)) \<le> n \<Longrightarrow> 0 < n \<Longrightarrow>
    pages (\<lambda>c. rv_mem_listSince lc c limit store) n since
      = rv_sort lc (filter (\<lambda>r. since < rv_time r) (map snd store))"
proof (induction n arbitrary: since)
  case (Suc n)
  define cap where "cap = page_cap limit"
  define S where "S = rv_sort lc (filter (\<lambda>r. since < rv_time r) (map snd store))"
  have cap: "0 < cap" by (simp add: cap_def page_cap_def)
  have so: "sorted (map rv_time S)" by (simp add: S_def sorted_rv_sort)
  have list: "rv_mem_listSince lc since limit store =
      (let e = take cap S;
           e' = (if length e = cap \<and> length S > cap
             then e @ takeWhile (\<lambda>r. rv_time r = rv_time (last e)) (drop cap S) else e)
       in (e', if length e' < length S then rv_revokedAt (last e') else None))"
    by (simp only: rv_mem_listSince_def S_def cap_def Let_def)
  show ?case
  proof (cases "cap < length S")
    case False
    then have "rv_mem_listSince lc since limit store = (S, None)" unfolding list by (simp add: Let_def)
    then show ?thesis by (simp add: S_def)
  next
    case True
    define e where "e = take cap S @ takeWhile (\<lambda>r. rv_time r = rv_time (last (take cap S))) (drop cap S)"
    from cut_after_group [OF so cap True] have cut: "S = e @ filter (\<lambda>r. rv_time (last e) < rv_time r) S" "e \<noteq> []"
      unfolding e_def by auto
    have page: "rv_mem_listSince lc since limit store = (e, if length e < length S then rv_revokedAt (last e) else None)"
      unfolding list using True by (simp add: Let_def e_def)
    show ?thesis
    proof (cases "length e < length S")
      case False
      with cut have "e = S" by (metis append_eq_conv_conj le_neq_implies_less length_append le_add1 self_append_conv)
      with page show ?thesis by (simp add: S_def)
    next
      case more: True
      have "last e \<in> set S" using cut(1) last_in_set [OF cut(2)] by (metis Un_iff set_append)
      then have le: "last e \<in> set (map snd store)" "since < rv_time (last e)" by (auto simp: S_def)
      then have "rv_revokedAt (last e) \<noteq> None" using assms by fastforce
      then have rt: "rv_revokedAt (last e) = Some (rv_time (last e))" by (auto simp: rv_time_def)
      define c where "c = rv_time (last e)"
      have rest: "filter (\<lambda>r. c < rv_time r) S = rv_sort lc (filter (\<lambda>r. c < rv_time r) (map snd store))"
      proof -
        have "filter (\<lambda>r. c < rv_time r) (filter (\<lambda>r. since < rv_time r) (map snd store))
            = filter (\<lambda>r. c < rv_time r) (map snd store)"
          using le(2) by (auto simp: c_def intro: filter_cong)
        then show ?thesis unfolding S_def filter_rv_sort by simp
      qed
      have "length (filter (\<lambda>r. c < rv_time r) S) < length S"
        using cut by (metis c_def length_append length_greater_0_conv less_add_same_cancel2)
      then have len: "length (filter (\<lambda>r. c < rv_time r) (map snd store)) \<le> n"
        using Suc.prems(1) rest by (simp add: S_def)
      have "0 < n"
      proof (rule ccontr)
        assume "\<not> 0 < n"
        with len have "length (filter (\<lambda>r. c < rv_time r) S) = 0" unfolding rest length_rv_sort by linarith
        then have "filter (\<lambda>r. c < rv_time r) S = []" by simp
        with cut(1) more show False by (metis append.right_neutral c_def less_irrefl)
      qed
      from Suc.IH [OF len this] page more rt rest cut(1) show ?thesis
        by (simp add: c_def S_def [symmetric])
    qed
  qed
qed simp

section \<open>Properties\<close>

text \<open>A revoked token stays revoked until it expires, in memory: once \<open>revoke\<close> has accepted a record, every
  later sequence of revocations, queries (with their lazy eviction) and sweeps up to a time at which the token
  has not expired leaves \<open>isRevoked\<close> true.\<close>

theorem mem_stays_revoked:
  assumes "wf_map s" "fst (rv_mem_revoke us0 rc s)" "\<forall>op \<in> set ops. op_clock op \<le> us"
    and "of_int (now_seconds us) \<le> rv_exp rc"
  shows "fst (rv_mem_isRevoked us (rv_iss rc) (rv_jti rc)
    (snd (run_ops rv_mem_step ops (snd (rv_mem_revoke us0 rc s)))))"
  using rv_mem.stays_revoked [of s us0 rc ops us] assms by (simp add: rv_mem_step_def mem_fresh_def)

definition sample_revocation :: revocation_record where
  "sample_revocation = \<lparr>rv_jti = ''j1'', rv_sub = ''did:web:a'', rv_iss = ''peer'', rv_exp = 100,
     rv_revokedBy = ''admin'', rv_reason = ''admin_revoke'', rv_revokedAt = None\<rparr>"

theorem mem_stays_revoked_witness:
  "fst (rv_mem_isRevoked 99000000 ''peer'' ''j1''
    (snd (run_ops rv_mem_step [EvictRevoked 98000000, IsRevoked 99000000 ''peer'' ''j1'']
      (snd (rv_mem_revoke 1000000 sample_revocation [])))))"
proof -
  have "fst (rv_mem_revoke 1000000 sample_revocation [])" by (simp add: rv_mem_revoke_def)
  moreover have "(of_int (now_seconds 99000000) :: rat) \<le> rv_exp sample_revocation"
    by (simp add: now_seconds_eq sample_revocation_def)
  ultimately show ?thesis
    using mem_stays_revoked [of "[]" 1000000 sample_revocation
        "[EvictRevoked 98000000, IsRevoked 99000000 ''peer'' ''j1'']" 99000000]
    by (simp add: sample_revocation_def)
qed

text \<open>The same for the table, where \<open>isRevoked\<close> compares the expiry with the exact epoch of the database.\<close>

theorem pg_stays_revoked:
  assumes "wf_map s" "fst (rv_pg_step (Revoke us0 rc) s)" "\<forall>op \<in> set ops. op_clock op \<le> us"
    and "of_int us < rv_exp rc * 1000000"
  shows "rv_pg_isRevoked us (rv_iss rc) (rv_jti rc)
    (snd (run_ops rv_pg_step ops (snd (rv_pg_step (Revoke us0 rc) s))))"
  using rv_pg.stays_revoked [of s us0 rc ops us] assms by (simp add: rv_pg_step_def pg_fresh_def)

theorem pg_stays_revoked_witness:
  "rv_pg_isRevoked 99000000 ''peer'' ''j1''
    (snd (run_ops rv_pg_step [EvictRevoked 98000000] (snd (rv_pg_step (Revoke 1000000 sample_revocation) []))))"
proof -
  have "fst (rv_pg_step (Revoke 1000000 sample_revocation) [])"
    by (simp add: rv_pg_step_def rv_pg_revoke_def sample_revocation_def bigint_def nul_free_def)
  then show ?thesis
    using pg_stays_revoked [of "[]" 1000000 sample_revocation "[EvictRevoked 98000000]" 99000000]
    by (simp add: sample_revocation_def)
qed

text \<open>Issuer isolation of both stores: no sequence of operations whose revocations are all for other
  \<open>(iss, jti)\<close> pairs makes a token revoked that was not stored. In memory the pair is joined with NUL, so
  the issuers must not contain NUL; a jti may.\<close>

theorem revocation_isolation:
  assumes "wf_map s" "nul_free i" "rv_mem_get i j s = None"
    and "\<forall>us rc. Revoke us rc \<in> set ops \<longrightarrow> nul_free (rv_iss rc) \<and> (rv_iss rc, rv_jti rc) \<noteq> (i, j)"
    and "wf_map rows" "rv_pg_get i j rows = None"
  shows "\<not> fst (rv_mem_isRevoked us i j (snd (run_ops rv_mem_step ops s)))
    \<and> \<not> rv_pg_isRevoked us i j (snd (run_ops rv_pg_step ops rows))"
proof
  show "\<not> fst (rv_mem_isRevoked us i j (snd (run_ops rv_mem_step ops s)))"
    using rv_mem.never_revoked [of s i j ops us] assms(1-4)
    by (simp add: rv_mem_step_def mem_stored_def rv_mem_get_def)
  show "\<not> rv_pg_isRevoked us i j (snd (run_ops rv_pg_step ops rows))"
    using rv_pg.never_revoked [of rows i j ops us] assms(4-6)
    by (simp add: rv_pg_step_def pg_stored_def rv_pg_get_def)
qed

theorem revocation_isolation_witness:
  "\<not> fst (rv_mem_isRevoked 5 ''local'' ''j1'' (snd (run_ops rv_mem_step [Revoke 1 sample_revocation] [])))
   \<and> \<not> rv_pg_isRevoked 5 ''local'' ''j1'' (snd (run_ops rv_pg_step [Revoke 1 sample_revocation] []))"
  using revocation_isolation [of "[]" "''local''" "''j1''" "[Revoke 1 sample_revocation]" "[]" 5]
  by (simp add: nul_free_def rv_mem_get_def rv_pg_get_def sample_revocation_def)

text \<open>Lossless paging of the in-memory feed: following \<open>nextCursor\<close> from any cursor delivers, in order
  and exactly once, every stored revocation after the cursor, for every page limit; as many requests as
  there are entries are enough. The final millisecond of a page is never split.\<close>

theorem mem_feed_complete:
  assumes "\<forall>(k, r) \<in> set store. rv_revokedAt r \<noteq> None" "length store < n"
  shows "pages (\<lambda>c. rv_mem_listSince lc c limit store) n since
    = rv_sort lc (filter (\<lambda>r. since < rv_time r) (map snd store))"
proof -
  have "length (filter (\<lambda>r. since < rv_time r) (map snd store)) \<le> length store"
    by (metis length_filter_le length_map)
  with assms(2) have "length (filter (\<lambda>r. since < rv_time r) (map snd store)) \<le> n" "0 < n" by linarith+
  with assms(1) show ?thesis by (intro mem_pages_all) auto
qed

definition at_ms :: "int \<Rightarrow> string \<Rightarrow> revocation_record" where
  "at_ms t j = sample_revocation\<lparr>rv_jti := j, rv_revokedAt := Some t\<rparr>"

theorem mem_feed_complete_witness:
  "pages (\<lambda>c. rv_mem_listSince (\<lambda>a b. 0) c 1 [(''k1'', at_ms 7 ''a''), (''k2'', at_ms 7 ''b''), (''k3'', at_ms 5 ''c'')]) 4 0
    = [at_ms 5 ''c'', at_ms 7 ''a'', at_ms 7 ''b'']"
proof -
  have "rv_sort (\<lambda>a b. 0) (filter (\<lambda>r. 0 < rv_time r) (map snd
      [(''k1'', at_ms 7 ''a''), (''k2'', at_ms 7 ''b''), (''k3'', at_ms 5 ''c'')]))
    = [at_ms 5 ''c'', at_ms 7 ''a'', at_ms 7 ''b'']"
    by (simp add: at_ms_def rv_time_def rv_before_def)
  then show ?thesis
    using mem_feed_complete [of "[(''k1'', at_ms 7 ''a''), (''k2'', at_ms 7 ''b''), (''k3'', at_ms 5 ''c'')]"
        4 "\<lambda>a b. 0" 1 0]
    by (simp add: at_ms_def)
qed

definition stalled_rows :: rv_rows where
  "stalled_rows = [((''peer'', ''a''), (at_ms 0 ''a'', 7000200)), ((''peer'', ''b''), (at_ms 0 ''b'', 7000700))]"

lemma stalled_page:
  "since \<in> {0, 7000} \<Longrightarrow> rv_pg_listSince (\<lambda>x y. True) since 1 stalled_rows = ([at_ms 7000 ''a''], Some 7000)"
  by (auto simp: rv_pg_listSince_def stalled_rows_def page_cap_def rv_pg_row_def at_ms_def Let_def)

lemma stalled_pages: "since \<in> {0, 7000} \<Longrightarrow> set (pages (\<lambda>c. rv_pg_listSince (\<lambda>x y. True) c 1 stalled_rows) n since) \<subseteq> {at_ms 7000 ''a''}"
proof (induction n arbitrary: since)
  case (Suc n)
  then show ?case by (simp add: stalled_page)
qed simp

text \<open>The Postgres feed does not have that property: with two revocations in one millisecond and a page
  limit of 1, the floored cursor returns to the same millisecond, so every further request repeats the first
  entry and the second is never delivered.\<close>

theorem pg_feed_stalls:
  "at_ms 7000 ''b'' \<notin> set (pages (\<lambda>c. rv_pg_listSince (\<lambda>x y. True) c 1 stalled_rows) n 0)"
proof
  assume "at_ms 7000 ''b'' \<in> set (pages (\<lambda>c. rv_pg_listSince (\<lambda>x y. True) c 1 stalled_rows) n 0)"
  with stalled_pages [of 0 n] have "at_ms 7000 ''b'' = at_ms 7000 ''a''" by blast
  then have "rv_jti (at_ms 7000 ''b'') = rv_jti (at_ms 7000 ''a'')" by simp
  then show False by (simp add: at_ms_def)
qed

end
