(* ===== verification/Errors.thy ===== *)
theory Errors
  imports Prelude
begin

text \<open>
  Errors and the request helpers every controller shares: \<open>src/src/errors/error-codes.ts\<close>,
  \<open>app-exception.ts\<close>, \<open>exception.filter.ts\<close>, \<open>src/src/auth/admin.ts\<close>, \<open>src/src/auth/scopes.ts\<close>.

  A handler that can throw returns \<open>exn + 'a\<close>. The filter turns an exception into the status and the body of
  the response.
\<close>

section \<open>Error codes and exceptions\<close>

datatype error_code =
    RUN_NOT_FOUND | REGISTRY_NOT_FOUND | AGENT_NOT_FOUND | CONTEXT_NOT_FOUND
  | FEDERATION_UPSTREAM_RATE_LIMITED | FEDERATION_UPSTREAM_ERROR | SERVICE_DRAINING | CONTEXT_ID_MISMATCH
  | CONTEXT_BINDING_UNVERIFIABLE | INVALID_PAYLOAD | INVALID_SIGNATURE | INVALID_LOG_PROOF
  | INVALID_WITNESS_COSIGNATURE | VALIDATION_ERROR | INTERNAL_ERROR | UNAUTHORIZED | FORBIDDEN
  | NOT_FOUND | PAYLOAD_TOO_LARGE | RATE_LIMITED | REQUEST_REJECTED | ADMIN_REQUIRED | TENANT_RESERVED
  | TENANT_MISMATCH | TENANT_REQUIRED | TENANT_HEADER_UNTRUSTED | INVALID_WEBHOOK_SIGNATURE
  | REGISTRY_DISABLED | ISSUER_READ_ONLY | REGISTRY_NOT_ENROLLED | REGISTRY_ENROLLED_ELSEWHERE
  | POLICY_DENIED | QUOTA_EXCEEDED | DEPENDENCY_UNAVAILABLE

fun code_string :: "error_code \<Rightarrow> string" where
  "code_string RUN_NOT_FOUND = ''RUN_NOT_FOUND''"
| "code_string REGISTRY_NOT_FOUND = ''REGISTRY_NOT_FOUND''"
| "code_string AGENT_NOT_FOUND = ''AGENT_NOT_FOUND''"
| "code_string CONTEXT_NOT_FOUND = ''CONTEXT_NOT_FOUND''"
| "code_string FEDERATION_UPSTREAM_RATE_LIMITED = ''FEDERATION_UPSTREAM_RATE_LIMITED''"
| "code_string FEDERATION_UPSTREAM_ERROR = ''FEDERATION_UPSTREAM_ERROR''"
| "code_string SERVICE_DRAINING = ''SERVICE_DRAINING''"
| "code_string CONTEXT_ID_MISMATCH = ''CONTEXT_ID_MISMATCH''"
| "code_string CONTEXT_BINDING_UNVERIFIABLE = ''CONTEXT_BINDING_UNVERIFIABLE''"
| "code_string INVALID_PAYLOAD = ''INVALID_PAYLOAD''"
| "code_string INVALID_SIGNATURE = ''INVALID_SIGNATURE''"
| "code_string INVALID_LOG_PROOF = ''INVALID_LOG_PROOF''"
| "code_string INVALID_WITNESS_COSIGNATURE = ''INVALID_WITNESS_COSIGNATURE''"
| "code_string VALIDATION_ERROR = ''VALIDATION_ERROR''"
| "code_string INTERNAL_ERROR = ''INTERNAL_ERROR''"
| "code_string UNAUTHORIZED = ''UNAUTHORIZED''"
| "code_string FORBIDDEN = ''FORBIDDEN''"
| "code_string NOT_FOUND = ''NOT_FOUND''"
| "code_string PAYLOAD_TOO_LARGE = ''PAYLOAD_TOO_LARGE''"
| "code_string RATE_LIMITED = ''RATE_LIMITED''"
| "code_string REQUEST_REJECTED = ''REQUEST_REJECTED''"
| "code_string ADMIN_REQUIRED = ''ADMIN_REQUIRED''"
| "code_string TENANT_RESERVED = ''TENANT_RESERVED''"
| "code_string TENANT_MISMATCH = ''TENANT_MISMATCH''"
| "code_string TENANT_REQUIRED = ''TENANT_REQUIRED''"
| "code_string TENANT_HEADER_UNTRUSTED = ''TENANT_HEADER_UNTRUSTED''"
| "code_string INVALID_WEBHOOK_SIGNATURE = ''INVALID_WEBHOOK_SIGNATURE''"
| "code_string REGISTRY_DISABLED = ''REGISTRY_DISABLED''"
| "code_string ISSUER_READ_ONLY = ''ISSUER_READ_ONLY''"
| "code_string REGISTRY_NOT_ENROLLED = ''REGISTRY_NOT_ENROLLED''"
| "code_string REGISTRY_ENROLLED_ELSEWHERE = ''REGISTRY_ENROLLED_ELSEWHERE''"
| "code_string POLICY_DENIED = ''POLICY_DENIED''"
| "code_string QUOTA_EXCEEDED = ''QUOTA_EXCEEDED''"
| "code_string DEPENDENCY_UNAVAILABLE = ''DEPENDENCY_UNAVAILABLE''"

text \<open>A thrown value: an \<open>AppException\<close> (code, message, status, metadata), another \<open>HttpException\<close> (status
  and body), another object with its readable members, or anything else.\<close>

datatype exn =
    AppException error_code string int "jobj option"
  | HttpException int json
  | OtherObject jobj
  | OtherValue

text \<open>The exceptions of the framework that the sources throw with a message.\<close>

definition http_exception :: "int \<Rightarrow> string \<Rightarrow> string \<Rightarrow> exn" where
  "http_exception status name message = HttpException status
     (JObj [(''message'', JStr message), (''error'', JStr name), (''statusCode'', JNum (num_of_int status))])"

definition unauthorized :: "string \<Rightarrow> exn" where
  "unauthorized message = http_exception 401 ''Unauthorized'' message"

definition bad_request :: "string \<Rightarrow> exn" where
  "bad_request message = http_exception 400 ''Bad Request'' message"

text \<open>The response body \<open>AppException\<close> builds.\<close>

definition app_body :: "error_code \<Rightarrow> string \<Rightarrow> int \<Rightarrow> jobj option \<Rightarrow> jobj" where
  "app_body code message status metadata =
     [(''statusCode'', JNum (num_of_int status)), (''errorCode'', JStr (code_string code)), (''message'', JStr message)]
     @ (case metadata of Some m \<Rightarrow> [(''metadata'', JObj m)] | None \<Rightarrow> [])"

section \<open>The exception filter\<close>

definition defaultErrorCode :: "int \<Rightarrow> error_code" where
  "defaultErrorCode status =
     (if status = 400 then INVALID_PAYLOAD
      else if status = 401 then UNAUTHORIZED
      else if status = 403 then FORBIDDEN
      else if status = 404 then NOT_FOUND
      else if status = 413 then PAYLOAD_TOO_LARGE
      else if status = 429 then RATE_LIMITED
      else if status \<ge> 400 \<and> status < 500 then REQUEST_REJECTED
      else INTERNAL_ERROR)"

definition asExposedClientError :: "exn \<Rightarrow> (int \<times> string) option" where
  "asExposedClientError e = (case e of
     OtherObject ob \<Rightarrow>
       (case as_int (get_prop ob ''status'') of
          Some status \<Rightarrow>
            if status < 400 \<or> status \<ge> 500 \<or> get_prop ob ''expose'' \<noteq> Some (JBool True) then None
            else Some (status, (case as_string (get_prop ob ''message'') of Some m \<Rightarrow> m | None \<Rightarrow> ''client error''))
        | None \<Rightarrow> None)
   | _ \<Rightarrow> None)"

text \<open>\<open>v ?? d\<close>: \<open>null\<close> and \<open>undefined\<close> give the default.\<close>

definition nullish :: "json option \<Rightarrow> json \<Rightarrow> json" where
  "nullish v d = (case v of None \<Rightarrow> d | Some JNull \<Rightarrow> d | Some j \<Rightarrow> j)"

definition is_object :: "json option \<Rightarrow> bool" where
  "is_object v = (case v of Some (JObj _) \<Rightarrow> True | Some (JArr _) \<Rightarrow> True | _ \<Rightarrow> False)"

definition withAcdpEnvelope :: "json \<Rightarrow> int \<Rightarrow> json" where
  "withAcdpEnvelope body status = (case body of
     JObj b \<Rightarrow>
       if is_object (get_prop b ''error'') then body
       else (let code = nullish (get_prop b ''errorCode'') (JStr (code_string (defaultErrorCode status)));
                 details = (case get_prop b ''metadata'' of Some m \<Rightarrow> [(''details'', m)] | None \<Rightarrow> [])
             in JObj (AList.update ''error''
                  (JObj ([(''code'', code), (''message'', nullish (get_prop b ''message'') (JStr ''error''))] @ details))
                  (AList.update ''errorCode'' code b)))
   | _ \<Rightarrow> body)"

definition error_body :: "int \<Rightarrow> error_code \<Rightarrow> string \<Rightarrow> json" where
  "error_body status code message =
     JObj [(''statusCode'', JNum (num_of_int status)), (''errorCode'', JStr (code_string code)), (''message'', JStr message)]"

text \<open>\<open>catch\<close>: the status and the enveloped body the filter sends.\<close>

definition catch_exn :: "exn \<Rightarrow> int \<times> json" where
  "catch_exn e = (case e of
     AppException code message status metadata \<Rightarrow>
       (status, withAcdpEnvelope (JObj (app_body code message status metadata)) status)
   | HttpException status body \<Rightarrow>
       (status, withAcdpEnvelope (case body of
          JStr message \<Rightarrow> error_body status (defaultErrorCode status) message
        | _ \<Rightarrow> body) status)
   | _ \<Rightarrow> (case asExposedClientError e of
        Some (status, message) \<Rightarrow>
          (status, withAcdpEnvelope (error_body status (defaultErrorCode status) message) status)
      | None \<Rightarrow> (500, withAcdpEnvelope (error_body 500 INTERNAL_ERROR ''Internal server error'') 500)))"

section \<open>Admin gate and scopes\<close>

definition assertAdmin :: "bool option \<Rightarrow> string \<Rightarrow> exn + unit" where
  "assertAdmin actorIsAdmin message =
     (if actorIsAdmin \<noteq> Some True then Inl (AppException ADMIN_REQUIRED message 403 None) else Inr ())"

text \<open>\<open>value.split(/\s+/).filter(Boolean)\<close>: the maximal runs of non-space characters.\<close>

fun words_acc :: "string \<Rightarrow> string \<Rightarrow> string list" where
  "words_acc cur [] = (if cur = [] then [] else [rev cur])"
| "words_acc cur (c # cs) =
     (if js_space c then (if cur = [] then words_acc [] cs else rev cur # words_acc [] cs)
      else words_acc (c # cur) cs)"

definition split_words :: "string \<Rightarrow> string list" where
  "split_words s = words_acc [] s"

definition fromClaim :: "json option \<Rightarrow> string list" where
  "fromClaim v = (case v of
     Some (JStr s) \<Rightarrow> split_words s
   | Some (JArr xs) \<Rightarrow> concat (map (\<lambda>x. case x of JStr s \<Rightarrow> if s \<noteq> [] then [s] else [] | _ \<Rightarrow> []) xs)
   | _ \<Rightarrow> [])"

text \<open>Adding to a \<open>Set\<close>, which lists its members in insertion order.\<close>

definition set_add :: "'a \<Rightarrow> 'a list \<Rightarrow> 'a list" where
  "set_add x xs = (if x \<in> set xs then xs else xs @ [x])"

definition set_of :: "'a list \<Rightarrow> 'a list" where
  "set_of xs = fold set_add xs []"

definition readScopes :: "jobj \<Rightarrow> string list" where
  "readScopes claims = set_of (concat (map (\<lambda>k. fromClaim (get_prop claims k)) [''scope'', ''scopes'', ''scp'']))"

definition parseScopeString :: "string option \<Rightarrow> string list" where
  "parseScopeString raw = fromClaim (Some (JStr (case raw of Some s \<Rightarrow> s | None \<Rightarrow> [])))"

section \<open>Lemmas\<close>

lemma set_fold_set_add: "set (fold set_add xs ys) = set xs \<union> set ys"
  by (induction xs arbitrary: ys) (auto simp: set_add_def)

lemma distinct_fold_set_add: "distinct ys \<Longrightarrow> distinct (fold set_add xs ys)"
  by (induction xs arbitrary: ys) (auto simp: set_add_def)

lemma set_set_of [simp]: "set (set_of xs) = set xs"
  by (simp add: set_of_def set_fold_set_add)

lemma distinct_set_of [simp]: "distinct (set_of xs)"
  by (simp add: set_of_def distinct_fold_set_add)

lemma assertAdmin_ok [simp]: "assertAdmin a m = Inr u \<longleftrightarrow> a = Some True"
  by (auto simp: assertAdmin_def)

lemma code_string_internal: "code_string c = ''INTERNAL_ERROR'' \<longleftrightarrow> c = INTERNAL_ERROR"
  by (cases c) simp_all

lemma client_status_not_internal: "400 \<le> status \<Longrightarrow> status < 500 \<Longrightarrow> defaultErrorCode status \<noteq> INTERNAL_ERROR"
  by (simp add: defaultErrorCode_def)

lemma words_acc_split:
  "w \<in> set (words_acc cur s) \<Longrightarrow> list_all (\<lambda>c. \<not> js_space c) cur \<Longrightarrow> w \<noteq> [] \<and> list_all (\<lambda>c. \<not> js_space c) w"
  by (induction cur s rule: words_acc.induct) (auto split: if_splits)

text \<open>The envelope the filter adds to an object body that has none.\<close>

lemma envelope_members:
  assumes "\<not> is_object (get_prop b ''error'')"
  shows "\<exists>ob env. withAcdpEnvelope (JObj b) status = JObj ob \<and> get_prop ob ''error'' = Some (JObj env)
    \<and> get_prop ob ''errorCode'' = get_prop env ''code''
    \<and> get_prop env ''code'' = Some (nullish (get_prop b ''errorCode'') (JStr (code_string (defaultErrorCode status))))"
  using assms by (auto simp: withAcdpEnvelope_def get_prop_def update_conv Let_def)

text \<open>An exception that carries no error code and no envelope of its own; an \<open>AppException\<close> always has a code.\<close>

definition unlabelled :: "exn \<Rightarrow> bool" where
  "unlabelled e = (case e of
     AppException code message status metadata \<Rightarrow> code \<noteq> INTERNAL_ERROR
   | HttpException status (JObj b) \<Rightarrow> get_prop b ''errorCode'' = None \<and> \<not> is_object (get_prop b ''error'')
   | _ \<Rightarrow> True)"

lemma envelope_not_internal:
  assumes "withAcdpEnvelope (JObj b) status = JObj ob" "\<not> is_object (get_prop b ''error'')"
    and "nullish (get_prop b ''errorCode'') (JStr (code_string (defaultErrorCode status))) \<noteq> JStr ''INTERNAL_ERROR''"
  shows "\<exists>env. get_prop ob ''error'' = Some (JObj env) \<and> get_prop ob ''errorCode'' = get_prop env ''code''
    \<and> get_prop ob ''errorCode'' \<noteq> Some (JStr ''INTERNAL_ERROR'')"
  using envelope_members [OF assms(2), of status] assms(1,3) by auto

lemmas body_simps = error_body_def app_body_def get_prop_def is_object_def nullish_def
  code_string_internal client_status_not_internal

section \<open>Properties\<close>

text \<open>Every client error (status 400 to 499) that the filter labels itself leaves with an ACDP envelope
  whose code is the body's \<open>errorCode\<close>, and that code is never \<open>INTERNAL_ERROR\<close>, which clients may retry.\<close>

theorem client_error_never_internal:
  assumes "catch_exn e = (status, JObj ob)" "400 \<le> status" "status < 500" "unlabelled e"
  shows "\<exists>env. get_prop ob ''error'' = Some (JObj env) \<and> get_prop ob ''errorCode'' = get_prop env ''code''
    \<and> get_prop ob ''errorCode'' \<noteq> Some (JStr ''INTERNAL_ERROR'')"
proof (cases e)
  case (AppException code message st metadata)
  then have "withAcdpEnvelope (JObj (app_body code message status metadata)) status = JObj ob"
    using assms(1) by (auto simp: catch_exn_def)
  from envelope_not_internal [OF this] assms(4) AppException show ?thesis
    by (simp add: body_simps unlabelled_def split: option.splits)
next
  case (HttpException st body)
  then have sent: "withAcdpEnvelope (case body of JStr m \<Rightarrow> error_body status (defaultErrorCode status) m | _ \<Rightarrow> body) status
      = JObj ob" using assms(1) by (auto simp: catch_exn_def)
  show ?thesis
  proof (cases body)
    case (JStr m)
    with sent envelope_not_internal [of _ status ob] assms(2,3) show ?thesis by (simp add: body_simps)
  next
    case (JObj b)
    with sent envelope_not_internal [of b status ob] assms(2-4) HttpException show ?thesis
      by (simp add: unlabelled_def nullish_def code_string_internal client_status_not_internal)
  qed (use sent in \<open>simp_all add: withAcdpEnvelope_def\<close>)
next
  case (OtherObject x)
  show ?thesis
  proof (cases "asExposedClientError e")
    case (Some p)
    with OtherObject assms(1) envelope_not_internal [of _ status ob] assms(2,3) show ?thesis
      by (cases p) (auto simp: catch_exn_def body_simps)
  qed (use OtherObject assms(1-3) in \<open>simp add: catch_exn_def\<close>)
qed (use assms(1-3) in \<open>simp add: catch_exn_def asExposedClientError_def\<close>)

theorem client_error_never_internal_witness:
  "\<exists>ob env. catch_exn (HttpException 429 (JStr ''slow down'')) = (429, JObj ob)
    \<and> get_prop ob ''error'' = Some (JObj env) \<and> get_prop ob ''errorCode'' = get_prop env ''code''
    \<and> get_prop ob ''errorCode'' \<noteq> Some (JStr ''INTERNAL_ERROR'')"
proof -
  obtain ob where "catch_exn (HttpException 429 (JStr ''slow down'')) = (429, JObj ob)"
    by (simp add: catch_exn_def error_body_def withAcdpEnvelope_def body_simps Let_def)
  with client_error_never_internal [OF this] show ?thesis by (auto simp: unlabelled_def)
qed

end
