(* ===== verification/RevocationPoller.thy ===== *)
theory RevocationPoller
  imports Revocation Errors
begin

text \<open>
  Federated revocation: \<open>src/src/auth/revocation-feed.controller.ts\<close> (the feed a control plane serves),
  \<open>src/src/auth/revocation-feeds.ts\<close> (the configured peers) and
  \<open>src/src/auth/revocation-poller.service.ts\<close> (the poller that copies a peer's feed into the local store).

  The peer is the function \<open>http_get\<close>: the answer to \<open>GET feed_url?since=cursor&limit=200\<close> with the feed's
  bearer token, or \<open>None\<close> when the request fails. An answer carries the byte length of the body and the
  value \<open>JSON.parse\<close> gives for it (\<open>None\<close> when it throws). The revocation repository is the pair \<open>revoke\<close> (where
  \<open>None\<close> is a rejected promise) and \<open>setc\<close>; both providers are instances.

  The locale \<open>polled_repository\<close> extends the contract of the repository by the two laws the poller needs, and
  holds the poller's lemmas: what it writes belongs to the polled issuer, and the cursor moves past a page
  only when every honoured entry of the page is stored.
\<close>

section \<open>Configuration\<close>

record feed_config =
  fc_issuer :: string
  fc_feedUrl :: string
  fc_adminToken :: string
  fc_pollSeconds :: int

datatype feed_error =
    FeedFieldCount string nat
  | FeedEmptyField string
  | FeedUrlForm string string
  | FeedDuplicateIssuer string
  | FeedPollSeconds string string

definition DEFAULT_REVOCATION_POLL_SECONDS :: int where
  "DEFAULT_REVOCATION_POLL_SECONDS = 300"

definition poll_seconds :: "string \<Rightarrow> string option \<Rightarrow> feed_error + int" where
  "poll_seconds issuer pollRaw = (case pollRaw of
     None \<Rightarrow> Inr DEFAULT_REVOCATION_POLL_SECONDS
   | Some raw \<Rightarrow>
       if raw = [] then Inr DEFAULT_REVOCATION_POLL_SECONDS
       else (case js_number_string raw of
           Fin r \<Rightarrow> if r < 1 then Inl (FeedPollSeconds issuer raw) else Inr \<lfloor>r\<rfloor>
         | _ \<Rightarrow> Inl (FeedPollSeconds issuer raw)))"

definition parse_feed :: "string list \<Rightarrow> string \<Rightarrow> feed_error + feed_config" where
  "parse_feed seen entry =
     (let parts = split_on (CHR ''|'') entry
      in if length parts < 3 then Inl (FeedFieldCount entry (length parts))
         else (let issuer = parts ! 0; feedUrl = parts ! 1; adminToken = parts ! 2;
                   pollRaw = (if length parts > 3 then Some (parts ! 3) else None)
               in and_then (throw_if (issuer = [] \<or> feedUrl = [] \<or> adminToken = []) (FeedEmptyField entry)) (\<lambda>_.
                  and_then (throw_if (\<not> starts_with ''http://'' feedUrl \<and> \<not> starts_with ''https://'' feedUrl)
                      (FeedUrlForm issuer feedUrl)) (\<lambda>_.
                  and_then (throw_if (issuer \<in> set seen) (FeedDuplicateIssuer issuer)) (\<lambda>_.
                  and_then (poll_seconds issuer pollRaw) (\<lambda>secs.
                  Inr \<lparr>fc_issuer = issuer, fc_feedUrl = feedUrl, fc_adminToken = adminToken, fc_pollSeconds = secs\<rparr>))))))"

fun parse_feeds :: "string list \<Rightarrow> string list \<Rightarrow> feed_error + feed_config list" where
  "parse_feeds seen [] = Inr []"
| "parse_feeds seen (entry # es) =
     and_then (parse_feed seen entry) (\<lambda>f.
     and_then (parse_feeds (fc_issuer f # seen) es) (\<lambda>fs. Inr (f # fs)))"

definition parseRevocationFeeds :: "string \<Rightarrow> feed_error + feed_config list" where
  "parseRevocationFeeds raw = parse_feeds [] (split_trim (CHR '','') raw)"

section \<open>The feed a control plane serves\<close>

text \<open>One entry of the response body.\<close>

definition feed_entry_json :: "revocation_record \<Rightarrow> json" where
  "feed_entry_json r = JObj [(''jti'', JStr (rv_jti r)), (''sub'', JStr (rv_sub r)), (''iss'', JStr (rv_iss r)),
     (''exp'', JNum (Fin (rv_exp r))), (''revoked_at_ms'', JNum (num_of_int (rv_time r)))]"

definition feed :: "(int \<Rightarrow> int \<Rightarrow> rv_page) \<Rightarrow> bool option \<Rightarrow> string option \<Rightarrow> string option \<Rightarrow> exn + json" where
  "feed listSince actorIsAdmin since limit =
     and_then (assertAdmin actorIsAdmin ''revocation feed is admin-only'') (\<lambda>_.
       let sinceMs = parseInt10 (case since of Some s \<Rightarrow> s | None \<Rightarrow> ''0'');
           cap = parseInt10 (case limit of Some s \<Rightarrow> s | None \<Rightarrow> ''200'');
           page = listSince (case sinceMs of Some n \<Rightarrow> n | None \<Rightarrow> 0) (case cap of Some n \<Rightarrow> n | None \<Rightarrow> 200)
       in Inr (JObj [(''entries'', JArr (map feed_entry_json (fst page))),
            (''next_cursor'', (case snd page of Some c \<Rightarrow> JNum (num_of_int c) | None \<Rightarrow> JNull))]))"

section \<open>Reading a feed\<close>

record feed_entry =
  fe_jti :: string
  fe_sub :: string
  fe_iss :: string
  fe_exp :: jsnum
  fe_revoked_at_ms :: jsnum

record feed_response =
  fr_entries :: "feed_entry list"
  fr_next_cursor :: "jsnum option"

datatype poll_error =
    InsecureUrl
  | TransportFailed
  | RedirectRefused
  | HttpStatus int
  | BodyTooLarge
  | InvalidJson
  | NotAnObject
  | NoEntriesArray

definition normalize_entry :: "json \<Rightarrow> feed_entry option" where
  "normalize_entry raw = (case raw of
     JObj r \<Rightarrow> (case as_string (get_prop r ''jti'') of
         Some jti \<Rightarrow> if jti = [] then None
           else Some \<lparr>fe_jti = jti,
             fe_sub = (case as_string (get_prop r ''sub'') of Some s \<Rightarrow> s | None \<Rightarrow> []),
             fe_iss = (case as_string (get_prop r ''iss'') of Some s \<Rightarrow> s | None \<Rightarrow> []),
             fe_exp = js_number_opt (get_prop r ''exp''),
             fe_revoked_at_ms = js_number_opt (get_prop r ''revoked_at_ms'')\<rparr>
       | None \<Rightarrow> None)
   | _ \<Rightarrow> None)"

definition normalizeFeedResponse :: "json \<Rightarrow> poll_error + feed_response" where
  "normalizeFeedResponse j = (case j of
     JObj ob \<Rightarrow> (case get_prop ob ''entries'' of
         Some (JArr raws) \<Rightarrow> Inr \<lparr>fr_entries = List.map_filter normalize_entry raws,
           fr_next_cursor = as_number (get_prop ob ''next_cursor'')\<rparr>
       | _ \<Rightarrow> Inl NoEntriesArray)
   | JArr _ \<Rightarrow> Inl NoEntriesArray
   | _ \<Rightarrow> Inl NotAnObject)"

definition MAX_FEED_BYTES :: int where
  "MAX_FEED_BYTES = 1024 * 1024"

type_synonym http_get = "feed_config \<Rightarrow> jsnum \<Rightarrow> http_answer option"

definition fetchOnce :: "bool \<Rightarrow> http_get \<Rightarrow> feed_config \<Rightarrow> jsnum \<Rightarrow> poll_error + feed_response" where
  "fetchOnce isDevelopment http_get fc cursor =
     and_then (throw_if (\<not> isDevelopment \<and> \<not> starts_with ''https://'' (to_lower (fc_feedUrl fc))) InsecureUrl) (\<lambda>_.
     case http_get fc cursor of
       None \<Rightarrow> Inl TransportFailed
     | Some resp \<Rightarrow>
         and_then (throw_if (300 \<le> ha_status resp \<and> ha_status resp < 400) RedirectRefused) (\<lambda>_.
         and_then (throw_if (\<not> http_ok resp) (HttpStatus (ha_status resp))) (\<lambda>_.
         and_then (throw_if (declared_above MAX_FEED_BYTES resp) BodyTooLarge) (\<lambda>_.
         and_then (throw_if (ha_body_bytes resp > MAX_FEED_BYTES) BodyTooLarge) (\<lambda>_.
         case ha_body_json resp of
           None \<Rightarrow> Inl InvalidJson
         | Some j \<Rightarrow> normalizeFeedResponse j)))))"

section \<open>Applying a page\<close>

type_synonym 's revoke_op = "revocation_record \<Rightarrow> 's \<Rightarrow> (bool \<times> 's) option"

text \<open>The record the poller stores for an entry whose expiry is the finite number \<open>e\<close>.\<close>

definition polled_record :: "feed_config \<Rightarrow> feed_entry \<Rightarrow> rat \<Rightarrow> revocation_record" where
  "polled_record fc e x = \<lparr>rv_jti = fe_jti e, rv_sub = fe_sub e,
     rv_iss = (if fe_iss e \<noteq> [] then fe_iss e else fc_issuer fc), rv_exp = x,
     rv_revokedBy = ''cross-issuer-poll:'' @ fc_issuer fc, rv_reason = ''unspecified'', rv_revokedAt = None\<rparr>"

record apply_count =
  ac_applied :: nat
  ac_dropped :: nat
  ac_allSucceeded :: bool

fun apply_loop :: "'s revoke_op \<Rightarrow> feed_config \<Rightarrow> feed_entry list \<Rightarrow> apply_count \<Rightarrow> 's \<Rightarrow> apply_count \<times> 's" where
  "apply_loop revoke fc [] n s = (n, s)"
| "apply_loop revoke fc (e # es) n s =
     (if fe_iss e \<noteq> [] \<and> fe_iss e \<noteq> fc_issuer fc
      then apply_loop revoke fc es (n\<lparr>ac_dropped := Suc (ac_dropped n)\<rparr>) s
      else (case fe_exp e of
          Fin x \<Rightarrow>
            if x \<le> 0 then apply_loop revoke fc es (n\<lparr>ac_dropped := Suc (ac_dropped n)\<rparr>) s
            else (case revoke (polled_record fc e x) s of
                Some (b, s') \<Rightarrow> apply_loop revoke fc es (n\<lparr>ac_applied := Suc (ac_applied n)\<rparr>) s'
              | None \<Rightarrow> apply_loop revoke fc es (n\<lparr>ac_allSucceeded := False\<rparr>) s)
        | _ \<Rightarrow> apply_loop revoke fc es (n\<lparr>ac_dropped := Suc (ac_dropped n)\<rparr>) s))"

definition applyEntries :: "'s revoke_op \<Rightarrow> feed_config \<Rightarrow> feed_entry list \<Rightarrow> 's \<Rightarrow> apply_count \<times> 's" where
  "applyEntries revoke fc es s = apply_loop revoke fc es \<lparr>ac_applied = 0, ac_dropped = 0, ac_allSucceeded = True\<rparr> s"

section \<open>The poller\<close>

record 's poller =
  pl_cursors :: rv_cursors
  pl_store :: 's
  pl_durable :: rv_cursors

record poll_result =
  pr_fetched :: nat
  pr_applied :: nat
  pr_dropped :: nat
  pr_allSucceeded :: bool
  pr_cursor :: jsnum

type_synonym setc_op = "string \<Rightarrow> jsnum \<Rightarrow> rv_cursors \<Rightarrow> rv_cursors option"

definition poll_cursor :: "'s poller \<Rightarrow> feed_config \<Rightarrow> jsnum" where
  "poll_cursor p fc = (case map_of (pl_cursors p) (fc_issuer fc) of Some c \<Rightarrow> c | None \<Rightarrow> Fin 0)"

definition pollFeed :: "'s revoke_op \<Rightarrow> setc_op \<Rightarrow> bool \<Rightarrow> http_get \<Rightarrow> feed_config \<Rightarrow> 's poller \<Rightarrow> poll_result \<times> 's poller" where
  "pollFeed revoke setc isDevelopment http_get fc p =
     (let cursor = poll_cursor p fc
      in case fetchOnce isDevelopment http_get fc cursor of
        Inl _ \<Rightarrow> (\<lparr>pr_fetched = 0, pr_applied = 0, pr_dropped = 0, pr_allSucceeded = False, pr_cursor = cursor\<rparr>, p)
      | Inr page \<Rightarrow>
          (let (n, s) = applyEntries revoke fc (fr_entries page) (pl_store p);
               p1 = p\<lparr>pl_store := s\<rparr>;
               result = \<lparr>pr_fetched = length (fr_entries page), pr_applied = ac_applied n,
                 pr_dropped = ac_dropped n, pr_allSucceeded = ac_allSucceeded n, pr_cursor = cursor\<rparr>
           in case (ac_allSucceeded n, fr_next_cursor page) of
             (True, Some c) \<Rightarrow>
               (result\<lparr>pr_cursor := c\<rparr>,
                p1\<lparr>pl_cursors := AList.update (fc_issuer fc) c (pl_cursors p),
                   pl_durable := (case setc (fc_issuer fc) c (pl_durable p) of Some d \<Rightarrow> d | None \<Rightarrow> pl_durable p)\<rparr>)
           | _ \<Rightarrow> (result, p1)))"

text \<open>\<open>onModuleInit\<close>: the feeds, the clash with the own authority, and each feed's cursor from the durable
  store (\<open>getc\<close> is \<open>None\<close> when the read fails). The timers it arms are later calls of \<open>pollFeed\<close>.\<close>

datatype init_error = InitFeeds feed_error | InitOwnAuthority string

definition init_cursor :: "(string \<Rightarrow> jsnum option option) \<Rightarrow> feed_config \<Rightarrow> jsnum" where
  "init_cursor getc fc = (case getc (fc_issuer fc) of Some (Some c) \<Rightarrow> c | _ \<Rightarrow> Fin 0)"

definition onModuleInit :: "string \<Rightarrow> string \<Rightarrow> (string \<Rightarrow> jsnum option option) \<Rightarrow> init_error + feed_config list \<times> rv_cursors" where
  "onModuleInit revocationFeedsRaw jwtAuthority getc =
     (case parseRevocationFeeds revocationFeedsRaw of
        Inl e \<Rightarrow> Inl (InitFeeds e)
      | Inr feeds \<Rightarrow>
          (case find (\<lambda>f. fc_issuer f = jwtAuthority) feeds of
             Some clash \<Rightarrow> Inl (InitOwnAuthority (fc_issuer clash))
           | None \<Rightarrow> Inr (feeds, fold (\<lambda>f cs. AList.update (fc_issuer f) (init_cursor getc f) cs) feeds [])))"

section \<open>The contract of a polled repository\<close>

definition honoured :: "feed_config \<Rightarrow> feed_entry \<Rightarrow> rat \<Rightarrow> bool" where
  "honoured fc e x = ((fe_iss e = [] \<or> fe_iss e = fc_issuer fc) \<and> fe_exp e = Fin x \<and> 0 < x)"

text \<open>The store operations a page amounts to.\<close>

fun page_ops :: "clock \<Rightarrow> feed_config \<Rightarrow> feed_entry list \<Rightarrow> revocation_op list" where
  "page_ops us fc [] = []"
| "page_ops us fc (e # es) =
     (case fe_exp e of
        Fin x \<Rightarrow> if honoured fc e x then Revoke us (polled_record fc e x) # page_ops us fc es else page_ops us fc es
      | _ \<Rightarrow> page_ops us fc es)"

lemma page_ops_issuer: "Revoke us' rc \<in> set (page_ops us fc es) \<Longrightarrow> us' = us \<and> rv_iss rc = fc_issuer fc"
  by (induction es) (auto simp: polled_record_def honoured_def split: jsnum.splits if_splits)

lemma apply_loop_succeeded: "ac_allSucceeded (fst (apply_loop revoke fc es n s)) \<Longrightarrow> ac_allSucceeded n"
  by (induction revoke fc es n s rule: apply_loop.induct)
    (auto split: if_splits jsnum.splits option.splits prod.splits)

lemma apply_loop_failed [simp]: "\<not> ac_allSucceeded n \<Longrightarrow> \<not> ac_allSucceeded (fst (apply_loop revoke fc es n s))"
  by (erule contrapos_nn) (rule apply_loop_succeeded)

type_synonym poll = "clock \<times> http_get \<times> feed_config"

text \<open>A poll at a time, against a peer, of a feed; \<open>run_ops\<close> of it is a history of the poller.\<close>

definition poll_step :: "(clock \<Rightarrow> 's revoke_op) \<Rightarrow> setc_op \<Rightarrow> bool \<Rightarrow> poll \<Rightarrow> 's poller \<Rightarrow> poll_result \<times> 's poller" where
  "poll_step revoke setc dev q p = (case q of (us, g, fc) \<Rightarrow> pollFeed (revoke us) setc dev g fc p)"

lemma poll_step_simp [simp]: "poll_step revoke setc dev (us, g, fc) p = pollFeed (revoke us) setc dev g fc p"
  by (simp add: poll_step_def)

locale polled_repository = revocation_repository step stored fresh safe_iss inv
  for step :: "revocation_op \<Rightarrow> 's \<Rightarrow> bool \<times> 's"
    and stored :: "'s \<Rightarrow> string \<Rightarrow> string \<Rightarrow> rat option"
    and fresh :: "rat \<Rightarrow> clock \<Rightarrow> bool"
    and safe_iss :: "string \<Rightarrow> bool"
    and inv :: "'s \<Rightarrow> bool" +
  fixes revoke :: "clock \<Rightarrow> 's revoke_op"
  assumes revoke_step: "step (Revoke us rc) s = (case revoke us rc s of Some r \<Rightarrow> r | None \<Rightarrow> (False, s))"
    and revoke_stored: "revoke us rc s = Some r \<Longrightarrow> stored (snd r) (rv_iss rc) (rv_jti rc) \<noteq> None"
    and revoke_keeps: "stored s i j \<noteq> None \<Longrightarrow> stored (snd (step (Revoke us rc) s)) i j \<noteq> None"
begin

lemma apply_as_ops: "snd (apply_loop (revoke us) fc es n s) = snd (run_ops step (page_ops us fc es) s)"
  by (induction "revoke us" fc es n s rule: apply_loop.induct)
    (auto simp: run_ops_Cons revoke_step honoured_def simp del: run_ops.simps(2)
      split: jsnum.splits option.splits prod.splits)

lemma ops_keep: "stored s i j \<noteq> None \<Longrightarrow> stored (snd (run_ops step (page_ops us fc es) s)) i j \<noteq> None"
  using revoke_keeps by (induction es arbitrary: s)
    (auto simp: run_ops_Cons simp del: run_ops.simps(2) split: jsnum.splits)

lemma apply_all_stored:
  "ac_allSucceeded (fst (apply_loop (revoke us) fc es n s)) \<Longrightarrow> e \<in> set es \<Longrightarrow> honoured fc e x \<Longrightarrow>
   stored (snd (apply_loop (revoke us) fc es n s)) (fc_issuer fc) (fe_jti e) \<noteq> None"
proof (induction "revoke us" fc es n s rule: apply_loop.induct)
  case (2 fc e' es n s)
  show ?case
  proof (cases "e = e'")
    case True
    with "2.prems"(1,3) obtain b s' where r: "revoke us (polled_record fc e x) s = Some (b, s')"
      by (auto simp: honoured_def split: option.splits)
    have "rv_iss (polled_record fc e x) = fc_issuer fc" "rv_jti (polled_record fc e x) = fe_jti e"
      using "2.prems"(3) by (auto simp: polled_record_def honoured_def)
    with revoke_stored [OF r] have "stored s' (fc_issuer fc) (fe_jti e) \<noteq> None" by simp
    then show ?thesis using r True "2.prems"(3) ops_keep
      by (auto simp: honoured_def apply_as_ops)
  next
    case False
    with 2 show ?thesis by (auto split: if_splits jsnum.splits option.splits prod.splits)
  qed
qed simp

lemma poll_store:
  "\<exists>es. pl_store (snd (pollFeed (revoke us) setc dev g fc p)) = snd (run_ops step (page_ops us fc es) (pl_store p))"
proof (cases "fetchOnce dev g fc (poll_cursor p fc)")
  case (Inl e)
  then show ?thesis by (intro exI [of _ "[]"]) (simp add: pollFeed_def)
next
  case (Inr page)
  then have "pl_store (snd (pollFeed (revoke us) setc dev g fc p))
      = snd (run_ops step (page_ops us fc (fr_entries page)) (pl_store p))"
    using apply_as_ops [of us fc "fr_entries page" _ "pl_store p"]
    by (auto simp: pollFeed_def applyEntries_def Let_def split: prod.splits bool.splits option.splits) (metis snd_conv)+
  then show ?thesis by blast
qed

lemma polls_keep:
  "stored (pl_store p) i j \<noteq> None \<Longrightarrow> stored (pl_store (snd (run_ops (poll_step revoke setc dev) polls p))) i j \<noteq> None"
proof (induction polls arbitrary: p)
  case (Cons q polls)
  obtain us g fc where q: "q = (us, g, fc)" by (cases q)
  have "stored (pl_store (snd (poll_step revoke setc dev q p))) i j \<noteq> None"
    using poll_store [of us setc dev g fc p] ops_keep [OF Cons.prems] q by auto
  from Cons.IH [OF this] show ?case unfolding run_ops_Cons .
qed simp

lemma polls_never_revoke:
  assumes "inv (pl_store p)" "safe_iss i" "stored (pl_store p) i j = None"
    and "\<forall>(us, g, fc) \<in> set polls. safe_iss (fc_issuer fc) \<and> fc_issuer fc \<noteq> i"
  shows "\<not> fst (step (IsRevoked us i j) (pl_store (snd (run_ops (poll_step revoke setc dev) polls p))))"
proof -
  have "inv (pl_store (snd (run_ops (poll_step revoke setc dev) polls p)))
    \<and> stored (pl_store (snd (run_ops (poll_step revoke setc dev) polls p))) i j = None"
    using assms(1,3,4)
  proof (induction polls arbitrary: p)
    case (Cons q polls)
    obtain us g fc where q: "q = (us, g, fc)" by (cases q)
    obtain es where es: "pl_store (snd (poll_step revoke setc dev q p)) = snd (run_ops step (page_ops us fc es) (pl_store p))"
      using poll_store [of us setc dev g fc p] q by auto
    have "inv (pl_store (snd (poll_step revoke setc dev q p))) \<and> stored (pl_store (snd (poll_step revoke setc dev q p))) i j = None"
      unfolding es using Cons.prems page_ops_issuer q assms(2) by (intro absent_run) fastforce+
    with Cons.IH Cons.prems(3) show ?case unfolding run_ops_Cons by auto
  qed simp
  then show ?thesis by (simp add: query)
qed

lemma poll_holds:
  assumes "fetchOnce dev g fc (poll_cursor p fc) = Inr page" "e \<in> set (fr_entries page)" "honoured fc e x"
  shows "stored (pl_store (snd (pollFeed (revoke us) setc dev g fc p))) (fc_issuer fc) (fe_jti e) \<noteq> None
    \<or> pl_cursors (snd (pollFeed (revoke us) setc dev g fc p)) = pl_cursors p
      \<and> pl_durable (snd (pollFeed (revoke us) setc dev g fc p)) = pl_durable p"
proof -
  let ?a = "apply_loop (revoke us) fc (fr_entries page) \<lparr>ac_applied = 0, ac_dropped = 0, ac_allSucceeded = True\<rparr> (pl_store p)"
  have "pl_store (snd (pollFeed (revoke us) setc dev g fc p)) = snd ?a"
    using assms(1) by (auto simp: pollFeed_def applyEntries_def Let_def split: prod.splits bool.splits option.splits)
  moreover have "ac_allSucceeded (fst ?a) \<or> pl_cursors (snd (pollFeed (revoke us) setc dev g fc p)) = pl_cursors p
      \<and> pl_durable (snd (pollFeed (revoke us) setc dev g fc p)) = pl_durable p"
    using assms(1) by (auto simp: pollFeed_def applyEntries_def Let_def split: prod.splits bool.splits option.splits)
  ultimately show ?thesis using apply_all_stored assms(2,3) by metis
qed

end

definition rv_mem_revoke_op :: "clock \<Rightarrow> rv_map revoke_op" where
  "rv_mem_revoke_op us rc s = Some (rv_mem_revoke us rc s)"

interpretation pl_mem: polled_repository rv_mem_step mem_stored mem_fresh nul_free wf_map rv_mem_revoke_op
  by unfold_locales
    (auto simp: rv_mem_revoke_op_def rv_mem_step_def rv_mem_revoke_def mem_stored_def Let_def update_conv
      split: option.splits)

interpretation pl_pg: polled_repository rv_pg_step pg_stored pg_fresh "\<lambda>_. True" wf_map rv_pg_revoke
  by unfold_locales
    (auto simp: rv_pg_step_def rv_pg_revoke_def pg_stored_def Let_def map_add_def split: option.splits if_splits)

section \<open>Configured feeds\<close>

lemma poll_seconds_positive: "poll_seconds issuer raw = Inr n \<Longrightarrow> 1 \<le> n"
  by (auto simp: poll_seconds_def DEFAULT_REVOCATION_POLL_SECONDS_def not_less split: option.splits if_splits jsnum.splits)

lemma parse_feed_ok:
  "parse_feed seen entry = Inr f \<Longrightarrow> fc_issuer f \<notin> set seen \<and> fc_issuer f \<noteq> [] \<and> fc_adminToken f \<noteq> [] \<and> 1 \<le> fc_pollSeconds f
     \<and> (starts_with ''http://'' (fc_feedUrl f) \<or> starts_with ''https://'' (fc_feedUrl f))"
  using poll_seconds_positive
  by (fastforce simp: parse_feed_def Let_def bind_simps split: if_splits)

lemma parse_feeds_ok:
  "parse_feeds seen es = Inr fs \<Longrightarrow> distinct (map fc_issuer fs) \<and> (\<forall>f \<in> set fs. fc_issuer f \<notin> set seen \<and> fc_issuer f \<noteq> []
     \<and> fc_adminToken f \<noteq> [] \<and> 1 \<le> fc_pollSeconds f
     \<and> (starts_with ''http://'' (fc_feedUrl f) \<or> starts_with ''https://'' (fc_feedUrl f)))"
proof (induction es arbitrary: seen fs)
  case (Cons e es)
  from Cons.prems obtain f gs where f: "parse_feed seen e = Inr f" "parse_feeds (fc_issuer f # seen) es = Inr gs" "fs = f # gs"
    by (auto simp: bind_simps)
  with Cons.IH [OF f(2)] parse_feed_ok [OF f(1)] show ?case by auto
qed simp

lemma init_feeds:
  assumes "onModuleInit raw auth getc = Inr (feeds, cs)"
  shows "parse_feeds [] (split_trim (CHR '','') raw) = Inr feeds" "\<forall>f \<in> set feeds. fc_issuer f \<noteq> auth"
  using assms by (auto simp: onModuleInit_def parseRevocationFeeds_def find_None_iff split: sum.splits option.splits)

section \<open>A peer that serves its in-memory store\<close>

text \<open>The answer of a peer control plane, whose store is \<open>peer\<close>, to an authorized poll; \<open>String(cursor)\<close> of an
  integral cursor is its decimal form.\<close>

definition peer_answer :: "(string \<Rightarrow> string \<Rightarrow> int) \<Rightarrow> rv_map \<Rightarrow> http_get" where
  "peer_answer lc peer fc cursor =
     (case feed (\<lambda>since limit. rv_mem_listSince lc since limit peer) (Some True) (Some (show_int (int_of_num cursor))) (Some ''200'') of
        Inr body \<Rightarrow> Some \<lparr>ha_status = 200, ha_content_length = None, ha_body_bytes = 0, ha_body_json = Some body\<rparr>
      | Inl e \<Rightarrow> None)"

definition wire_entry :: "revocation_record \<Rightarrow> feed_entry" where
  "wire_entry r = \<lparr>fe_jti = rv_jti r, fe_sub = rv_sub r, fe_iss = rv_iss r, fe_exp = Fin (rv_exp r),
     fe_revoked_at_ms = num_of_int (rv_time r)\<rparr>"

lemma normalize_feed_entry: "rv_jti r \<noteq> [] \<Longrightarrow> normalize_entry (feed_entry_json r) = Some (wire_entry r)"
  by (simp add: normalize_entry_def feed_entry_json_def wire_entry_def get_prop_def as_string_def js_number_opt_def)

lemma normalize_feed_entries:
  "\<forall>r \<in> set rs. rv_jti r \<noteq> [] \<Longrightarrow> List.map_filter normalize_entry (map feed_entry_json rs) = map wire_entry rs"
  by (induction rs) (simp_all add: List.map_filter_simps normalize_feed_entry)

lemma peer_fetch:
  assumes "\<forall>(k, r) \<in> set peer. rv_jti r \<noteq> []" "rv_mem_listSince lc c 200 peer = (rs, next)"
    and "dev \<or> starts_with ''https://'' (to_lower (fc_feedUrl fc))"
  shows "fetchOnce dev (peer_answer lc peer) fc (num_of_int c)
    = Inr \<lparr>fr_entries = map wire_entry rs, fr_next_cursor = map_option num_of_int next\<rparr>"
proof -
  have "\<forall>r \<in> set rs. r \<in> snd ` set peer"
  proof
    fix r assume "r \<in> set rs"
    then have "r \<in> set (rv_sort lc (filter (\<lambda>r. c < rv_time r) (map snd peer)))"
      using assms(2) by (auto simp: rv_mem_listSince_def Let_def split: if_splits dest!: in_set_takeD set_takeWhileD in_set_dropD)
    then show "r \<in> snd ` set peer" by auto
  qed
  then have ne: "\<forall>r \<in> set rs. rv_jti r \<noteq> []" using assms(1) by force
  have two: "parseInt10 ''200'' = Some 200" by code_simp
  have "feed (\<lambda>since limit. rv_mem_listSince lc since limit peer) (Some True) (Some (show_int c)) (Some ''200'')
      = Inr (JObj [(''entries'', JArr (map feed_entry_json rs)),
          (''next_cursor'', (case next of Some c \<Rightarrow> JNum (num_of_int c) | None \<Rightarrow> JNull))])"
    using assms(2) by (simp add: feed_def assertAdmin_def two)
  then show ?thesis using assms(3)
    by (cases "next") (simp_all add: fetchOnce_def peer_answer_def declared_above_none http_ok_def MAX_FEED_BYTES_def normalizeFeedResponse_def
        get_prop_def as_number_def normalize_feed_entries [OF ne])
qed

lemma mem_apply_succeeds: "ac_allSucceeded (fst (apply_loop (rv_mem_revoke_op us) fc es n s)) = ac_allSucceeded n"
  by (induction "rv_mem_revoke_op us" fc es n s rule: apply_loop.induct)
    (auto simp: rv_mem_revoke_op_def split: jsnum.splits prod.splits)

text \<open>The provider's durable cursor never fails in memory.\<close>

definition rv_mem_setc :: setc_op where
  "rv_mem_setc issuer c cs = Some (rv_setCursor issuer c cs)"

lemma peer_poll:
  assumes "fetchOnce dev g fc (poll_cursor p fc) = Inr \<lparr>fr_entries = es, fr_next_cursor = next\<rparr>"
  shows "\<forall>e \<in> set es. \<forall>x. honoured fc e x \<longrightarrow>
      mem_stored (pl_store (snd (pollFeed (rv_mem_revoke_op us) setc dev g fc p))) (fc_issuer fc) (fe_jti e) \<noteq> None"
    and "poll_cursor (snd (pollFeed (rv_mem_revoke_op us) setc dev g fc p)) fc
      = (case next of Some c \<Rightarrow> c | None \<Rightarrow> poll_cursor p fc)"
proof -
  let ?n = "\<lparr>ac_applied = 0, ac_dropped = 0, ac_allSucceeded = True\<rparr>"
  obtain n s where a: "apply_loop (rv_mem_revoke_op us) fc es ?n (pl_store p) = (n, s)" by fastforce
  have ok: "ac_allSucceeded n" using mem_apply_succeeds [of us fc es ?n "pl_store p"] a by simp
  show "\<forall>e \<in> set es. \<forall>x. honoured fc e x \<longrightarrow>
      mem_stored (pl_store (snd (pollFeed (rv_mem_revoke_op us) setc dev g fc p))) (fc_issuer fc) (fe_jti e) \<noteq> None"
    using pl_mem.apply_all_stored [of us fc es ?n "pl_store p"] assms a ok
    by (auto simp: pollFeed_def applyEntries_def Let_def split: option.splits)
  show "poll_cursor (snd (pollFeed (rv_mem_revoke_op us) setc dev g fc p)) fc
      = (case next of Some c \<Rightarrow> c | None \<Rightarrow> poll_cursor p fc)"
    using assms a ok by (auto simp: pollFeed_def applyEntries_def Let_def poll_cursor_def update_conv split: option.splits)
qed

lemma polls_deliver:
  assumes ne: "\<forall>(k, r) \<in> set peer. rv_jti r \<noteq> []" and url: "dev \<or> starts_with ''https://'' (to_lower (fc_feedUrl fc))"
  shows "poll_cursor p fc = num_of_int c \<Longrightarrow> r \<in> set (pages (\<lambda>c. rv_mem_listSince lc c 200 peer) (length ts) c) \<Longrightarrow>
    honoured fc (wire_entry r) x \<Longrightarrow>
    mem_stored (pl_store (snd (run_ops (poll_step rv_mem_revoke_op setc dev)
      (map (\<lambda>us. (us, peer_answer lc peer, fc)) ts) p))) (fc_issuer fc) (rv_jti r) \<noteq> None"
proof (induction ts arbitrary: p c)
  case (Cons us ts)
  obtain rs nxt where page: "rv_mem_listSince lc c 200 peer = (rs, nxt)" by fastforce
  let ?p = "snd (pollFeed (rv_mem_revoke_op us) setc dev (peer_answer lc peer) fc p)"
  have fetch: "fetchOnce dev (peer_answer lc peer) fc (poll_cursor p fc)
      = Inr \<lparr>fr_entries = map wire_entry rs, fr_next_cursor = map_option num_of_int nxt\<rparr>"
    using peer_fetch [OF ne page url] Cons.prems(1) by simp
  note poll = peer_poll [OF fetch, of us setc]
  show ?case
  proof (cases "r \<in> set rs")
    case True
    with poll(1) Cons.prems(3) have "mem_stored (pl_store ?p) (fc_issuer fc) (rv_jti r) \<noteq> None"
      by (force simp: wire_entry_def)
    from pl_mem.polls_keep [OF this] show ?thesis
      by (simp add: run_ops_Cons del: run_ops.simps(2))
  next
    case False
    with Cons.prems(2) page obtain c' where "nxt = Some c'" "r \<in> set (pages (\<lambda>c. rv_mem_listSince lc c 200 peer) (length ts) c')"
      by (cases nxt) auto
    with Cons.IH [of ?p c'] poll(2) Cons.prems(3) show ?thesis
      by (simp add: run_ops_Cons del: run_ops.simps(2))
  qed
qed simp

section \<open>Properties\<close>

text \<open>The poller that starts has at most one feed per issuer, none of them this control plane's own authority,
  each with an \<open>http(s)\<close> URL, an admin token and an interval of at least one second.\<close>

theorem started_feeds_wellformed:
  assumes "onModuleInit raw jwtAuthority getc = Inr (feeds, cursors)"
  shows "distinct (map fc_issuer feeds) \<and> (\<forall>f \<in> set feeds. fc_issuer f \<noteq> jwtAuthority \<and> fc_adminToken f \<noteq> []
    \<and> 1 \<le> fc_pollSeconds f \<and> (starts_with ''http://'' (fc_feedUrl f) \<or> starts_with ''https://'' (fc_feedUrl f)))"
  using parse_feeds_ok [OF init_feeds(1) [OF assms]] init_feeds(2) [OF assms] by blast

definition sample_feed :: feed_config where
  "sample_feed = \<lparr>fc_issuer = ''peer'', fc_feedUrl = ''https://p/r'', fc_adminToken = ''k'', fc_pollSeconds = 60\<rparr>"

lemma sample_init: "onModuleInit ''peer|https://p/r|k|60'' ''local'' (\<lambda>_. Some None) = Inr ([sample_feed], [(''peer'', Fin 0)])"
proof -
  have "parseRevocationFeeds ''peer|https://p/r|k|60'' = Inr [sample_feed]" unfolding sample_feed_def by code_simp
  then show ?thesis by (simp add: onModuleInit_def sample_feed_def init_cursor_def)
qed

theorem started_feeds_wellformed_witness:
  "distinct (map fc_issuer [sample_feed]) \<and> fc_issuer sample_feed \<noteq> ''local'' \<and> 1 \<le> fc_pollSeconds sample_feed"
  using started_feeds_wellformed [OF sample_init] by simp

text \<open>Issuer confinement end to end: whatever the configured peers answer, in whatever order and at whatever
  times they are polled, no token of this control plane's own authority is ever revoked by the poller, in
  either store.\<close>

theorem poller_never_revokes_local:
  assumes "onModuleInit raw jwtAuthority getc = Inr (feeds, cursors)"
    and "\<forall>(t, g, fc) \<in> set polls. fc \<in> set feeds"
    and "nul_free jwtAuthority" "\<forall>fc \<in> set feeds. nul_free (fc_issuer fc)"
    and "wf_map (pl_store p)" "rv_mem_get jwtAuthority jti (pl_store p) = None"
    and "wf_map (pl_store q)" "rv_pg_get jwtAuthority jti (pl_store q) = None"
  shows "\<not> fst (rv_mem_isRevoked us jwtAuthority jti
      (pl_store (snd (run_ops (poll_step rv_mem_revoke_op rv_mem_setc dev) polls p))))
    \<and> \<not> rv_pg_isRevoked us jwtAuthority jti
      (pl_store (snd (run_ops (poll_step rv_pg_revoke rv_pg_setCursor dev) polls q)))"
proof -
  have other: "\<forall>(t, g, fc) \<in> set polls. nul_free (fc_issuer fc) \<and> fc_issuer fc \<noteq> jwtAuthority"
    using assms(2,4) init_feeds(2) [OF assms(1)] by blast
  have "\<not> fst (rv_mem_step (IsRevoked us jwtAuthority jti)
      (pl_store (snd (run_ops (poll_step rv_mem_revoke_op rv_mem_setc dev) polls p))))"
    using pl_mem.polls_never_revoke [OF assms(5,3) _ other] assms(6) by (simp add: mem_stored_def rv_mem_get_def)
  moreover have "\<not> fst (rv_pg_step (IsRevoked us jwtAuthority jti)
      (pl_store (snd (run_ops (poll_step rv_pg_revoke rv_pg_setCursor dev) polls q))))"
  proof (rule pl_pg.polls_never_revoke)
    show "pg_stored (pl_store q) jwtAuthority jti = None" using assms(8) by (simp add: pg_stored_def rv_pg_get_def)
    show "\<forall>(t, g, fc) \<in> set polls. True \<and> fc_issuer fc \<noteq> jwtAuthority" using other by blast
  qed (use assms(7) in simp_all)
  ultimately show ?thesis by (simp add: rv_mem_step_def rv_pg_step_def)
qed

definition hostile_answer :: http_get where
  "hostile_answer fc cursor = Some \<lparr>ha_status = 200, ha_content_length = None, ha_body_bytes = 10,
     ha_body_json = Some (JObj [(''entries'', JArr [JObj [(''jti'', JStr ''j''), (''iss'', JStr ''local''), (''exp'', JNum (Fin 99))]]),
       (''next_cursor'', JNum (Fin 7))])\<rparr>"

theorem poller_never_revokes_local_witness:
  "\<not> fst (rv_mem_isRevoked 5 ''local'' ''j'' (pl_store (snd (run_ops (poll_step rv_mem_revoke_op rv_mem_setc False)
      [(1, hostile_answer, sample_feed)] \<lparr>pl_cursors = [], pl_store = [], pl_durable = []\<rparr>))))
   \<and> \<not> rv_pg_isRevoked 5 ''local'' ''j'' (pl_store (snd (run_ops (poll_step rv_pg_revoke rv_pg_setCursor False)
      [(1, hostile_answer, sample_feed)] \<lparr>pl_cursors = [], pl_store = [], pl_durable = []\<rparr>)))"
  by (rule poller_never_revokes_local [OF sample_init])
    (simp_all add: sample_feed_def nul_free_def rv_mem_get_def rv_pg_get_def wf_map_def)

text \<open>The cursor never skips a revocation: when a poll moves the cursor (in memory or durably), every entry of
  the page that the peer is authoritative for and whose expiry is a positive number is in the store; when any
  entry fails to be stored, neither cursor moves. For both stores.\<close>

theorem cursor_moves_only_past_stored:
  assumes "fetchOnce dev g fc (poll_cursor p fc) = Inr page" "fetchOnce dev g fc (poll_cursor q fc) = Inr page"
    and "e \<in> set (fr_entries page)" "honoured fc e x"
  shows "(mem_stored (pl_store (snd (pollFeed (rv_mem_revoke_op us) rv_mem_setc dev g fc p))) (fc_issuer fc) (fe_jti e) \<noteq> None
      \<or> pl_cursors (snd (pollFeed (rv_mem_revoke_op us) rv_mem_setc dev g fc p)) = pl_cursors p
        \<and> pl_durable (snd (pollFeed (rv_mem_revoke_op us) rv_mem_setc dev g fc p)) = pl_durable p)
    \<and> (pg_stored (pl_store (snd (pollFeed (rv_pg_revoke us) rv_pg_setCursor dev g fc q))) (fc_issuer fc) (fe_jti e) \<noteq> None
      \<or> pl_cursors (snd (pollFeed (rv_pg_revoke us) rv_pg_setCursor dev g fc q)) = pl_cursors q
        \<and> pl_durable (snd (pollFeed (rv_pg_revoke us) rv_pg_setCursor dev g fc q)) = pl_durable q)"
  using pl_mem.poll_holds [OF assms(1,3,4), of us rv_mem_setc] pl_pg.poll_holds [OF assms(2-4), of us rv_pg_setCursor] by blast

definition honest_answer :: http_get where
  "honest_answer fc cursor = Some \<lparr>ha_status = 200, ha_content_length = Some ''10'', ha_body_bytes = 10,
     ha_body_json = Some (JObj [(''entries'', JArr [JObj [(''jti'', JStr ''j''), (''exp'', JNum (Fin 99))]]),
       (''next_cursor'', JNum (Fin 7))])\<rparr>"

definition honest_entry :: feed_entry where
  "honest_entry = \<lparr>fe_jti = ''j'', fe_sub = [], fe_iss = [], fe_exp = Fin 99, fe_revoked_at_ms = NaN\<rparr>"

theorem cursor_moves_only_past_stored_witness:
  "mem_stored (pl_store (snd (pollFeed (rv_mem_revoke_op 1) rv_mem_setc False honest_answer sample_feed
     \<lparr>pl_cursors = [], pl_store = [], pl_durable = []\<rparr>))) ''peer'' ''j'' \<noteq> None"
proof -
  have "fetchOnce False honest_answer sample_feed (Fin 0)
      = Inr \<lparr>fr_entries = [honest_entry], fr_next_cursor = Some (Fin 7)\<rparr>"
    unfolding honest_entry_def by code_simp
  then have f: "fetchOnce False honest_answer sample_feed (poll_cursor \<lparr>pl_cursors = [], pl_store = s, pl_durable = []\<rparr> sample_feed)
      = Inr \<lparr>fr_entries = [honest_entry], fr_next_cursor = Some (Fin 7)\<rparr>" for s :: 's
    by (simp add: poll_cursor_def)
  have "pl_cursors (snd (pollFeed (rv_mem_revoke_op 1) rv_mem_setc False honest_answer sample_feed
     \<lparr>pl_cursors = [], pl_store = [], pl_durable = []\<rparr>)) \<noteq> []" by code_simp
  then show ?thesis
    using cursor_moves_only_past_stored [OF f [of "[]"] f [of "[]"], of honest_entry 99 1]
    by (auto simp: honest_entry_def honoured_def sample_feed_def)
qed



end
