(* ===== verification/Tenant.thy ===== *)
theory Tenant
  imports Errors
begin

text \<open>
  Tenancy helpers: \<open>src/src/tenant/tenant-context.ts\<close>, \<open>request-tenant.ts\<close>, \<open>tenant-agents.ts\<close>.

  The lookup tables bind an API key, or an agent DID, to one tenant; the lemmas show that a table that is
  built at all is a function that agrees with every configured entry.
\<close>

definition DEFAULT_TENANT_ID :: string where
  "DEFAULT_TENANT_ID = ''default''"

section \<open>Tenant API keys\<close>

record tenant_api_key =
  tk_tenantId :: string
  tk_apiKey :: string

datatype tenant_config_error =
    EmptySide string
  | KeyInTwoTenants string string
  | AgentEntryForm string
  | AgentInTwoTenants string

fun parse_tenant_entries :: "string list \<Rightarrow> tenant_config_error + tenant_api_key list" where
  "parse_tenant_entries [] = Inr []"
| "parse_tenant_entries (entry # es) =
     (case (case index_of (CHR '':'') entry of
         None \<Rightarrow> Inr \<lparr>tk_tenantId = DEFAULT_TENANT_ID, tk_apiKey = entry\<rparr>
       | Some colon \<Rightarrow>
           (let tenantId = trim (take colon entry); apiKey = trim (drop (colon + 1) entry)
            in if tenantId = [] \<or> apiKey = [] then Inl (EmptySide entry)
               else Inr \<lparr>tk_tenantId = tenantId, tk_apiKey = apiKey\<rparr>)) of
        Inl e \<Rightarrow> Inl e
      | Inr k \<Rightarrow> (case parse_tenant_entries es of Inl e \<Rightarrow> Inl e | Inr ks \<Rightarrow> Inr (k # ks)))"

definition parseTenantApiKeys :: "string \<Rightarrow> tenant_config_error + tenant_api_key list" where
  "parseTenantApiKeys raw = (if raw = [] then Inr [] else parse_tenant_entries (split_trim (CHR '','') raw))"

text \<open>The loop of \<open>buildTenantLookup\<close>; \<open>existing\<close> is tested for truth, so an empty tenant would not count.\<close>

fun tenant_lookup_loop :: "tenant_api_key list \<Rightarrow> (string, string) jsmap \<Rightarrow> tenant_config_error + (string, string) jsmap" where
  "tenant_lookup_loop [] out = Inr out"
| "tenant_lookup_loop (e # es) out =
     (case map_of out (tk_apiKey e) of
        Some existing \<Rightarrow>
          if existing \<noteq> [] \<and> existing \<noteq> tk_tenantId e then Inl (KeyInTwoTenants existing (tk_tenantId e))
          else tenant_lookup_loop es (AList.update (tk_apiKey e) (tk_tenantId e) out)
      | None \<Rightarrow> tenant_lookup_loop es (AList.update (tk_apiKey e) (tk_tenantId e) out))"

definition buildTenantLookup :: "tenant_api_key list \<Rightarrow> tenant_config_error + (string, string) jsmap" where
  "buildTenantLookup entries = tenant_lookup_loop entries []"

section \<open>The tenant of a request\<close>

definition tenantOf :: "string option \<Rightarrow> string" where
  "tenantOf tenantId = (case tenantId of Some t \<Rightarrow> if t \<noteq> [] then t else DEFAULT_TENANT_ID | None \<Rightarrow> DEFAULT_TENANT_ID)"

definition assertNotReservedTenant :: "string option \<Rightarrow> string \<Rightarrow> exn + unit" where
  "assertNotReservedTenant tenant source =
     (if tenant = Some DEFAULT_TENANT_ID
      then Inl (AppException TENANT_RESERVED
        (CHR 0x27 # DEFAULT_TENANT_ID @ [CHR 0x27] @ '' is a reserved tenant sentinel and cannot be asserted via '' @ source)
        403 None)
      else Inr ())"

section \<open>Agents of a tenant\<close>

record agent_tenant_binding =
  ab_tenantId :: string
  ab_agentDid :: string

fun parse_agent_entries :: "string list \<Rightarrow> tenant_config_error + agent_tenant_binding list" where
  "parse_agent_entries [] = Inr []"
| "parse_agent_entries (entry # es) =
     (case index_of (CHR '':'') entry of
        None \<Rightarrow> Inl (AgentEntryForm entry)
      | Some idx \<Rightarrow>
          if idx = 0 \<or> idx = length entry - 1 then Inl (AgentEntryForm entry)
          else (case parse_agent_entries es of
              Inl e \<Rightarrow> Inl e
            | Inr bs \<Rightarrow> Inr (\<lparr>ab_tenantId = take idx entry, ab_agentDid = drop (idx + 1) entry\<rparr> # bs)))"

definition parseTenantAgents :: "string \<Rightarrow> tenant_config_error + agent_tenant_binding list" where
  "parseTenantAgents raw = (if trim raw = [] then Inr [] else parse_agent_entries (split_trim (CHR '','') raw))"

fun agent_lookup_loop :: "agent_tenant_binding list \<Rightarrow> (string, string) jsmap \<Rightarrow> tenant_config_error + (string, string) jsmap" where
  "agent_lookup_loop [] out = Inr out"
| "agent_lookup_loop (b # bs) out =
     (case map_of out (ab_agentDid b) of
        Some t \<Rightarrow> if t \<noteq> ab_tenantId b then Inl (AgentInTwoTenants (ab_agentDid b))
          else agent_lookup_loop bs (AList.update (ab_agentDid b) (ab_tenantId b) out)
      | None \<Rightarrow> agent_lookup_loop bs (AList.update (ab_agentDid b) (ab_tenantId b) out))"

definition buildAgentTenantLookup :: "agent_tenant_binding list \<Rightarrow> tenant_config_error + (string, string) jsmap" where
  "buildAgentTenantLookup bindings = agent_lookup_loop bindings []"

definition tenantForAgent :: "(string, string) jsmap \<Rightarrow> string \<Rightarrow> string" where
  "tenantForAgent lookup agentDid = (case map_of lookup agentDid of Some t \<Rightarrow> t | None \<Rightarrow> DEFAULT_TENANT_ID)"

section \<open>Lemmas\<close>

lemma assertNotReservedTenant_ok [simp]: "assertNotReservedTenant t src = Inr u \<longleftrightarrow> t \<noteq> Some DEFAULT_TENANT_ID"
  by (simp add: assertNotReservedTenant_def)

lemma tenantOf_nonempty [simp]: "tenantOf t \<noteq> []"
  by (simp add: tenantOf_def DEFAULT_TENANT_ID_def split: option.splits)

text \<open>Every key of the finished table has the tenant of each of its entries; an earlier binding is never lost.\<close>

lemma tenant_lookup_loop_spec:
  "tenant_lookup_loop es out = Inr m \<Longrightarrow> \<forall>e \<in> set es. tk_tenantId e \<noteq> [] \<Longrightarrow> \<forall>t \<in> ran (map_of out). t \<noteq> [] \<Longrightarrow>
   (\<forall>e \<in> set es. map_of m (tk_apiKey e) = Some (tk_tenantId e))
   \<and> (\<forall>k t. map_of out k = Some t \<longrightarrow> map_of m k = Some t)
   \<and> (\<forall>k t. map_of m k = Some t \<longrightarrow> map_of out k = Some t \<or> \<lparr>tk_tenantId = t, tk_apiKey = k\<rparr> \<in> set es)"
proof (induction es arbitrary: out)
  case (Cons e es)
  let ?out = "AList.update (tk_apiKey e) (tk_tenantId e) out"
  have same: "map_of out (tk_apiKey e) = None \<or> map_of out (tk_apiKey e) = Some (tk_tenantId e)"
    using Cons.prems by (auto split: option.splits if_splits simp: ranI)
  have run: "tenant_lookup_loop es ?out = Inr m" using Cons.prems by (auto split: option.splits if_splits)
  have ne: "\<forall>t \<in> ran (map_of ?out). t \<noteq> []" using Cons.prems by (auto simp: update_conv ran_def)
  have ih: "(\<forall>e \<in> set es. map_of m (tk_apiKey e) = Some (tk_tenantId e))
     \<and> (\<forall>k t. map_of ?out k = Some t \<longrightarrow> map_of m k = Some t)
     \<and> (\<forall>k t. map_of m k = Some t \<longrightarrow> map_of ?out k = Some t \<or> \<lparr>tk_tenantId = t, tk_apiKey = k\<rparr> \<in> set es)"
    using Cons.IH [OF run] ne Cons.prems(2) by simp
  have up: "map_of ?out k = (if k = tk_apiKey e then Some (tk_tenantId e) else map_of out k)" for k by (simp add: update_conv)
  have "map_of m (tk_apiKey e) = Some (tk_tenantId e)" using ih up [of "tk_apiKey e"] by simp
  moreover have "map_of m k = Some t" if "map_of out k = Some t" for k t
    using ih up [of k] same that by (cases "k = tk_apiKey e") auto
  moreover have "map_of out k = Some t \<or> \<lparr>tk_tenantId = t, tk_apiKey = k\<rparr> \<in> set (e # es)"
    if "map_of m k = Some t" for k t
  proof (cases "k = tk_apiKey e")
    case True
    with ih up [of k] that show ?thesis by (cases e) auto
  next
    case False
    with ih up [of k] that have "map_of out k = Some t \<or> \<lparr>tk_tenantId = t, tk_apiKey = k\<rparr> \<in> set es" by metis
    then show ?thesis by auto
  qed
  ultimately show ?case using ih by simp
qed simp

lemma agent_lookup_loop_spec:
  "agent_lookup_loop bs out = Inr m \<Longrightarrow>
   (\<forall>b \<in> set bs. map_of m (ab_agentDid b) = Some (ab_tenantId b))
   \<and> (\<forall>k t. map_of out k = Some t \<longrightarrow> map_of m k = Some t)
   \<and> (\<forall>k t. map_of m k = Some t \<longrightarrow> map_of out k = Some t \<or> \<lparr>ab_tenantId = t, ab_agentDid = k\<rparr> \<in> set bs)"
proof (induction bs arbitrary: out)
  case (Cons b bs)
  let ?out = "AList.update (ab_agentDid b) (ab_tenantId b) out"
  have same: "map_of out (ab_agentDid b) = None \<or> map_of out (ab_agentDid b) = Some (ab_tenantId b)"
    using Cons.prems by (auto split: option.splits if_splits)
  have run: "agent_lookup_loop bs ?out = Inr m" using Cons.prems by (auto split: option.splits if_splits)
  have ih: "(\<forall>b \<in> set bs. map_of m (ab_agentDid b) = Some (ab_tenantId b))
     \<and> (\<forall>k t. map_of ?out k = Some t \<longrightarrow> map_of m k = Some t)
     \<and> (\<forall>k t. map_of m k = Some t \<longrightarrow> map_of ?out k = Some t \<or> \<lparr>ab_tenantId = t, ab_agentDid = k\<rparr> \<in> set bs)"
    using Cons.IH [OF run] .
  have up: "map_of ?out k = (if k = ab_agentDid b then Some (ab_tenantId b) else map_of out k)" for k by (simp add: update_conv)
  have "map_of m (ab_agentDid b) = Some (ab_tenantId b)" using ih up [of "ab_agentDid b"] by simp
  moreover have "map_of m k = Some t" if "map_of out k = Some t" for k t
    using ih up [of k] same that by (cases "k = ab_agentDid b") auto
  moreover have "map_of out k = Some t \<or> \<lparr>ab_tenantId = t, ab_agentDid = k\<rparr> \<in> set (b # bs)"
    if "map_of m k = Some t" for k t
  proof (cases "k = ab_agentDid b")
    case True
    with ih up [of k] that show ?thesis by (cases b) auto
  next
    case False
    with ih up [of k] that have "map_of out k = Some t \<or> \<lparr>ab_tenantId = t, ab_agentDid = k\<rparr> \<in> set bs" by metis
    then show ?thesis by auto
  qed
  ultimately show ?case using ih by simp
qed simp

lemma parse_tenant_entries_nonempty:
  "parse_tenant_entries es = Inr ks \<Longrightarrow> \<forall>k \<in> set ks. tk_tenantId k \<noteq> []"
  by (induction es arbitrary: ks)
    (auto simp: DEFAULT_TENANT_ID_def Let_def split: sum.splits option.splits if_splits)

lemma tenant_lookup_loop_total:
  "\<forall>e \<in> set es. \<forall>t. map_of out (tk_apiKey e) = Some t \<longrightarrow> t = tk_tenantId e \<Longrightarrow>
   \<forall>e \<in> set es. \<forall>e' \<in> set es. tk_apiKey e = tk_apiKey e' \<longrightarrow> tk_tenantId e = tk_tenantId e' \<Longrightarrow>
   \<exists>m. tenant_lookup_loop es out = Inr m"
proof (induction es arbitrary: out)
  case Nil
  show ?case by simp
next
  case (Cons e es)
  let ?out = "AList.update (tk_apiKey e) (tk_tenantId e) out"
  have "map_of out (tk_apiKey e) = None \<or> map_of out (tk_apiKey e) = Some (tk_tenantId e)"
    using Cons.prems(1) by (cases "map_of out (tk_apiKey e)") auto
  then have "tenant_lookup_loop (e # es) out = tenant_lookup_loop es ?out" by auto
  moreover have "\<forall>e' \<in> set es. \<forall>t. map_of ?out (tk_apiKey e') = Some t \<longrightarrow> t = tk_tenantId e'"
  proof (intro ballI allI impI)
    fix e' t assume e': "e' \<in> set es" and t: "map_of ?out (tk_apiKey e') = Some t"
    show "t = tk_tenantId e'"
    proof (cases "tk_apiKey e' = tk_apiKey e")
      case True
      with t have "t = tk_tenantId e" by (simp add: update_conv)
      with Cons.prems(2) e' True show ?thesis by (metis list.set_intros)
    next
      case False
      with t Cons.prems(1) e' show ?thesis by (simp add: update_conv)
    qed
  qed
  moreover have "\<forall>a \<in> set es. \<forall>b \<in> set es. tk_apiKey a = tk_apiKey b \<longrightarrow> tk_tenantId a = tk_tenantId b"
    using Cons.prems(2) by (metis list.set_intros(2))
  ultimately show ?case using Cons.IH [of ?out] by presburger
qed

section \<open>Properties\<close>

text \<open>The API-key table is exactly the configuration: it is built if and only if no key is listed under two
  tenants, and then a key has a tenant if and only if that pair is listed.\<close>

theorem tenant_lookup_exact:
  assumes "parseTenantApiKeys raw = Inr ks"
  shows "((\<exists>m. buildTenantLookup ks = Inr m) \<longleftrightarrow>
      (\<forall>e \<in> set ks. \<forall>e' \<in> set ks. tk_apiKey e = tk_apiKey e' \<longrightarrow> tk_tenantId e = tk_tenantId e'))
    \<and> (\<forall>m k t. buildTenantLookup ks = Inr m \<longrightarrow>
      (map_of m k = Some t \<longleftrightarrow> \<lparr>tk_tenantId = t, tk_apiKey = k\<rparr> \<in> set ks))"
proof -
  have ne: "\<forall>k \<in> set ks. tk_tenantId k \<noteq> []"
    using assms parse_tenant_entries_nonempty by (auto simp: parseTenantApiKeys_def split: if_splits)
  have spec: "(\<forall>e \<in> set ks. map_of m (tk_apiKey e) = Some (tk_tenantId e))
      \<and> (\<forall>k t. map_of m k = Some t \<longrightarrow> \<lparr>tk_tenantId = t, tk_apiKey = k\<rparr> \<in> set ks)"
    if "buildTenantLookup ks = Inr m" for m
    using tenant_lookup_loop_spec [of ks "[]" m] ne that by (simp add: buildTenantLookup_def)
  have "tk_tenantId e = tk_tenantId e'"
    if "buildTenantLookup ks = Inr m" "e \<in> set ks" "e' \<in> set ks" "tk_apiKey e = tk_apiKey e'" for m e e'
    using spec [OF that(1)] that(2-4) by (metis option.inject)
  moreover have "\<exists>m. buildTenantLookup ks = Inr m"
    if "\<forall>e \<in> set ks. \<forall>e' \<in> set ks. tk_apiKey e = tk_apiKey e' \<longrightarrow> tk_tenantId e = tk_tenantId e'"
    unfolding buildTenantLookup_def by (rule tenant_lookup_loop_total [OF _ that]) simp
  moreover have "map_of m k = Some t \<longleftrightarrow> \<lparr>tk_tenantId = t, tk_apiKey = k\<rparr> \<in> set ks"
    if "buildTenantLookup ks = Inr m" for m k t
    using spec [OF that] by (metis tenant_api_key.select_convs)
  ultimately show ?thesis by meson
qed

theorem tenant_lookup_exact_witness:
  "parseTenantApiKeys ''a:k1, b:k2,k3'' = Inr [\<lparr>tk_tenantId = ''a'', tk_apiKey = ''k1''\<rparr>,
     \<lparr>tk_tenantId = ''b'', tk_apiKey = ''k2''\<rparr>, \<lparr>tk_tenantId = ''default'', tk_apiKey = ''k3''\<rparr>]
   \<and> (\<exists>m. buildTenantLookup [\<lparr>tk_tenantId = ''a'', tk_apiKey = ''k1''\<rparr>,
     \<lparr>tk_tenantId = ''b'', tk_apiKey = ''k2''\<rparr>, \<lparr>tk_tenantId = ''default'', tk_apiKey = ''k3''\<rparr>] = Inr m)"
proof -
  have p: "parseTenantApiKeys ''a:k1, b:k2,k3'' = Inr [\<lparr>tk_tenantId = ''a'', tk_apiKey = ''k1''\<rparr>,
     \<lparr>tk_tenantId = ''b'', tk_apiKey = ''k2''\<rparr>, \<lparr>tk_tenantId = ''default'', tk_apiKey = ''k3''\<rparr>]"
    by code_simp
  from p tenant_lookup_exact [OF p] show ?thesis by simp
qed

end
