(* ===== verification/Ledger.thy ===== *)
theory Ledger
  imports Sha256 "HOL-Library.Product_Lexorder"
begin

text \<open>
  The issuance ledger: \<open>src/src/auth/issuance-ledger.service.ts\<close>, with the columns of \<open>issuance_ledger\<close> in
  \<open>src/src/db/schema.ts\<close>.

  Every decision of the token endpoint is a row of a hash chain. The memory chain is a list; the table is a
  set of rows with a \<open>created_at\<close> (the start of the transaction) and a random \<open>id\<close>, read in the order
  \<open>created_at, id\<close>. \<open>pg_head\<close> and \<open>pg_insert\<close> are the two statements of the transaction, so that two writers
  can be interleaved.
\<close>

section \<open>Rows and their hash\<close>

datatype issuance_decision =
    Mint | RejectAlg | RejectNonce | RejectAgentMismatch | RejectExpiresMismatch | RejectUnpinned
  | RejectKeyIdMismatch | RejectKeyIdMalformed | RejectSignature | RejectInternal

fun decision_string :: "issuance_decision \<Rightarrow> string" where
  "decision_string Mint = ''mint''"
| "decision_string RejectAlg = ''reject_alg''"
| "decision_string RejectNonce = ''reject_nonce''"
| "decision_string RejectAgentMismatch = ''reject_agent_mismatch''"
| "decision_string RejectExpiresMismatch = ''reject_expires_mismatch''"
| "decision_string RejectUnpinned = ''reject_unpinned''"
| "decision_string RejectKeyIdMismatch = ''reject_key_id_mismatch''"
| "decision_string RejectKeyIdMalformed = ''reject_key_id_malformed''"
| "decision_string RejectSignature = ''reject_signature''"
| "decision_string RejectInternal = ''reject_internal''"

record ledger_entry =
  le_jti :: "string option"
  le_sub :: "string option"
  le_iss :: "string option"
  le_iat :: "int option"
  le_exp :: "int option"
  le_signerIp :: "string option"
  le_decision :: issuance_decision
  le_decisionDetail :: "string option"

definition ZERO_HASH :: string where
  "ZERO_HASH = replicate 64 (CHR ''0'')"

definition SEP :: char where "SEP = CHR 0x1F"

definition text_or_empty :: "string option \<Rightarrow> string" where
  "text_or_empty t = (case t of Some s \<Rightarrow> s | None \<Rightarrow> [])"

definition int_or_empty :: "int option \<Rightarrow> string" where
  "int_or_empty n = (case n of Some i \<Rightarrow> show_int i | None \<Rightarrow> [])"

definition entry_fields :: "string \<Rightarrow> ledger_entry \<Rightarrow> string list" where
  "entry_fields prevHash e = [prevHash, decision_string (le_decision e), text_or_empty (le_jti e),
     text_or_empty (le_sub e), text_or_empty (le_iss e), int_or_empty (le_iat e), int_or_empty (le_exp e),
     text_or_empty (le_signerIp e), text_or_empty (le_decisionDetail e)]"

definition canonical :: "string \<Rightarrow> ledger_entry \<Rightarrow> string" where
  "canonical prevHash e = join_with [SEP] (entry_fields prevHash e)"

definition computeEntryHash :: "string \<Rightarrow> ledger_entry \<Rightarrow> string" where
  "computeEntryHash prevHash e = sha256_hex (utf8 (canonical prevHash e))"

section \<open>The memory chain\<close>

record chain_entry =
  ce_prevHash :: string
  ce_entryHash :: string
  ce_row :: ledger_entry

record verify_result =
  vr_ok :: bool
  vr_firstBroken :: int
  vr_total :: nat

definition recordMemory :: "ledger_entry \<Rightarrow> chain_entry list \<Rightarrow> chain_entry list" where
  "recordMemory e chain =
     (let prevHash = (if chain = [] then ZERO_HASH else ce_entryHash (last chain))
      in chain @ [\<lparr>ce_prevHash = prevHash, ce_entryHash = computeEntryHash prevHash e, ce_row = e\<rparr>])"

fun verify_memory_loop :: "string \<Rightarrow> nat \<Rightarrow> chain_entry list \<Rightarrow> nat option" where
  "verify_memory_loop prev i [] = None"
| "verify_memory_loop prev i (c # cs) =
     (if ce_prevHash c \<noteq> prev then Some i
      else if ce_entryHash c \<noteq> computeEntryHash prev (ce_row c) then Some i
      else verify_memory_loop (ce_entryHash c) (Suc i) cs)"

definition verify_outcome :: "nat option \<Rightarrow> nat \<Rightarrow> verify_result" where
  "verify_outcome broken n = (case broken of
     Some i \<Rightarrow> \<lparr>vr_ok = False, vr_firstBroken = int i, vr_total = n\<rparr>
   | None \<Rightarrow> \<lparr>vr_ok = True, vr_firstBroken = -1, vr_total = n\<rparr>)"

definition verifyChainMemory :: "chain_entry list \<Rightarrow> verify_result" where
  "verifyChainMemory chain = verify_outcome (verify_memory_loop ZERO_HASH 0 chain) (length chain)"

definition tamper :: "nat \<Rightarrow> (ledger_entry \<Rightarrow> ledger_entry) \<Rightarrow> chain_entry list \<Rightarrow> chain_entry list" where
  "tamper i mutate chain =
     (if i < length chain then chain[i := (chain ! i)\<lparr>ce_row := mutate (ce_row (chain ! i))\<rparr>] else chain)"

section \<open>The table\<close>

record ledger_row =
  lr_created :: int
  lr_id :: nat
  lr_prevHash :: "string option"
  lr_entryHash :: "string option"
  lr_entry :: ledger_entry

definition in_order :: "ledger_row list \<Rightarrow> ledger_row list" where
  "in_order rows = sort_key (\<lambda>r. (lr_created r, lr_id r)) rows"

text \<open>\<open>SELECT entry_hash ... ORDER BY created_at DESC, id DESC LIMIT 1\<close>.\<close>

definition pg_head :: "ledger_row list \<Rightarrow> string" where
  "pg_head rows = (case in_order rows of
     [] \<Rightarrow> ZERO_HASH
   | _ # _ \<Rightarrow> (case lr_entryHash (last (in_order rows)) of Some h \<Rightarrow> h | None \<Rightarrow> ZERO_HASH))"

text \<open>The insert raises on a text longer than its column and on a text with a NUL.\<close>

definition fits :: "nat option \<Rightarrow> string option \<Rightarrow> bool" where
  "fits limit t = (case t of
     None \<Rightarrow> True
   | Some s \<Rightarrow> CHR 0x00 \<notin> set s \<and> (case limit of Some n \<Rightarrow> length s \<le> n | None \<Rightarrow> True))"

definition storable :: "ledger_entry \<Rightarrow> bool" where
  "storable e = (fits (Some 64) (le_jti e) \<and> fits None (le_sub e) \<and> fits None (le_iss e)
     \<and> fits (Some 64) (le_signerIp e) \<and> fits None (le_decisionDetail e))"

definition pg_insert :: "int \<Rightarrow> nat \<Rightarrow> string \<Rightarrow> ledger_entry \<Rightarrow> ledger_row list \<Rightarrow> ledger_row list option" where
  "pg_insert now uuid prevHash e rows =
     (if storable e then Some (rows @ [\<lparr>lr_created = now, lr_id = uuid, lr_prevHash = Some prevHash,
        lr_entryHash = Some (computeEntryHash prevHash e), lr_entry = e\<rparr>])
      else None)"

definition recordPostgres :: "int \<Rightarrow> nat \<Rightarrow> ledger_entry \<Rightarrow> ledger_row list \<Rightarrow> ledger_row list option" where
  "recordPostgres now uuid e rows = pg_insert now uuid (pg_head rows) e rows"

fun verify_pg_loop :: "string \<Rightarrow> nat \<Rightarrow> ledger_row list \<Rightarrow> nat option" where
  "verify_pg_loop prev i [] = None"
| "verify_pg_loop prev i (r # rs) =
     (if lr_prevHash r \<noteq> None \<and> lr_prevHash r \<noteq> Some prev then Some i
      else (let recomputed = computeEntryHash prev (lr_entry r)
            in if lr_entryHash r \<noteq> None \<and> lr_entryHash r \<noteq> Some recomputed then Some i
               else verify_pg_loop (case lr_entryHash r of Some h \<Rightarrow> h | None \<Rightarrow> recomputed) (Suc i) rs))"

definition verifyChainPostgres :: "ledger_row list \<Rightarrow> verify_result" where
  "verifyChainPostgres rows = verify_outcome (verify_pg_loop ZERO_HASH 0 (in_order rows)) (length rows)"

section \<open>The service\<close>

text \<open>\<open>record\<close>: the memory chain always, the table when \<open>AUTH_PERSISTENCE\<close> is postgres; a failed write is
  logged and dropped. The queue runs the writes of one process one after the other.\<close>

record ledger =
  lg_memory :: "chain_entry list"
  lg_rows :: "ledger_row list"

definition record_decision :: "bool \<Rightarrow> int \<Rightarrow> nat \<Rightarrow> ledger_entry \<Rightarrow> ledger \<Rightarrow> ledger" where
  "record_decision postgres now uuid e s =
     s\<lparr>lg_memory := recordMemory e (lg_memory s),
       lg_rows := (if postgres then (case recordPostgres now uuid e (lg_rows s) of Some rs \<Rightarrow> rs | None \<Rightarrow> lg_rows s)
                   else lg_rows s)\<rparr>"

definition verifyChain :: "bool \<Rightarrow> ledger \<Rightarrow> verify_result" where
  "verifyChain postgres s = (if postgres then verifyChainPostgres (lg_rows s) else verifyChainMemory (lg_memory s))"

section \<open>Lemmas\<close>

text \<open>What a row says once an absent field and an empty one are not told apart.\<close>

definition row_content :: "ledger_entry \<Rightarrow> string list" where
  "row_content e = tl (entry_fields [] e)"

definition sep_free :: "ledger_entry \<Rightarrow> bool" where
  "sep_free e = list_all (\<lambda>t. SEP \<notin> set (text_or_empty t)) [le_jti e, le_sub e, le_iss e, le_signerIp e, le_decisionDetail e]"

lemma entry_fields_Cons: "entry_fields h e = h # row_content e"
  by (simp add: entry_fields_def row_content_def)

lemma sep_not_digit: "SEP \<notin> set digits \<and> SEP \<noteq> CHR ''-''"
  by code_simp

lemma int_sep_free: "SEP \<notin> set (int_or_empty n)"
  using show_int_chars [of "the n"] sep_not_digit by (auto simp: int_or_empty_def split: option.splits)

lemma decision_sep_free: "SEP \<notin> set (decision_string d)"
  by (cases d) (simp_all add: SEP_def)

lemma canonical_inject:
  assumes "canonical h e = canonical h' e'" "sep_free e" "sep_free e'" "SEP \<notin> set h" "SEP \<notin> set h'"
  shows "h = h' \<and> row_content e = row_content e'"
proof -
  have "entry_fields h e = entry_fields h' e'"
  proof (rule join_inject)
    show "join_with [SEP] (entry_fields h e) = join_with [SEP] (entry_fields h' e')"
      using assms(1) by (simp add: canonical_def)
  qed (use assms(2-5) in \<open>auto simp: entry_fields_def sep_free_def int_sep_free decision_sep_free\<close>)
  then show ?thesis by (simp add: entry_fields_Cons)
qed

text \<open>The chain that the memory path builds, and its head.\<close>

definition chain_head :: "string \<Rightarrow> chain_entry list \<Rightarrow> string" where
  "chain_head h chain = (if chain = [] then h else ce_entryHash (last chain))"

lemma chain_head_simps [simp]: "chain_head h [] = h" "chain_head h (c # cs) = chain_head (ce_entryHash c) cs"
  by (simp_all add: chain_head_def)

lemma recordMemory_eq:
  "recordMemory e chain = chain @ [\<lparr>ce_prevHash = chain_head ZERO_HASH chain,
     ce_entryHash = computeEntryHash (chain_head ZERO_HASH chain) e, ce_row = e\<rparr>]"
  by (simp add: recordMemory_def chain_head_def Let_def)

lemma verify_memory_append:
  "verify_memory_loop h i (xs @ ys) = (case verify_memory_loop h i xs of
     None \<Rightarrow> verify_memory_loop (chain_head h xs) (i + length xs) ys | Some j \<Rightarrow> Some j)"
  by (induction h i xs rule: verify_memory_loop.induct) (auto split: option.split)

lemma record_verifies:
  "verify_memory_loop ZERO_HASH 0 (fold recordMemory es []) = None \<and> length (fold recordMemory es []) = length es"
proof (induction es rule: rev_induct)
  case (snoc e es)
  then show ?case by (simp add: recordMemory_eq [of e "fold recordMemory es []"] verify_memory_append)
qed simp

lemma verify_memory_prefix:
  "verify_memory_loop h i chain = None \<Longrightarrow> j < length chain \<Longrightarrow>
   verify_memory_loop h i (take j chain) = None \<and> ce_prevHash (chain ! j) = chain_head h (take j chain)
   \<and> ce_entryHash (chain ! j) = computeEntryHash (ce_prevHash (chain ! j)) (ce_row (chain ! j))"
proof (induction h i chain arbitrary: j rule: verify_memory_loop.induct)
  case (2 prev i c cs)
  then show ?case by (cases j) (simp_all split: if_splits)
qed simp

lemma verify_memory_tampered:
  assumes "verify_memory_loop h i chain = None" "j < length chain"
    and "computeEntryHash (ce_prevHash (chain ! j)) r \<noteq> ce_entryHash (chain ! j)"
  shows "verify_memory_loop h i (chain[j := (chain ! j)\<lparr>ce_row := r\<rparr>]) = Some (i + j)"
proof -
  have "chain[j := (chain ! j)\<lparr>ce_row := r\<rparr>] = take j chain @ ((chain ! j)\<lparr>ce_row := r\<rparr>) # drop (Suc j) chain"
    using assms(2) by (simp add: upd_conv_take_nth_drop)
  with verify_memory_prefix [OF assms(1,2)] assms(2,3) show ?thesis
    by (auto simp: verify_memory_append)
qed

text \<open>The table, when its rows are inserted in the order of their clocks.\<close>

definition by_clock :: "ledger_row list \<Rightarrow> bool" where
  "by_clock rows = sorted (map (\<lambda>r. (lr_created r, lr_id r)) rows)"

lemma in_order_id: "by_clock rows \<Longrightarrow> in_order rows = rows"
  by (simp add: in_order_def by_clock_def sort_key_id_if_sorted)

definition rows_head :: "string \<Rightarrow> ledger_row list \<Rightarrow> string" where
  "rows_head h rows = (if rows = [] then h else the (lr_entryHash (last rows)))"

lemma rows_head_simps [simp]: "rows_head h [] = h" "rows_head h (r # rs) = rows_head (the (lr_entryHash r)) rs"
  by (simp_all add: rows_head_def)

lemma verify_pg_append:
  "\<forall>r \<in> set xs. lr_entryHash r \<noteq> None \<Longrightarrow> verify_pg_loop h i (xs @ ys) = (case verify_pg_loop h i xs of
     None \<Rightarrow> verify_pg_loop (rows_head h xs) (i + length xs) ys | Some j \<Rightarrow> Some j)"
  by (induction h i xs rule: verify_pg_loop.induct) (auto simp: Let_def split: option.split)

text \<open>A history of decisions: the transaction's clock, the row id and the decision.\<close>

type_synonym decision_op = "int \<times> nat \<times> ledger_entry"

definition record_all :: "bool \<Rightarrow> decision_op list \<Rightarrow> ledger \<Rightarrow> ledger" where
  "record_all postgres ops s = fold (\<lambda>(now, uuid, e). record_decision postgres now uuid e) ops s"

definition empty_ledger :: ledger where
  "empty_ledger = \<lparr>lg_memory = [], lg_rows = []\<rparr>"

lemma record_all_memory: "lg_memory (record_all postgres ops s) = fold recordMemory (map (snd \<circ> snd) ops) (lg_memory s)"
  by (induction ops arbitrary: s) (auto simp: record_all_def record_decision_def)

text \<open>Invariant of the table under writes in clock order: sorted, older than the next write, verified.\<close>

definition table_ok :: "int \<Rightarrow> ledger_row list \<Rightarrow> bool" where
  "table_ok t rows = (by_clock rows \<and> (\<forall>r \<in> set rows. lr_created r < t \<and> lr_entryHash r \<noteq> None)
     \<and> verify_pg_loop ZERO_HASH 0 rows = None)"

lemma pg_head_eq: "table_ok t rows \<Longrightarrow> pg_head rows = rows_head ZERO_HASH rows"
proof (cases rows)
  case (Cons r rs)
  assume ok: "table_ok t rows"
  then have "in_order rows = rows" by (simp add: table_ok_def in_order_id)
  moreover have "last rows \<in> set rows" by (rule last_in_set) (simp add: Cons)
  with ok have "lr_entryHash (last rows) \<noteq> None" by (simp add: table_ok_def)
  ultimately show ?thesis using Cons by (auto simp: pg_head_def rows_head_def simp del: last.simps)
qed (simp add: pg_head_def in_order_def)

lemma table_ok_insert:
  assumes "table_ok t rows" "t \<le> now" "now < t'" "recordPostgres now uuid e rows = Some rows'"
  shows "table_ok t' rows' \<and> length rows' = Suc (length rows)"
proof -
  have r: "rows' = rows @ [\<lparr>lr_created = now, lr_id = uuid, lr_prevHash = Some (rows_head ZERO_HASH rows),
      lr_entryHash = Some (computeEntryHash (rows_head ZERO_HASH rows) e), lr_entry = e\<rparr>]"
    using assms(1,4) by (auto simp: recordPostgres_def pg_insert_def pg_head_eq split: if_splits)
  have "\<forall>r \<in> set rows. (lr_created r, lr_id r) \<le> (now, uuid)"
    using assms(1,2) by (fastforce simp: table_ok_def less_eq_prod_def)
  then have "by_clock rows'" using assms(1) by (simp add: r table_ok_def by_clock_def sorted_append)
  moreover have "verify_pg_loop ZERO_HASH 0 rows' = None"
    using assms(1) by (simp add: r table_ok_def verify_pg_append Let_def)
  ultimately show ?thesis using assms(1-3) by (auto simp: r table_ok_def)
qed

lemma table_ok_mono: "table_ok t rows \<Longrightarrow> t \<le> t' \<Longrightarrow> table_ok t' rows"
  by (fastforce simp: table_ok_def)

lemma record_all_table:
  assumes "table_ok t (lg_rows s)" "sorted_wrt (<) (map fst ops)" "\<forall>op \<in> set ops. t \<le> fst op"
  shows "\<exists>t'. table_ok t' (lg_rows (record_all True ops s))
    \<and> length (lg_rows (record_all True ops s)) = length (lg_rows s) + length (filter (storable \<circ> snd \<circ> snd) ops)"
  using assms
proof (induction ops arbitrary: t s)
  case (Cons op ops)
  obtain now uuid e where op: "op = (now, uuid, e)" by (cases op)
  let ?s = "record_decision True now uuid e s"
  have now: "t \<le> now" "\<forall>op \<in> set ops. now + 1 \<le> fst op" "sorted_wrt (<) (map fst ops)"
    using Cons.prems(2,3) op by fastforce+
  have "table_ok (now + 1) (lg_rows ?s) \<and> length (lg_rows ?s) = length (lg_rows s) + (if storable e then 1 else 0)"
  proof (cases "storable e")
    case True
    then obtain rs where rs: "recordPostgres now uuid e (lg_rows s) = Some rs"
      by (auto simp: recordPostgres_def pg_insert_def)
    from table_ok_insert [OF Cons.prems(1) now(1) _ this, of "now + 1"] True rs show ?thesis by (simp add: record_decision_def)
  next
    case False
    then have "lg_rows ?s = lg_rows s" by (simp add: record_decision_def recordPostgres_def pg_insert_def)
    with table_ok_mono [OF Cons.prems(1), of "now + 1"] now(1) False show ?thesis by simp
  qed
  moreover have "record_all True (op # ops) s = record_all True ops ?s" by (simp add: record_all_def op)
  ultimately show ?case using Cons.IH [of "now + 1" ?s] now(2,3) by (auto simp: op)
qed (auto simp: record_all_def)

lemma hex_sep_free: "SEP \<notin> set (sha256_hex m)"
proof -
  have "SEP \<notin> set hex_digits" by code_simp
  then show ?thesis using hex_of_bytes_digits [of "sha256 m"] by (auto simp: sha256_hex_def all_in_def list_all_iff)
qed

lemma head_sep_free: "SEP \<notin> set (chain_head ZERO_HASH (fold recordMemory es []))"
proof (cases es rule: rev_cases)
  case Nil
  then show ?thesis by (simp add: ZERO_HASH_def SEP_def)
next
  case (snoc xs x)
  then show ?thesis
    by (simp add: recordMemory_eq [of x "fold recordMemory xs []"] chain_head_def computeEntryHash_def hex_sep_free)
qed

lemma fold_record_nth:
  "i < length es \<Longrightarrow> fold recordMemory es [] ! i = \<lparr>ce_prevHash = chain_head ZERO_HASH (fold recordMemory (take i es) []),
     ce_entryHash = computeEntryHash (chain_head ZERO_HASH (fold recordMemory (take i es) [])) (es ! i), ce_row = es ! i\<rparr>"
proof (induction es rule: rev_induct)
  case (snoc e es)
  have "length (fold recordMemory es []) = length es" using record_verifies by blast
  with snoc show ?case 
    by (cases "i < length es") (auto simp: recordMemory_eq [of e "fold recordMemory es []"] nth_append less_Suc_eq)
qed simp

section \<open>Properties\<close>

text \<open>C7. The ledger verifies after every history of decisions of one process, in both backends: the memory chain
  holds every decision, the table every decision whose fields fit its columns. The clocks of the transactions
  increase because the queue runs them one after the other.\<close>

theorem ledger_always_verifies:
  assumes "sorted_wrt (<) (map fst ops)"
  shows "verifyChain False (record_all postgres ops empty_ledger) = \<lparr>vr_ok = True, vr_firstBroken = -1, vr_total = length ops\<rparr>
    \<and> verifyChain True (record_all True ops empty_ledger)
      = \<lparr>vr_ok = True, vr_firstBroken = -1, vr_total = length (filter (storable \<circ> snd \<circ> snd) ops)\<rparr>"
proof
  show "verifyChain False (record_all postgres ops empty_ledger) = \<lparr>vr_ok = True, vr_firstBroken = -1, vr_total = length ops\<rparr>"
    using record_verifies [of "map (snd \<circ> snd) ops"]
    by (simp add: verifyChain_def verifyChainMemory_def record_all_memory empty_ledger_def verify_outcome_def)
  define t where "t = (if ops = [] then 0 else fst (hd ops))"
  have "\<forall>op \<in> set ops. t \<le> fst op" using assms by (cases ops) (auto simp: t_def)
  with record_all_table [of t empty_ledger ops] assms obtain t' where
    "table_ok t' (lg_rows (record_all True ops empty_ledger))"
    "length (lg_rows (record_all True ops empty_ledger)) = length (filter (storable \<circ> snd \<circ> snd) ops)"
    by (auto simp: empty_ledger_def table_ok_def by_clock_def)
  then show "verifyChain True (record_all True ops empty_ledger)
      = \<lparr>vr_ok = True, vr_firstBroken = -1, vr_total = length (filter (storable \<circ> snd \<circ> snd) ops)\<rparr>"
    by (simp add: verifyChain_def verifyChainPostgres_def verify_outcome_def table_ok_def in_order_id)
qed

definition rejected :: "string \<Rightarrow> string \<Rightarrow> ledger_entry" where
  "rejected sub detail = \<lparr>le_jti = None, le_sub = Some sub, le_iss = Some ''cp'', le_iat = None, le_exp = None,
     le_signerIp = None, le_decision = RejectAlg, le_decisionDetail = Some detail\<rparr>"

theorem ledger_always_verifies_witness:
  "verifyChain True (record_all True [(1, 7, rejected ''a'' ''x''), (2, 3, rejected ''b'' ''y'')] empty_ledger)
   = \<lparr>vr_ok = True, vr_firstBroken = -1, vr_total = 2\<rparr>"
  using ledger_always_verifies [of "[(1, 7, rejected ''a'' ''x''), (2, 3, rejected ''b'' ''y'')]" True]
  by (simp add: storable_def rejected_def fits_def)

text \<open>The string that is hashed for a row after the first \<open>i\<close> decisions.\<close>

definition hashed_row :: "ledger_entry list \<Rightarrow> nat \<Rightarrow> ledger_entry \<Rightarrow> bytes" where
  "hashed_row es i e = utf8 (canonical (chain_head ZERO_HASH (fold recordMemory (take i es) [])) e)"



text \<open>The separator is not excluded from the fields, so the hash does not determine a row: the subject and the
  detail of a refused request are the caller's text, and two different rows have the same hash after every
  predecessor.\<close>

theorem separator_in_fields_collides:
  "rejected ''victim'' (''algorithm=a'' @ [SEP] @ ''cp'' @ replicate 4 SEP @ ''algorithm=b'')
     \<noteq> rejected (''victim'' @ [SEP] @ ''cp'' @ replicate 4 SEP @ ''algorithm=a'') ''algorithm=b''
   \<and> computeEntryHash h (rejected ''victim'' (''algorithm=a'' @ [SEP] @ ''cp'' @ replicate 4 SEP @ ''algorithm=b''))
     = computeEntryHash h (rejected (''victim'' @ [SEP] @ ''cp'' @ replicate 4 SEP @ ''algorithm=a'') ''algorithm=b'')"
  by (simp add: rejected_def computeEntryHash_def canonical_def entry_fields_def text_or_empty_def int_or_empty_def
      numeral_eq_Suc)

text \<open>A transaction does not serialize two processes: when both read the head of the empty table before either
  inserts, the table verifies only in the case that the first row hashes to the zero hash itself.\<close>

theorem concurrent_writers_fork:
  assumes "t1 < t2" "pg_insert t1 u1 (pg_head []) e1 [] = Some rows" "pg_insert t2 u2 (pg_head []) e2 rows = Some rows'"
  shows "vr_ok (verifyChainPostgres rows') \<longleftrightarrow> computeEntryHash ZERO_HASH e1 = ZERO_HASH"
proof -
  have r: "rows' = [\<lparr>lr_created = t1, lr_id = u1, lr_prevHash = Some ZERO_HASH,
        lr_entryHash = Some (computeEntryHash ZERO_HASH e1), lr_entry = e1\<rparr>,
      \<lparr>lr_created = t2, lr_id = u2, lr_prevHash = Some ZERO_HASH,
        lr_entryHash = Some (computeEntryHash ZERO_HASH e2), lr_entry = e2\<rparr>]"
    using assms(2,3) by (auto simp: pg_insert_def pg_head_def in_order_def split: if_splits)
  have "by_clock rows'" using assms(1) by (simp add: r by_clock_def less_eq_prod_def)
  then show ?thesis
    by (auto simp: verifyChainPostgres_def in_order_id r verify_outcome_def Let_def split: option.splits if_splits)
qed

theorem concurrent_writers_fork_witness:
  "\<exists>rows rows'. pg_insert 1 9 (pg_head []) (rejected ''a'' ''x'') [] = Some rows
    \<and> pg_insert 2 4 (pg_head []) (rejected ''b'' ''y'') rows = Some rows'
    \<and> (vr_ok (verifyChainPostgres rows') \<longleftrightarrow> computeEntryHash ZERO_HASH (rejected ''a'' ''x'') = ZERO_HASH)"
proof -
  have s: "storable (rejected ''a'' ''x'')" "storable (rejected ''b'' ''y'')"
    by (simp_all add: storable_def rejected_def fits_def)
  then obtain rows where r: "pg_insert 1 9 (pg_head []) (rejected ''a'' ''x'') [] = Some rows" by (simp add: pg_insert_def)
  from s obtain rows' where r': "pg_insert 2 4 (pg_head []) (rejected ''b'' ''y'') rows = Some rows'" by (simp add: pg_insert_def)
  from concurrent_writers_fork [OF _ r r'] r r' show ?thesis by auto
qed

end
