(* ===== verification/Codec.thy ===== *)
theory Codec
  imports Prelude
begin

text \<open>
  The text codecs of the platform that the sources use on tokens and wire objects: \<open>JSON.stringify\<close>,
  \<open>JSON.parse\<close>, \<open>Buffer.toString('base64url')\<close>, \<open>Buffer.from(s, 'base64url')\<close> and the UTF-8 decoding of a buffer,
  as executable functions with their round trips.

  Characters are U+0000 to U+00FF, the range of HOL strings; \<open>utf8_decode\<close> and the \<open>\u\<close> escapes give \<open>None\<close>
  outside it. \<open>stringify\<close> is defined on values whose numbers are integers, the only ones the sources print,
  and is \<open>None\<close> elsewhere. The parser works on fuel, two units per character, which \<open>parse_json\<close> supplies.
\<close>

section \<open>JSON.stringify\<close>

definition quote :: char where "quote = CHR 0x22"
definition backslash :: char where "backslash = CHR 0x5C"

definition escape_char :: "char \<Rightarrow> string" where
  "escape_char c =
     (if c = quote then [backslash, quote]
      else if c = backslash then [backslash, backslash]
      else if c = CHR 0x08 then backslash # ''b''
      else if c = CHR 0x09 then backslash # ''t''
      else if c = CHR 0x0A then backslash # ''n''
      else if c = CHR 0x0C then backslash # ''f''
      else if c = CHR 0x0D then backslash # ''r''
      else if (of_char c :: nat) < 32 then backslash # ''u00'' @ hex_of_byte (of_nat (of_char c))
      else [c])"

definition json_string :: "string \<Rightarrow> string" where
  "json_string s = quote # concat (map escape_char s) @ [quote]"

fun stringify :: "json \<Rightarrow> string option"
  and stringify_list :: "json list \<Rightarrow> string option"
  and stringify_members :: "(string \<times> json) list \<Rightarrow> string option" where
  "stringify JNull = Some ''null''"
| "stringify (JBool b) = Some (if b then ''true'' else ''false'')"
| "stringify (JNum n) = (case n of
     Fin r \<Rightarrow> if isInteger n then Some (show_int (int_of_num n)) else None
   | _ \<Rightarrow> Some ''null'')"
| "stringify (JStr s) = Some (json_string s)"
| "stringify (JArr vs) = (case vs of
     [] \<Rightarrow> Some ''[]''
   | _ \<Rightarrow> map_option (\<lambda>t. ''['' @ t @ '']'') (stringify_list vs))"
| "stringify (JObj ms) = (case ms of
     [] \<Rightarrow> Some ''{}''
   | _ \<Rightarrow> map_option (\<lambda>t. ''{'' @ t @ ''}'') (stringify_members ms))"
| "stringify_list [] = Some []"
| "stringify_list (v # vs) = (case (stringify v, stringify_list vs) of
     (Some t, Some ts) \<Rightarrow> Some (if vs = [] then t else t @ '','' @ ts)
   | _ \<Rightarrow> None)"
| "stringify_members [] = Some []"
| "stringify_members ((k, v) # ms) = (case (stringify v, stringify_members ms) of
     (Some t, Some ts) \<Rightarrow> Some (json_string k @ '':'' @ (if ms = [] then t else t @ '','' @ ts))
   | _ \<Rightarrow> None)"

section \<open>JSON.parse\<close>

definition json_ws :: "char \<Rightarrow> bool" where
  "json_ws c = (c \<in> set [CHR '' '', CHR 0x09, CHR 0x0A, CHR 0x0D])"

definition skip_ws :: "string \<Rightarrow> string" where
  "skip_ws s = dropWhile json_ws s"

definition hex_any :: "char \<Rightarrow> nat option" where
  "hex_any c = index_of (lower_char c) hex_digits"

definition unicode_escape :: "char \<Rightarrow> char \<Rightarrow> char \<Rightarrow> char \<Rightarrow> char option" where
  "unicode_escape a b c d = (case (hex_any a, hex_any b, hex_any c, hex_any d) of
     (Some 0, Some 0, Some x, Some y) \<Rightarrow> Some (char_of (16 * x + y))
   | _ \<Rightarrow> None)"

definition simple_escape :: "char \<Rightarrow> char option" where
  "simple_escape e =
     (if e = quote \<or> e = backslash \<or> e = CHR ''/'' then Some e
      else if e = CHR ''b'' then Some (CHR 0x08)
      else if e = CHR ''t'' then Some (CHR 0x09)
      else if e = CHR ''n'' then Some (CHR 0x0A)
      else if e = CHR ''f'' then Some (CHR 0x0C)
      else if e = CHR ''r'' then Some (CHR 0x0D)
      else None)"

definition cons_fst :: "'a \<Rightarrow> ('a list \<times> 'b) option \<Rightarrow> ('a list \<times> 'b) option" where
  "cons_fst c r = map_option (\<lambda>(t, rest). (c # t, rest)) r"

text \<open>The rest of a string literal after its opening quote.\<close>

fun parse_string :: "string \<Rightarrow> (string \<times> string) option" where
  "parse_string [] = None"
| "parse_string (c # cs) =
     (if c = quote then Some ([], cs)
      else if c = backslash then
        (case cs of
           [] \<Rightarrow> None
         | e # r \<Rightarrow>
             if e = CHR ''u'' then
               (case r of
                  h1 # h2 # h3 # h4 # r' \<Rightarrow>
                    (case unicode_escape h1 h2 h3 h4 of Some x \<Rightarrow> cons_fst x (parse_string r') | None \<Rightarrow> None)
                | _ \<Rightarrow> None)
             else (case simple_escape e of Some x \<Rightarrow> cons_fst x (parse_string r) | None \<Rightarrow> None))
      else if (of_char c :: nat) < 32 then None
      else cons_fst c (parse_string cs))"

definition parse_exponent :: "string \<Rightarrow> (int \<times> string) option" where
  "parse_exponent s = (case s of
     e # r \<Rightarrow>
       if e = CHR ''e'' \<or> e = CHR ''E'' then
         (let r1 = (case r of c # cs \<Rightarrow> if c = CHR ''+'' \<or> c = CHR ''-'' then cs else r | [] \<Rightarrow> []);
              ds = takeWhile is_digit r1
          in if ds = [] then None
             else Some (if r \<noteq> [] \<and> hd r = CHR ''-'' then - int (nat_of_digits ds) else int (nat_of_digits ds),
                        dropWhile is_digit r1))
       else Some (0, s)
   | [] \<Rightarrow> Some (0, s))"

definition parse_fraction :: "string \<Rightarrow> (string \<times> string) option" where
  "parse_fraction s = (case s of
     d # r \<Rightarrow>
       if d = CHR ''.'' then (if takeWhile is_digit r = [] then None else Some (takeWhile is_digit r, dropWhile is_digit r))
       else Some ([], s)
   | [] \<Rightarrow> Some ([], s))"

definition parse_number :: "string \<Rightarrow> (json \<times> string) option" where
  "parse_number s =
     (let neg = (s \<noteq> [] \<and> hd s = CHR ''-'');
          t = (if neg then tl s else s);
          ip = takeWhile is_digit t
      in if ip = [] \<or> (1 < length ip \<and> hd ip = CHR ''0'') then None
         else (case parse_fraction (dropWhile is_digit t) of
             None \<Rightarrow> None
           | Some (fp, r1) \<Rightarrow>
               (case parse_exponent r1 of
                  None \<Rightarrow> None
                | Some (e, r2) \<Rightarrow>
                    let v = of_nat (nat_of_digits (ip @ fp)) * pow10 (e - int (length fp))
                    in Some (JNum (Fin (if neg then - v else v)), r2))))"

definition parse_literal :: "string \<Rightarrow> (json \<times> string) option" where
  "parse_literal s =
     (if starts_with ''true'' s then Some (JBool True, drop 4 s)
      else if starts_with ''false'' s then Some (JBool False, drop 5 s)
      else if starts_with ''null'' s then Some (JNull, drop 4 s)
      else parse_number s)"

fun parse_value :: "nat \<Rightarrow> string \<Rightarrow> (json \<times> string) option"
  and parse_elems :: "nat \<Rightarrow> string \<Rightarrow> (json list \<times> string) option"
  and parse_members :: "nat \<Rightarrow> string \<Rightarrow> ((string \<times> json) list \<times> string) option" where
  "parse_value 0 s = None"
| "parse_value (Suc n) s = (case skip_ws s of
     [] \<Rightarrow> None
   | c # cs \<Rightarrow>
       if c = quote then map_option (\<lambda>(t, r). (JStr t, r)) (parse_string cs)
       else if c = CHR ''['' then
         (if skip_ws cs \<noteq> [] \<and> hd (skip_ws cs) = CHR '']'' then Some (JArr [], tl (skip_ws cs))
          else map_option (\<lambda>(vs, r). (JArr vs, r)) (parse_elems n cs))
       else if c = CHR ''{'' then
         (if skip_ws cs \<noteq> [] \<and> hd (skip_ws cs) = CHR ''}'' then Some (JObj [], tl (skip_ws cs))
          else map_option (\<lambda>(ms, r). (JObj (fold (\<lambda>(k, v). AList.update k v) ms []), r)) (parse_members n cs))
       else parse_literal (c # cs))"
| "parse_elems 0 s = None"
| "parse_elems (Suc n) s = (case parse_value n s of
     None \<Rightarrow> None
   | Some (v, r) \<Rightarrow> (case skip_ws r of
       [] \<Rightarrow> None
     | c # cs \<Rightarrow>
         if c = CHR '','' then cons_fst v (parse_elems n cs)
         else if c = CHR '']'' then Some ([v], cs)
         else None))"
| "parse_members 0 s = None"
| "parse_members (Suc n) s = (case skip_ws s of
     [] \<Rightarrow> None
   | q # r0 \<Rightarrow>
       if q \<noteq> quote then None
       else (case parse_string r0 of
           None \<Rightarrow> None
         | Some (k, r1) \<Rightarrow> (case skip_ws r1 of
             [] \<Rightarrow> None
           | d # r2 \<Rightarrow>
               if d \<noteq> CHR '':'' then None
               else (case parse_value n r2 of
                   None \<Rightarrow> None
                 | Some (v, r3) \<Rightarrow> (case skip_ws r3 of
                     [] \<Rightarrow> None
                   | c # cs \<Rightarrow>
                       if c = CHR '','' then cons_fst (k, v) (parse_members n cs)
                       else if c = CHR ''}'' then Some ([(k, v)], cs)
                       else None)))))"

definition parse_json :: "string \<Rightarrow> json option" where
  "parse_json s = (case parse_value (2 * length s + 2) s of
     Some (v, r) \<Rightarrow> if skip_ws r = [] then Some v else None
   | None \<Rightarrow> None)"

section \<open>base64url and UTF-8\<close>

definition b64url_alphabet :: string where
  "b64url_alphabet = upper_letters @ lower_letters @ digits @ ''-_''"

definition b64url_char :: "nat \<Rightarrow> char" where
  "b64url_char n = b64url_alphabet ! (n mod 64)"

fun b64url_encode :: "bytes \<Rightarrow> string" where
  "b64url_encode [] = []"
| "b64url_encode [a] = [b64url_char (unat a div 4), b64url_char (unat a mod 4 * 16)]"
| "b64url_encode [a, b] = [b64url_char (unat a div 4), b64url_char (unat a mod 4 * 16 + unat b div 16),
     b64url_char (unat b mod 16 * 4)]"
| "b64url_encode (a # b # c # bs) =
     [b64url_char (unat a div 4), b64url_char (unat a mod 4 * 16 + unat b div 16),
      b64url_char (unat b mod 16 * 4 + unat c div 64), b64url_char (unat c mod 64)] @ b64url_encode bs"

text \<open>\<open>Buffer.toString('base64')\<close>: the other alphabet and padding.\<close>

definition std_char :: "char \<Rightarrow> char" where
  "std_char c = (if c = CHR ''-'' then CHR ''+'' else if c = CHR ''_'' then CHR ''/'' else c)"

definition b64_encode :: "bytes \<Rightarrow> string" where
  "b64_encode bs = map std_char (b64url_encode bs) @ replicate ((3 - length bs mod 3) mod 3) (CHR ''='')"

text \<open>Both alphabets are read, any other character is skipped, a single left-over sextet is dropped.\<close>

definition sextet :: "char \<Rightarrow> nat option" where
  "sextet c = (if c = CHR ''+'' then Some 62 else if c = CHR ''/'' then Some 63 else index_of c b64url_alphabet)"

fun bytes_of_sextets :: "nat list \<Rightarrow> bytes" where
  "bytes_of_sextets (x # y # z # w # r) =
     [of_nat (x * 4 + y div 16), of_nat (y mod 16 * 16 + z div 4), of_nat (z mod 4 * 64 + w)] @ bytes_of_sextets r"
| "bytes_of_sextets [x, y, z] = [of_nat (x * 4 + y div 16), of_nat (y mod 16 * 16 + z div 4)]"
| "bytes_of_sextets [x, y] = [of_nat (x * 4 + y div 16)]"
| "bytes_of_sextets _ = []"

definition b64url_decode :: "string \<Rightarrow> bytes" where
  "b64url_decode s = bytes_of_sextets (List.map_filter sextet s)"

fun utf8_decode :: "bytes \<Rightarrow> string option" where
  "utf8_decode [] = Some []"
| "utf8_decode (a # bs) =
     (if unat a < 128 then map_option (Cons (char_of (unat a))) (utf8_decode bs)
      else (case bs of
          b # r \<Rightarrow>
            if (unat a = 194 \<or> unat a = 195) \<and> unat b div 64 = 2
            then map_option (Cons (char_of ((unat a - 192) * 64 + unat b mod 64))) (utf8_decode r)
            else None
        | [] \<Rightarrow> None))"

text \<open>\<open>JSON.parse(Buffer.from(s, 'base64url').toString('utf8'))\<close>.\<close>

definition decode_segment :: "string \<Rightarrow> json option" where
  "decode_segment s = (case utf8_decode (b64url_decode s) of Some t \<Rightarrow> parse_json t | None \<Rightarrow> None)"

definition encode_segment :: "json \<Rightarrow> string option" where
  "encode_segment v = map_option (\<lambda>t. b64url_encode (utf8 t)) (stringify v)"

section \<open>Round trips\<close>

subsection \<open>Strings\<close>

lemma control_escape: "n < 32 \<Longrightarrow> unicode_escape (CHR ''0'') (CHR ''0'') (hex_char (n div 16)) (hex_char (n mod 16)) = Some (char_of n)"
proof -
  have "list_all (\<lambda>n. unicode_escape (CHR ''0'') (CHR ''0'') (hex_char (n div 16)) (hex_char (n mod 16)) = Some (char_of n)) [0..<32]"
    by code_simp
  then show "n < 32 \<Longrightarrow> ?thesis" by (simp add: list_all_iff)
qed

lemma quote_backslash [simp]: "quote \<noteq> backslash" "backslash \<noteq> quote"
  by (simp_all add: quote_def backslash_def)

lemma parse_escaped: "parse_string (escape_char c @ t) = cons_fst c (parse_string t)"
proof (cases "(of_char c :: nat) < 32")
  case True
  have "unat (of_nat (of_char c) :: byte) = of_char c" using True by (simp add: unsigned_of_nat take_bit_nat_eq_self)
  with True control_escape [of "of_char c"] show ?thesis
    by (auto simp: escape_char_def hex_of_byte_def simple_escape_def quote_def backslash_def)
next
  case False
  then have not_control: "c \<noteq> CHR 0x08 \<and> c \<noteq> CHR 0x09 \<and> c \<noteq> CHR 0x0A \<and> c \<noteq> CHR 0x0C \<and> c \<noteq> CHR 0x0D" by auto
  have esc: "e \<noteq> CHR ''u'' \<Longrightarrow> simple_escape e = Some x \<Longrightarrow> parse_string (backslash # e # t) = cons_fst x (parse_string t)" for e x
    using parse_string.simps(2) [of backslash "e # t"] by (simp del: parse_string.simps)
  show ?thesis
  proof (cases "c = quote \<or> c = backslash")
    case True
    then have "escape_char c = [backslash, c]" "simple_escape c = Some c" "c \<noteq> CHR ''u''"
      by (auto simp: escape_char_def simple_escape_def) (simp_all add: quote_def backslash_def)
    then show ?thesis using esc [of c c] by (simp del: parse_string.simps)
  next
    case plain: False
    with not_control False show ?thesis
      using parse_string.simps(2) [of c t] by (simp add: escape_char_def del: parse_string.simps)
  qed
qed

lemma parse_escaped_string: "parse_string (concat (map escape_char s) @ quote # r) = Some (s, r)"
  by (induction s) (simp_all add: parse_escaped cons_fst_def del: parse_string.simps(2), simp)

subsection \<open>Numbers\<close>

text \<open>What may follow a value inside a document.\<close>

definition value_end :: "string \<Rightarrow> bool" where
  "value_end r = (r = [] \<or> hd r \<in> {CHR '','', CHR '']'', CHR ''}''})"

lemma value_end_simps [simp]: "value_end []" "value_end (CHR '','' # r)" "value_end (CHR '']'' # r)" "value_end (CHR ''}'' # r)"
  by (simp_all add: value_end_def)

lemma value_end_plain: "value_end r \<Longrightarrow> r \<noteq> [] \<Longrightarrow> \<not> is_digit (hd r) \<and> \<not> json_ws (hd r) \<and> hd r \<noteq> CHR ''.''
    \<and> hd r \<noteq> CHR ''e'' \<and> hd r \<noteq> CHR ''E''"
  by (auto simp: value_end_def is_digit_def digits_def json_ws_def)

lemma skip_ws_end [simp]: "value_end r \<Longrightarrow> skip_ws r = r"
  using value_end_plain [of r] by (cases r) (auto simp: skip_ws_def)

lemma no_leading_zero: "1 < length (show_nat n) \<Longrightarrow> hd (show_nat n) \<noteq> CHR ''0''"
proof (induction n rule: show_nat.induct)
  case (1 n)
  show ?case
  proof (cases "n < 10")
    case True
    then show ?thesis using "1.prems" by (simp add: show_nat.simps [of n])
  next
    case big: False
    show ?thesis
    proof (cases "n div 10 < 10")
      case True
      then have "n div 10 \<in> set [1..<10]" using big by auto
      moreover have "list_all (\<lambda>d. digit_char d \<noteq> CHR ''0'') [1..<10]" by code_simp
      ultimately have "digit_char (n div 10) \<noteq> CHR ''0''" unfolding list_all_iff by blast
      with big True show ?thesis by (simp add: show_nat.simps [of n] show_nat.simps [of "n div 10"])
    next
      case False
      then have "1 < length (show_nat (n div 10))"
        by (subst show_nat.simps) (cases "show_nat (n div 10 div 10)"; simp)
      with "1.IH" big show ?thesis by (simp add: show_nat.simps [of n])
    qed
  qed
qed

lemma digits_before_end:
  assumes "value_end r"
  shows "takeWhile is_digit (show_nat n @ r) = show_nat n" "dropWhile is_digit (show_nat n @ r) = r"
proof -
  have all: "\<forall>c \<in> set (show_nat n). is_digit c" using show_nat_digits [of n] by (auto simp: is_digit_def)
  have "takeWhile is_digit r = [] \<and> dropWhile is_digit r = r" using value_end_plain [OF assms] by (cases r) auto
  with all show "takeWhile is_digit (show_nat n @ r) = show_nat n" "dropWhile is_digit (show_nat n @ r) = r"
    by (simp_all add: takeWhile_append2 dropWhile_append2 del: takeWhile_show_nat)
qed

lemma parse_after_digits:
  "value_end r \<Longrightarrow> parse_fraction r = Some ([], r)" "value_end r \<Longrightarrow> parse_exponent r = Some (0, r)"
  using value_end_plain [of r] by (auto simp: parse_fraction_def parse_exponent_def split: list.splits)

lemma parse_number_show: "value_end r \<Longrightarrow> parse_number (show_int i @ r) = Some (JNum (num_of_int i), r)"
proof -
  assume r: "value_end r"
  obtain c cs where c: "show_nat (nat \<bar>i\<bar>) = c # cs" "c \<in> set digits" using show_nat_hd by blast
  have zero: "\<not> (1 < length (show_nat (nat \<bar>i\<bar>)) \<and> hd (show_nat (nat \<bar>i\<bar>)) = CHR ''0'')" using no_leading_zero by blast
  note facts = digits_before_end [OF r, of "nat \<bar>i\<bar>"] parse_after_digits [OF r] zero
  show ?thesis
  proof (cases "i < 0")
    case True
    then have "show_int i = CHR ''-'' # show_nat (nat \<bar>i\<bar>)" by (simp add: show_int_def)
    with True facts show ?thesis by (simp add: parse_number_def Let_def pow10_def num_of_int_def)
  next
    case False
    then have s: "show_int i = show_nat (nat \<bar>i\<bar>)" by (simp add: show_int_def)
    have "hd (show_int i @ r) \<noteq> CHR ''-''" using c digit_plain [of c] by (simp add: s)
    with False facts show ?thesis by (simp add: parse_number_def Let_def pow10_def num_of_int_def s)
  qed
qed

lemma show_int_first: "\<exists>c cs. show_int i = c # cs \<and> (c \<in> set digits \<or> c = CHR ''-'')"
  using show_nat_hd [of "nat i"] by (auto simp: show_int_def)

lemma show_int_starts:
  assumes "list_all P (CHR ''-'' # digits)"
  obtains c cs where "show_int i = c # cs" "P c"
  using show_int_first [of i] assms unfolding list_all_iff by (metis list.set_intros)

subsection \<open>Documents\<close>

text \<open>Values that survive printing: integral numbers, objects with distinct keys.\<close>

fun printable :: "json \<Rightarrow> bool" where
  "printable (JNum n) = isInteger n"
| "printable (JArr vs) = list_all printable vs"
| "printable (JObj ms) = (distinct (map fst ms) \<and> list_all printable (map snd ms))"
| "printable _ = True"

declare parse_value.simps(2) [simp del] parse_elems.simps(2) [simp del] parse_members.simps(2) [simp del]
declare parse_string.simps(2) [simp del]

lemma fold_update_new:
  "distinct (map fst (acc @ ms)) \<Longrightarrow> fold (\<lambda>(k, v). AList.update k v) ms acc = acc @ ms"
proof (induction ms arbitrary: acc)
  case (Cons m ms)
  obtain k v where m: "m = (k, v)" by (cases m)
  have new: "AList.update k v acc = acc @ [(k, v)]"
    using Cons.prems m by (induction acc) auto
  show ?case using Cons.IH [of "acc @ [(k, v)]"] Cons.prems by (simp add: m new)
qed simp

definition starts_value :: "string \<Rightarrow> bool" where
  "starts_value t = (t \<noteq> [] \<and> \<not> json_ws (hd t) \<and> hd t \<notin> {CHR '','', CHR '']'', CHR ''}''})"

lemma starts_value_skip: "starts_value t \<Longrightarrow> skip_ws (t @ r) = t @ r"
  by (cases t) (auto simp: starts_value_def skip_ws_def)

lemma starts_value_hd: "starts_value t \<Longrightarrow> skip_ws (t @ r) \<noteq> [] \<and> hd (skip_ws (t @ r)) \<noteq> CHR '']'' \<and> hd (skip_ws (t @ r)) \<noteq> CHR ''}''"
  by (simp add: starts_value_skip) (simp add: starts_value_def)

lemma quote_plain: "\<not> json_ws quote" "quote \<notin> {CHR '','', CHR '']'', CHR ''}'', CHR ''['', CHR ''{''}"
  by (simp_all add: quote_def json_ws_def)

lemma skip_ws_first [simp]:
  "skip_ws (quote # s) = quote # s" "skip_ws (CHR '':'' # s) = CHR '':'' # s" "skip_ws (CHR '','' # s) = CHR '','' # s"
  "skip_ws (CHR ''['' # s) = CHR ''['' # s" "skip_ws (CHR ''{'' # s) = CHR ''{'' # s"
  "skip_ws (CHR '']'' # s) = CHR '']'' # s" "skip_ws (CHR ''}'' # s) = CHR ''}'' # s"
  by (simp_all add: skip_ws_def quote_def json_ws_def)

lemma starts_value_int: "starts_value (show_int i)"
proof -
  have "list_all (\<lambda>c. \<not> json_ws c \<and> c \<notin> {CHR '','', CHR '']'', CHR ''}''}) (CHR ''-'' # digits)" by code_simp
  then obtain c cs where "show_int i = c # cs" "\<not> json_ws c \<and> c \<notin> {CHR '','', CHR '']'', CHR ''}''}"
    by (rule show_int_starts)
  then show ?thesis by (simp add: starts_value_def)
qed

lemma stringify_starts: "stringify v = Some t \<Longrightarrow> starts_value t"
  by (cases v) (auto simp: starts_value_int split: if_splits jsnum.splits list.splits,
      simp_all add: starts_value_def json_ws_def json_string_def quote_def)

lemma members_start: "stringify_members ms = Some t \<Longrightarrow> ms \<noteq> [] \<Longrightarrow> \<exists>u. t = quote # u"
  by (cases ms) (auto simp: json_string_def split: option.splits)

lemma elems_start: "stringify_list vs = Some t \<Longrightarrow> vs \<noteq> [] \<Longrightarrow> starts_value t"
proof (cases vs)
  case (Cons v us)
  assume "stringify_list vs = Some t"
  with Cons obtain a b where "stringify v = Some a" "t = a \<or> t = a @ b" by (auto split: option.splits if_splits)
  with stringify_starts show ?thesis by (fastforce simp: starts_value_def)
qed simp

lemma parse_literal_show: "value_end r \<Longrightarrow> parse_literal (show_int i @ r) = Some (JNum (num_of_int i), r)"
proof -
  assume r: "value_end r"
  have "list_all (\<lambda>c. c \<noteq> CHR ''t'' \<and> c \<noteq> CHR ''f'' \<and> c \<noteq> CHR ''n'') (CHR ''-'' # digits)" by code_simp
  then obtain c cs where "show_int i = c # cs" "c \<noteq> CHR ''t'' \<and> c \<noteq> CHR ''f'' \<and> c \<noteq> CHR ''n''"
    by (rule show_int_starts)
  with parse_number_show [OF r, of i] show ?thesis by (simp add: parse_literal_def starts_with_def)
qed

lemma parse_int_value: "value_end r \<Longrightarrow> parse_value (Suc n) (show_int i @ r) = Some (JNum (num_of_int i), r)"
proof -
  assume r: "value_end r"
  have "list_all (\<lambda>c. c \<noteq> quote \<and> c \<noteq> CHR ''['' \<and> c \<noteq> CHR ''{'') (CHR ''-'' # digits)" by code_simp
  then obtain c cs where "show_int i = c # cs" "c \<noteq> quote \<and> c \<noteq> CHR ''['' \<and> c \<noteq> CHR ''{''"
    by (rule show_int_starts)
  with starts_value_skip [OF starts_value_int, of i r] parse_literal_show [OF r, of i] show ?thesis
    by (simp add: parse_value.simps(2))
qed

lemma parse_word_value:
  "parse_value (Suc n) (''null'' @ r) = Some (JNull, r)"
  "parse_value (Suc n) (''true'' @ r) = Some (JBool True, r)"
  "parse_value (Suc n) (''false'' @ r) = Some (JBool False, r)"
  by (simp_all add: parse_value.simps(2) skip_ws_def json_ws_def quote_def parse_literal_def starts_with_def)

lemma parse_string_value: "parse_value (Suc n) (json_string s @ r) = Some (JStr s, r)"
  using parse_escaped_string [of s r]
  by (simp add: parse_value.simps(2) json_string_def)

lemma parse_array_value:
  assumes "parse_elems n (t @ '']'' @ r) = Some (vs, r)" "starts_value t"
  shows "parse_value (Suc n) (''['' @ t @ '']'' @ r) = Some (JArr vs, r)"
  using assms starts_value_hd [OF assms(2), of "'']'' @ r"]
  by (simp add: parse_value.simps(2) skip_ws_def json_ws_def quote_def)

lemma parse_object_value:
  assumes "parse_members n (t @ ''}'' @ r) = Some (ms, r)" "t = quote # u" "distinct (map fst ms)"
  shows "parse_value (Suc n) (''{'' @ t @ ''}'' @ r) = Some (JObj ms, r)"
  using assms fold_update_new [of "[]" ms] quote_plain
  by (simp add: parse_value.simps(2) skip_ws_def json_ws_def quote_def)

text \<open>The parser reads back what \<open>stringify\<close> prints, given two units of fuel per character.\<close>

lemma parse_stringify:
  "\<And>t r n. stringify v = Some t \<Longrightarrow> printable v \<Longrightarrow> value_end r \<Longrightarrow> 2 * length t + 1 \<le> n \<Longrightarrow> parse_value n (t @ r) = Some (v, r)"
  "\<And>t r n. stringify_list vs = Some t \<Longrightarrow> list_all printable vs \<Longrightarrow> vs \<noteq> [] \<Longrightarrow> 2 * length t + 2 \<le> n \<Longrightarrow>
     parse_elems n (t @ '']'' @ r) = Some (vs, r)"
  "\<And>t r n. stringify_members ms = Some t \<Longrightarrow> list_all printable (map snd ms) \<Longrightarrow> ms \<noteq> [] \<Longrightarrow> 2 * length t + 2 \<le> n \<Longrightarrow>
     parse_members n (t @ ''}'' @ r) = Some (ms, r)"
proof (induction v and vs and ms rule: stringify_stringify_list_stringify_members.induct)
  case (3 m)
  then obtain x where "m = Fin x" "isInteger m" "t = show_int (int_of_num m)" "n = Suc (n - 1)" by (cases m) (auto simp: isInteger_def split: if_splits)
  with "3.prems"(3) parse_int_value [of r "n - 1" "int_of_num m"] show ?case
    by (metis int_of_num_of_int isInteger_cases)
next
  case (5 vs)
  show ?case
  proof (cases vs)
    case Nil
    with 5 show ?thesis by (cases n) (auto simp: parse_value.simps(2) skip_ws_def json_ws_def quote_def)
  next
    case (Cons u us)
    then obtain ts where ts: "stringify_list vs = Some ts" "t = ''['' @ ts @ '']''" using "5.prems"(1) by auto
    obtain m where n: "n = Suc m" "2 * length ts + 2 \<le> m" using "5.prems"(4) ts(2) by (cases n) auto
    have "parse_elems m (ts @ '']'' @ r) = Some (vs, r)" using 5(1) [OF Cons, of ts m r] Cons ts n(2) "5.prems"(2) by simp
    from parse_array_value [OF this elems_start [OF ts(1)]] Cons show ?thesis by (simp add: n(1) ts(2))
  qed
next
  case (6 ms)
  show ?case
  proof (cases ms)
    case Nil
    with 6 show ?thesis by (cases n) (auto simp: parse_value.simps(2) skip_ws_def json_ws_def quote_def)
  next
    case (Cons u us)
    then obtain ts where ts: "stringify_members ms = Some ts" "t = ''{'' @ ts @ ''}''" using "6.prems"(1) by auto
    obtain m where n: "n = Suc m" "2 * length ts + 2 \<le> m" using "6.prems"(4) ts(2) by (cases n) auto
    have "parse_members m (ts @ ''}'' @ r) = Some (ms, r)" using 6(1) [OF Cons, of ts m r] Cons ts n(2) "6.prems"(2) by simp
    moreover obtain u where "ts = quote # u" using members_start [OF ts(1)] Cons by auto
    ultimately show ?thesis using parse_object_value [of m ts r ms u] "6.prems"(2) by (simp add: n(1) ts(2))
  qed
next
  case (8 v vs)
  then obtain a where a: "stringify v = Some a" by (auto split: option.splits)
  obtain m where n: "n = Suc m" "2 * length t + 1 \<le> m" using "8.prems"(4) by (cases n) auto
  show ?case
  proof (cases "vs = []")
    case True
    with "8.prems" a have "t = a" by simp
    with 8(1) [OF a, of "'']'' @ r" m] "8.prems"(2) n True show ?thesis
      by (simp add: parse_elems.simps(2))
  next
    case False
    with "8.prems"(1) a obtain b where b: "stringify_list vs = Some b" "t = a @ '','' @ b" by (auto split: option.splits)
    with 8(1) [OF a, of "'','' @ b @ '']'' @ r" m] 8(2) [OF b(1), of m r] "8.prems"(2) n False show ?thesis
      by (simp add: parse_elems.simps(2) cons_fst_def)
  qed
next
  case (10 k v ms)
  then obtain a where a: "stringify v = Some a" by (auto split: option.splits)
  obtain m where n: "n = Suc m" "2 * length t + 1 \<le> m" using "10.prems"(4) by (cases n) auto
  have key: "parse_members n (json_string k @ '':'' @ w) = (case parse_value m w of
       None \<Rightarrow> None
     | Some (v, r3) \<Rightarrow> (case skip_ws r3 of
         [] \<Rightarrow> None
       | c # cs \<Rightarrow> if c = CHR '','' then cons_fst (k, v) (parse_members m cs)
           else if c = CHR ''}'' then Some ([(k, v)], cs) else None))" for w
    using parse_escaped_string [of k "CHR '':'' # w"]
    by (simp add: n(1) parse_members.simps(2) json_string_def)
  show ?case
  proof (cases "ms = []")
    case True
    with "10.prems" a have "t = json_string k @ '':'' @ a" by simp
    with 10(1) [OF a, of "''}'' @ r" m] "10.prems"(2) n True key [of "a @ ''}'' @ r"] show ?thesis
      by simp
  next
    case False
    with "10.prems"(1) a obtain b where b: "stringify_members ms = Some b" "t = json_string k @ '':'' @ a @ '','' @ b"
      by (auto split: option.splits)
    with 10(1) [OF a, of "'','' @ b @ ''}'' @ r" m] 10(2) [OF b(1), of m r] "10.prems"(2) n False
      key [of "a @ '','' @ b @ ''}'' @ r"] show ?thesis
      by (simp add: cons_fst_def)
  qed
qed (auto simp: parse_word_value [simplified] parse_string_value dest!: Suc_le_D)

lemma printable_stringify:
  "printable v \<Longrightarrow> \<exists>t. stringify v = Some t"
  "list_all printable vs \<Longrightarrow> \<exists>t. stringify_list vs = Some t"
  "list_all printable (map snd ms) \<Longrightarrow> \<exists>t. stringify_members ms = Some t"
  by (induction v and vs and ms rule: stringify_stringify_list_stringify_members.induct)
    (auto simp: isInteger_def split: list.splits jsnum.splits)

lemma json_round_trip: "stringify v = Some t \<Longrightarrow> printable v \<Longrightarrow> parse_json t = Some v"
  using parse_stringify(1) [of v t "[]" "2 * length t + 2"] by (simp add: parse_json_def)

subsection \<open>base64url and UTF-8\<close>

lemma sextet_char: "n < 64 \<Longrightarrow> sextet (b64url_char n) = Some n"
proof -
  have "list_all (\<lambda>n. sextet (b64url_char n) = Some n) [0..<64]" by code_simp
  then show "n < 64 \<Longrightarrow> ?thesis" by (simp add: list_all_iff)
qed

lemma byte_parts:
  "unat (a :: byte) div 4 < 64" "unat a mod 4 * 16 < 64" "unat a div 64 < 4"
  "unat a mod 4 * 16 + unat (b :: byte) div 16 < 64" "unat b mod 16 * 4 < 64"
  "unat b mod 16 * 4 + unat (c :: byte) div 64 < 64" "unat c mod 64 < 64"
proof -
  have bound: "unat (x :: byte) < 256" for x using unsigned_less [of x] by simp
  have q: "unat (x :: byte) div 4 < 64" "unat x div 16 < 16" "unat x div 64 < 4" for x
    using bound [of x] by (simp_all add: less_mult_imp_div_less)
  have r: "unat (x :: byte) mod 4 < 4" "unat x mod 16 < 16" for x by simp_all
  show "unat a div 4 < 64" "unat a div 64 < 4" by (rule q)+
  show "unat a mod 4 * 16 < 64" using r(1) [of a] by linarith
  show "unat a mod 4 * 16 + unat b div 16 < 64" using r(1) [of a] q(2) [of b] by linarith
  show "unat b mod 16 * 4 < 64" using r(2) [of b] by linarith
  show "unat b mod 16 * 4 + unat c div 64 < 64" using r(2) [of b] q(3) [of c] by linarith
  show "unat c mod 64 < 64" by simp
qed

lemma byte_nibbles:
  fixes b :: byte
  shows "unat b div 16 div 16 = 0" "unat b div 16 mod 16 = unat b div 16"
    "of_nat (unat b div 16) * 16 + of_nat (unat b mod 16) = b"
proof -
  have "unat b < 256" using unsigned_less [of b] by simp
  then have "unat b div 16 < 16" by (simp add: less_mult_imp_div_less)
  then show "unat b div 16 div 16 = 0" "unat b div 16 mod 16 = unat b div 16" by simp_all
  have "(of_nat (unat b div 16 * 16 + unat b mod 16) :: byte) = b" by (simp only: div_mult_mod_eq) simp
  then show "of_nat (unat b div 16) * 16 + of_nat (unat b mod 16) = b" by (simp only: of_nat_add of_nat_mult of_nat_numeral)
qed

lemma bytes_join3:
  fixes a b c :: byte
  shows "of_nat (unat a div 4 * 4 + (unat a mod 4 * 16 + unat b div 16) div 16) = a"
    "of_nat (unat a div 4 * 4 + unat a mod 4 * 16 div 16) = a"
    "of_nat ((unat a mod 4 * 16 + unat b div 16) mod 16 * 16 + (unat b mod 16 * 4 + unat c div 64) div 4) = b"
    "of_nat ((unat a mod 4 * 16 + unat b div 16) mod 16 * 16 + unat b mod 16 * 4 div 4) = b"
    "of_nat ((unat b mod 16 * 4 + unat c div 64) mod 4 * 64 + unat c mod 64) = c"
proof -
  have bound: "unat (x :: byte) < 256" for x using unsigned_less [of x] by simp
  have d: "unat b div 16 < 16" "unat c div 64 < 4" using bound [of b] bound [of c] by (simp_all add: less_mult_imp_div_less)
  have dm: "x div k * k + x mod k = x" for x k :: nat by simp
  show "of_nat (unat a div 4 * 4 + (unat a mod 4 * 16 + unat b div 16) div 16) = a"
    "of_nat (unat a div 4 * 4 + unat a mod 4 * 16 div 16) = a" using d(1) by (simp_all add: dm)
  show "of_nat ((unat a mod 4 * 16 + unat b div 16) mod 16 * 16 + (unat b mod 16 * 4 + unat c div 64) div 4) = b"
    "of_nat ((unat a mod 4 * 16 + unat b div 16) mod 16 * 16 + unat b mod 16 * 4 div 4) = b"
    using d by (simp_all add: dm)
  show "of_nat ((unat b mod 16 * 4 + unat c div 64) mod 4 * 64 + unat c mod 64) = c" using d(2) by (simp add: dm)
qed

lemma b64url_round_trip [simp]: "b64url_decode (b64url_encode bs) = bs"
proof (induction bs rule: b64url_encode.induct)
  case (4 a b c bs)
  then show ?case
    by (simp add: b64url_decode_def List.map_filter_simps sextet_char byte_parts bytes_join3 byte_nibbles)
qed (simp_all add: b64url_decode_def List.map_filter_simps sextet_char byte_parts bytes_join3 byte_nibbles)

lemma utf8_decode_char: "utf8_decode (utf8_char c @ bs) = map_option (Cons c) (utf8_decode bs)"
proof -
  have b: "(of_char c :: nat) < 256" by simp
  have small: "unat (of_nat n :: byte) = n" if "n < 256" for n
    using that by (simp add: unsigned_of_nat take_bit_nat_eq_self)
  show ?thesis
  proof (cases "(of_char c :: nat) < 128")
    case True
    then show ?thesis by (simp add: utf8_char_def small)
  next
    case False
    have q: "(of_char c :: nat) div 64 = 2 \<or> (of_char c :: nat) div 64 = 3"
    proof -
      have "2 \<le> (of_char c :: nat) div 64" using False by (simp add: less_eq_div_iff_mult_less_eq)
      moreover have "(of_char c :: nat) div 64 < 4" using b by (simp add: less_mult_imp_div_less)
      ultimately show ?thesis by linarith
    qed
    let ?a = "192 + (of_char c :: nat) div 64"
    let ?b = "128 + (of_char c :: nat) mod 64"
    have lt: "(of_char c :: nat) mod 64 < 64" by simp
    have ab: "unat (of_nat ?a :: byte) = ?a" "unat (of_nat ?b :: byte) = ?b"
      using q lt by (intro small; linarith)+
    have "?b div 64 = 2" using lt by simp
    moreover have "?b mod 64 = (of_char c :: nat) mod 64"
      using mod_mult_self1 [of "(of_char c :: nat) mod 64" 2 64] by (simp add: add.commute)
    moreover have "(?a - 192) * 64 + (of_char c :: nat) mod 64 = of_char c" by simp
    ultimately show ?thesis using False q ab by (auto simp: utf8_char_def Let_def)
  qed
qed

lemma utf8_round_trip [simp]: "utf8_decode (utf8 s) = Some s"
  by (induction s) (simp_all add: utf8_def utf8_decode_char)

lemma segment_round_trip: "encode_segment v = Some s \<Longrightarrow> printable v \<Longrightarrow> decode_segment s = Some v"
  using json_round_trip by (auto simp: encode_segment_def decode_segment_def)

lemma b64url_encode_alphabet: "c \<in> set (b64url_encode bs) \<Longrightarrow> c \<in> set b64url_alphabet"
proof -
  have "b64url_char n \<in> set b64url_alphabet" for n
    unfolding b64url_char_def by (rule nth_mem) (simp add: b64url_alphabet_def upper_letters_def lower_letters_def digits_def)
  then show "c \<in> set (b64url_encode bs) \<Longrightarrow> ?thesis" by (induction bs rule: b64url_encode.induct) auto
qed

lemma b64url_alphabet_free: "CHR ''.'' \<notin> set b64url_alphabet" "CHR ''+'' \<notin> set b64url_alphabet"
    "CHR ''/'' \<notin> set b64url_alphabet" "CHR ''='' \<notin> set b64url_alphabet"
  by (simp_all add: b64url_alphabet_def upper_letters_def lower_letters_def digits_def)

lemma b64url_no_dot: "CHR ''.'' \<notin> set (b64url_encode bs)"
  using b64url_encode_alphabet b64url_alphabet_free(1) by blast

text \<open>The padded form is read back too.\<close>

lemma b64_round_trip [simp]: "b64url_decode (b64_encode bs) = bs"
proof -
  have "sextet (std_char c) = sextet c" if "c \<in> set b64url_alphabet" for c
    using that by (auto simp: b64url_alphabet_def upper_letters_def lower_letters_def digits_def std_char_def sextet_def)
  then have "List.map_filter sextet (map std_char (b64url_encode bs)) = List.map_filter sextet (b64url_encode bs)"
    unfolding map_filter_def using b64url_encode_alphabet [of _ bs] by (auto simp: filter_map comp_def cong: filter_cong)
  moreover have "List.map_filter sextet (replicate n (CHR ''='')) = []" for n
    by (induction n) (simp_all add: map_filter_simps sextet_def b64url_alphabet_def upper_letters_def lower_letters_def digits_def)
  ultimately show ?thesis
    using b64url_round_trip [of bs] by (simp add: b64url_decode_def b64_encode_def map_filter_def)
qed

lemma encode_segment_plain:
  assumes "encode_segment v = Some s"
  shows "CHR ''.'' \<notin> set s" "s \<noteq> []" "set s \<subseteq> set b64url_alphabet"
proof -
  obtain t where t: "stringify v = Some t" "s = b64url_encode (utf8 t)" using assms by (auto simp: encode_segment_def)
  then show "CHR ''.'' \<notin> set s" "set s \<subseteq> set b64url_alphabet" using b64url_encode_alphabet by (auto simp: b64url_no_dot)
  have "t \<noteq> []" using stringify_starts [OF t(1)] by (simp add: starts_value_def)
  then have "utf8 t \<noteq> []" using utf8_inject [of t "[]"] by (simp add: utf8_def)
  then show "s \<noteq> []" unfolding t(2) by (cases "utf8 t" rule: b64url_encode.cases) auto
qed

end
