(* ===== verification/JwtCodec.thy ===== *)
theory JwtCodec
  imports Codec AcdpVerify Errors
begin

text \<open>
  The token codec: \<open>src/src/auth/jwt-codec.ts\<close>.

  An EdDSA token is signed and verified here, over the concrete base64url and JSON codecs. An HS256 token is
  handed to \<open>jsonwebtoken\<close>, whose \<open>sign\<close>, \<open>verify\<close> and \<open>decode\<close> are fields of \<open>jwt_crypto\<close>, as are Node's Ed25519
  signature and the strict verifier of the \<open>acdp\<close> binding. What the theorems need of them is stated as
  \<open>ed25519_correct\<close> and \<open>hs256_verify_sound\<close>.
\<close>

section \<open>Keys and options\<close>

datatype jwt_algorithm = HS256 | EdDSA

fun alg_string :: "jwt_algorithm \<Rightarrow> string" where
  "alg_string HS256 = ''HS256''"
| "alg_string EdDSA = ''EdDSA''"

text \<open>A shared secret, an Ed25519 private key, an Ed25519 public key (its raw bytes in base64), any other key.\<close>

datatype key_like = KSecret string | KEdPrivate string | KEdPublic string | KOther

datatype jwt_error =
    MissingHeader
  | HeaderNotJson
  | HeaderWithoutAlg
  | AlgNotAllowed string
  | NotThreeSegments
  | InvalidSignature
  | NotAnEd25519Key
  | PayloadNotJson
  | PayloadIsNull
  | ExpRequired
  | Expired
  | NotActive
  | IssuerInvalid
  | AudienceInvalid
  | LibraryError string

record jwt_crypto =
  jc_verifier :: acdp_verifier
  jc_ed_sign :: "string \<Rightarrow> string \<Rightarrow> bytes"
  jc_ed_public :: "string \<Rightarrow> string"
  jc_hs_sign :: "string \<Rightarrow> jobj \<Rightarrow> string option \<Rightarrow> string"
  jc_hs_verify :: "clock \<Rightarrow> string \<Rightarrow> key_like \<Rightarrow> string option \<Rightarrow> string option \<Rightarrow> rat \<Rightarrow> string + json"
  jc_decode :: "string \<Rightarrow> json option"
  jc_kid :: "string \<Rightarrow> json option"

record verify_options =
  vo_algorithms :: "jwt_algorithm list"
  vo_key :: key_like
  vo_issuer :: "string option"
  vo_audience :: "string option"
  vo_clockTolerance :: "rat option"
  vo_requireExp :: "bool option"

definition tolerance :: "verify_options \<Rightarrow> rat" where
  "tolerance opts = (case vo_clockTolerance opts of Some t \<Rightarrow> t | None \<Rightarrow> 0)"

section \<open>Signing\<close>

text \<open>The EdDSA token, \<open>None\<close> when the claims are outside the domain of \<open>stringify\<close>; an empty \<open>kid\<close> is not stamped.\<close>

definition eddsa_header :: "string option \<Rightarrow> jobj" where
  "eddsa_header keyid = [(''alg'', JStr ''EdDSA''), (''typ'', JStr ''JWT'')]
     @ (case keyid of Some k \<Rightarrow> if k \<noteq> [] then [(''kid'', JStr k)] else [] | None \<Rightarrow> [])"

definition signEdDSA :: "jwt_crypto \<Rightarrow> jobj \<Rightarrow> string \<Rightarrow> string option \<Rightarrow> string option" where
  "signEdDSA J payload key keyid =
     (case (encode_segment (JObj (eddsa_header keyid)), encode_segment (JObj payload)) of
        (Some h, Some p) \<Rightarrow>
          (let signingInput = h @ ''.'' @ p
           in Some (signingInput @ ''.'' @ b64url_encode (jc_ed_sign J key signingInput)))
      | _ \<Rightarrow> None)"

definition signJwt :: "jwt_crypto \<Rightarrow> jobj \<Rightarrow> jwt_algorithm \<Rightarrow> key_like \<Rightarrow> string option \<Rightarrow> string option" where
  "signJwt J payload algorithm key keyid = (case algorithm of
     EdDSA \<Rightarrow> (case key of KEdPrivate k \<Rightarrow> signEdDSA J payload k keyid | _ \<Rightarrow> None)
   | HS256 \<Rightarrow> (case key of
       KSecret secret \<Rightarrow> Some (jc_hs_sign J secret payload (case keyid of Some k \<Rightarrow> if k \<noteq> [] then Some k else None | None \<Rightarrow> None))
     | _ \<Rightarrow> None))"

section \<open>Verifying\<close>

definition decodeAlg :: "string \<Rightarrow> jwt_error + string" where
  "decodeAlg token =
     (let h = hd (split_on (CHR ''.'') token)
      in if h = [] then Inl MissingHeader
         else (case decode_segment h of
             None \<Rightarrow> Inl HeaderNotJson
           | Some (JObj header) \<Rightarrow> (case as_string (get_prop header ''alg'') of Some alg \<Rightarrow> Inr alg | None \<Rightarrow> Inl HeaderWithoutAlg)
           | Some _ \<Rightarrow> Inl HeaderWithoutAlg))"

definition toPublicKey :: "jwt_crypto \<Rightarrow> key_like \<Rightarrow> key_like option" where
  "toPublicKey J key = (case key of
     KEdPrivate k \<Rightarrow> Some (KEdPublic (jc_ed_public J k))
   | KEdPublic p \<Rightarrow> Some (KEdPublic p)
   | KSecret s \<Rightarrow> None
   | KOther \<Rightarrow> Some KOther)"

definition rawEd25519PublicKeyB64 :: "jwt_crypto \<Rightarrow> key_like \<Rightarrow> jwt_error + string" where
  "rawEd25519PublicKeyB64 J key = (case toPublicKey J key of
     Some (KEdPublic p) \<Rightarrow> Inr p
   | _ \<Rightarrow> Inl NotAnEd25519Key)"

text \<open>The members a property read sees; a primitive or an array has none of the registered claims.\<close>

definition members_of :: "json \<Rightarrow> jobj" where
  "members_of v = (case v of JObj ob \<Rightarrow> ob | _ \<Rightarrow> [])"

definition requireExpClaim :: "json \<Rightarrow> verify_options \<Rightarrow> jwt_error + unit" where
  "requireExpClaim payload opts =
     throw_if ((vo_requireExp opts = None \<or> vo_requireExp opts = Some True)
       \<and> as_number (get_prop (members_of payload) ''exp'') = None) ExpRequired"

definition num_before :: "jsnum \<Rightarrow> rat \<Rightarrow> bool" where
  "num_before n r = (case n of Fin x \<Rightarrow> x < r | NegInf \<Rightarrow> True | _ \<Rightarrow> False)"

definition num_after :: "jsnum \<Rightarrow> rat \<Rightarrow> bool" where
  "num_after n r = (case n of Fin x \<Rightarrow> r < x | PosInf \<Rightarrow> True | _ \<Rightarrow> False)"

definition audience_matches :: "json option \<Rightarrow> string \<Rightarrow> bool" where
  "audience_matches aud required = (case aud of
     Some (JArr vs) \<Rightarrow> JStr required \<in> set vs
   | v \<Rightarrow> v = Some (JStr required))"

definition validateRegisteredClaims :: "clock \<Rightarrow> json \<Rightarrow> verify_options \<Rightarrow> jwt_error + unit" where
  "validateRegisteredClaims us payload opts =
     (let now = of_int (now_seconds us); tol = tolerance opts; m = members_of payload
      in and_then (throw_if (payload = JNull) PayloadIsNull) (\<lambda>_.
         and_then (requireExpClaim payload opts) (\<lambda>_.
         and_then (throw_if (case as_number (get_prop m ''exp'') of Some e \<Rightarrow> num_before e (now - tol) | None \<Rightarrow> False) Expired) (\<lambda>_.
         and_then (throw_if (case as_number (get_prop m ''nbf'') of Some n \<Rightarrow> num_after n (now + tol) | None \<Rightarrow> False) NotActive) (\<lambda>_.
         and_then (throw_if (case vo_issuer opts of Some i \<Rightarrow> get_prop m ''iss'' \<noteq> Some (JStr i) | None \<Rightarrow> False) IssuerInvalid) (\<lambda>_.
         throw_if (case vo_audience opts of Some a \<Rightarrow> \<not> audience_matches (get_prop m ''aud'') a | None \<Rightarrow> False) AudienceInvalid))))))"

definition verifyEdDSA :: "jwt_crypto \<Rightarrow> clock \<Rightarrow> string \<Rightarrow> verify_options \<Rightarrow> jwt_error + json" where
  "verifyEdDSA J us token opts = (case split_on (CHR ''.'') token of
     [h, p, s] \<Rightarrow>
       and_then (throw_if (h = [] \<or> p = []) NotThreeSegments) (\<lambda>_.
       and_then (throw_if (length (b64url_decode s) \<noteq> 64) InvalidSignature) (\<lambda>_.
       and_then (rawEd25519PublicKeyB64 J (vo_key opts)) (\<lambda>key.
       and_then (throw_if (\<not> verifySignatureB64 (jc_verifier J) ''ed25519'' key (h @ ''.'' @ p) (b64_encode (b64url_decode s)))
           InvalidSignature) (\<lambda>_.
       case decode_segment p of
         None \<Rightarrow> Inl PayloadNotJson
       | Some payload \<Rightarrow> and_then (validateRegisteredClaims us payload opts) (\<lambda>_. Inr payload)))))
   | _ \<Rightarrow> Inl NotThreeSegments)"

definition verifyJwt :: "jwt_crypto \<Rightarrow> clock \<Rightarrow> string \<Rightarrow> verify_options \<Rightarrow> jwt_error + json" where
  "verifyJwt J us token opts =
     and_then (decodeAlg token) (\<lambda>alg.
     and_then (throw_if (alg \<notin> set (map alg_string (vo_algorithms opts))) (AlgNotAllowed alg)) (\<lambda>_.
     if alg = ''EdDSA'' then verifyEdDSA J us token opts
     else (case jc_hs_verify J us token (vo_key opts) (vo_issuer opts) (vo_audience opts) (tolerance opts) of
         Inl m \<Rightarrow> Inl (LibraryError m)
       | Inr payload \<Rightarrow> and_then (requireExpClaim payload opts) (\<lambda>_. Inr payload))))"

section \<open>Lemmas\<close>

definition ed25519_correct :: "jwt_crypto \<Rightarrow> string \<Rightarrow> bool" where
  "ed25519_correct J k = (\<forall>m. length (jc_ed_sign J k m) = 64 \<and>
     av_verifySignature (jc_verifier J) (jc_ed_public J k) (b64_encode (jc_ed_sign J k m)) m = Some True)"

text \<open>\<open>jsonwebtoken.verify\<close> enforces the options \<open>issuer\<close> and \<open>audience\<close> it is given.\<close>

definition hs256_verify_sound :: "jwt_crypto \<Rightarrow> bool" where
  "hs256_verify_sound J = (\<forall>us token key i a tol payload. i \<noteq> [] \<longrightarrow> jc_hs_verify J us token key (Some i) a tol = Inr payload \<longrightarrow>
     get_prop (members_of payload) ''iss'' = Some (JStr i)
     \<and> (\<forall>x. a = Some x \<longrightarrow> x \<noteq> [] \<longrightarrow> audience_matches (get_prop (members_of payload) ''aud'') x))"

text \<open>What acceptance means for the registered claims.\<close>

definition claims_ok :: "clock \<Rightarrow> json \<Rightarrow> verify_options \<Rightarrow> bool" where
  "claims_ok us payload opts =
     ((vo_requireExp opts \<noteq> Some False \<longrightarrow> as_number (get_prop (members_of payload) ''exp'') \<noteq> None)
      \<and> (\<forall>e. as_number (get_prop (members_of payload) ''exp'') = Some e \<longrightarrow> \<not> num_before e (of_int (now_seconds us) - tolerance opts))
      \<and> (\<forall>n. as_number (get_prop (members_of payload) ''nbf'') = Some n \<longrightarrow> \<not> num_after n (of_int (now_seconds us) + tolerance opts))
      \<and> (\<forall>i. vo_issuer opts = Some i \<longrightarrow> get_prop (members_of payload) ''iss'' = Some (JStr i))
      \<and> (\<forall>a. vo_audience opts = Some a \<longrightarrow> audience_matches (get_prop (members_of payload) ''aud'') a))"

lemma validate_iff: "validateRegisteredClaims us payload opts = Inr u \<longleftrightarrow> payload \<noteq> JNull \<and> claims_ok us payload opts"
  by (auto simp: validateRegisteredClaims_def claims_ok_def requireExpClaim_def bind_simps Let_def split: option.splits)

lemma decodeAlg_segments:
  "decode_segment h = Some (JObj header) \<Longrightarrow> h \<noteq> [] \<Longrightarrow> CHR ''.'' \<notin> set h \<Longrightarrow> get_prop header ''alg'' = Some (JStr alg) \<Longrightarrow>
   decodeAlg (h @ ''.'' @ rest) = Inr alg"
  by (simp add: decodeAlg_def split_on_append as_string_def)

lemma verifyEdDSA_iff:
  "verifyEdDSA J us token opts = Inr payload \<longleftrightarrow>
   (\<exists>h p s key. split_on (CHR ''.'') token = [h, p, s] \<and> h \<noteq> [] \<and> p \<noteq> [] \<and> length (b64url_decode s) = 64
     \<and> rawEd25519PublicKeyB64 J (vo_key opts) = Inr key
     \<and> av_verifySignature (jc_verifier J) key (b64_encode (b64url_decode s)) (h @ ''.'' @ p) = Some True
     \<and> decode_segment p = Some payload \<and> payload \<noteq> JNull \<and> claims_ok us payload opts)"
  by (auto simp: verifyEdDSA_def bind_simps validate_iff verifySignatureB64_ed25519 split: list.splits option.splits)

lemma alg_string_inject: "alg_string a = alg_string b \<longleftrightarrow> a = b"
  by (cases a; cases b) simp_all

text \<open>The parts of a signed EdDSA token.\<close>

lemma eddsa_header_printable: "printable (JObj (eddsa_header keyid))"
  by (auto simp: eddsa_header_def split: option.splits)

lemma eddsa_header_alg: "get_prop (eddsa_header keyid) ''alg'' = Some (JStr ''EdDSA'')"
  by (simp add: eddsa_header_def get_prop_def)

lemma signEdDSA_parts:
  assumes "signEdDSA J payload k keyid = Some token" "printable (JObj payload)"
  obtains h p where "token = h @ ''.'' @ p @ ''.'' @ b64url_encode (jc_ed_sign J k (h @ ''.'' @ p))"
    "h \<noteq> []" "p \<noteq> []" "CHR ''.'' \<notin> set h" "CHR ''.'' \<notin> set p" "decode_segment p = Some (JObj payload)"
    "decode_segment h = Some (JObj (eddsa_header keyid))" "set h \<union> set p \<subseteq> set b64url_alphabet"
proof -
  obtain h p where hp: "encode_segment (JObj (eddsa_header keyid)) = Some h" "encode_segment (JObj payload) = Some p"
    "token = h @ ''.'' @ p @ ''.'' @ b64url_encode (jc_ed_sign J k (h @ ''.'' @ p))"
    using assms(1) by (auto simp: signEdDSA_def Let_def split: option.splits)
  then show thesis
    using that [OF hp(3)] encode_segment_plain [OF hp(1)] encode_segment_plain [OF hp(2)]
      segment_round_trip [OF hp(1) eddsa_header_printable] segment_round_trip [OF hp(2) assms(2)] by blast
qed

lemma signEdDSA_total: "printable (JObj payload) \<Longrightarrow> \<exists>token. signEdDSA J payload k keyid = Some token"
  using printable_stringify(1) [OF eddsa_header_printable [of keyid]] printable_stringify(1) [of "JObj payload"]
  by (auto simp: signEdDSA_def encode_segment_def Let_def simp del: stringify.simps)

lemma signed_token_split:
  "CHR ''.'' \<notin> set h \<Longrightarrow> CHR ''.'' \<notin> set p \<Longrightarrow> split_on (CHR ''.'') (h @ ''.'' @ p @ ''.'' @ b64url_encode sig) = [h, p, b64url_encode sig]"
  by (simp add: split_on_append split_on_free b64url_no_dot)

lemma verify_signed:
  assumes "ed25519_correct J k" "printable (JObj payload)" "signJwt J payload EdDSA (KEdPrivate k) keyid = Some token"
    and "EdDSA \<in> set (vo_algorithms opts)" "vo_key opts = KEdPublic (jc_ed_public J k)" "claims_ok us (JObj payload) opts"
  shows "verifyJwt J us token opts = Inr (JObj payload)"
proof -
  have "signEdDSA J payload k keyid = Some token" using assms(3) by (simp add: signJwt_def)
  then obtain h p where t: "token = h @ ''.'' @ p @ ''.'' @ b64url_encode (jc_ed_sign J k (h @ ''.'' @ p))"
    "h \<noteq> []" "p \<noteq> []" "CHR ''.'' \<notin> set h" "CHR ''.'' \<notin> set p" "decode_segment p = Some (JObj payload)"
    "decode_segment h = Some (JObj (eddsa_header keyid))"
    using signEdDSA_parts [OF _ assms(2)] by metis
  have alg: "decodeAlg token = Inr ''EdDSA''" unfolding t(1) by (rule decodeAlg_segments [OF t(7,2,4) eddsa_header_alg])
  have key: "rawEd25519PublicKeyB64 J (vo_key opts) = Inr (jc_ed_public J k)"
    by (simp add: assms(5) rawEd25519PublicKeyB64_def toPublicKey_def)
  have sig: "length (jc_ed_sign J k m) = 64" "av_verifySignature (jc_verifier J) (jc_ed_public J k) (b64_encode (jc_ed_sign J k m)) m = Some True" for m
    using assms(1) by (simp_all add: ed25519_correct_def)
  have "verifyEdDSA J us token opts = Inr (JObj payload)"
    unfolding verifyEdDSA_iff t(1) signed_token_split [OF t(4,5)] using t(2,3,6) key sig assms(6) by simp
  moreover have "''EdDSA'' \<in> set (map alg_string (vo_algorithms opts))" using assms(4) by force
  ultimately show ?thesis using alg by (simp add: verifyJwt_def)
qed

lemma accepted_parts:
  assumes "verifyJwt J us token opts = Inr payload" "vo_algorithms opts = [EdDSA]"
  shows "decodeAlg token = Inr ''EdDSA''" "verifyEdDSA J us token opts = Inr payload"
  using assms by (auto simp: verifyJwt_def bind_simps)

text \<open>\<open>jsonwebtoken.decode\<close> reads the segments of a compact token whose header and payload are JSON objects.\<close>

definition decode_agrees :: "jwt_crypto \<Rightarrow> bool" where
  "decode_agrees J = (\<forall>h p s header payload. decode_segment h = Some (JObj header) \<and> decode_segment p = Some (JObj payload)
     \<and> h \<noteq> [] \<and> p \<noteq> [] \<and> set h \<union> set p \<union> set s \<subseteq> set b64url_alphabet \<longrightarrow>
     jc_decode J (h @ ''.'' @ p @ ''.'' @ s) = Some (JObj payload) \<and> jc_kid J (h @ ''.'' @ p @ ''.'' @ s) = get_prop header ''kid'')"

lemma signed_decodes:
  assumes "decode_agrees J" "printable (JObj payload)" "signJwt J payload EdDSA (KEdPrivate k) keyid = Some token"
  shows "jc_decode J token = Some (JObj payload)" "jc_kid J token = get_prop (eddsa_header keyid) ''kid''"
proof -
  have "signEdDSA J payload k keyid = Some token" using assms(3) by (simp add: signJwt_def)
  then obtain h p where t: "token = h @ ''.'' @ p @ ''.'' @ b64url_encode (jc_ed_sign J k (h @ ''.'' @ p))"
    "h \<noteq> []" "p \<noteq> []" "decode_segment p = Some (JObj payload)"
    "decode_segment h = Some (JObj (eddsa_header keyid))" "set h \<union> set p \<subseteq> set b64url_alphabet"
    using signEdDSA_parts [OF _ assms(2)] by metis
  then have "set h \<union> set p \<union> set (b64url_encode (jc_ed_sign J k (h @ ''.'' @ p))) \<subseteq> set b64url_alphabet"
    using b64url_encode_alphabet by auto
  with t assms(1) show "jc_decode J token = Some (JObj payload)" "jc_kid J token = get_prop (eddsa_header keyid) ''kid''"
    unfolding decode_agrees_def by blast+
qed

lemma verified_claims:
  assumes "hs256_verify_sound J" "verifyJwt J us token opts = Inr payload" "vo_issuer opts = Some i" "i \<noteq> []"
  shows "get_prop (members_of payload) ''iss'' = Some (JStr i)"
    "vo_audience opts = Some a \<Longrightarrow> a \<noteq> [] \<Longrightarrow> audience_matches (get_prop (members_of payload) ''aud'') a"
proof -
  have "verifyEdDSA J us token opts = Inr payload
      \<or> jc_hs_verify J us token (vo_key opts) (vo_issuer opts) (vo_audience opts) (tolerance opts) = Inr payload"
    using assms(2) by (auto simp: verifyJwt_def bind_simps split: if_splits sum.splits)
  then show "get_prop (members_of payload) ''iss'' = Some (JStr i)"
    "vo_audience opts = Some a \<Longrightarrow> a \<noteq> [] \<Longrightarrow> audience_matches (get_prop (members_of payload) ''aud'') a"
    using assms(1,3,4) unfolding verifyEdDSA_iff claims_ok_def hs256_verify_sound_def by metis+
qed

section \<open>Properties\<close>

text \<open>Sign then verify: an EdDSA token that \<open>signJwt\<close> makes for printable claims is accepted by \<open>verifyJwt\<close> under
  the matching public key and gives back exactly those claims, while it is active and for its issuer and
  audience. The hypothesis on the primitives is that Ed25519 signatures have 64 bytes and verify.\<close>

theorem jwt_round_trip:
  assumes "ed25519_correct J k" "printable (JObj payload)" "signJwt J payload EdDSA (KEdPrivate k) keyid = Some token"
    and "get_prop payload ''exp'' = Some (JNum (num_of_int e))" "now_seconds us \<le> e"
    and "get_prop payload ''nbf'' = Some (JNum (num_of_int n))" "n \<le> now_seconds us"
    and "get_prop payload ''iss'' = Some (JStr i)" "get_prop payload ''aud'' = Some (JStr a)"
  shows "verifyJwt J us token \<lparr>vo_algorithms = [EdDSA], vo_key = KEdPublic (jc_ed_public J k), vo_issuer = Some i,
     vo_audience = Some a, vo_clockTolerance = None, vo_requireExp = None\<rparr> = Inr (JObj payload)"
  using assms(4-9)
  by (intro verify_signed [OF assms(1-3)])
    (simp_all add: claims_ok_def members_of_def as_number_def num_before_def num_after_def tolerance_def
      num_of_int_def audience_matches_def not_less)

definition sample_crypto :: jwt_crypto where
  "sample_crypto = \<lparr>jc_verifier = \<lparr>av_verifySignature = (\<lambda>k s m. Some (s = b64_encode (replicate 64 (of_nat (length m))))), av_verifySignatureP256 = (\<lambda>k s m. None)\<rparr>,
     jc_ed_sign = (\<lambda>k m. replicate 64 (of_nat (length m))), jc_ed_public = (\<lambda>k. ''pub''),
     jc_hs_sign = (\<lambda>s p k. []), jc_hs_verify = (\<lambda>us t k i a tol. Inl ''none''), 
     jc_decode = (\<lambda>t. case split_on (CHR ''.'') t of [h, p, s] \<Rightarrow> decode_segment p | _ \<Rightarrow> None),
     jc_kid = (\<lambda>t. case split_on (CHR ''.'') t of [h, p, s] \<Rightarrow> (case decode_segment h of Some v \<Rightarrow> get_prop (members_of v) ''kid'' | None \<Rightarrow> None)
       | _ \<Rightarrow> None)\<rparr>"

lemma sample_crypto_ok: "ed25519_correct sample_crypto k" "hs256_verify_sound sample_crypto"
  by (simp_all add: ed25519_correct_def hs256_verify_sound_def sample_crypto_def)

lemma decode_agrees_segments:
  assumes "jc_decode J = jc_decode sample_crypto" "jc_kid J = jc_kid sample_crypto"
  shows "decode_agrees J"
proof -
  have "split_on (CHR ''.'') (h @ ''.'' @ p @ ''.'' @ s) = [h, p, s]" if "set h \<union> set p \<union> set s \<subseteq> set b64url_alphabet" for h p s
  proof -
    have "CHR ''.'' \<notin> set h" "CHR ''.'' \<notin> set p" "CHR ''.'' \<notin> set s" using that b64url_alphabet_free(1) by auto
    then show ?thesis by (simp add: split_on_append split_on_free)
  qed
  then show ?thesis using assms by (simp add: decode_agrees_def sample_crypto_def members_of_def)
qed

definition sample_claims :: jobj where
  "sample_claims = [(''iss'', JStr ''cp''), (''aud'', JStr ''cp''), (''nbf'', JNum (num_of_int 5)), (''exp'', JNum (num_of_int 9))]"

theorem jwt_round_trip_witness:
  "\<exists>token. signJwt sample_crypto sample_claims EdDSA (KEdPrivate ''priv'') None = Some token
    \<and> verifyJwt sample_crypto 7000000 token \<lparr>vo_algorithms = [EdDSA], vo_key = KEdPublic ''pub'', vo_issuer = Some ''cp'',
       vo_audience = Some ''cp'', vo_clockTolerance = None, vo_requireExp = None\<rparr> = Inr (JObj sample_claims)"
proof -
  have p: "printable (JObj sample_claims)" by (simp add: sample_claims_def)
  obtain token where s: "signJwt sample_crypto sample_claims EdDSA (KEdPrivate ''priv'') None = Some token"
    using signEdDSA_total [OF p, of sample_crypto "''priv''" None] by (auto simp: signJwt_def)
  have "jc_ed_public sample_crypto ''priv'' = ''pub''" by (simp add: sample_crypto_def)
  with jwt_round_trip [OF sample_crypto_ok(1) p s, of 9 7000000 5 "''cp''" "''cp''"] s show ?thesis
    by (simp add: sample_claims_def get_prop_def now_seconds_eq)
qed

text \<open>An accepted EdDSA token is genuine: its header names EdDSA, the strict verifier accepted the signature
  over the first two segments under the configured key, the payload is the second segment, and the claims
  have an expiry that has not passed, the required issuer and the required audience. No other algorithm in the
  header can reach this result.\<close>

theorem accepted_token_is_genuine:
  assumes "verifyJwt J us token opts = Inr payload" "vo_algorithms opts = [EdDSA]" "vo_key opts = KEdPublic key"
    and "vo_issuer opts = Some i" "vo_requireExp opts = None" "vo_clockTolerance opts = None"
  shows "decodeAlg token = Inr ''EdDSA'' \<and>
    (\<exists>h p s e. token = h @ ''.'' @ p @ ''.'' @ s \<and> decode_segment p = Some payload
      \<and> av_verifySignature (jc_verifier J) key (b64_encode (b64url_decode s)) (h @ ''.'' @ p) = Some True
      \<and> get_prop (members_of payload) ''exp'' = Some (JNum e) \<and> \<not> num_before e (of_int (now_seconds us))
      \<and> get_prop (members_of payload) ''iss'' = Some (JStr i)
      \<and> (\<forall>a. vo_audience opts = Some a \<longrightarrow> audience_matches (get_prop (members_of payload) ''aud'') a))"
proof -
  note acc = accepted_parts [OF assms(1,2)]
  from acc(2) obtain h p s where parts: "split_on (CHR ''.'') token = [h, p, s]" "decode_segment p = Some payload"
      "av_verifySignature (jc_verifier J) key (b64_encode (b64url_decode s)) (h @ ''.'' @ p) = Some True"
      "claims_ok us payload opts"
    unfolding verifyEdDSA_iff using assms(3) by (auto simp: rawEd25519PublicKeyB64_def toPublicKey_def)
  have "token = h @ ''.'' @ p @ ''.'' @ s" using join_split [of "CHR ''.''" token] parts(1) by simp
  moreover obtain e where "as_number (get_prop (members_of payload) ''exp'') = Some e"
    using parts(4) assms(5) by (auto simp: claims_ok_def)
  then have "get_prop (members_of payload) ''exp'' = Some (JNum e)" "\<not> num_before e (of_int (now_seconds us))"
    using parts(4) assms(6) by (auto simp: claims_ok_def as_number_def tolerance_def split: option.splits json.splits)
  ultimately show ?thesis using acc(1) parts assms(4) by (auto simp: claims_ok_def)
qed

definition sample_options :: verify_options where
  "sample_options = \<lparr>vo_algorithms = [EdDSA], vo_key = KEdPublic ''pub'', vo_issuer = Some ''cp'', vo_audience = Some ''cp'',
     vo_clockTolerance = None, vo_requireExp = None\<rparr>"

lemma sample_accepted: "\<exists>token. verifyJwt sample_crypto 7000000 token sample_options = Inr (JObj sample_claims)"
proof -
  have p: "printable (JObj sample_claims)" by (simp add: sample_claims_def)
  obtain token where s: "signJwt sample_crypto sample_claims EdDSA (KEdPrivate ''priv'') None = Some token"
    using signEdDSA_total [OF p, of sample_crypto "''priv''" None] by (auto simp: signJwt_def)
  have "verifyJwt sample_crypto 7000000 token sample_options = Inr (JObj sample_claims)"
    by (rule verify_signed [OF sample_crypto_ok(1) p s])
      (simp_all add: sample_options_def sample_crypto_def claims_ok_def members_of_def sample_claims_def get_prop_def as_number_def
        num_before_def num_after_def tolerance_def num_of_int_def audience_matches_def now_seconds_eq)
  then show ?thesis by blast
qed

theorem accepted_token_is_genuine_witness:
  "\<exists>token. verifyJwt sample_crypto 7000000 token sample_options = Inr (JObj sample_claims) \<and> decodeAlg token = Inr ''EdDSA''"
proof -
  obtain token where t: "verifyJwt sample_crypto 7000000 token sample_options = Inr (JObj sample_claims)"
    using sample_accepted by blast
  with accepted_token_is_genuine [OF t, of "''pub''" "''cp''"] show ?thesis by (auto simp: sample_options_def)
qed

end
