(* ===== verification/JwtSigning.thy ===== *)
theory JwtSigning
  imports JwtCodec Sha256
begin

text \<open>
  The signing key of this control plane and the keys of its peers.

  \<open>src/src/auth/jwt-signing.ts\<close> and \<open>signing-material.service.ts\<close> build the signing material from the
  configuration, \<open>jwks.controller.ts\<close> publishes its public half, and \<open>jwks-client.ts\<close> fetches and caches what a
  peer publishes. Node's \<open>createPrivateKey\<close> is an argument of the definitions that use it. A public Ed25519
  key in SPKI form is the fixed 12-byte prefix of RFC 8410 and its 32 bytes, so a PEM key of the cache is
  represented by those bytes in base64, as in \<open>KEdPublic\<close>.
\<close>

section \<open>Signing material\<close>

record public_jwk =
  pj_kty :: string
  pj_kid :: string
  pj_alg :: string
  pj_use :: string
  pj_crv :: "string option"
  pj_x :: "string option"

record signing_material =
  sm_algorithm :: jwt_algorithm
  sm_kid :: string
  sm_signingKey :: key_like
  sm_verifyKey :: key_like
  sm_publicJwk :: "public_jwk option"

record signing_config =
  sc_algorithm :: jwt_algorithm
  sc_hsSecret :: "string option"
  sc_privateKeyPem :: "string option"
  sc_kid :: "string option"

datatype signing_config_error = SecretTooShort nat | PemMissing | PemInvalid string | NotEd25519 | SpkiLength nat

definition base64UrlEncode :: "bytes \<Rightarrow> string" where
  "base64UrlEncode buf = map (\<lambda>c. if c = CHR ''/'' then CHR ''_'' else c) (map (\<lambda>c. if c = CHR ''+'' then CHR ''-'' else c)
     (rev (dropWhile (\<lambda>c. c = CHR ''='') (rev (b64_encode buf)))))"

definition fingerprint :: "bytes \<Rightarrow> string" where
  "fingerprint material = base64UrlEncode (take 8 (sha256 material))"

definition spki_prefix :: bytes where
  "spki_prefix = [0x30, 0x2a, 0x30, 0x05, 0x06, 0x03, 0x2b, 0x65, 0x70, 0x03, 0x21, 0x00]"

definition extractEd25519RawPublic :: "string \<Rightarrow> signing_config_error + bytes" where
  "extractEd25519RawPublic pub =
     (let der = spki_prefix @ b64url_decode pub
      in if length der \<noteq> 44 then Inl (SpkiLength (length der)) else Inr (take 32 (drop 12 der)))"

definition buildSigningMaterial ::
    "jwt_crypto \<Rightarrow> (string \<Rightarrow> string + key_like) \<Rightarrow> signing_config \<Rightarrow> signing_config_error + signing_material" where
  "buildSigningMaterial J createPrivateKey cfg = (case sc_algorithm cfg of
     HS256 \<Rightarrow>
       (let secret = (case sc_hsSecret cfg of Some s \<Rightarrow> s | None \<Rightarrow> [])
        in if length (utf8 secret) < 32 then Inl (SecretTooShort (length (utf8 secret)))
           else Inr \<lparr>sm_algorithm = HS256,
             sm_kid = (case sc_kid cfg of Some k \<Rightarrow> k | None \<Rightarrow> fingerprint (utf8 secret)),
             sm_signingKey = KSecret secret, sm_verifyKey = KSecret secret, sm_publicJwk = None\<rparr>)
   | EdDSA \<Rightarrow>
       (let pem = (case sc_privateKeyPem cfg of Some s \<Rightarrow> s | None \<Rightarrow> [])
        in if trim pem = [] then Inl PemMissing
           else (case createPrivateKey pem of
               Inl m \<Rightarrow> Inl (PemInvalid m)
             | Inr (KEdPrivate k) \<Rightarrow>
                 and_then (extractEd25519RawPublic (jc_ed_public J k)) (\<lambda>rawPubBytes.
                 let kid = (case sc_kid cfg of Some i \<Rightarrow> i | None \<Rightarrow> fingerprint rawPubBytes)
                 in Inr \<lparr>sm_algorithm = EdDSA, sm_kid = kid, sm_signingKey = KEdPrivate k,
                      sm_verifyKey = KEdPublic (jc_ed_public J k),
                      sm_publicJwk = Some \<lparr>pj_kty = ''OKP'', pj_kid = kid, pj_alg = ''EdDSA'', pj_use = ''sig'',
                        pj_crv = Some ''Ed25519'', pj_x = Some (base64UrlEncode rawPubBytes)\<rparr>\<rparr>)
             | Inr _ \<Rightarrow> Inl NotEd25519)))"

text \<open>The constructor of \<open>SigningMaterialService\<close>: the settings \<open>jwtSigningAlg\<close>, \<open>jwtSecret\<close>, \<open>jwtPrivateKeyPem\<close>, \<open>jwtKid\<close>.\<close>

definition SigningMaterialService ::
    "jwt_crypto \<Rightarrow> (string \<Rightarrow> string + key_like) \<Rightarrow> jwt_algorithm \<Rightarrow> string \<Rightarrow> string \<Rightarrow> string \<Rightarrow>
     signing_config_error + signing_material" where
  "SigningMaterialService J createPrivateKey jwtSigningAlg jwtSecret jwtPrivateKeyPem jwtKid =
     buildSigningMaterial J createPrivateKey \<lparr>sc_algorithm = jwtSigningAlg, sc_hsSecret = Some jwtSecret,
       sc_privateKeyPem = Some jwtPrivateKeyPem, sc_kid = (if jwtKid = [] then None else Some jwtKid)\<rparr>"

section \<open>The published key set\<close>

definition jwk_json :: "public_jwk \<Rightarrow> json" where
  "jwk_json k = JObj ([(''kty'', JStr (pj_kty k)), (''kid'', JStr (pj_kid k)), (''alg'', JStr (pj_alg k)), (''use'', JStr (pj_use k))]
     @ (case pj_crv k of Some c \<Rightarrow> [(''crv'', JStr c)] | None \<Rightarrow> [])
     @ (case pj_x k of Some x \<Rightarrow> [(''x'', JStr x)] | None \<Rightarrow> []))"

definition jwks :: "signing_material \<Rightarrow> json" where
  "jwks material = (case sm_publicJwk material of
     None \<Rightarrow> JObj [(''keys'', JArr [])]
   | Some jwk \<Rightarrow> JObj [(''keys'', JArr [jwk_json jwk])])"

section \<open>The client of a peer's key set\<close>

text \<open>A key of the \<open>Map\<close>: primitives compare by value, the objects a hostile document can place there by identity.\<close>

datatype kid_key = PrimKey json | ObjKey nat

record cache_entry =
  ce_fetchedAt :: int
  ce_byKid :: "(kid_key, string) jsmap"
  ce_order :: "kid_key list"

datatype jwks_error =
    JwksNotHttps
  | JwksTransport
  | JwksRedirect
  | JwksHttp int
  | JwksTooLarge
  | JwksNotJson
  | JwksNoKeys
  | JwksBadElement
  | JwksNoUsableKey

record jwks_client =
  jk_cache :: "cache_entry option"
  jk_inflight :: bool
  jk_lastErrorAt :: int
  jk_lastError :: "jwks_error option"

definition new_client :: jwks_client where
  "new_client = \<lparr>jk_cache = None, jk_inflight = False, jk_lastErrorAt = 0, jk_lastError = None\<rparr>"

definition SUCCESS_TTL_MS :: int where "SUCCESS_TTL_MS = 5 * 60000"
definition ERROR_TTL_MS :: int where "ERROR_TTL_MS = 30000"
definition MAX_JWKS_BYTES :: int where "MAX_JWKS_BYTES = 64 * 1024"

definition base64UrlDecode :: "string \<Rightarrow> bytes" where
  "base64UrlDecode s =
     (let pad = (if length s mod 4 = 0 then [] else replicate (4 - length s mod 4) (CHR ''=''))
      in b64url_decode (map std_char s @ pad))"

text \<open>\<open>None\<close> is the exception for a key that is not a string of 32 bytes.\<close>

definition ed25519JwkToPem :: "json option \<Rightarrow> string option" where
  "ed25519JwkToPem x = (case x of
     Some (JStr s) \<Rightarrow> if length (base64UrlDecode s) = 32 then Some (b64_encode (base64UrlDecode s)) else None
   | _ \<Rightarrow> None)"

definition kid_of :: "nat \<Rightarrow> nat \<Rightarrow> json option \<Rightarrow> kid_key" where
  "kid_of position n kid = (case kid of
     None \<Rightarrow> PrimKey (JStr (''__unkeyed_'' @ show_nat n))
   | Some JNull \<Rightarrow> PrimKey (JStr (''__unkeyed_'' @ show_nat n))
   | Some (JArr _) \<Rightarrow> ObjKey position
   | Some (JObj _) \<Rightarrow> ObjKey position
   | Some v \<Rightarrow> PrimKey v)"

definition usable_jwk :: "json \<Rightarrow> bool" where
  "usable_jwk k = (get_prop (members_of k) ''kty'' = Some (JStr ''OKP'') \<and> get_prop (members_of k) ''crv'' = Some (JStr ''Ed25519'')
     \<and> truthy (get_prop (members_of k) ''x''))"

fun keys_loop :: "nat \<Rightarrow> (kid_key, string) jsmap \<Rightarrow> kid_key list \<Rightarrow> json list \<Rightarrow> jwks_error + (kid_key, string) jsmap \<times> kid_key list" where
  "keys_loop position byKid order [] = Inr (byKid, order)"
| "keys_loop position byKid order (k # ks) =
     (if k = JNull then Inl JwksBadElement
      else if \<not> usable_jwk k then keys_loop (Suc position) byKid order ks
      else (let kid = kid_of position (length order) (get_prop (members_of k) ''kid'')
        in case ed25519JwkToPem (get_prop (members_of k) ''x'') of
             Some pem \<Rightarrow> keys_loop (Suc position) (AList.update kid pem byKid) (order @ [kid]) ks
           | None \<Rightarrow> keys_loop (Suc position) byKid order ks))"

text \<open>The fetch and its parsing, finished at the time \<open>now\<close>; no answer is a transport error or a timeout.\<close>

definition fetchAndParse :: "string \<Rightarrow> http_answer option \<Rightarrow> int \<Rightarrow> jwks_error + cache_entry" where
  "fetchAndParse url answer now =
     and_then (throw_if (\<not> starts_with ''https://'' (to_lower url)) JwksNotHttps) (\<lambda>_.
     case answer of
       None \<Rightarrow> Inl JwksTransport
     | Some resp \<Rightarrow>
         and_then (throw_if (300 \<le> ha_status resp \<and> ha_status resp < 400) JwksRedirect) (\<lambda>_.
         and_then (throw_if (\<not> http_ok resp) (JwksHttp (ha_status resp))) (\<lambda>_.
         and_then (throw_if (declared_above MAX_JWKS_BYTES resp) JwksTooLarge) (\<lambda>_.
         and_then (throw_if (ha_body_bytes resp > MAX_JWKS_BYTES) JwksTooLarge) (\<lambda>_.
         case ha_body_json resp of
           None \<Rightarrow> Inl JwksNotJson
         | Some j \<Rightarrow> (case get_prop (members_of j) ''keys'' of
             Some (JArr ks) \<Rightarrow>
               and_then (keys_loop 0 [] [] ks) (\<lambda>(byKid, order).
               Inr \<lparr>ce_fetchedAt = now, ce_byKid = byKid, ce_order = order\<rparr>)
           | _ \<Rightarrow> Inl JwksNoKeys))))))"

text \<open>\<open>ensureFresh\<close> answers from the cache, throws the remembered error, or leaves the caller waiting for the one
  fetch in flight, which it starts when there is none. \<open>settle\<close> is the end of that fetch.\<close>

datatype freshness = Fresh cache_entry | Failed jwks_error | Joins | Starts

definition ensureFresh :: "int \<Rightarrow> jwks_client \<Rightarrow> freshness \<times> jwks_client" where
  "ensureFresh now c =
     (let stale = (case jk_lastError c of
            Some err \<Rightarrow> if now - jk_lastErrorAt c < ERROR_TTL_MS then (Failed err, c)
              else if jk_inflight c then (Joins, c) else (Starts, c\<lparr>jk_inflight := True\<rparr>)
          | None \<Rightarrow> if jk_inflight c then (Joins, c) else (Starts, c\<lparr>jk_inflight := True\<rparr>))
      in case jk_cache c of
           Some e \<Rightarrow> if now - ce_fetchedAt e < SUCCESS_TTL_MS then (Fresh e, c) else stale
         | None \<Rightarrow> stale)"

definition settle :: "string \<Rightarrow> http_answer option \<Rightarrow> int \<Rightarrow> jwks_client \<Rightarrow> (jwks_error + cache_entry) \<times> jwks_client" where
  "settle url answer now c = (case fetchAndParse url answer now of
     Inr entry \<Rightarrow> (Inr entry, c\<lparr>jk_cache := Some entry, jk_lastError := None, jk_inflight := False\<rparr>)
   | Inl err \<Rightarrow> (Inl err, c\<lparr>jk_lastError := Some err, jk_lastErrorAt := now, jk_inflight := False\<rparr>))"

definition select_key :: "cache_entry \<Rightarrow> string option \<Rightarrow> jwks_error + string" where
  "select_key entry kid =
     (let fallback = (case ce_order entry of [] \<Rightarrow> Inl JwksNoUsableKey
          | k # _ \<Rightarrow> (case map_of (ce_byKid entry) k of Some pem \<Rightarrow> Inr pem | None \<Rightarrow> Inl JwksNoUsableKey))
      in case kid of
           Some k \<Rightarrow> if k \<noteq> [] then (case map_of (ce_byKid entry) (PrimKey (JStr k)) of Some hit \<Rightarrow> Inr hit | None \<Rightarrow> fallback)
             else fallback
         | None \<Rightarrow> fallback)"

text \<open>One call from start to end: the caller reads the clock at \<open>now\<close>, and a fetch it waits for ends at \<open>finished\<close>.\<close>

definition getSigningKey ::
    "string \<Rightarrow> http_answer option \<Rightarrow> int \<Rightarrow> int \<Rightarrow> string option \<Rightarrow> jwks_client \<Rightarrow> (jwks_error + string) \<times> jwks_client" where
  "getSigningKey url answer now finished kid c = (case ensureFresh now c of
     (Fresh entry, c') \<Rightarrow> (select_key entry kid, c')
   | (Failed err, c') \<Rightarrow> (Inl err, c')
   | (_, c') \<Rightarrow> (case settle url answer finished c' of
       (Inr entry, c'') \<Rightarrow> (select_key entry kid, c'')
     | (Inl err, c'') \<Rightarrow> (Inl err, c'')))"

section \<open>Lemmas\<close>

text \<open>A public key as Node exports it: the padded base64 of 32 bytes.\<close>

definition ed_key_encoded :: "jwt_crypto \<Rightarrow> string \<Rightarrow> bool" where
  "ed_key_encoded J k = (length (b64url_decode (jc_ed_public J k)) = 32 \<and> b64_encode (b64url_decode (jc_ed_public J k)) = jc_ed_public J k)"

lemma base64UrlEncode_eq: "base64UrlEncode buf = b64url_encode buf"
proof -
  have free: "CHR ''='' \<notin> set (map std_char (b64url_encode buf))"
    using b64url_encode_alphabet [of _ buf] b64url_alphabet_free(4) by (auto simp: std_char_def split: if_splits)
  have strip: "rev (dropWhile (\<lambda>c. c = CHR ''='') (rev (xs @ replicate n (CHR ''='')))) = xs" if "CHR ''='' \<notin> set xs" for xs n
    using that by (cases xs rule: rev_cases) (auto simp: dropWhile_append)
  have unstd: "(if d = CHR ''/'' then CHR ''_'' else d) = c"
    if "c \<in> set b64url_alphabet" "d = (if std_char c = CHR ''+'' then CHR ''-'' else std_char c)" for c d
    using that by (auto simp: b64url_alphabet_def upper_letters_def lower_letters_def digits_def std_char_def)
  show ?thesis unfolding base64UrlEncode_def b64_encode_def strip [OF free] map_map comp_def
    using unstd b64url_encode_alphabet [of _ buf] by (intro map_idI) auto
qed

lemma base64UrlDecode_encode: "base64UrlDecode (b64url_encode bs) = bs"
proof -
  have "List.map_filter sextet (replicate n (CHR ''='')) = []" for n
    by (induction n) (simp_all add: List.map_filter_simps sextet_def b64url_alphabet_def upper_letters_def lower_letters_def digits_def)
  then have pad: "b64url_decode (xs @ replicate n (CHR ''='')) = b64url_decode (xs @ replicate m (CHR ''=''))" for xs n m
    by (simp add: b64url_decode_def List.map_filter_def)
  have "b64url_decode (map std_char (b64url_encode bs) @ replicate n (CHR ''='')) = bs" for n
    using b64_round_trip [of bs] pad [of _ n] unfolding b64_encode_def by metis
  from this [of 0] this show ?thesis by (simp add: base64UrlDecode_def Let_def)
qed

lemma eddsa_material:
  assumes "buildSigningMaterial J createPrivateKey cfg = Inr m" "sm_algorithm m = EdDSA"
  obtains k where "sm_signingKey m = KEdPrivate k" "sm_verifyKey m = KEdPublic (jc_ed_public J k)"
    "sm_publicJwk m = Some \<lparr>pj_kty = ''OKP'', pj_kid = sm_kid m, pj_alg = ''EdDSA'', pj_use = ''sig'',
       pj_crv = Some ''Ed25519'', pj_x = Some (b64url_encode (b64url_decode (jc_ed_public J k)))\<rparr>"
  using assms
  by (auto simp: buildSigningMaterial_def extractEd25519RawPublic_def spki_prefix_def base64UrlEncode_eq Let_def bind_simps
      split: jwt_algorithm.splits if_splits sum.splits key_like.splits)

lemma fetch_published:
  assumes "sm_publicJwk m = Some \<lparr>pj_kty = ''OKP'', pj_kid = kid, pj_alg = a, pj_use = u,
       pj_crv = Some ''Ed25519'', pj_x = Some (b64url_encode raw)\<rparr>" "length raw = 32"
    and "starts_with ''https://'' (to_lower url)" "http_ok resp" "ha_content_length resp = None"
    and "ha_body_bytes resp \<le> MAX_JWKS_BYTES" "ha_body_json resp = Some (jwks m)"
  shows "fetchAndParse url (Some resp) t = Inr \<lparr>ce_fetchedAt = t, ce_byKid = [(PrimKey (JStr kid), b64_encode raw)],
    ce_order = [PrimKey (JStr kid)]\<rparr>"
proof -
  have "raw \<noteq> []" using assms(2) by auto
  then have "b64url_encode raw \<noteq> []" by (cases raw rule: b64url_encode.cases) auto
  then show ?thesis using assms
    by (auto simp: fetchAndParse_def jwks_def jwk_json_def members_of_def get_prop_def usable_jwk_def truthy_def kid_of_def
        ed25519JwkToPem_def base64UrlDecode_encode declared_above_none MAX_JWKS_BYTES_def http_ok_def bind_simps Let_def)
qed

lemma single_key_selected:
  "select_key \<lparr>ce_fetchedAt = t, ce_byKid = [(k, pem)], ce_order = [k]\<rparr> kid = Inr pem"
  by (auto simp: select_key_def Let_def split: option.split)

lemma first_call_fetches:
  "fetchAndParse url answer t' = Inr entry \<Longrightarrow> fst (getSigningKey url answer t t' kid new_client) = select_key entry kid"
  by (simp add: getSigningKey_def ensureFresh_def new_client_def settle_def)

subsection \<open>The client as a transition system\<close>

text \<open>The fetches a client starts and those that end, newest first, under any interleaving of calls and answers.\<close>

datatype fetch_event = StartAt int | SettleAt int

fun event_time :: "fetch_event \<Rightarrow> int" where
  "event_time (StartAt t) = t"
| "event_time (SettleAt t) = t"

inductive jwks_trace :: "string \<Rightarrow> fetch_event list \<Rightarrow> jwks_client \<Rightarrow> bool" for url where
  initial: "jwks_trace url [] new_client"
| call: "jwks_trace url evs c \<Longrightarrow> \<forall>e \<in> set evs. event_time e \<le> now \<Longrightarrow> ensureFresh now c = (r, c') \<Longrightarrow>
     jwks_trace url (if r = Starts then StartAt now # evs else evs) c'"
| ended: "jwks_trace url evs c \<Longrightarrow> \<forall>e \<in> set evs. event_time e \<le> now \<Longrightarrow> jk_inflight c \<Longrightarrow> settle url answer now c = (r, c') \<Longrightarrow>
     jwks_trace url (SettleAt now # evs) c'"

inductive_cases jwks_startE: "jwks_trace url (StartAt t # evs) c"

lemma ensureFresh_cases:
  assumes "ensureFresh now c = (r, c')"
  shows "(r \<noteq> Starts \<and> c' = c) \<or> (r = Starts \<and> \<not> jk_inflight c \<and> c' = c\<lparr>jk_inflight := True\<rparr>
     \<and> (\<forall>e. jk_cache c = Some e \<longrightarrow> SUCCESS_TTL_MS \<le> now - ce_fetchedAt e)
     \<and> (jk_lastError c \<noteq> None \<longrightarrow> ERROR_TTL_MS \<le> now - jk_lastErrorAt c))"
  using assms by (auto simp: ensureFresh_def Let_def split: option.splits if_splits)

text \<open>A client that is not waiting remembers when its last fetch ended, in its cache or in its last error.\<close>

definition remembers :: "fetch_event list \<Rightarrow> jwks_client \<Rightarrow> bool" where
  "remembers evs c = (if jk_inflight c then \<exists>t evs'. evs = StartAt t # evs'
     else evs = [] \<or> (\<exists>t evs'. evs = SettleAt t # evs' \<and>
       ((\<exists>e. jk_cache c = Some e \<and> ce_fetchedAt e = t) \<or> (jk_lastError c \<noteq> None \<and> jk_lastErrorAt c = t))))"

lemma settle_remembers: "settle url answer now c = (r, c') \<Longrightarrow> remembers (SettleAt now # evs) c'"
  by (auto simp: settle_def remembers_def fetchAndParse_def bind_simps split: sum.splits option.splits json.splits)

lemma trace_remembers: "jwks_trace url evs c \<Longrightarrow> remembers evs c"
proof (induction rule: jwks_trace.induct)
  case initial
  show ?case by (simp add: remembers_def new_client_def)
next
  case (call evs c now r c')
  then show ?case using ensureFresh_cases [OF call(3)] by (auto simp: remembers_def)
next
  case (ended evs c now answer r c')
  then show ?case using settle_remembers by blast
qed

lemma start_after_settle:
  assumes "jwks_trace url evs c" "ensureFresh now c = (Starts, c')" "evs \<noteq> []"
  shows "\<exists>s evs'. evs = SettleAt s # evs' \<and> ERROR_TTL_MS \<le> now - s"
  using trace_remembers [OF assms(1)] ensureFresh_cases [OF assms(2)] assms(3)
  by (auto simp: remembers_def SUCCESS_TTL_MS_def ERROR_TTL_MS_def split: if_splits)

lemma trace_start:
  "jwks_trace url (ev # evs) c \<Longrightarrow> ev = StartAt t \<Longrightarrow> evs \<noteq> [] \<Longrightarrow> \<exists>s evs'. evs = SettleAt s # evs' \<and> ERROR_TTL_MS \<le> t - s"
proof (induction "ev # evs" c rule: jwks_trace.induct)
  case (call evs' c now r c')
  then show ?case using start_after_settle by (cases "r = Starts") auto
qed simp_all

section \<open>Properties\<close>

text \<open>The key set this control plane publishes at \<open>/.well-known/jwks.json\<close> gives a peer's \<open>JwksClient\<close> exactly the key
  that verifies its tokens, whatever its \<open>kid\<close>.\<close>

theorem published_key_is_fetched:
  assumes "buildSigningMaterial J createPrivateKey cfg = Inr m" "sm_signingKey m = KEdPrivate k" "ed_key_encoded J k"
    and "starts_with ''https://'' (to_lower url)"
    and "resp = \<lparr>ha_status = 200, ha_content_length = None, ha_body_bytes = n, ha_body_json = Some (jwks m)\<rparr>" "n \<le> MAX_JWKS_BYTES"
  shows "\<exists>p. sm_verifyKey m = KEdPublic p \<and> fst (getSigningKey url (Some resp) t t' (Some (sm_kid m)) new_client) = Inr p"
proof -
  have "sm_algorithm m = EdDSA"
    using assms(1,2) by (auto simp: buildSigningMaterial_def Let_def bind_simps split: jwt_algorithm.splits if_splits sum.splits key_like.splits)
  then obtain k' where m: "sm_signingKey m = KEdPrivate k'" "sm_verifyKey m = KEdPublic (jc_ed_public J k')"
    "sm_publicJwk m = Some \<lparr>pj_kty = ''OKP'', pj_kid = sm_kid m, pj_alg = ''EdDSA'', pj_use = ''sig'',
       pj_crv = Some ''Ed25519'', pj_x = Some (b64url_encode (b64url_decode (jc_ed_public J k')))\<rparr>"
    using eddsa_material [OF assms(1)] by blast
  have enc: "length (b64url_decode (jc_ed_public J k')) = 32" "b64_encode (b64url_decode (jc_ed_public J k')) = jc_ed_public J k'"
    using assms(2,3) m(1) by (simp_all add: ed_key_encoded_def)
  show ?thesis
    using fetch_published [OF m(3) enc(1) assms(4), of resp t'] assms(5,6) m(2) enc(2)
    by (simp add: first_call_fetches single_key_selected http_ok_def)
qed

definition encoded_crypto :: jwt_crypto where
  "encoded_crypto = sample_crypto\<lparr>jc_ed_public := (\<lambda>k. b64_encode (replicate 32 7))\<rparr>"

lemma encoded_crypto_ok: "ed25519_correct encoded_crypto k" "ed_key_encoded encoded_crypto k" "decode_agrees encoded_crypto"
    "hs256_verify_sound encoded_crypto"
  by (simp_all add: ed25519_correct_def ed_key_encoded_def encoded_crypto_def hs256_verify_sound_def decode_agrees_segments)
    (simp_all add: sample_crypto_def)

definition sample_config :: signing_config where
  "sample_config = \<lparr>sc_algorithm = EdDSA, sc_hsSecret = None, sc_privateKeyPem = Some ''pem'', sc_kid = Some ''k1''\<rparr>"

definition sample_material :: signing_material where
  "sample_material = \<lparr>sm_algorithm = EdDSA, sm_kid = ''k1'', sm_signingKey = KEdPrivate ''priv'',
     sm_verifyKey = KEdPublic (b64_encode (replicate 32 7)),
     sm_publicJwk = Some \<lparr>pj_kty = ''OKP'', pj_kid = ''k1'', pj_alg = ''EdDSA'', pj_use = ''sig'', pj_crv = Some ''Ed25519'',
       pj_x = Some (base64UrlEncode (replicate 32 7))\<rparr>\<rparr>"

lemma sample_material_built: "buildSigningMaterial encoded_crypto (\<lambda>pem. Inr (KEdPrivate ''priv'')) sample_config = Inr sample_material"
proof -
  have "extractEd25519RawPublic (b64_encode (replicate 32 7)) = Inr (replicate 32 7)"
    by (simp add: extractEd25519RawPublic_def spki_prefix_def Let_def)
  then show ?thesis
    by (simp add: buildSigningMaterial_def encoded_crypto_def sample_config_def sample_material_def trim_def js_space_def Let_def)
qed

definition sample_jwks_answer :: http_answer where
  "sample_jwks_answer = \<lparr>ha_status = 200, ha_content_length = None, ha_body_bytes = 120, ha_body_json = Some (jwks sample_material)\<rparr>"

theorem published_key_is_fetched_witness:
  "sm_verifyKey sample_material = KEdPublic (b64_encode (replicate 32 7))
   \<and> fst (getSigningKey ''https://peer/jwks'' (Some sample_jwks_answer) 0 5 (Some ''k1'') new_client) = Inr (b64_encode (replicate 32 7))"
proof -
  have "starts_with ''https://'' (to_lower ''https://peer/jwks'')" by code_simp
  with published_key_is_fetched [OF sample_material_built _ encoded_crypto_ok(2), of "''priv''" "''https://peer/jwks''" sample_jwks_answer 120 0 5]
  show ?thesis by (simp add: sample_material_def sample_jwks_answer_def MAX_JWKS_BYTES_def)
qed

text \<open>Fetches of a peer's key set never overlap, and the next one starts at least 30 seconds after the last one ended,
  whatever the calls, the answers and their interleaving.\<close>

theorem jwks_fetches_are_spaced:
  assumes "jwks_trace url (StartAt t # evs) c" "evs \<noteq> []"
  shows "\<exists>s evs'. evs = SettleAt s # evs' \<and> 30000 \<le> t - s"
  using trace_start [OF assms(1) refl assms(2)] by (simp add: ERROR_TTL_MS_def)

theorem jwks_fetches_are_spaced_witness:
  "\<exists>c. jwks_trace ''https://peer/jwks'' [StartAt 40000, SettleAt 10, StartAt 0] c
    \<and> (\<exists>s evs'. [SettleAt 10, StartAt 0] = SettleAt s # evs' \<and> 30000 \<le> 40000 - s)"
proof -
  let ?url = "''https://peer/jwks''"
  let ?c1 = "new_client\<lparr>jk_inflight := True\<rparr>"
  let ?c2 = "snd (settle ?url None 10 ?c1)"
  have "jwks_trace ?url [StartAt 0] ?c1"
    using jwks_trace.call [OF jwks_trace.initial, of 0 Starts ?c1 ?url] by (simp add: ensureFresh_def new_client_def)
  then have "jwks_trace ?url [SettleAt 10, StartAt 0] ?c2"
    using jwks_trace.ended [of ?url "[StartAt 0]" ?c1 10 None "fst (settle ?url None 10 ?c1)" ?c2] by (simp add: new_client_def)
  moreover have c2: "?c2 = ?c1\<lparr>jk_lastError := Some JwksTransport, jk_lastErrorAt := 10, jk_inflight := False\<rparr>"
    by (simp add: settle_def fetchAndParse_def starts_with_def to_lower_def lower_char_def lower_letters_def upper_letters_def)
  ultimately have tr: "jwks_trace ?url [StartAt 40000, SettleAt 10, StartAt 0] (?c2\<lparr>jk_inflight := True\<rparr>)"
    using jwks_trace.call [of ?url "[SettleAt 10, StartAt 0]" ?c2 40000 Starts "?c2\<lparr>jk_inflight := True\<rparr>"]
    by (simp add: ensureFresh_def new_client_def ERROR_TTL_MS_def)
  then show ?thesis using jwks_fetches_are_spaced [OF tr] by blast
qed

end
