(* ===== verification/CrossIssuer.thy ===== *)
theory CrossIssuer
  imports JwtSigning Revocation
begin

text \<open>
  Tokens of this control plane and of its peers: \<open>src/src/auth/trusted-issuers.ts\<close> and
  \<open>cross-issuer-validator.service.ts\<close>.

  The validator holds one key-set client per peer. Its argument \<open>http\<close> answers the fetches, and the revocation
  repository, when the module binds one, is an argument on the two claims the code passes to it. The clock is
  read when the call starts (\<open>t0\<close>), when a key-set fetch ends (\<open>t1\<close>) and when the repository is asked (\<open>t2\<close>).
\<close>

section \<open>Trusted issuers\<close>

record trusted_issuer =
  ti_iss :: string
  ti_alg :: jwt_algorithm
  ti_secret :: "string option"
  ti_jwksUrl :: "string option"
  ti_audience :: string
  ti_requiredScope :: "string option"
  ti_readOnly :: bool

datatype trusted_issuer_error =
    TooFewFields string nat
  | TooManyFields string nat
  | EmptyField string
  | FlagInScope string
  | UnknownFlag string
  | DuplicateFlag string string
  | AudienceMissing string
  | SecretBelow32 string
  | MaterialNotUrl string
  | UnsupportedAlg string
  | DuplicateIssuer string

definition TRUSTED_ISSUER_FLAGS :: "string list" where
  "TRUSTED_ISSUER_FLAGS = [''read_only'']"

fun flags_loop :: "string \<Rightarrow> string list \<Rightarrow> string list \<Rightarrow> trusted_issuer_error + string list" where
  "flags_loop iss seen [] = Inr seen"
| "flags_loop iss seen (token # tokens) =
     (if token \<notin> set TRUSTED_ISSUER_FLAGS then Inl (UnknownFlag iss)
      else if token \<in> set seen then Inl (DuplicateFlag iss token)
      else flags_loop iss (set_add token seen) tokens)"

definition parseFlags :: "string \<Rightarrow> string option \<Rightarrow> string option \<Rightarrow> trusted_issuer_error + bool" where
  "parseFlags iss requiredScope flagsRaw =
     and_then (throw_if (case requiredScope of Some sc \<Rightarrow> list_ex (\<lambda>t. t \<in> set TRUSTED_ISSUER_FLAGS) (split_words sc) | None \<Rightarrow> False)
       (FlagInScope iss)) (\<lambda>_.
     and_then (flags_loop iss [] (split_words (case flagsRaw of Some f \<Rightarrow> f | None \<Rightarrow> []))) (\<lambda>seen.
     Inr (''read_only'' \<in> set seen)))"

definition nth_field :: "string list \<Rightarrow> nat \<Rightarrow> string option" where
  "nth_field parts i = (if i < length parts then Some (parts ! i) else None)"

definition non_empty :: "string option \<Rightarrow> string option" where
  "non_empty s = (if s = Some [] then None else s)"

definition parse_issuer_entry :: "string \<Rightarrow> trusted_issuer_error + trusted_issuer" where
  "parse_issuer_entry entry =
     (let parts = split_on (CHR ''|'') entry; n = length parts
      in and_then (throw_if (n < 4) (TooFewFields (parts ! 0) n)) (\<lambda>_.
         and_then (throw_if (n > 6) (TooManyFields (parts ! 0) n)) (\<lambda>_.
         let iss = parts ! 0; alg = parts ! 1; material = parts ! 2; audience = parts ! 3;
             requiredScope = nth_field parts 4; flagsRaw = nth_field parts 5
         in and_then (throw_if (iss = [] \<or> alg = [] \<or> material = []) (EmptyField iss)) (\<lambda>_.
            and_then (parseFlags iss requiredScope flagsRaw) (\<lambda>readOnly.
            and_then (throw_if (audience = []) (AudienceMissing iss)) (\<lambda>_.
            if alg = ''HS256'' then
              (if length (utf8 material) < 32 then Inl (SecretBelow32 iss)
               else Inr \<lparr>ti_iss = iss, ti_alg = HS256, ti_secret = Some material, ti_jwksUrl = None, ti_audience = audience,
                 ti_requiredScope = non_empty requiredScope, ti_readOnly = readOnly\<rparr>)
            else if alg = ''EdDSA'' then
              (if \<not> (starts_with ''http://'' material \<or> starts_with ''https://'' material) then Inl (MaterialNotUrl iss)
               else Inr \<lparr>ti_iss = iss, ti_alg = EdDSA, ti_secret = None, ti_jwksUrl = Some material, ti_audience = audience,
                 ti_requiredScope = non_empty requiredScope, ti_readOnly = readOnly\<rparr>)
            else Inl (UnsupportedAlg iss)))))))"

fun parse_issuer_entries :: "string list \<Rightarrow> trusted_issuer_error + trusted_issuer list" where
  "parse_issuer_entries [] = Inr []"
| "parse_issuer_entries (entry # entries) =
     and_then (parse_issuer_entry entry) (\<lambda>i. and_then (parse_issuer_entries entries) (\<lambda>is. Inr (i # is)))"

definition parseTrustedIssuers :: "string \<Rightarrow> trusted_issuer_error + trusted_issuer list" where
  "parseTrustedIssuers raw = parse_issuer_entries (split_trim (CHR '','') raw)"

type_synonym issuer_registry = "(string, trusted_issuer) jsmap"

fun registry_loop :: "issuer_registry \<Rightarrow> trusted_issuer list \<Rightarrow> trusted_issuer_error + issuer_registry" where
  "registry_loop byIss [] = Inr byIss"
| "registry_loop byIss (i # is) =
     (if map_of byIss (ti_iss i) \<noteq> None then Inl (DuplicateIssuer (ti_iss i))
      else registry_loop (AList.update (ti_iss i) i byIss) is)"

definition TrustedIssuerRegistry :: "trusted_issuer list \<Rightarrow> trusted_issuer_error + issuer_registry" where
  "TrustedIssuerRegistry issuers = registry_loop [] issuers"

definition registry_get :: "issuer_registry \<Rightarrow> string \<Rightarrow> trusted_issuer option" where
  "registry_get byIss iss = map_of byIss iss"

definition registry_size :: "issuer_registry \<Rightarrow> nat" where
  "registry_size byIss = length byIss"

definition registry_list :: "issuer_registry \<Rightarrow> trusted_issuer list" where
  "registry_list byIss = map snd byIss"

section \<open>The validator\<close>

datatype token_failure =
    DecodeFailed
  | MissingIss
  | NotTrusted json
  | LocalFailed jwt_error
  | TrustedFailed jwt_error
  | KeySetFailed jwks_error
  | JwksUrlMissing
  | AudienceMismatch
  | MissingScopes "string list"
  | TokenRevoked
  | RepositoryFailed string

type_synonym revocation_check = "(clock \<Rightarrow> json option \<Rightarrow> json option \<Rightarrow> string + bool) option"

record validator_config =
  vc_jwtAuthority :: string
  vc_jwtAudience :: string
  vc_material :: signing_material
  vc_trusted :: issuer_registry

type_synonym jwks_clients = "(string, jwks_client) jsmap"

definition matchesAudience :: "json option \<Rightarrow> string \<Rightarrow> bool" where
  "matchesAudience aud required = (case aud of
     Some (JStr s) \<Rightarrow> s = required
   | Some (JArr vs) \<Rightarrow> JStr required \<in> set vs
   | _ \<Rightarrow> False)"

text \<open>The \<open>iss\<close> of the unverified payload; the outer \<open>None\<close> is a token whose payload is not an object.\<close>

definition decodePeek :: "jwt_crypto \<Rightarrow> string \<Rightarrow> json option option" where
  "decodePeek J token = (case jc_decode J token of
     Some (JObj ob) \<Rightarrow> Some (get_prop ob ''iss'')
   | Some (JArr _) \<Rightarrow> Some None
   | _ \<Rightarrow> None)"

definition decodeKid :: "jwt_crypto \<Rightarrow> string \<Rightarrow> string option" where
  "decodeKid J token = as_string (jc_kid J token)"

definition local_options :: "validator_config \<Rightarrow> verify_options" where
  "local_options cfg = \<lparr>vo_algorithms = [sm_algorithm (vc_material cfg)], vo_key = sm_verifyKey (vc_material cfg),
     vo_issuer = Some (vc_jwtAuthority cfg), vo_audience = Some (vc_jwtAudience cfg), vo_clockTolerance = None, vo_requireExp = None\<rparr>"

definition verifyLocal :: "jwt_crypto \<Rightarrow> validator_config \<Rightarrow> clock \<Rightarrow> string \<Rightarrow> token_failure + json" where
  "verifyLocal J cfg us token = (case verifyJwt J us token (local_options cfg) of
       Inl e \<Rightarrow> Inl (LocalFailed e)
     | Inr payload \<Rightarrow> Inr payload)"

definition resolveJwksKey ::
    "jwt_crypto \<Rightarrow> (string \<Rightarrow> http_answer option) \<Rightarrow> clock \<Rightarrow> clock \<Rightarrow> trusted_issuer \<Rightarrow> string \<Rightarrow> jwks_clients
     \<Rightarrow> (token_failure + string) \<times> jwks_clients" where
  "resolveJwksKey J http t0 t1 trusted token clients = (case ti_jwksUrl trusted of
     None \<Rightarrow> (Inl JwksUrlMissing, clients)
   | Some url \<Rightarrow>
       if url = [] then (Inl JwksUrlMissing, clients)
       else (let client = (case map_of clients (ti_iss trusted) of Some c \<Rightarrow> c | None \<Rightarrow> new_client)
         in case getSigningKey url (http url) (now_ms t0) (now_ms t1) (decodeKid J token) client of
              (r, client') \<Rightarrow> ((case r of Inl e \<Rightarrow> Inl (KeySetFailed e) | Inr pem \<Rightarrow> Inr pem),
                AList.update (ti_iss trusted) client' clients)))"

definition trusted_options :: "trusted_issuer \<Rightarrow> jwt_algorithm \<Rightarrow> key_like \<Rightarrow> verify_options" where
  "trusted_options trusted alg key = \<lparr>vo_algorithms = [alg], vo_key = key, vo_issuer = Some (ti_iss trusted),
     vo_audience = None, vo_clockTolerance = None, vo_requireExp = None\<rparr>"

definition trusted_claims :: "trusted_issuer \<Rightarrow> jwt_error + json \<Rightarrow> token_failure + json" where
  "trusted_claims trusted decoded = (case decoded of
     Inl e \<Rightarrow> Inl (TrustedFailed e)
   | Inr payload \<Rightarrow>
       and_then (throw_if (ti_audience trusted \<noteq> [] \<and> \<not> matchesAudience (get_prop (members_of payload) ''aud'') (ti_audience trusted))
         AudienceMismatch) (\<lambda>_.
       let missing = filter (\<lambda>s. s \<notin> set (readScopes (members_of payload))) (parseScopeString (ti_requiredScope trusted))
       in and_then (throw_if (non_empty (ti_requiredScope trusted) \<noteq> None \<and> missing \<noteq> []) (MissingScopes missing)) (\<lambda>_.
          Inr payload)))"

definition verifyTrusted ::
    "jwt_crypto \<Rightarrow> (string \<Rightarrow> http_answer option) \<Rightarrow> clock \<Rightarrow> clock \<Rightarrow> string \<Rightarrow> trusted_issuer \<Rightarrow> jwks_clients
     \<Rightarrow> (token_failure + json) \<times> jwks_clients" where
  "verifyTrusted J http t0 t1 token trusted clients = (case ti_alg trusted of
     HS256 \<Rightarrow> (trusted_claims trusted (verifyJwt J t0 token
        (trusted_options trusted HS256 (KSecret (case ti_secret trusted of Some s \<Rightarrow> s | None \<Rightarrow> [])))), clients)
   | EdDSA \<Rightarrow> (case resolveJwksKey J http t0 t1 trusted token clients of
        (Inl e, clients') \<Rightarrow> (Inl e, clients')
      | (Inr pem, clients') \<Rightarrow>
          (trusted_claims trusted (verifyJwt J t1 token (trusted_options trusted EdDSA (KEdPublic pem))), clients')))"

definition check_revoked :: "revocation_check \<Rightarrow> clock \<Rightarrow> json \<Rightarrow> token_failure + unit" where
  "check_revoked revocations us payload = (case revocations of
     Some isRevoked \<Rightarrow>
       if truthy (get_prop (members_of payload) ''jti'')
       then (case isRevoked us (get_prop (members_of payload) ''iss'') (get_prop (members_of payload) ''jti'') of
           Inl e \<Rightarrow> Inl (RepositoryFailed e)
         | Inr revoked \<Rightarrow> throw_if revoked TokenRevoked)
       else Inr ()
   | None \<Rightarrow> Inr ())"

definition verifyWithProvenance ::
    "jwt_crypto \<Rightarrow> validator_config \<Rightarrow> revocation_check \<Rightarrow> (string \<Rightarrow> http_answer option) \<Rightarrow> clock \<Rightarrow> clock \<Rightarrow> clock \<Rightarrow> string
     \<Rightarrow> jwks_clients \<Rightarrow> (token_failure + jobj \<times> trusted_issuer option) \<times> jwks_clients" where
  "verifyWithProvenance J cfg revocations http t0 t1 t2 token clients = (case decodePeek J token of
     None \<Rightarrow> (Inl DecodeFailed, clients)
   | Some iss \<Rightarrow>
       if \<not> truthy iss then (Inl MissingIss, clients)
       else if iss = Some (JStr (vc_jwtAuthority cfg)) then
         (and_then (verifyLocal J cfg t0 token) (\<lambda>claims.
          and_then (check_revoked revocations t2 claims) (\<lambda>_. Inr (members_of claims, None))), clients)
       else (case (case as_string iss of Some i \<Rightarrow> registry_get (vc_trusted cfg) i | None \<Rightarrow> None) of
           None \<Rightarrow> (Inl (NotTrusted (the iss)), clients)
         | Some trusted \<Rightarrow> (case verifyTrusted J http t0 t1 token trusted clients of
             (r, clients') \<Rightarrow>
               (and_then r (\<lambda>claims. and_then (check_revoked revocations t2 claims) (\<lambda>_. Inr (members_of claims, Some trusted))),
                clients'))))"

definition verify_claims ::
    "jwt_crypto \<Rightarrow> validator_config \<Rightarrow> revocation_check \<Rightarrow> (string \<Rightarrow> http_answer option) \<Rightarrow> clock \<Rightarrow> clock \<Rightarrow> clock \<Rightarrow> string
     \<Rightarrow> jwks_clients \<Rightarrow> (token_failure + jobj) \<times> jwks_clients" where
  "verify_claims J cfg revocations http t0 t1 t2 token clients =
     (case verifyWithProvenance J cfg revocations http t0 t1 t2 token clients of
        (r, clients') \<Rightarrow> (and_then r (\<lambda>(claims, _). Inr claims), clients'))"

section \<open>Introspection\<close>

text \<open>\<open>src/src/auth/introspect.controller.ts\<close>: the answer, with absent claims left out of the JSON.\<close>

definition prop_member :: "string \<Rightarrow> json option \<Rightarrow> jobj" where
  "prop_member k v = (case v of Some x \<Rightarrow> [(k, x)] | None \<Rightarrow> [])"

definition introspect_answer :: "token_failure + jobj \<Rightarrow> jobj" where
  "introspect_answer r = (case r of
     Inl e \<Rightarrow> [(''active'', JBool False)]
   | Inr claims \<Rightarrow>
       (let acdp = (case get_prop claims ''acdp'' of Some v \<Rightarrow> members_of v | None \<Rightarrow> [])
        in [(''active'', JBool True)]
          @ concat (map (\<lambda>k. prop_member k (get_prop claims k)) [''iss'', ''sub'', ''jti'', ''iat'', ''exp''])
          @ [(''token_type'', JStr ''Bearer'')]
          @ prop_member ''key_id'' (get_prop acdp ''key_id'') @ prop_member ''registry'' (get_prop acdp ''registry'')))"

definition introspect ::
    "jwt_crypto \<Rightarrow> validator_config \<Rightarrow> revocation_check \<Rightarrow> (string \<Rightarrow> http_answer option) \<Rightarrow> clock \<Rightarrow> clock \<Rightarrow> clock \<Rightarrow> string
     \<Rightarrow> jwks_clients \<Rightarrow> jobj \<times> jwks_clients" where
  "introspect J cfg revocations http t0 t1 t2 token clients =
     (case verify_claims J cfg revocations http t0 t1 t2 token clients of (r, clients') \<Rightarrow> (introspect_answer r, clients'))"

section \<open>Lemmas\<close>

definition wf_issuer :: "trusted_issuer \<Rightarrow> bool" where
  "wf_issuer e = (ti_iss e \<noteq> [] \<and> ti_audience e \<noteq> [] \<and> ti_requiredScope e \<noteq> Some [] \<and> (case ti_alg e of
     HS256 \<Rightarrow> (\<exists>s. ti_secret e = Some s \<and> 32 \<le> length (utf8 s)) \<and> ti_jwksUrl e = None
   | EdDSA \<Rightarrow> (\<exists>u. ti_jwksUrl e = Some u \<and> (starts_with ''http://'' u \<or> starts_with ''https://'' u)) \<and> ti_secret e = None))"

lemma parse_issuer_entry_wf: "parse_issuer_entry entry = Inr e \<Longrightarrow> wf_issuer e"
  by (auto simp: parse_issuer_entry_def wf_issuer_def non_empty_def bind_simps Let_def split: if_splits)

lemma parse_issuer_entries_wf: "parse_issuer_entries es = Inr is \<Longrightarrow> e \<in> set is \<Longrightarrow> wf_issuer e"
  by (induction es arbitrary: "is") (auto simp: bind_simps parse_issuer_entry_wf)

text \<open>The registry is indexed by issuer and holds exactly the configured entries.\<close>

lemma registry_loop_spec:
  "registry_loop m is = Inr reg \<Longrightarrow> \<forall>(k, e) \<in> set m. k = ti_iss e \<Longrightarrow>
   (\<forall>(k, e) \<in> set reg. k = ti_iss e) \<and> snd ` set reg = snd ` set m \<union> set is"
proof (induction "is" arbitrary: m)
  case (Cons i "is")
  then have none: "map_of m (ti_iss i) = None" by (auto split: if_splits)
  then have "AList.update (ti_iss i) i m = m @ [(ti_iss i, i)]" by (simp add: update_append_new)
  with Cons.IH [of "m @ [(ti_iss i, i)]"] Cons.prems none show ?case by auto
qed simp

lemma registry_get_member:
  assumes "TrustedIssuerRegistry issuers = Inr reg" "registry_get reg i = Some e"
  shows "e \<in> set issuers" "ti_iss e = i"
proof -
  have "(i, e) \<in> set reg" using assms(2) by (auto simp: registry_get_def dest: map_of_SomeD)
  have spec: "\<forall>(k, e) \<in> set reg. k = ti_iss e" "snd ` set reg = set issuers"
    using registry_loop_spec [of "[]" issuers reg] assms(1) by (simp_all add: TrustedIssuerRegistry_def)
  show "e \<in> set issuers" using imageI [OF \<open>(i, e) \<in> set reg\<close>, of snd] by (simp add: spec(2))
  show "ti_iss e = i" using bspec [OF spec(1) \<open>(i, e) \<in> set reg\<close>] by simp
qed

lemma matchesAudience_eq: "matchesAudience aud a = audience_matches aud a"
  by (auto simp: matchesAudience_def audience_matches_def split: option.splits json.splits)

lemma verifyTrusted_sound:
  assumes "hs256_verify_sound J" "wf_issuer e" "fst (verifyTrusted J http t0 t1 token e clients) = Inr payload"
  shows "get_prop (members_of payload) ''iss'' = Some (JStr (ti_iss e))"
    "audience_matches (get_prop (members_of payload) ''aud'') (ti_audience e)"
    "set (parseScopeString (ti_requiredScope e)) \<subseteq> set (readScopes (members_of payload))"
proof -
  obtain alg key us where v: "verifyJwt J us token (trusted_options e alg key) = Inr payload"
      "trusted_claims e (Inr payload) = Inr payload"
    using assms(3) by (auto simp: verifyTrusted_def trusted_claims_def bind_simps Let_def
        split: jwt_algorithm.splits prod.splits sum.splits)
  have ne: "ti_iss e \<noteq> []" "ti_audience e \<noteq> []" "ti_requiredScope e \<noteq> Some []" using assms(2) by (simp_all add: wf_issuer_def)
  show "get_prop (members_of payload) ''iss'' = Some (JStr (ti_iss e))"
    by (rule verified_claims(1) [OF assms(1) v(1) _ ne(1)]) (simp add: trusted_options_def)
  show "audience_matches (get_prop (members_of payload) ''aud'') (ti_audience e)"
    "set (parseScopeString (ti_requiredScope e)) \<subseteq> set (readScopes (members_of payload))"
    using v(2) ne(2,3) by (auto simp: trusted_claims_def bind_simps Let_def matchesAudience_eq non_empty_def filter_empty_conv
        parseScopeString_def fromClaim_def split_words_def split: option.splits if_splits)
qed

lemma verifyLocal_sound:
  assumes "hs256_verify_sound J" "verifyLocal J cfg us token = Inr payload" "vc_jwtAuthority cfg \<noteq> []" "vc_jwtAudience cfg \<noteq> []"
  shows "get_prop (members_of payload) ''iss'' = Some (JStr (vc_jwtAuthority cfg))"
    "audience_matches (get_prop (members_of payload) ''aud'') (vc_jwtAudience cfg)"
proof -
  have v: "verifyJwt J us token (local_options cfg) = Inr payload" "vo_issuer (local_options cfg) = Some (vc_jwtAuthority cfg)"
      "vo_audience (local_options cfg) = Some (vc_jwtAudience cfg)"
    using assms(2) by (auto simp: verifyLocal_def local_options_def split: sum.splits)
  show "get_prop (members_of payload) ''iss'' = Some (JStr (vc_jwtAuthority cfg))"
    "audience_matches (get_prop (members_of payload) ''aud'') (vc_jwtAudience cfg)"
    using verified_claims [OF assms(1) v(1,2) assms(3)] v(3) assms(4) by blast+
qed

lemma check_revoked_ok:
  "check_revoked (Some isRevoked) us payload = Inr () \<Longrightarrow> get_prop (members_of payload) ''jti'' = Some (JStr j) \<Longrightarrow> j \<noteq> [] \<Longrightarrow>
   isRevoked us (get_prop (members_of payload) ''iss'') (Some (JStr j)) = Inr False"
  by (auto simp: check_revoked_def truthy_def split: sum.splits)

text \<open>The two ways a token is accepted.\<close>

lemma verifyWithProvenance_accepted:
  assumes "fst (verifyWithProvenance J cfg revocations http t0 t1 t2 token clients) = Inr (claims, provenance)"
  obtains (local) payload where "claims = members_of payload" "provenance = None" "vc_jwtAuthority cfg \<noteq> []"
      "verifyLocal J cfg t0 token = Inr payload" "check_revoked revocations t2 payload = Inr ()"
  | (trusted) payload i e where "claims = members_of payload" "provenance = Some e" "i \<noteq> vc_jwtAuthority cfg"
      "registry_get (vc_trusted cfg) i = Some e" "fst (verifyTrusted J http t0 t1 token e clients) = Inr payload"
      "check_revoked revocations t2 payload = Inr ()"
  using assms
  by (auto simp: verifyWithProvenance_def bind_simps truthy_def as_string_def
      split: option.splits if_splits prod.splits json.splits) (metis fst_conv)

text \<open>The table of revocations as the validator asks it.\<close>

definition pg_check :: "rv_rows \<Rightarrow> revocation_check" where
  "pg_check rows = Some (\<lambda>us i j. case (i, j) of
     (Some (JStr i), Some (JStr j)) \<Rightarrow> Inr (rv_pg_isRevoked us i j rows)
   | _ \<Rightarrow> Inr False)"

lemma revoked_refused:
  assumes "hs256_verify_sound J" "parseTrustedIssuers raw = Inr issuers" "TrustedIssuerRegistry issuers = Inr (vc_trusted cfg)"
    and "vc_jwtAudience cfg \<noteq> []"
    and "fst (verifyWithProvenance J cfg (Some isRevoked) http t0 t1 t2 token clients) = Inr (claims, provenance)"
    and "get_prop claims ''jti'' = Some (JStr j)" "j \<noteq> []"
  shows "\<exists>i. get_prop claims ''iss'' = Some (JStr i) \<and> isRevoked t2 (Some (JStr i)) (Some (JStr j)) = Inr False"
  using assms(5)
proof (cases rule: verifyWithProvenance_accepted)
  case (local payload)
  then show ?thesis using verifyLocal_sound(1) [OF assms(1) local(4,3) assms(4)] check_revoked_ok [of isRevoked t2 payload j] assms(6,7) by simp
next
  case (trusted payload i e)
  have "e \<in> set issuers" using registry_get_member [OF assms(3)] trusted(4) by blast
  then have "wf_issuer e" using parse_issuer_entries_wf assms(2) by (auto simp: parseTrustedIssuers_def)
  then show ?thesis using verifyTrusted_sound(1) [OF assms(1) _ trusted(5)] check_revoked_ok [of isRevoked t2 payload j] trusted assms(6,7) by simp
qed

lemma trusted_accepts_signed:
  assumes "ed25519_correct J k" "printable (JObj payload)" "signJwt J payload EdDSA (KEdPrivate k) keyid = Some token"
    and "claims_ok us (JObj payload) (trusted_options e EdDSA key)"
    and "matchesAudience (get_prop payload ''aud'') (ti_audience e)" "ti_requiredScope e = None"
  shows "trusted_claims e (verifyJwt J us token (trusted_options e EdDSA (KEdPublic (jc_ed_public J k)))) = Inr (JObj payload)"
proof -
  have "claims_ok us (JObj payload) (trusted_options e EdDSA (KEdPublic (jc_ed_public J k)))"
    using assms(4) by (simp add: claims_ok_def trusted_options_def tolerance_def)
  then have "verifyJwt J us token (trusted_options e EdDSA (KEdPublic (jc_ed_public J k))) = Inr (JObj payload)"
    by (intro verify_signed [OF assms(1-3)]) (simp_all add: trusted_options_def)
  then show ?thesis using assms(5,6) by (simp add: trusted_claims_def members_of_def non_empty_def Let_def)
qed

lemma local_accepts_signed:
  assumes "ed25519_correct J k" "decode_agrees J" "printable (JObj payload)"
    and "signJwt J payload EdDSA (KEdPrivate k) keyid = Some token"
    and "sm_algorithm (vc_material cfg) = EdDSA" "sm_verifyKey (vc_material cfg) = KEdPublic (jc_ed_public J k)"
    and "vc_jwtAuthority cfg \<noteq> []" "claims_ok us (JObj payload) (local_options cfg)"
    and "check_revoked revocations t2 (JObj payload) = Inr ()"
  shows "fst (verifyWithProvenance J cfg revocations http us t1 t2 token clients) = Inr (payload, None)"
proof -
  have "verifyLocal J cfg us token = Inr (JObj payload)"
    using verify_signed [OF assms(1,3,4) _ _ assms(8)] assms(5,6) by (simp add: verifyLocal_def local_options_def)
  moreover have "get_prop payload ''iss'' = Some (JStr (vc_jwtAuthority cfg))"
    using assms(8) by (simp add: claims_ok_def local_options_def members_of_def)
  ultimately show ?thesis
    using signed_decodes(1) [OF assms(2-4)] assms(7,9)
    by (simp add: verifyWithProvenance_def decodePeek_def truthy_def members_of_def)
qed

subsection \<open>A sample configuration\<close>

definition sample_peer :: trusted_issuer where
  "sample_peer = \<lparr>ti_iss = ''peer'', ti_alg = EdDSA, ti_secret = None, ti_jwksUrl = Some ''https://peer/jwks'', ti_audience = ''peer'',
     ti_requiredScope = None, ti_readOnly = True\<rparr>"

definition sample_trust :: string where
  "sample_trust = ''peer|EdDSA|https://peer/jwks|peer||read_only''"

lemma sample_trust_parsed: "parseTrustedIssuers sample_trust = Inr [sample_peer]"
  by code_simp

definition sample_validator :: validator_config where
  "sample_validator = \<lparr>vc_jwtAuthority = ''cp'', vc_jwtAudience = ''cp'', vc_material = sample_material, vc_trusted = [(''peer'', sample_peer)]\<rparr>"

lemma sample_registry: "TrustedIssuerRegistry [sample_peer] = Inr (vc_trusted sample_validator)"
  by (simp add: TrustedIssuerRegistry_def sample_validator_def sample_peer_def)

definition token_claims :: "string \<Rightarrow> jobj" where
  "token_claims i = [(''iss'', JStr i), (''aud'', JStr i), (''sub'', JStr ''did:web:a''), (''jti'', JStr ''j1''), (''exp'', JNum (num_of_int 9))]"

lemma token_claims_printable: "printable (JObj (token_claims i))"
  by (simp add: token_claims_def)

lemma token_claims_get: "get_prop (token_claims i) ''iss'' = Some (JStr i)" "get_prop (token_claims i) ''aud'' = Some (JStr i)"
    "get_prop (token_claims i) ''sub'' = Some (JStr ''did:web:a'')" "get_prop (token_claims i) ''nbf'' = None"
    "get_prop (token_claims i) ''jti'' = Some (JStr ''j1'')" "get_prop (token_claims i) ''exp'' = Some (JNum (num_of_int 9))"
    "get_prop (token_claims i) ''tenant'' = None"
  by (simp_all add: token_claims_def get_prop_def)

lemma token_claims_signed: "\<exists>token. signJwt encoded_crypto (token_claims i) EdDSA (KEdPrivate ''priv'') (Some ''k1'') = Some token"
  using signEdDSA_total [OF token_claims_printable, of encoded_crypto i "''priv''" "Some ''k1''"] by (simp add: signJwt_def)

lemma sample_local_accepted:
  assumes "signJwt encoded_crypto (token_claims ''cp'') EdDSA (KEdPrivate ''priv'') (Some ''k1'') = Some token" "now_seconds us \<le> 9"
    and "check_revoked revocations t2 (JObj (token_claims ''cp'')) = Inr ()"
  shows "fst (verifyWithProvenance encoded_crypto sample_validator revocations http us t1 t2 token clients) = Inr (token_claims ''cp'', None)"
proof (rule local_accepts_signed [OF encoded_crypto_ok(1,3) token_claims_printable assms(1)])
  show "claims_ok us (JObj (token_claims ''cp'')) (local_options sample_validator)" using assms(2)
    by (simp add: claims_ok_def members_of_def token_claims_get local_options_def sample_validator_def as_number_def num_before_def
        num_of_int_def tolerance_def audience_matches_def not_less)
qed (simp_all add: assms(3) sample_validator_def sample_material_def encoded_crypto_def)

section \<open>Properties\<close>

text \<open>C24. Provenance of an accepted token: its verified \<open>iss\<close> is this control plane's authority, with this control plane's
  audience, or that of a configured trusted issuer, and then the token has the audience and every scope that
  entry requires. No token is accepted on the strength of its unverified \<open>iss\<close>.\<close>

theorem accepted_token_provenance:
  assumes "hs256_verify_sound J" "parseTrustedIssuers raw = Inr issuers" "TrustedIssuerRegistry issuers = Inr (vc_trusted cfg)"
    and "vc_jwtAudience cfg \<noteq> []"
    and "fst (verifyWithProvenance J cfg revocations http t0 t1 t2 token clients) = Inr (claims, provenance)"
  shows "case provenance of
      None \<Rightarrow> get_prop claims ''iss'' = Some (JStr (vc_jwtAuthority cfg))
        \<and> audience_matches (get_prop claims ''aud'') (vc_jwtAudience cfg)
    | Some e \<Rightarrow> e \<in> set issuers \<and> ti_iss e \<noteq> vc_jwtAuthority cfg \<and> get_prop claims ''iss'' = Some (JStr (ti_iss e))
        \<and> audience_matches (get_prop claims ''aud'') (ti_audience e)
        \<and> set (parseScopeString (ti_requiredScope e)) \<subseteq> set (readScopes claims)"
  using assms(5)
proof (cases rule: verifyWithProvenance_accepted)
  case (local payload)
  then show ?thesis using verifyLocal_sound [OF assms(1) local(4,3) assms(4)] by simp
next
  case (trusted payload i e)
  note member = registry_get_member [OF assms(3) trusted(4)]
  then have "wf_issuer e" using parse_issuer_entries_wf assms(2) by (auto simp: parseTrustedIssuers_def)
  then show ?thesis using verifyTrusted_sound [OF assms(1) _ trusted(5)] trusted(1-3) member by simp
qed

theorem accepted_token_provenance_witness:
  "\<exists>token. fst (verifyWithProvenance encoded_crypto sample_validator None (\<lambda>u. None) 7000000 7000000 7000000 token [])
      = Inr (token_claims ''cp'', None)
    \<and> audience_matches (get_prop (token_claims ''cp'') ''aud'') (vc_jwtAudience sample_validator)"
proof -
  obtain token where "signJwt encoded_crypto (token_claims ''cp'') EdDSA (KEdPrivate ''priv'') (Some ''k1'') = Some token"
    using token_claims_signed by blast
  then have t: "fst (verifyWithProvenance encoded_crypto sample_validator None (\<lambda>u. None) 7000000 7000000 7000000 token [])
      = Inr (token_claims ''cp'', None)"
    by (rule sample_local_accepted) (simp_all add: now_seconds_eq check_revoked_def)
  with accepted_token_provenance [OF encoded_crypto_ok(4) sample_trust_parsed sample_registry _ t]
  show ?thesis by (auto simp: sample_validator_def)
qed

text \<open>C5. A revoked token is refused until it expires: after \<open>revoke\<close> has stored a record, and whatever the table does
  afterwards, no token with that issuer and \<open>jti\<close> is accepted while the record's expiry is ahead of the database clock.\<close>

theorem revoked_token_is_refused:
  assumes "hs256_verify_sound J" "parseTrustedIssuers raw = Inr issuers" "TrustedIssuerRegistry issuers = Inr (vc_trusted cfg)"
    and "vc_jwtAudience cfg \<noteq> []" "wf_map rows" "fst (rv_pg_step (Revoke us0 rc) rows)" "\<forall>op \<in> set ops. op_clock op \<le> t2"
    and "of_int t2 < rv_exp rc * 1000000" "rv_jti rc \<noteq> []"
    and "get_prop claims ''iss'' = Some (JStr (rv_iss rc))" "get_prop claims ''jti'' = Some (JStr (rv_jti rc))"
  shows "fst (verifyWithProvenance J cfg (pg_check (snd (run_ops rv_pg_step ops (snd (rv_pg_step (Revoke us0 rc) rows)))))
      http t0 t1 t2 token clients) \<noteq> Inr (claims, provenance)"
proof
  let ?rows = "snd (run_ops rv_pg_step ops (snd (rv_pg_step (Revoke us0 rc) rows)))"
  assume "fst (verifyWithProvenance J cfg (pg_check ?rows) http t0 t1 t2 token clients) = Inr (claims, provenance)"
  from revoked_refused [OF assms(1-4) this [unfolded pg_check_def] assms(11,9)]
  have "\<not> rv_pg_isRevoked t2 (rv_iss rc) (rv_jti rc) ?rows" using assms(10) by auto
  with rv_pg.stays_revoked [OF assms(5,6,7)] assms(8) show False by (simp add: rv_pg_step_def pg_fresh_def)
qed

theorem revoked_token_is_refused_witness:
  "fst (verifyWithProvenance encoded_crypto sample_validator
     (pg_check (snd (run_ops rv_pg_step [EvictRevoked 7000000] (snd (rv_pg_step (Revoke 1000000 (sample_revocation\<lparr>rv_iss := ''cp''\<rparr>)) [])))))
     (\<lambda>u. None) 7000000 7000000 7000000 ''h.p.s'' []) \<noteq> Inr (token_claims ''cp'', None)"
proof -
  let ?rc = "sample_revocation\<lparr>rv_iss := ''cp''\<rparr>"
  have "fst (rv_pg_step (Revoke 1000000 ?rc) [])"
    by (simp add: rv_pg_step_def rv_pg_revoke_def sample_revocation_def bigint_def nul_free_def)
  then show ?thesis
    using revoked_token_is_refused [OF encoded_crypto_ok(4) sample_trust_parsed sample_registry, of "[]" 1000000 ?rc
        "[EvictRevoked 7000000]" 7000000 "token_claims ''cp''"]
    by (simp add: sample_validator_def token_claims_get sample_revocation_def)
qed

text \<open>Federation works end to end: a token that a peer control plane signs with its EdDSA key is accepted here, with the
  peer's trust entry as its provenance, when that entry names the peer's key-set URL and audience and the peer
  publishes its key set there.\<close>

theorem federation_interop:
  assumes "ed25519_correct J k" "ed_key_encoded J k" "decode_agrees J"
    and "buildSigningMaterial J createPrivateKey peer_cfg = Inr m" "sm_signingKey m = KEdPrivate k"
    and "printable (JObj payload)" "signJwt J payload EdDSA (sm_signingKey m) (Some (sm_kid m)) = Some token"
    and "get_prop payload ''iss'' = Some (JStr (ti_iss e))" "get_prop payload ''aud'' = Some (JStr (ti_audience e))"
    and "get_prop payload ''exp'' = Some (JNum (num_of_int x))" "now_seconds t1 \<le> x" "get_prop payload ''nbf'' = None"
    and "registry_get (vc_trusted cfg) (ti_iss e) = Some e" "ti_iss e \<noteq> vc_jwtAuthority cfg" "ti_iss e \<noteq> []"
    and "ti_alg e = EdDSA" "ti_jwksUrl e = Some url" "ti_requiredScope e = None" "starts_with ''https://'' (to_lower url)"
    and "http url = Some \<lparr>ha_status = 200, ha_content_length = None, ha_body_bytes = n, ha_body_json = Some (jwks m)\<rparr>"
    and "n \<le> MAX_JWKS_BYTES" "map_of clients (ti_iss e) = None"
  shows "fst (verifyWithProvenance J cfg None http t0 t1 t2 token clients) = Inr (payload, Some e)"
proof -
  have alg: "sm_algorithm m = EdDSA"
    using assms(4,5) by (auto simp: buildSigningMaterial_def Let_def bind_simps split: jwt_algorithm.splits if_splits sum.splits key_like.splits)
  note sign = assms(7) [unfolded assms(5)]
  note dec = signed_decodes [OF assms(3,6) sign]
  have jwk: "sm_publicJwk m = Some \<lparr>pj_kty = ''OKP'', pj_kid = sm_kid m, pj_alg = ''EdDSA'', pj_use = ''sig'',
       pj_crv = Some ''Ed25519'', pj_x = Some (b64url_encode (b64url_decode (jc_ed_public J k)))\<rparr>"
    using eddsa_material [OF assms(4) alg] assms(5) by auto
  have "fst (getSigningKey url (http url) (now_ms t0) (now_ms t1) (decodeKid J token) new_client) = Inr (jc_ed_public J k)"
    using fetch_published [OF jwk _ assms(19), of _ "now_ms t1"] assms(2,20,21)
    by (simp add: first_call_fetches single_key_selected ed_key_encoded_def http_ok_def)
  then obtain c' where "getSigningKey url (http url) (now_ms t0) (now_ms t1) (decodeKid J token) new_client = (Inr (jc_ed_public J k), c')"
    by (metis prod.collapse)
  moreover have "url \<noteq> []" using assms(19) by (auto simp: starts_with_def to_lower_def)
  ultimately obtain clients' where key: "resolveJwksKey J http t0 t1 e token clients = (Inr (jc_ed_public J k), clients')"
    using assms(17,22) by (simp add: resolveJwksKey_def Let_def)
  have "claims_ok t1 (JObj payload) (trusted_options e EdDSA (KEdPublic (jc_ed_public J k)))"
    using assms(8,10-12)
    by (simp add: claims_ok_def trusted_options_def members_of_def as_number_def num_before_def num_of_int_def tolerance_def not_less)
  then have "fst (verifyTrusted J http t0 t1 token e clients) = Inr (JObj payload)"
    using trusted_accepts_signed [OF assms(1,6) sign, of t1 e "KEdPublic (jc_ed_public J k)"] key assms(9,16,18)
    by (simp add: verifyTrusted_def matchesAudience_def)
  then show ?thesis
    using dec(1) assms(8,13-15)
    by (auto simp: verifyWithProvenance_def decodePeek_def truthy_def as_string_def check_revoked_def members_of_def split: prod.splits)
qed

theorem federation_interop_witness:
  "\<exists>token. fst (verifyWithProvenance encoded_crypto sample_validator None (\<lambda>u. Some sample_jwks_answer) 7000000 8000000 8000000 token [])
    = Inr (token_claims ''peer'', Some sample_peer)"
proof -
  obtain token where t: "signJwt encoded_crypto (token_claims ''peer'') EdDSA (KEdPrivate ''priv'') (Some ''k1'') = Some token"
    using token_claims_signed by blast
  have k: "sm_signingKey sample_material = KEdPrivate ''priv''" "sm_kid sample_material = ''k1''" by (simp_all add: sample_material_def)
  have "starts_with ''https://'' (to_lower ''https://peer/jwks'')" by code_simp
  with federation_interop [OF encoded_crypto_ok(1-3) sample_material_built k(1) token_claims_printable, of "''peer''" token sample_peer 9 8000000
      sample_validator "''https://peer/jwks''" "\<lambda>u. Some sample_jwks_answer" 120 "[]" 7000000 8000000] t
  have "fst (verifyWithProvenance encoded_crypto sample_validator None (\<lambda>u. Some sample_jwks_answer) 7000000 8000000 8000000 token [])
    = Inr (token_claims ''peer'', Some sample_peer)"
    by (simp add: k token_claims_get sample_peer_def sample_validator_def registry_get_def sample_jwks_answer_def MAX_JWKS_BYTES_def now_seconds_eq)
  then show ?thesis by blast
qed

text \<open>The second of its expiry brings a revoked token back: a local EdDSA token that is revoked in the table is accepted
  again while the clock is within the second \<open>exp\<close>, because \<open>verifyJwt\<close> still accepts at \<open>now == exp\<close>, where \<open>jsonwebtoken\<close>
  rejects, and the table already takes the revocation as expired.\<close>

theorem revoked_token_returns_at_exp:
  assumes "ed25519_correct J k" "decode_agrees J" "printable (JObj payload)"
    and "signJwt J payload EdDSA (KEdPrivate k) keyid = Some token"
    and "sm_algorithm (vc_material cfg) = EdDSA" "sm_verifyKey (vc_material cfg) = KEdPublic (jc_ed_public J k)"
    and "get_prop payload ''iss'' = Some (JStr (vc_jwtAuthority cfg))" "vc_jwtAuthority cfg \<noteq> []"
    and "get_prop payload ''aud'' = Some (JStr (vc_jwtAudience cfg))" "get_prop payload ''nbf'' = None"
    and "get_prop payload ''exp'' = Some (JNum (num_of_int x))" "get_prop payload ''jti'' = Some (JStr j)"
    and "map_of rows (vc_jwtAuthority cfg, j) = Some (rc, r)" "rv_exp rc = of_int x" "now_seconds us = x"
  shows "fst (verifyWithProvenance J cfg (pg_check rows) http us us us token clients) = Inr (payload, None)"
proof -
  have "claims_ok us (JObj payload) (local_options cfg)"
    using assms(7,9-11,15)
    by (simp add: claims_ok_def local_options_def members_of_def as_number_def num_before_def num_of_int_def tolerance_def audience_matches_def)
  moreover have "of_int x * 1000000 \<le> (of_int us :: rat)"
  proof -
    have "x * 1000000 \<le> us" using assms(15) by (auto simp: now_seconds_eq)
    then have "of_int (x * 1000000) \<le> (of_int us :: rat)" by (rule of_int_le_iff [THEN iffD2])
    then show ?thesis by simp
  qed
  then have "check_revoked (pg_check rows) us (JObj payload) = Inr ()"
    using assms(7,12-14) by (simp add: check_revoked_def pg_check_def members_of_def rv_pg_isRevoked_def)
  ultimately show ?thesis by (rule local_accepts_signed [OF assms(1-6,8)])
qed

theorem revoked_token_returns_at_exp_witness:
  "\<exists>token. fst (verifyWithProvenance encoded_crypto sample_validator
     (pg_check [((''cp'', ''j1''), (sample_revocation\<lparr>rv_iss := ''cp'', rv_exp := 9\<rparr>, 1))]) (\<lambda>u. None) 9500000 9500000 9500000 token [])
    = Inr (token_claims ''cp'', None)"
proof -
  obtain token where "signJwt encoded_crypto (token_claims ''cp'') EdDSA (KEdPrivate ''priv'') (Some ''k1'') = Some token"
    using token_claims_signed by blast
  from revoked_token_returns_at_exp [OF encoded_crypto_ok(1,3) token_claims_printable this, of sample_validator 9 "''j1''"
      "[((''cp'', ''j1''), (sample_revocation\<lparr>rv_iss := ''cp'', rv_exp := 9\<rparr>, 1))]" _ 1 9500000 "\<lambda>u. None" "[]"]
  show ?thesis
    by (auto simp: token_claims_get sample_validator_def sample_material_def encoded_crypto_def now_seconds_eq)
qed

end
