(* ===== verification/PinnedKeys.thy ===== *)
theory PinnedKeys
  imports Codec AcdpVerify Errors
begin

text \<open>
  The directory of pinned agent keys: \<open>src/src/auth/pinned-keys.service.ts\<close>, the key check of \<open>acdp-verify.ts\<close> and
  the reload of \<open>pinned-keys-admin.controller.ts\<close>. A parse error skips its entry, so the parser of one entry
  answers \<open>None\<close> where the code throws.
\<close>

record pinned_key =
  pk_agentDid :: string
  pk_algorithm :: string
  pk_rawB64 :: string
  pk_validFromSec :: "int option"
  pk_validUntilSec :: "int option"

type_synonym pinned_map = "(string, pinned_key) jsmap"

definition SUPPORTED_ALGS :: "string list" where
  "SUPPORTED_ALGS = [''ed25519'', ''ecdsa-p256'']"

text \<open>The match of \<open>/:(\d*)\.\.(\d*)$/\<close>: the two bounds, which the last segment holds when there is a match.\<close>

definition window_match :: "string \<Rightarrow> (string \<times> string) option" where
  "window_match body =
     (let parts = split_on (CHR '':'') body; r = last parts; f = takeWhile is_digit r; r' = dropWhile is_digit r
      in if 2 \<le> length parts \<and> starts_with ''..'' r' \<and> list_all is_digit (drop 2 r') then Some (f, drop 2 r') else None)"

definition bound_of :: "string \<Rightarrow> int option" where
  "bound_of s = (if s = [] then None else Some (int (nat_of_digits s)))"

text \<open>The algorithm tag is peeled by the first supported algorithm that matches.\<close>

fun peel_alg :: "string list \<Rightarrow> string \<Rightarrow> string \<times> string" where
  "peel_alg [] body = (''ed25519'', body)"
| "peel_alg (alg # algs) body =
     (if ends_with (CHR '':'' # alg) body then (alg, take (length body - length (CHR '':'' # alg)) body) else peel_alg algs body)"

definition parseKeyEntry :: "string \<Rightarrow> (string \<times> string \<times> int option \<times> int option) option" where
  "parseKeyEntry rhs = (case window_match rhs of
     None \<Rightarrow> (case peel_alg SUPPORTED_ALGS rhs of (alg, body) \<Rightarrow> Some (trim body, alg, None, None))
   | Some (f, u) \<Rightarrow>
       if f = [] \<and> u = [] then None
       else (case (bound_of f, bound_of u) of
           (Some a, Some b) \<Rightarrow> if a \<ge> b then None
             else (case peel_alg SUPPORTED_ALGS (take (length rhs - (length f + length u + 3)) rhs) of
               (alg, body) \<Rightarrow> Some (trim body, alg, Some a, Some b))
         | (a, b) \<Rightarrow> (case peel_alg SUPPORTED_ALGS (take (length rhs - (length f + length u + 3)) rhs) of
               (alg, body) \<Rightarrow> Some (trim body, alg, a, b))))"

definition assertValidPublicKey :: "string \<Rightarrow> string \<Rightarrow> unit option" where
  "assertValidPublicKey algorithm publicKeyB64 =
     (let raw = b64url_decode publicKeyB64
      in if algorithm = ''ed25519'' then (if length raw = 32 then Some () else None)
         else if length raw \<noteq> 65 then None
         else if hd raw \<noteq> 0x04 then None else Some ())"

text \<open>One entry of the environment variable, \<open>None\<close> when it is skipped.\<close>

definition load_entry :: "string \<Rightarrow> pinned_key option" where
  "load_entry trimmed = (case index_of (CHR ''='') trimmed of
     None \<Rightarrow> None
   | Some eq \<Rightarrow>
       (let did = trim (take eq trimmed); rhs = trim (drop (eq + 1) trimmed)
        in if did = [] \<or> rhs = [] then None
           else (case parseKeyEntry rhs of
               None \<Rightarrow> None
             | Some (keyB64, alg, from, until) \<Rightarrow> (case assertValidPublicKey alg keyB64 of
                 None \<Rightarrow> None
               | Some _ \<Rightarrow> Some \<lparr>pk_agentDid = did, pk_algorithm = alg, pk_rawB64 = keyB64, pk_validFromSec = from, pk_validUntilSec = until\<rparr>))))"

definition load_step :: "string \<Rightarrow> pinned_map \<Rightarrow> pinned_map" where
  "load_step entry m = (case load_entry entry of Some k \<Rightarrow> AList.update (pk_agentDid k) k m | None \<Rightarrow> m)"

definition pinned_load :: "string \<Rightarrow> nat \<times> pinned_map" where
  "pinned_load raw =
     (let m = (if trim raw = [] then [] else fold load_step (split_trim (CHR '','') raw) [])
      in (length m, m))"

definition pinned_get :: "string \<Rightarrow> int \<Rightarrow> pinned_map \<Rightarrow> pinned_key option" where
  "pinned_get agentDid nowMs keys = (case map_of keys agentDid of
     None \<Rightarrow> None
   | Some key \<Rightarrow>
       (let nowSec = nowMs div 1000
        in if (case pk_validFromSec key of Some f \<Rightarrow> nowSec < f | None \<Rightarrow> False) then None
           else if (case pk_validUntilSec key of Some u \<Rightarrow> nowSec \<ge> u | None \<Rightarrow> False) then None
           else Some key))"

definition pinned_size :: "pinned_map \<Rightarrow> nat" where
  "pinned_size keys = length keys"

text \<open>The admin reload: the directory is replaced by what the environment holds.\<close>

definition pinned_reload :: "bool option \<Rightarrow> string option \<Rightarrow> pinned_map \<Rightarrow> (exn + json) \<times> pinned_map" where
  "pinned_reload actorIsAdmin env keys = (case assertAdmin actorIsAdmin ''pinned-keys reload is admin-only'' of
     Inl e \<Rightarrow> (Inl e, keys)
   | Inr _ \<Rightarrow> (case pinned_load (case env of Some raw \<Rightarrow> raw | None \<Rightarrow> []) of
       (count, keys') \<Rightarrow> (Inr (JObj [(''ok'', JBool True), (''count'', JNum (num_of_int (int count)))]), keys')))"

section \<open>Lemmas\<close>

definition wf_pinned :: "pinned_key \<Rightarrow> bool" where
  "wf_pinned k = (pk_algorithm k \<in> set SUPPORTED_ALGS \<and> assertValidPublicKey (pk_algorithm k) (pk_rawB64 k) = Some ()
     \<and> (\<forall>a b. pk_validFromSec k = Some a \<longrightarrow> pk_validUntilSec k = Some b \<longrightarrow> a < b))"

lemma peel_alg_supported: "set algs \<subseteq> set SUPPORTED_ALGS \<Longrightarrow> fst (peel_alg algs body) \<in> set SUPPORTED_ALGS"
  by (induction algs body rule: peel_alg.induct) (auto simp: SUPPORTED_ALGS_def)

lemma parseKeyEntry_wf:
  assumes "parseKeyEntry rhs = Some (k, alg, f, u)"
  shows "alg \<in> set SUPPORTED_ALGS" "f = Some a \<Longrightarrow> u = Some b \<Longrightarrow> a < b"
proof -
  have "fst (peel_alg SUPPORTED_ALGS body) \<in> set SUPPORTED_ALGS" for body by (rule peel_alg_supported) simp
  then show "alg \<in> set SUPPORTED_ALGS" using assms
    by (auto simp: parseKeyEntry_def split: option.splits if_splits prod.splits) (metis fst_conv)+
  show "f = Some a \<Longrightarrow> u = Some b \<Longrightarrow> a < b" using assms
    by (auto simp: parseKeyEntry_def split: option.splits if_splits prod.splits)
qed

lemma load_entry_wf: "load_entry e = Some k \<Longrightarrow> wf_pinned k \<and> pk_agentDid k \<noteq> []"
  by (auto simp: load_entry_def wf_pinned_def Let_def parseKeyEntry_wf split: option.splits if_splits dest: parseKeyEntry_wf)

definition pinned_ok :: "pinned_map \<Rightarrow> bool" where
  "pinned_ok m = (wf_map m \<and> (\<forall>(did, k) \<in> set m. pk_agentDid k = did \<and> wf_pinned k))"

lemma load_step_ok: "pinned_ok m \<Longrightarrow> pinned_ok (load_step e m)"
proof (cases "load_entry e")
  case (Some k)
  assume "pinned_ok m"
  then show ?thesis using Some load_entry_wf [OF Some] set_update_subset [of "pk_agentDid k" k m]
    by (fastforce simp: pinned_ok_def load_step_def)
qed (simp add: load_step_def)

lemma pinned_load_ok: "pinned_ok (snd (pinned_load raw))"
proof -
  have "pinned_ok m \<Longrightarrow> pinned_ok (fold load_step es m)" for es m by (induction es arbitrary: m) (simp_all add: load_step_ok)
  moreover have "pinned_ok []" by (simp add: pinned_ok_def)
  ultimately show ?thesis by (simp add: pinned_load_def Let_def)
qed

lemma pinned_get_ok:
  assumes "pinned_ok m" "pinned_get did ms m = Some k"
  shows "pk_agentDid k = did" "wf_pinned k" "\<forall>f. pk_validFromSec k = Some f \<longrightarrow> f \<le> ms div 1000"
    "\<forall>u. pk_validUntilSec k = Some u \<longrightarrow> ms div 1000 < u"
  using assms by (auto simp: pinned_get_def pinned_ok_def Let_def dest!: map_of_SomeD split: option.splits if_splits)

section \<open>Properties\<close>

text \<open>The directory is well formed after every load: a key that \<open>get\<close> returns belongs to the agent asked for, has a supported
  algorithm and the byte length of that algorithm, and the current second is within its window, whatever the
  environment variable contains; an entry with an empty or reversed window never loads.\<close>

theorem pinned_lookup_wellformed:
  assumes "pinned_get did nowMs (snd (pinned_load raw)) = Some k"
  shows "pk_agentDid k = did \<and> pk_algorithm k \<in> set SUPPORTED_ALGS
    \<and> length (b64url_decode (pk_rawB64 k)) = (if pk_algorithm k = ''ed25519'' then 32 else 65)
    \<and> (case pk_validFromSec k of Some f \<Rightarrow> f \<le> nowMs div 1000 | None \<Rightarrow> True)
    \<and> (case pk_validUntilSec k of Some u \<Rightarrow> nowMs div 1000 < u | None \<Rightarrow> True)"
  using pinned_get_ok [OF pinned_load_ok assms]
  by (auto simp: wf_pinned_def assertValidPublicKey_def Let_def split: option.splits if_splits)

definition sample_pins :: string where
  "sample_pins = ''did:web:a='' @ b64_encode (replicate 32 7) @ '':ed25519:5..9''"

theorem pinned_lookup_wellformed_witness:
  "\<exists>k. pinned_get ''did:web:a'' 7000 (snd (pinned_load sample_pins)) = Some k \<and> pk_agentDid k = ''did:web:a''"
proof -
  obtain k where "pinned_get ''did:web:a'' 7000 (snd (pinned_load sample_pins)) = Some k"
  proof -
    have "pinned_get ''did:web:a'' 7000 (snd (pinned_load sample_pins)) \<noteq> None" by code_simp
    then show thesis using that by blast
  qed
  with pinned_lookup_wellformed [OF this] show ?thesis by blast
qed

end
