(* ===== verification/DidWeb.thy ===== *)
theory DidWeb
  imports Prelude
begin

text \<open>
  Outbound resolution of \<open>did:web\<close> keys: \<open>src/src/auth/did-web/ssrf-guard.ts\<close>, \<open>did-document.ts\<close> and
  \<open>did-web-resolver.service.ts\<close>.

  The range tables, the translation of a DID to its URL, the parser of DID documents and the choice of a
  key are in the \<open>acdp\<close> binding, outside the repository: they are the fields of \<open>did_binding\<close>. A binding call that throws is
  \<open>Inl\<close> with its stable code and message. The URL parser and \<open>net.isIP\<close> of the platform, the resolver of names and
  the fetcher are the fields of \<open>did_host\<close>. A parsed document is determined by its text and the DID it
  was checked against, so this pair stands for it. The resolver's own errors are their codes; the text the URL parser
  appends to an invalid-URL message is left out.
\<close>

section \<open>The SSRF policy\<close>

datatype ssrf_code = SCHEME | IP_LITERAL | FORBIDDEN_RANGE | NO_DNS | INVALID_URL | CROSS_AUTHORITY

record ssrf_error =
  se_code :: ssrf_code
  se_message :: string

record url_parts =
  up_protocol :: string
  up_hostname :: string

record did_fetch_response =
  df_status :: int
  df_contentType :: "string option"
  df_bytes :: int
  df_text :: string

record resolved_key =
  rk_keyId :: string
  rk_algorithm :: string
  rk_publicKeyB64 :: string

record resolved_receipt_key =
  rr_key :: resolved_key
  rr_historical :: bool

type_synonym binding_error = "string \<times> string"
type_synonym did_document = "string \<times> string"

record did_binding =
  db_checkIp :: "bool \<Rightarrow> string \<Rightarrow> binding_error + unit"
  db_checkRedirectAuthority :: "bool \<Rightarrow> string \<Rightarrow> string \<Rightarrow> binding_error + unit"
  db_stripFragment :: "string \<Rightarrow> string"
  db_webToUrl :: "string \<Rightarrow> binding_error + string"
  db_parse :: "string \<Rightarrow> string \<Rightarrow> binding_error + unit"
  db_keyForAlgorithm :: "did_document \<Rightarrow> string \<Rightarrow> string \<Rightarrow> binding_error + resolved_key"
  db_receiptKeyForAlgorithm :: "did_document \<Rightarrow> string \<Rightarrow> string \<Rightarrow> binding_error + resolved_receipt_key"

record did_host =
  dh_newURL :: "string \<Rightarrow> url_parts option"
  dh_isIP :: "string \<Rightarrow> int"
  dh_lookup :: "string \<Rightarrow> string list option"
  dh_fetch :: "string \<Rightarrow> did_fetch_response option"

record ssrf_policy =
  sp_allowHttp :: bool
  sp_allowLoopback :: bool

text \<open>The constructor with its defaults.\<close>

definition SsrfPolicy :: "bool option \<Rightarrow> bool option \<Rightarrow> ssrf_policy" where
  "SsrfPolicy allowHttp allowLoopback =
     \<lparr>sp_allowHttp = (case allowHttp of Some b \<Rightarrow> b | None \<Rightarrow> False), sp_allowLoopback = (case allowLoopback of Some b \<Rightarrow> b | None \<Rightarrow> False)\<rparr>"

definition mapBindingCode :: "string \<Rightarrow> ssrf_code" where
  "mapBindingCode code =
     (if code = ''non_https'' then SCHEME
      else if code = ''ip_literal'' \<or> code = ''invalid_ip'' then IP_LITERAL
      else if code = ''invalid_url'' then INVALID_URL
      else if code = ''cross_authority'' then CROSS_AUTHORITY
      else FORBIDDEN_RANGE)"

definition bindingErr :: "binding_error \<Rightarrow> ssrf_error" where
  "bindingErr e = \<lparr>se_code = mapBindingCode (fst e), se_message = ''SSRF policy: '' @ snd e\<rparr>"

text \<open>\<open>hostname.replace(/^\[|\]$/g, '')\<close>.\<close>

definition strip_brackets :: "string \<Rightarrow> string" where
  "strip_brackets h =
     (let h' = (case h of c # r \<Rightarrow> if c = CHR ''['' then r else h | [] \<Rightarrow> [])
      in if h' \<noteq> [] \<and> last h' = CHR '']'' then butlast h' else h')"

definition checkUrl :: "did_host \<Rightarrow> ssrf_policy \<Rightarrow> string \<Rightarrow> ssrf_error + unit" where
  "checkUrl H pol url = (case dh_newURL H url of
     None \<Rightarrow> Inl \<lparr>se_code = INVALID_URL, se_message = ''invalid URL '' @ quoted url\<rparr>
   | Some parsed \<Rightarrow>
       and_then (throw_if (up_protocol parsed \<noteq> ''https:'' \<and> \<not> (sp_allowHttp pol \<and> up_protocol parsed = ''http:''))
         \<lparr>se_code = SCHEME, se_message = ''SSRF policy: scheme '' @ quoted (up_protocol parsed) @ '' is not https''\<rparr>) (\<lambda>_.
       throw_if (dh_isIP H (strip_brackets (up_hostname parsed)) \<noteq> 0)
         \<lparr>se_code = IP_LITERAL, se_message = ''SSRF policy: IP-literal authority '' @ quoted (strip_brackets (up_hostname parsed))
           @ '' is not allowed (cert chain won'' @ [CHR 0x27] @ ''t validate)''\<rparr>))"

definition checkIp :: "did_binding \<Rightarrow> ssrf_policy \<Rightarrow> string \<Rightarrow> ssrf_error + unit" where
  "checkIp B pol ip = (case db_checkIp B (sp_allowLoopback pol) ip of Inl e \<Rightarrow> Inl (bindingErr e) | Inr _ \<Rightarrow> Inr ())"

fun check_ips :: "did_binding \<Rightarrow> ssrf_policy \<Rightarrow> string list \<Rightarrow> ssrf_error + unit" where
  "check_ips B pol [] = Inr ()"
| "check_ips B pol (a # as) = and_then (checkIp B pol a) (\<lambda>_. check_ips B pol as)"

text \<open>A failing \<open>dns.lookup\<close> rejects with an error that is not an \<open>SsrfPolicyError\<close>: the outer \<open>None\<close>.\<close>

definition checkResolvedHost :: "did_binding \<Rightarrow> did_host \<Rightarrow> ssrf_policy \<Rightarrow> string \<Rightarrow> ssrf_error option + string list" where
  "checkResolvedHost B H pol hostname = (case dh_lookup H hostname of
     None \<Rightarrow> Inl None
   | Some addrs \<Rightarrow>
       if addrs = [] then Inl (Some \<lparr>se_code = NO_DNS, se_message = ''DNS lookup for '' @ quoted hostname @ '' returned no addresses''\<rparr>)
       else (case check_ips B pol addrs of Inl e \<Rightarrow> Inl (Some e) | Inr _ \<Rightarrow> Inr addrs))"

definition checkRedirectAuthority :: "did_binding \<Rightarrow> ssrf_policy \<Rightarrow> string \<Rightarrow> string \<Rightarrow> ssrf_error + unit" where
  "checkRedirectAuthority B pol fromUrl toUrl =
     (case db_checkRedirectAuthority B (sp_allowLoopback pol) fromUrl toUrl of Inl e \<Rightarrow> Inl (bindingErr e) | Inr _ \<Rightarrow> Inr ())"

section \<open>The resolver\<close>

datatype did_error_code = DURL | DSSRF | DFETCH | DSTATUS | DCONTENT_TYPE | DBODY_TOO_LARGE | DPARSE | DPICK

definition MAX_BODY_BYTES :: int where "MAX_BODY_BYTES = 64 * 1024"

definition ACCEPTED_CONTENT_TYPES :: "string list" where
  "ACCEPTED_CONTENT_TYPES = [''application/did+json'', ''application/json'']"

record did_cache_entry =
  dc_doc :: did_document
  dc_cachedAt :: int

type_synonym did_cache = "(string, did_cache_entry) jsmap"

definition isAcceptedContentType :: "string option \<Rightarrow> bool" where
  "isAcceptedContentType raw = (case raw of
     None \<Rightarrow> False
   | Some r \<Rightarrow> r \<noteq> [] \<and> to_lower (trim (hd (split_on (CHR '';'') r))) \<in> set ACCEPTED_CONTENT_TYPES)"

definition isFresh :: "int \<Rightarrow> int \<Rightarrow> did_cache_entry \<Rightarrow> bool" where
  "isFresh cacheTtlSeconds now entry = (now - dc_cachedAt entry < cacheTtlSeconds * 1000)"

text \<open>What the resolver does to the outside is the list of URLs it fetches.\<close>

definition fetch_document :: "did_binding \<Rightarrow> did_host \<Rightarrow> string \<Rightarrow> string \<Rightarrow> did_error_code + did_document" where
  "fetch_document B H did url = (case dh_fetch H url of
     None \<Rightarrow> Inl DFETCH
   | Some resp \<Rightarrow>
       and_then (throw_if (df_status resp < 200 \<or> df_status resp \<ge> 300) DSTATUS) (\<lambda>_.
       and_then (throw_if (\<not> isAcceptedContentType (df_contentType resp)) DCONTENT_TYPE) (\<lambda>_.
       and_then (throw_if (df_bytes resp > MAX_BODY_BYTES) DBODY_TOO_LARGE) (\<lambda>_.
       case db_parse B (df_text resp) did of Inl e \<Rightarrow> Inl DPARSE | Inr _ \<Rightarrow> Inr (df_text resp, did)))))"

definition resolveDocument ::
    "did_binding \<Rightarrow> did_host \<Rightarrow> ssrf_policy \<Rightarrow> int \<Rightarrow> clock \<Rightarrow> clock \<Rightarrow> string \<Rightarrow> string \<Rightarrow> did_cache
     \<Rightarrow> (did_error_code + did_document) \<times> string list \<times> did_cache" where
  "resolveDocument B H pol ttl t0 t1 did url cache =
     (let fetch_it = (case dh_newURL H url of
            None \<Rightarrow> (Inl DURL, [], cache)
          | Some parsed \<Rightarrow> (case checkResolvedHost B H pol (up_hostname parsed) of
              Inl e \<Rightarrow> (Inl DSSRF, [], cache)
            | Inr _ \<Rightarrow> (case fetch_document B H did url of
                Inl e \<Rightarrow> (Inl e, [url], cache)
              | Inr doc \<Rightarrow> (Inr doc, [url], AList.update did \<lparr>dc_doc = doc, dc_cachedAt = now_ms t1\<rparr> cache))))
      in case map_of cache did of
           Some entry \<Rightarrow> if isFresh ttl (now_ms t0) entry then (Inr (dc_doc entry), [], cache) else fetch_it
         | None \<Rightarrow> fetch_it)"

text \<open>The steps that \<open>resolveKey\<close> and \<open>resolveReceiptKey\<close> share before the choice of the key.\<close>

definition resolve_checked ::
    "did_binding \<Rightarrow> did_host \<Rightarrow> ssrf_policy \<Rightarrow> int \<Rightarrow> clock \<Rightarrow> clock \<Rightarrow> string \<Rightarrow> did_cache
     \<Rightarrow> (did_error_code + did_document) \<times> string list \<times> did_cache" where
  "resolve_checked B H pol ttl t0 t1 didUrl cache =
     (let did = db_stripFragment B didUrl
      in case db_webToUrl B did of
           Inl e \<Rightarrow> (Inl DURL, [], cache)
         | Inr url \<Rightarrow> (case checkUrl H pol url of
             Inl e \<Rightarrow> (Inl DSSRF, [], cache)
           | Inr _ \<Rightarrow> resolveDocument B H pol ttl t0 t1 did url cache))"

definition resolveKey ::
    "did_binding \<Rightarrow> did_host \<Rightarrow> ssrf_policy \<Rightarrow> int \<Rightarrow> clock \<Rightarrow> clock \<Rightarrow> string \<Rightarrow> string \<Rightarrow> did_cache
     \<Rightarrow> (did_error_code + resolved_key) \<times> string list \<times> did_cache" where
  "resolveKey B H pol ttl t0 t1 didUrl requestedAlg cache =
     (case resolve_checked B H pol ttl t0 t1 didUrl cache of
        (Inl e, urls, cache') \<Rightarrow> (Inl e, urls, cache')
      | (Inr doc, urls, cache') \<Rightarrow>
          ((case db_keyForAlgorithm B doc didUrl requestedAlg of Inl e \<Rightarrow> Inl DPICK | Inr k \<Rightarrow> Inr k), urls, cache'))"

definition resolveReceiptKey ::
    "did_binding \<Rightarrow> did_host \<Rightarrow> ssrf_policy \<Rightarrow> int \<Rightarrow> clock \<Rightarrow> clock \<Rightarrow> string \<Rightarrow> string \<Rightarrow> did_cache
     \<Rightarrow> (did_error_code + resolved_receipt_key) \<times> string list \<times> did_cache" where
  "resolveReceiptKey B H pol ttl t0 t1 didUrl requestedAlg cache =
     (case resolve_checked B H pol ttl t0 t1 didUrl cache of
        (Inl e, urls, cache') \<Rightarrow> (Inl e, urls, cache')
      | (Inr doc, urls, cache') \<Rightarrow>
          ((case db_receiptKeyForAlgorithm B doc didUrl requestedAlg of Inl e \<Rightarrow> Inl DPICK | Inr k \<Rightarrow> Inr k), urls, cache'))"

definition resolveWitnessKey ::
    "did_binding \<Rightarrow> did_host \<Rightarrow> ssrf_policy \<Rightarrow> int \<Rightarrow> clock \<Rightarrow> clock \<Rightarrow> string \<Rightarrow> string \<Rightarrow> did_cache
     \<Rightarrow> (did_error_code + resolved_receipt_key) \<times> string list \<times> did_cache" where
  "resolveWitnessKey = resolveReceiptKey"

definition did_invalidate :: "did_binding \<Rightarrow> string \<Rightarrow> did_cache \<Rightarrow> did_cache" where
  "did_invalidate B did cache = AList.delete (db_stripFragment B did) cache"

definition did_cacheSize :: "did_cache \<Rightarrow> nat" where
  "did_cacheSize cache = length cache"

section \<open>Lemmas\<close>

text \<open>A URL the policy lets through: the scheme and the authority, and every address of its host.\<close>

definition cleared :: "did_binding \<Rightarrow> did_host \<Rightarrow> ssrf_policy \<Rightarrow> string \<Rightarrow> bool" where
  "cleared B H pol url = (\<exists>parsed addrs. dh_newURL H url = Some parsed
     \<and> (up_protocol parsed = ''https:'' \<or> sp_allowHttp pol \<and> up_protocol parsed = ''http:'')
     \<and> dh_isIP H (strip_brackets (up_hostname parsed)) = 0
     \<and> dh_lookup H (up_hostname parsed) = Some addrs \<and> addrs \<noteq> []
     \<and> (\<forall>a \<in> set addrs. db_checkIp B (sp_allowLoopback pol) a = Inr ()))"

lemma check_ips_ok: "check_ips B pol as = Inr u \<longleftrightarrow> (\<forall>a \<in> set as. db_checkIp B (sp_allowLoopback pol) a = Inr ())"
  by (induction as) (auto simp: checkIp_def bind_simps split: sum.splits)

lemma checkUrl_ok:
  "checkUrl H pol url = Inr u \<longleftrightarrow> (\<exists>parsed. dh_newURL H url = Some parsed
     \<and> (up_protocol parsed = ''https:'' \<or> sp_allowHttp pol \<and> up_protocol parsed = ''http:'')
     \<and> dh_isIP H (strip_brackets (up_hostname parsed)) = 0)"
  by (auto simp: checkUrl_def bind_simps split: option.splits)

lemma resolveDocument_fetches:
  assumes "resolveDocument B H pol ttl t0 t1 did url cache = (r, urls, cache')" "u \<in> set urls"
  shows "u = url" "\<exists>parsed addrs. dh_newURL H url = Some parsed \<and> dh_lookup H (up_hostname parsed) = Some addrs \<and> addrs \<noteq> []
      \<and> (\<forall>a \<in> set addrs. db_checkIp B (sp_allowLoopback pol) a = Inr ())"
  using assms
  by (auto simp: resolveDocument_def Let_def checkResolvedHost_def check_ips_ok split: option.splits if_splits sum.splits)

lemma resolve_checked_fetches:
  assumes "resolve_checked B H pol ttl t0 t1 didUrl cache = (r, urls, cache')" "u \<in> set urls"
  shows "db_webToUrl B (db_stripFragment B didUrl) = Inr u \<and> cleared B H pol u"
proof -
  from assms obtain url where w: "db_webToUrl B (db_stripFragment B didUrl) = Inr url" "checkUrl H pol url = Inr ()"
      "resolveDocument B H pol ttl t0 t1 (db_stripFragment B didUrl) url cache = (r, urls, cache')"
    by (auto simp: resolve_checked_def Let_def split: sum.splits)
  from resolveDocument_fetches [OF w(3) assms(2)] w(1,2) show ?thesis by (auto simp: checkUrl_ok cleared_def)
qed

lemma resolveKey_parts:
  assumes "resolveKey B H pol ttl t0 t1 didUrl alg cache = (r, urls, cache')"
  obtains r' where "resolve_checked B H pol ttl t0 t1 didUrl cache = (r', urls, cache')"
    "r = and_then r' (\<lambda>doc. case db_keyForAlgorithm B doc didUrl alg of Inl e \<Rightarrow> Inl DPICK | Inr k \<Rightarrow> Inr k)"
  using assms by (auto simp: resolveKey_def split: sum.splits prod.splits)

lemma resolveReceiptKey_parts:
  assumes "resolveReceiptKey B H pol ttl t0 t1 didUrl alg cache = (r, urls, cache')"
  obtains r' where "resolve_checked B H pol ttl t0 t1 didUrl cache = (r', urls, cache')"
  using assms by (auto simp: resolveReceiptKey_def split: sum.splits prod.splits)

text \<open>Every cached document was parsed against the DID it is stored under.\<close>

definition cache_ok :: "did_binding \<Rightarrow> did_cache \<Rightarrow> bool" where
  "cache_ok B cache = (\<forall>(did, e) \<in> set cache. snd (dc_doc e) = did \<and> db_parse B (fst (dc_doc e)) did = Inr ())"

lemma resolve_checked_cache:
  assumes "resolve_checked B H pol ttl t0 t1 didUrl cache = (r, urls, cache')" "cache_ok B cache"
  shows "cache_ok B cache'" "r = Inr doc \<Longrightarrow> snd doc = db_stripFragment B didUrl \<and> db_parse B (fst doc) (snd doc) = Inr ()"
proof -
  have hit: "snd (dc_doc e) = did \<and> db_parse B (fst (dc_doc e)) did = Inr ()" if "map_of cache did = Some e" for did e
    using assms(2) that by (auto simp: cache_ok_def dest: map_of_SomeD)
  have upd: "cache_ok B (AList.update did \<lparr>dc_doc = (t, did), dc_cachedAt = n\<rparr> cache)" if "db_parse B t did = Inr ()" for did t n
    using assms(2) that set_update_subset [of did "\<lparr>dc_doc = (t, did), dc_cachedAt = n\<rparr>" cache] by (fastforce simp: cache_ok_def)
  show "cache_ok B cache'" "r = Inr doc \<Longrightarrow> snd doc = db_stripFragment B didUrl \<and> db_parse B (fst doc) (snd doc) = Inr ()"
    using assms(1,2) hit upd
    by (auto simp: resolve_checked_def resolveDocument_def fetch_document_def Let_def bind_simps
        split: sum.splits option.splits if_splits)
qed

section \<open>Properties\<close>

text \<open>No outbound request escapes the policy: whichever key is asked for and whatever the cache holds, the resolver fetches
  only the URL of the DID, with the scheme https unless http is allowed, never an IP literal, and only when every address its
  host resolves to is permitted. Receipt and witness keys go the same way as authentication keys.\<close>

theorem resolver_fetches_only_cleared_urls:
  assumes "resolveKey B H pol ttl t0 t1 didUrl alg cache = (r, urls, cache')"
    and "resolveWitnessKey B H pol ttl t0 t1 didUrl' alg' cache = (r', urls', cache'')"
    and "u \<in> set urls" "u' \<in> set urls'"
  shows "db_webToUrl B (db_stripFragment B didUrl) = Inr u \<and> cleared B H pol u
    \<and> db_webToUrl B (db_stripFragment B didUrl') = Inr u' \<and> cleared B H pol u'"
  using resolveKey_parts [OF assms(1)] resolveReceiptKey_parts [OF assms(2) [unfolded resolveWitnessKey_def]]
    resolve_checked_fetches assms(3,4) by metis

definition sample_binding :: did_binding where
  "sample_binding = \<lparr>db_checkIp = (\<lambda>l ip. if ip = ''10.0.0.1'' then Inl (''private'', ''private range'') else Inr ()),
     db_checkRedirectAuthority = (\<lambda>l a b. Inr ()), db_stripFragment = (\<lambda>d. hd (split_on (CHR ''#'') d)),
     db_webToUrl = (\<lambda>d. Inr (''https://'' @ drop 8 d @ ''/.well-known/did.json'')), db_parse = (\<lambda>t d. Inr ()),
     db_keyForAlgorithm = (\<lambda>doc u a. Inr \<lparr>rk_keyId = u, rk_algorithm = a, rk_publicKeyB64 = fst doc\<rparr>),
     db_receiptKeyForAlgorithm = (\<lambda>doc u a. Inr \<lparr>rr_key = \<lparr>rk_keyId = u, rk_algorithm = a, rk_publicKeyB64 = fst doc\<rparr>, rr_historical = False\<rparr>)\<rparr>"

definition sample_host :: did_host where
  "sample_host = \<lparr>dh_newURL = (\<lambda>u. Some \<lparr>up_protocol = ''https:'', up_hostname = ''a.example''\<rparr>), dh_isIP = (\<lambda>h. 0),
     dh_lookup = (\<lambda>h. Some [''93.184.216.34'']),
     dh_fetch = (\<lambda>u. Some \<lparr>df_status = 200, df_contentType = Some ''application/did+json'', df_bytes = 4, df_text = ''key1''\<rparr>)\<rparr>"

theorem resolver_fetches_only_cleared_urls_witness:
  "cleared sample_binding sample_host (SsrfPolicy None None) ''https://a.example/.well-known/did.json''"
proof -
  let ?url = "''https://a.example/.well-known/did.json''"
  have k: "resolveKey sample_binding sample_host (SsrfPolicy None None) 3600 0 1 ''did:web:a.example#k'' ''ed25519'' []
      = (Inr \<lparr>rk_keyId = ''did:web:a.example#k'', rk_algorithm = ''ed25519'', rk_publicKeyB64 = ''key1''\<rparr>, [?url],
         [(''did:web:a.example'', \<lparr>dc_doc = (''key1'', ''did:web:a.example''), dc_cachedAt = 0\<rparr>)])" by code_simp
  have w: "resolveWitnessKey sample_binding sample_host (SsrfPolicy None None) 3600 0 1 ''did:web:a.example#w'' ''ed25519'' []
      = (Inr \<lparr>rr_key = \<lparr>rk_keyId = ''did:web:a.example#w'', rk_algorithm = ''ed25519'', rk_publicKeyB64 = ''key1''\<rparr>, rr_historical = False\<rparr>,
         [?url], [(''did:web:a.example'', \<lparr>dc_doc = (''key1'', ''did:web:a.example''), dc_cachedAt = 0\<rparr>)])" by code_simp
  show ?thesis using resolver_fetches_only_cleared_urls [OF k w, of ?url ?url] by simp
qed

end
