(* ===== verification/TokenIssuer.thy ===== *)
theory TokenIssuer
  imports CrossIssuer Challenge Ledger Tenant PinnedKeys DidWeb
begin

text \<open>
  Issuing and revoking tokens: \<open>src/src/auth/token-issuer.service.ts\<close>, \<open>auth.controller.ts\<close> and \<open>revoke.controller.ts\<close>.

  The challenge repository is the argument \<open>take_op\<close>, one atomic step on a store of any type. A call answers its result, the rows
  it hands to the issuance ledger, and the new states of the challenge store and of the \<open>did:web\<close> cache. The clock is
  read when the challenge is consumed (\<open>t0\<close>), when the key is looked up (\<open>t1\<close>, and \<open>t1'\<close> when a fetched document is
  cached) and when the token is minted (\<open>t2\<close>). The 12 random bytes of a \<open>jti\<close> are the argument \<open>jti\<close>, in base64url.
\<close>

section \<open>Issuing\<close>

record issuer_config =
  ic_validator :: validator_config
  ic_challengeTtlSeconds :: int
  ic_jwtTtlSeconds :: int
  ic_tenantAgentsRaw :: string

record token_request =
  tr_agentDid :: string
  tr_keyId :: string
  tr_nonce :: string
  tr_expiresAt :: int
  tr_algorithm :: string
  tr_signature :: string

record issued_token =
  it_token :: string
  it_tokenType :: string
  it_expiresAt :: int

record did_env =
  de_binding :: did_binding
  de_host :: did_host
  de_policy :: ssrf_policy
  de_ttl :: int
  de_message :: "did_error_code \<Rightarrow> string"

definition SUPPORTED_SIGNATURE_ALGORITHMS :: "string list" where
  "SUPPORTED_SIGNATURE_ALGORITHMS = [''ed25519'', ''ecdsa-p256'']"

definition issueChallenge :: "issuer_config \<Rightarrow> clock \<Rightarrow> string \<Rightarrow> string \<Rightarrow> challenge_record" where
  "issueChallenge cfg us n did = issue_record us n did (vc_jwtAuthority (ic_validator cfg)) (ic_challengeTtlSeconds cfg)"

definition rejection :: "issuer_config \<Rightarrow> string option \<Rightarrow> token_request \<Rightarrow> issuance_decision \<Rightarrow> string option \<Rightarrow> ledger_entry" where
  "rejection cfg signerIp req decision detail =
     \<lparr>le_jti = None, le_sub = Some (tr_agentDid req), le_iss = Some (vc_jwtAuthority (ic_validator cfg)), le_iat = None, le_exp = None,
      le_signerIp = signerIp, le_decision = decision, le_decisionDetail = detail\<rparr>"

definition bindKeyId :: "token_request \<Rightarrow> issuance_decision \<times> string + string" where
  "bindKeyId req =
     (let keyId = tr_keyId req; did = tr_agentDid req
      in case index_of (CHR ''#'') keyId of
           None \<Rightarrow>
             if keyId = [] \<or> list_ex (\<lambda>c. c = CHR '':'' \<or> js_space c \<or> c = CHR ''%'') keyId
             then Inl (RejectKeyIdMalformed, ''key_id is malformed: expected a fragment'')
             else Inr (did @ ''#'' @ keyId)
         | Some hash \<Rightarrow>
             (let didPortion = take hash keyId; fragment = drop (hash + 1) keyId
              in if didPortion = [] \<or> fragment = [] \<or> CHR ''#'' \<in> set fragment
                 then Inl (RejectKeyIdMalformed, ''key_id is malformed: invalid fragment'')
                 else if didPortion \<noteq> did then Inl (RejectKeyIdMismatch, ''key_id does not belong to agent_id'')
                 else Inr keyId))"

definition isDidWeb :: "string \<Rightarrow> bool" where
  "isDidWeb did = starts_with ''did:web:'' did"

definition resolveDidWebKey ::
    "issuer_config \<Rightarrow> did_env \<Rightarrow> clock \<Rightarrow> clock \<Rightarrow> string option \<Rightarrow> token_request \<Rightarrow> string \<Rightarrow> did_cache
     \<Rightarrow> pinned_key option \<times> ledger_entry list \<times> did_cache" where
  "resolveDidWebKey cfg env t1 t1' signerIp req keyUrl cache =
     (case resolveKey (de_binding env) (de_host env) (de_policy env) (de_ttl env) t1 t1' keyUrl (tr_algorithm req) cache of
        (Inr k, _, cache') \<Rightarrow> (Some \<lparr>pk_agentDid = tr_agentDid req, pk_algorithm = rk_algorithm k, pk_rawB64 = rk_publicKeyB64 k,
           pk_validFromSec = None, pk_validUntilSec = None\<rparr>, [], cache')
      | (Inl e, _, cache') \<Rightarrow>
          (None, [rejection cfg signerIp req RejectUnpinned (Some (''did:web resolution failed: '' @ de_message env e))], cache'))"

text \<open>Pinned key first, then \<open>did:web\<close>; the row of a failed resolution is the only one of its request.\<close>

definition resolve_agent_key ::
    "issuer_config \<Rightarrow> pinned_map \<Rightarrow> did_env option \<Rightarrow> clock \<Rightarrow> clock \<Rightarrow> string option \<Rightarrow> token_request \<Rightarrow> string \<Rightarrow> did_cache
     \<Rightarrow> (exn + pinned_key) \<times> ledger_entry list \<times> did_cache" where
  "resolve_agent_key cfg pinned dw t1 t1' signerIp req keyUrl cache =
     (case pinned_get (tr_agentDid req) (now_ms t1) pinned of
        Some key \<Rightarrow> (Inr key, [], cache)
      | None \<Rightarrow> (case dw of
          Some env \<Rightarrow>
            if isDidWeb (tr_agentDid req)
            then (case resolveDidWebKey cfg env t1 t1' signerIp req keyUrl cache of
                (Some key, rows, cache') \<Rightarrow> (Inr key, rows, cache')
              | (None, rows, cache') \<Rightarrow> (Inl (unauthorized (''agent_did '' @ quoted (tr_agentDid req) @ '' could not be resolved via did:web'')), rows, cache'))
            else (Inl (unauthorized (''agent_did '' @ quoted (tr_agentDid req) @ '' has no pinned public key on this control plane'')),
                [rejection cfg signerIp req RejectUnpinned None], cache)
        | None \<Rightarrow> (Inl (unauthorized (''agent_did '' @ quoted (tr_agentDid req) @ '' has no pinned public key on this control plane'')),
              [rejection cfg signerIp req RejectUnpinned None], cache)))"

text \<open>The claims of a token; a bad \<open>TENANT_AGENTS\<close> throws.\<close>

definition minted_claims :: "issuer_config \<Rightarrow> clock \<Rightarrow> string \<Rightarrow> string \<Rightarrow> string \<Rightarrow> tenant_config_error + jobj" where
  "minted_claims cfg us jti did keyId =
     (let now = now_seconds us; authority = vc_jwtAuthority (ic_validator cfg)
      in and_then (and_then (parseTenantAgents (ic_tenantAgentsRaw cfg)) buildAgentTenantLookup) (\<lambda>lookup.
         let tenant = tenantForAgent lookup did
         in Inr ([(''iss'', JStr authority), (''sub'', JStr did), (''aud'', JStr (vc_jwtAudience (ic_validator cfg))), (''jti'', JStr jti),
              (''iat'', JNum (num_of_int now)), (''nbf'', JNum (num_of_int now)), (''exp'', JNum (num_of_int (now + ic_jwtTtlSeconds cfg))),
              (''acdp'', JObj [(''registry'', JStr authority), (''key_id'', JStr keyId)])]
            @ (if tenant \<noteq> DEFAULT_TENANT_ID then [(''tenant'', JStr tenant)] else []))))"

definition mintJwt :: "jwt_crypto \<Rightarrow> issuer_config \<Rightarrow> clock \<Rightarrow> string \<Rightarrow> string \<Rightarrow> string \<Rightarrow> exn + issued_token" where
  "mintJwt J cfg us jti did keyId = (case minted_claims cfg us jti did keyId of
     Inl e \<Rightarrow> Inl (OtherObject [])
   | Inr claims \<Rightarrow>
       (let m = vc_material (ic_validator cfg)
        in case signJwt J claims (sm_algorithm m) (sm_signingKey m) (Some (sm_kid m)) of
             Some token \<Rightarrow> Inr \<lparr>it_token = token, it_tokenType = ''Bearer'', it_expiresAt = now_seconds us + ic_jwtTtlSeconds cfg\<rparr>
           | None \<Rightarrow> Inl (OtherObject [])))"

definition mint_row :: "string option \<Rightarrow> token_request \<Rightarrow> jobj \<Rightarrow> ledger_entry" where
  "mint_row signerIp req decoded =
     \<lparr>le_jti = as_string (get_prop decoded ''jti''), le_sub = as_string (get_prop decoded ''sub''), le_iss = as_string (get_prop decoded ''iss''),
      le_iat = as_int (get_prop decoded ''iat''), le_exp = as_int (get_prop decoded ''exp''), le_signerIp = signerIp, le_decision = Mint,
      le_decisionDetail = Some (''key_id='' @ tr_keyId req)\<rparr>"

type_synonym 's take_op = "clock \<Rightarrow> string \<Rightarrow> 's \<Rightarrow> challenge_record option \<times> 's"

definition issueToken ::
    "jwt_crypto \<Rightarrow> issuer_config \<Rightarrow> 's take_op \<Rightarrow> pinned_map \<Rightarrow> did_env option \<Rightarrow> clock \<Rightarrow> clock \<Rightarrow> clock \<Rightarrow> clock \<Rightarrow> string
     \<Rightarrow> token_request \<Rightarrow> string option \<Rightarrow> 's \<Rightarrow> did_cache \<Rightarrow> (exn + issued_token) \<times> ledger_entry list \<times> 's \<times> did_cache" where
  "issueToken J cfg take_op pinned dw t0 t1 t1' t2 jti req signerIp s cache =
     (let row = rejection cfg signerIp req
      in if tr_algorithm req \<notin> set SUPPORTED_SIGNATURE_ALGORITHMS
         then (Inl (bad_request (''Unsupported signature algorithm: '' @ quoted (tr_algorithm req) @ '' (supported: ''
             @ join_with '', '' SUPPORTED_SIGNATURE_ALGORITHMS @ '')'')),
           [row RejectAlg (Some (''algorithm='' @ tr_algorithm req))], s, cache)
         else (case take_op t0 (tr_nonce req) s of
             (None, s') \<Rightarrow> (Inl (unauthorized ''Unknown, expired, or already-used nonce''),
               [row RejectNonce (Some ''unknown, expired, or already-used'')], s', cache)
           | (Some rc, s') \<Rightarrow>
               if agentDid rc \<noteq> tr_agentDid req
               then (Inl (unauthorized (''agent_id does not match challenge owner: challenge='' @ agentDid rc @ '' got='' @ tr_agentDid req)),
                 [row RejectAgentMismatch (Some (''challenge='' @ agentDid rc @ '' got='' @ tr_agentDid req))], s', cache)
               else if expiresAt rc \<noteq> tr_expiresAt req
               then (Inl (unauthorized (''expires_at does not match challenge: challenge='' @ show_int (expiresAt rc) @ '' got='' @ show_int (tr_expiresAt req))),
                 [row RejectExpiresMismatch (Some (''challenge='' @ show_int (expiresAt rc) @ '' got='' @ show_int (tr_expiresAt req)))], s', cache)
               else (case bindKeyId req of
                   Inl (decision, message) \<Rightarrow> (Inl (unauthorized message),
                     [row decision (Some (''agent='' @ tr_agentDid req @ '' key_id='' @ tr_keyId req))], s', cache)
                 | Inr keyUrl \<Rightarrow> (case resolve_agent_key cfg pinned dw t1 t1' signerIp req keyUrl cache of
                     (Inl e, rows, cache') \<Rightarrow> (Inl e, rows, s', cache')
                   | (Inr key, rows, cache') \<Rightarrow>
                       if tr_algorithm req \<noteq> pk_algorithm key
                       then (Inl (unauthorized (''signature.algorithm '' @ quoted (tr_algorithm req) @ '' does not match pinned algorithm ''
                           @ quoted (pk_algorithm key) @ '' for '' @ tr_agentDid req)),
                         rows @ [row RejectAlg (Some (''request='' @ tr_algorithm req @ '' pinned='' @ pk_algorithm key))], s', cache')
                       else if \<not> verifySignatureB64 (jc_verifier J) (pk_algorithm key) (pk_rawB64 key) (signingInput rc) (tr_signature req)
                       then (Inl (AppException INVALID_SIGNATURE ''Signature verification failed'' 401 None),
                         rows @ [row RejectSignature None], s', cache')
                       else (case mintJwt J cfg t2 jti (tr_agentDid req) (tr_keyId req) of
                           Inl e \<Rightarrow> (Inl e, rows, s', cache')
                         | Inr issued \<Rightarrow> (case jc_decode J (it_token issued) of
                             Some (JObj decoded) \<Rightarrow> (Inr issued, rows @ [mint_row signerIp req decoded], s', cache')
                           | _ \<Rightarrow> (Inl (OtherObject []), rows, s', cache')))))))"

section \<open>Verifying and decoding\<close>

definition issuer_verifyJwt :: "jwt_crypto \<Rightarrow> issuer_config \<Rightarrow> revocation_check \<Rightarrow> clock \<Rightarrow> clock \<Rightarrow> string \<Rightarrow> token_failure + json" where
  "issuer_verifyJwt J cfg revocations t0 t1 token = (case verifyJwt J t0 token (local_options (ic_validator cfg)) of
     Inl e \<Rightarrow> Inl (LocalFailed e)
   | Inr decoded \<Rightarrow> (case revocations of
       None \<Rightarrow> Inr decoded
     | Some isRevoked \<Rightarrow> (case isRevoked t1 (get_prop (members_of decoded) ''iss'') (get_prop (members_of decoded) ''jti'') of
         Inl e \<Rightarrow> Inl (RepositoryFailed e)
       | Inr revoked \<Rightarrow> if revoked then Inl TokenRevoked else Inr decoded)))"

definition decodeJwt :: "jwt_crypto \<Rightarrow> string \<Rightarrow> jobj option" where
  "decodeJwt J token = (case jc_decode J token of
     Some (JObj ob) \<Rightarrow> Some ob
   | Some (JArr _) \<Rightarrow> Some []
   | _ \<Rightarrow> None)"

section \<open>The endpoints\<close>

definition SIGNER_IP_MAX_LEN :: nat where "SIGNER_IP_MAX_LEN = 64"

definition extractIp :: "(string \<Rightarrow> int) \<Rightarrow> string option \<Rightarrow> string option" where
  "extractIp isIP ip = (case ip of
     Some a \<Rightarrow> if length a \<le> SIGNER_IP_MAX_LEN \<and> isIP a \<noteq> 0 then Some a else None
   | None \<Rightarrow> None)"

definition challenge_endpoint :: "issuer_config \<Rightarrow> clock \<Rightarrow> string \<Rightarrow> string \<Rightarrow> challenge_record \<times> jobj" where
  "challenge_endpoint cfg us n agent_id =
     (let rc = issueChallenge cfg us n agent_id
      in (rc, [(''nonce'', JStr (nonce rc)), (''registry_authority'', JStr (registryAuthority rc)),
        (''expires_at'', JNum (num_of_int (expiresAt rc))), (''signing_input'', JStr (signingInput rc))]))"

definition token_endpoint ::
    "jwt_crypto \<Rightarrow> issuer_config \<Rightarrow> 's take_op \<Rightarrow> pinned_map \<Rightarrow> did_env option \<Rightarrow> (string \<Rightarrow> int) \<Rightarrow> clock \<Rightarrow> clock \<Rightarrow> clock \<Rightarrow> clock \<Rightarrow> string
     \<Rightarrow> token_request \<Rightarrow> string option \<Rightarrow> 's \<Rightarrow> did_cache \<Rightarrow> (exn + jobj) \<times> ledger_entry list \<times> 's \<times> did_cache" where
  "token_endpoint J cfg take_op pinned dw isIP t0 t1 t1' t2 jti body ip s cache =
     (case issueToken J cfg take_op pinned dw t0 t1 t1' t2 jti body (extractIp isIP ip) s cache of
        (r, rows, s', cache') \<Rightarrow>
          (and_then r (\<lambda>out. Inr [(''token'', JStr (it_token out)), (''token_type'', JStr (it_tokenType out)),
             (''expires_at'', JNum (num_of_int (it_expiresAt out)))]), rows, s', cache'))"

text \<open>The principal that the guard pins on a request.\<close>

record request_actor =
  ra_actorId :: "json option"
  ra_actorDid :: "json option"
  ra_actorType :: "string option"
  ra_actorIsAdmin :: "bool option"
  ra_actorScopes :: "string list option"
  ra_actorIssuer :: "json option"
  ra_actorFederated :: "bool option"
  ra_tenantId :: "string option"

definition no_actor :: request_actor where
  "no_actor = \<lparr>ra_actorId = None, ra_actorDid = None, ra_actorType = None, ra_actorIsAdmin = None, ra_actorScopes = None,
     ra_actorIssuer = None, ra_actorFederated = None, ra_tenantId = None\<rparr>"

record revoke_args =
  va_jti :: "json option"
  va_sub :: "json option"
  va_iss :: "json option"
  va_exp :: "json option"
  va_revokedBy :: json
  va_reason :: string

text \<open>\<open>revoke\<close> answers its response and the call it makes on the repository, if any; \<open>store\<close> is what that call answers.\<close>

definition revoke_endpoint ::
    "jwt_crypto \<Rightarrow> issuer_config \<Rightarrow> revocation_check \<Rightarrow> (revoke_args \<Rightarrow> exn + bool) \<Rightarrow> clock \<Rightarrow> clock \<Rightarrow> string \<Rightarrow> string option
     \<Rightarrow> request_actor \<Rightarrow> (exn + jobj) \<times> revoke_args list" where
  "revoke_endpoint J cfg revocations store t0 t1 token reason actor =
     (let attempt = (case issuer_verifyJwt J cfg revocations t0 t1 token of
            Inr payload \<Rightarrow> Some (members_of payload, True)
          | Inl _ \<Rightarrow> map_option (\<lambda>c. (c, False)) (decodeJwt J token));
          isAdmin = (ra_actorIsAdmin actor = Some True)
      in case attempt of
           None \<Rightarrow> (Inr [(''revoked'', JBool False)], [])
         | Some (claims, verified) \<Rightarrow>
             if \<not> verified \<and> \<not> isAdmin then (Inr [(''revoked'', JBool False)], [])
             else (let isSelfRevoke = (ra_actorType actor = Some ''jwt''
                     \<and> (case ra_actorDid actor of Some (JStr d) \<Rightarrow> d \<noteq> [] \<and> get_prop claims ''sub'' = Some (JStr d) | _ \<Rightarrow> False)
                     \<and> ra_actorIssuer actor = get_prop claims ''iss'')
               in if \<not> isAdmin \<and> \<not> isSelfRevoke
                  then (Inl (AppException FORBIDDEN ''caller is not authorized to revoke this token'' 403 None), [])
                  else (let args = \<lparr>va_jti = get_prop claims ''jti'', va_sub = get_prop claims ''sub'', va_iss = get_prop claims ''iss'',
                          va_exp = get_prop claims ''exp'',
                          va_revokedBy = nullish (ra_actorId actor) (JStr ''unknown''),
                          va_reason = (case reason of Some r \<Rightarrow> r | None \<Rightarrow> ''unspecified'')\<rparr>
                    in (and_then (store args) (\<lambda>newly. Inr [(''revoked'', JBool newly)]), [args]))))"

section \<open>Lemmas\<close>

lemma rejection_fields [simp]: "le_decision (rejection cfg ip req d x) = d" "le_sub (rejection cfg ip req d x) = Some (tr_agentDid req)"
    "le_iss (rejection cfg ip req d x) = Some (vc_jwtAuthority (ic_validator cfg))"
  by (simp_all add: rejection_def)

lemma bindKeyId_decision: "bindKeyId req = Inl (d, m) \<Longrightarrow> d \<noteq> Mint"
  by (auto simp: bindKeyId_def Let_def split: option.splits if_splits)

text \<open>The key URL is always the agent's DID and a non-empty fragment.\<close>

lemma bindKeyId_own: "bindKeyId req = Inr keyUrl \<Longrightarrow> \<exists>fragment. keyUrl = tr_agentDid req @ ''#'' @ fragment \<and> fragment \<noteq> []"
proof -
  have split: "xs = take n xs @ [c] @ drop (n + 1) xs" if "index_of c xs = Some n" for c n and xs :: string
    using that by (induction xs arbitrary: n) (auto split: if_splits)
  assume "bindKeyId req = Inr keyUrl"
  then show ?thesis using split [of "CHR ''#''" "tr_keyId req"]
    by (auto simp: bindKeyId_def Let_def split: option.splits if_splits)
qed

text \<open>The key a signature is checked against: the pinned one, or the one of the agent's DID document.\<close>

definition agent_key :: "pinned_map \<Rightarrow> did_env option \<Rightarrow> clock \<Rightarrow> clock \<Rightarrow> token_request \<Rightarrow> string \<Rightarrow> did_cache \<Rightarrow> pinned_key \<Rightarrow> bool" where
  "agent_key pinned dw t1 t1' req keyUrl cache key =
     (pinned_get (tr_agentDid req) (now_ms t1) pinned = Some key
      \<or> (pinned_get (tr_agentDid req) (now_ms t1) pinned = None \<and> isDidWeb (tr_agentDid req) \<and>
         (\<exists>env k. dw = Some env \<and> pk_algorithm key = rk_algorithm k \<and> pk_rawB64 key = rk_publicKeyB64 k \<and>
           fst (resolveKey (de_binding env) (de_host env) (de_policy env) (de_ttl env) t1 t1' keyUrl (tr_algorithm req) cache) = Inr k)))"

lemma resolve_agent_key_cases:
  assumes "resolve_agent_key cfg pinned dw t1 t1' ip req keyUrl cache = (r, rows, cache')"
  shows "(\<exists>key. r = Inr key \<and> rows = [] \<and> agent_key pinned dw t1 t1' req keyUrl cache key)
    \<or> (\<exists>e row. r = Inl e \<and> rows = [row] \<and> le_decision row = RejectUnpinned \<and> le_sub row = Some (tr_agentDid req)
         \<and> le_iss row = Some (vc_jwtAuthority (ic_validator cfg)))"
  using assms
  by (auto simp: resolve_agent_key_def resolveDidWebKey_def agent_key_def split: option.splits if_splits sum.splits prod.splits)

lemma mintJwt_ok:
  "mintJwt J cfg us jti did keyId = Inr issued \<longleftrightarrow> (\<exists>claims token. minted_claims cfg us jti did keyId = Inr claims
     \<and> signJwt J claims (sm_algorithm (vc_material (ic_validator cfg))) (sm_signingKey (vc_material (ic_validator cfg)))
         (Some (sm_kid (vc_material (ic_validator cfg)))) = Some token
     \<and> issued = \<lparr>it_token = token, it_tokenType = ''Bearer'', it_expiresAt = now_seconds us + ic_jwtTtlSeconds cfg\<rparr>)"
  by (auto simp: mintJwt_def Let_def split: sum.splits option.splits)

lemma issueToken_checks:
  assumes "issueToken J cfg take_op pinned dw t0 t1 t1' t2 jti req ip s cache = (Inr issued, rows, s', cache')"
  shows "\<exists>rc keyUrl key resolved. tr_algorithm req \<in> set SUPPORTED_SIGNATURE_ALGORITHMS \<and> take_op t0 (tr_nonce req) s = (Some rc, s')
    \<and> agentDid rc = tr_agentDid req \<and> expiresAt rc = tr_expiresAt req \<and> bindKeyId req = Inr keyUrl
    \<and> resolve_agent_key cfg pinned dw t1 t1' ip req keyUrl cache = (Inr key, resolved, cache') \<and> pk_algorithm key = tr_algorithm req
    \<and> verifySignatureB64 (jc_verifier J) (tr_algorithm req) (pk_rawB64 key) (signingInput rc) (tr_signature req)
    \<and> mintJwt J cfg t2 jti (tr_agentDid req) (tr_keyId req) = Inr issued"
  using assms by (auto simp: issueToken_def Let_def split: if_splits prod.splits option.splits sum.splits json.splits)

lemma issueToken_success:
  assumes "issueToken J cfg take_op pinned dw t0 t1 t1' t2 jti req ip s cache = (Inr issued, rows, s', cache')"
  obtains rc keyUrl key where "tr_algorithm req \<in> set SUPPORTED_SIGNATURE_ALGORITHMS" "take_op t0 (tr_nonce req) s = (Some rc, s')"
    "agentDid rc = tr_agentDid req" "expiresAt rc = tr_expiresAt req" "bindKeyId req = Inr keyUrl"
    "agent_key pinned dw t1 t1' req keyUrl cache key" "pk_algorithm key = tr_algorithm req"
    "verifySignatureB64 (jc_verifier J) (tr_algorithm req) (pk_rawB64 key) (signingInput rc) (tr_signature req)"
    "mintJwt J cfg t2 jti (tr_agentDid req) (tr_keyId req) = Inr issued"
proof -
  obtain rc keyUrl key resolved where c: "tr_algorithm req \<in> set SUPPORTED_SIGNATURE_ALGORITHMS" "take_op t0 (tr_nonce req) s = (Some rc, s')"
    "agentDid rc = tr_agentDid req" "expiresAt rc = tr_expiresAt req" "bindKeyId req = Inr keyUrl"
    "resolve_agent_key cfg pinned dw t1 t1' ip req keyUrl cache = (Inr key, resolved, cache')" "pk_algorithm key = tr_algorithm req"
    "verifySignatureB64 (jc_verifier J) (tr_algorithm req) (pk_rawB64 key) (signingInput rc) (tr_signature req)"
    "mintJwt J cfg t2 jti (tr_agentDid req) (tr_keyId req) = Inr issued"
    using issueToken_checks [OF assms] by blast
  have "agent_key pinned dw t1 t1' req keyUrl cache key" using resolve_agent_key_cases [OF c(6)] by simp
  with c show thesis using that by blast
qed

lemma issueToken_rows:
  assumes "issueToken J cfg take_op pinned dw t0 t1 t1' t2 jti req ip s cache = (r, rows, s', cache')"
    and "mintJwt J cfg t2 jti (tr_agentDid req) (tr_keyId req) = Inr issued" "jc_decode J (it_token issued) = Some (JObj decoded)"
  shows "\<exists>row. rows = [row] \<and> (if r = Inr issued then row = mint_row ip req decoded
    else le_decision row \<noteq> Mint \<and> le_sub row = Some (tr_agentDid req) \<and> le_iss row = Some (vc_jwtAuthority (ic_validator cfg)))"
  using assms resolve_agent_key_cases [of cfg pinned dw t1 t1' ip req _ cache] bindKeyId_decision [of req]
  by (fastforce simp: issueToken_def Let_def split: if_splits prod.splits option.splits sum.splits)

lemma issueToken_mints:
  assumes "tr_algorithm req \<in> set SUPPORTED_SIGNATURE_ALGORITHMS" "take_op t0 (tr_nonce req) s = (Some rc, s')"
    and "agentDid rc = tr_agentDid req" "expiresAt rc = tr_expiresAt req" "bindKeyId req = Inr keyUrl"
    and "pinned_get (tr_agentDid req) (now_ms t1) pinned = Some key" "pk_algorithm key = tr_algorithm req"
    and "verifySignatureB64 (jc_verifier J) (tr_algorithm req) (pk_rawB64 key) (signingInput rc) (tr_signature req)"
    and "mintJwt J cfg t2 jti (tr_agentDid req) (tr_keyId req) = Inr issued" "jc_decode J (it_token issued) = Some (JObj decoded)"
  shows "issueToken J cfg take_op pinned dw t0 t1 t1' t2 jti req ip s cache = (Inr issued, [mint_row ip req decoded], s', cache)"
  using assms by (simp add: issueToken_def resolve_agent_key_def)

lemma minted_claims_fields:
  assumes "minted_claims cfg us jti did keyId = Inr claims"
  shows "get_prop claims ''iss'' = Some (JStr (vc_jwtAuthority (ic_validator cfg)))" "get_prop claims ''sub'' = Some (JStr did)"
    "get_prop claims ''aud'' = Some (JStr (vc_jwtAudience (ic_validator cfg)))" "get_prop claims ''jti'' = Some (JStr jti)"
    "get_prop claims ''iat'' = Some (JNum (num_of_int (now_seconds us)))" "get_prop claims ''nbf'' = Some (JNum (num_of_int (now_seconds us)))"
    "get_prop claims ''exp'' = Some (JNum (num_of_int (now_seconds us + ic_jwtTtlSeconds cfg)))" "printable (JObj claims)"
  using assms by (auto simp: minted_claims_def bind_simps Let_def get_prop_def)

lemma minted_decodes:
  assumes "decode_agrees J" "mintJwt J cfg us jti did keyId = Inr issued"
    and "sm_algorithm (vc_material (ic_validator cfg)) = EdDSA" "sm_signingKey (vc_material (ic_validator cfg)) = KEdPrivate k"
  obtains claims where "minted_claims cfg us jti did keyId = Inr claims" "jc_decode J (it_token issued) = Some (JObj claims)"
    "signJwt J claims EdDSA (KEdPrivate k) (Some (sm_kid (vc_material (ic_validator cfg)))) = Some (it_token issued)"
  using assms(2-4) signed_decodes(1) [OF assms(1)] minted_claims_fields(8) by (auto simp: mintJwt_ok)

lemma mint_total:
  assumes "minted_claims cfg us jti did keyId = Inr claims"
    and "sm_algorithm (vc_material (ic_validator cfg)) = EdDSA" "sm_signingKey (vc_material (ic_validator cfg)) = KEdPrivate k"
  shows "\<exists>issued. mintJwt J cfg us jti did keyId = Inr issued"
  using signEdDSA_total [OF minted_claims_fields(8) [OF assms(1)], of J k "Some (sm_kid (vc_material (ic_validator cfg)))"] assms
  by (auto simp: mintJwt_ok signJwt_def)

text \<open>The records that \<open>issueChallenge\<close> puts in a store.\<close>

definition challenges_of :: "string \<Rightarrow> challenge_map \<Rightarrow> bool" where
  "challenges_of authority s = (keyed_map s \<and>
     (\<forall>(k, rc) \<in> set s. signingInput rc = signingInputFor k (agentDid rc) authority (expiresAt rc)))"

lemma challenges_of_put: "challenges_of (vc_jwtAuthority (ic_validator cfg)) s \<Longrightarrow>
    challenges_of (vc_jwtAuthority (ic_validator cfg)) (mem_put (issueChallenge cfg us n did) s)"
  using keyed_update [of s "issueChallenge cfg us n did"] set_update_subset [of n "issueChallenge cfg us n did" s]
  by (fastforce simp: challenges_of_def mem_put_def issueChallenge_def issue_record_def Let_def)

lemma taken_challenge:
  assumes "challenges_of authority s" "take_op = mem_take \<or> take_op = pg_take" "take_op us n s = (Some rc, s')"
  shows "signingInput rc = signingInputFor n (agentDid rc) authority (expiresAt rc)" "now_seconds us \<le> expiresAt rc"
    "map_of s' n = None"
proof -
  have m: "map_of s n = Some rc" "s' = AList.delete n s" "now_seconds us \<le> expiresAt rc"
    using assms(2,3) by (auto simp: mem_take_def pg_take_def after_epoch_now_def now_seconds_eq split: option.splits if_splits)
  then show "signingInput rc = signingInputFor n (agentDid rc) authority (expiresAt rc)"
    using assms(1) by (auto simp: challenges_of_def dest: map_of_SomeD)
  show "now_seconds us \<le> expiresAt rc" by (fact m(3))
  show "map_of s' n = None" by (simp add: m(2) delete_conv')
qed

lemma untaken_nonce:
  assumes "take_op = mem_take \<or> take_op = pg_take" "map_of s (tr_nonce req) = None"
  shows "\<exists>e. fst (issueToken J cfg take_op pinned dw t0 t1 t1' t2 jti req ip s cache) = Inl e"
proof -
  have "take_op t0 (tr_nonce req) s = (None, s)" using assms by (auto simp: mem_take_def pg_take_def)
  then show ?thesis by (simp add: issueToken_def Let_def)
qed

section \<open>Properties\<close>


definition sample_issuer :: issuer_config where
  "sample_issuer = \<lparr>ic_validator = sample_validator, ic_challengeTtlSeconds = 60, ic_jwtTtlSeconds = 300, ic_tenantAgentsRaw = ''t1:did:web:a''\<rparr>"

definition sample_store :: challenge_map where
  "sample_store = mem_put (issueChallenge sample_issuer 1000000 ''n1'' ''did:web:a'') []"

definition sample_pinned :: pinned_map where
  "sample_pinned = [(''did:web:a'', \<lparr>pk_agentDid = ''did:web:a'', pk_algorithm = ''ed25519'', pk_rawB64 = b64_encode (replicate 32 7),
     pk_validFromSec = None, pk_validUntilSec = None\<rparr>)]"

definition sample_request :: token_request where
  "sample_request = \<lparr>tr_agentDid = ''did:web:a'', tr_keyId = ''key-1'', tr_nonce = ''n1'', tr_expiresAt = 61, tr_algorithm = ''ed25519'',
     tr_signature = b64_encode (replicate 64 (of_nat (length (signingInputFor ''n1'' ''did:web:a'' ''cp'' 61))))\<rparr>"

lemma sample_claims_minted: "\<exists>claims. minted_claims sample_issuer us jti ''did:web:a'' ''key-1'' = Inr claims \<and> get_prop claims ''tenant'' = Some (JStr ''t1'')"
proof -
  have "and_then (parseTenantAgents ''t1:did:web:a'') buildAgentTenantLookup = Inr [(''did:web:a'', ''t1'')]" by code_simp
  then show ?thesis by (simp add: minted_claims_def sample_issuer_def Let_def tenantForAgent_def DEFAULT_TENANT_ID_def get_prop_def)
qed

lemma sample_issuer_key: "sm_algorithm (vc_material (ic_validator sample_issuer)) = EdDSA"
    "sm_signingKey (vc_material (ic_validator sample_issuer)) = KEdPrivate ''priv''"
  by (simp_all add: sample_issuer_def sample_validator_def sample_material_def)

lemma sample_issued:
  "\<exists>issued row. issueToken encoded_crypto sample_issuer mem_take sample_pinned None 2000000 2000000 2000000 3000000 ''j1'' sample_request None sample_store []
     = (Inr issued, [row], [], []) \<and> mintJwt encoded_crypto sample_issuer 3000000 ''j1'' ''did:web:a'' ''key-1'' = Inr issued"
proof -
  obtain issued where m: "mintJwt encoded_crypto sample_issuer 3000000 ''j1'' ''did:web:a'' ''key-1'' = Inr issued"
    using sample_claims_minted [of 3000000 "''j1''"] mint_total [OF _ sample_issuer_key] by blast
  obtain claims where d: "jc_decode encoded_crypto (it_token issued) = Some (JObj claims)"
    using minted_decodes [OF encoded_crypto_ok(3) m sample_issuer_key] by metis
  have t: "mem_take 2000000 ''n1'' sample_store = (Some (issueChallenge sample_issuer 1000000 ''n1'' ''did:web:a''), [])"
    by (simp add: mem_take_def sample_store_def mem_put_def issueChallenge_def issue_record_def sample_issuer_def Let_def now_seconds_eq)
  have "issueToken encoded_crypto sample_issuer mem_take sample_pinned None 2000000 2000000 2000000 3000000 ''j1'' sample_request None sample_store []
     = (Inr issued, [mint_row None sample_request claims], [], [])"
  proof (rule issueToken_mints [where keyUrl = "''did:web:a#key-1''" and key = "snd (hd sample_pinned)"])
    show "bindKeyId sample_request = Inr ''did:web:a#key-1''" by code_simp
    show "mintJwt encoded_crypto sample_issuer 3000000 ''j1'' (tr_agentDid sample_request) (tr_keyId sample_request) = Inr issued"
      using m by (simp add: sample_request_def)
    show "mem_take 2000000 (tr_nonce sample_request) sample_store = (Some (issueChallenge sample_issuer 1000000 ''n1'' ''did:web:a''), [])"
      using t by (simp add: sample_request_def)
    show "verifySignatureB64 (jc_verifier encoded_crypto) (tr_algorithm sample_request) (pk_rawB64 (snd (hd sample_pinned)))
       (signingInput (issueChallenge sample_issuer 1000000 ''n1'' ''did:web:a'')) (tr_signature sample_request)"
      by (simp add: verifySignatureB64_def encoded_crypto_def sample_crypto_def sample_request_def issueChallenge_def issue_record_def
          sample_issuer_def sample_validator_def Let_def now_seconds_eq)
  qed (simp_all add: sample_request_def m d issueChallenge_def issue_record_def sample_issuer_def Let_def now_seconds_eq sample_pinned_def
      pinned_get_def SUPPORTED_SIGNATURE_ALGORITHMS_def)
  with m show ?thesis by blast
qed


text \<open>C12. One challenge, at most one token: after \<open>issueToken\<close> has succeeded, every further request with the same nonce fails, in either
  store, with any signature, key, address and time, so a captured request cannot be replayed.\<close>

theorem challenge_mints_once:
  assumes "issueToken J cfg take_op pinned dw t0 t1 t1' t2 jti req ip s cache = (Inr issued, rows, s', cache')"
    and "take_op = mem_take \<or> take_op = pg_take" "challenges_of (vc_jwtAuthority (ic_validator cfg)) s" "tr_nonce req' = tr_nonce req"
  shows "\<exists>e. fst (issueToken J cfg take_op pinned' dw' u0 u1 u1' u2 jti' req' ip' s' cache'') = Inl e"
proof -
  obtain rc where "take_op t0 (tr_nonce req) s = (Some rc, s')" using issueToken_success [OF assms(1)] by metis
  with taken_challenge(3) [OF assms(3,2)] assms(4) show ?thesis by (intro untaken_nonce [OF assms(2)]) simp
qed

theorem challenge_mints_once_witness:
  "\<exists>e. fst (issueToken encoded_crypto sample_issuer mem_take sample_pinned None 2000000 2000000 2000000 3000000 ''j2'' sample_request None [] []) = Inl e"
proof -
  obtain issued row where i: "issueToken encoded_crypto sample_issuer mem_take sample_pinned None 2000000 2000000 2000000 3000000 ''j1''
      sample_request None sample_store [] = (Inr issued, [row], [], [])" using sample_issued by blast
  have "challenges_of (vc_jwtAuthority (ic_validator sample_issuer)) sample_store"
    unfolding sample_store_def by (rule challenges_of_put) (simp add: challenges_of_def keyed_map_def)
  with challenge_mints_once [OF i] show ?thesis by simp
qed

text \<open>The ledger sees every request exactly once: a request adds one row, which is a \<open>mint\<close> row with the token's subject, issuer and
  \<open>jti\<close> when a token is issued, and a row for the rejected agent otherwise. The hypotheses are that the tenant
  configuration parses and that the control plane signs with an EdDSA key.\<close>

theorem every_request_is_ledgered:
  assumes "issueToken J cfg take_op pinned dw t0 t1 t1' t2 jti req ip s cache = (r, rows, s', cache')"
    and "decode_agrees J" "minted_claims cfg t2 jti (tr_agentDid req) (tr_keyId req) = Inr claims"
    and "sm_algorithm (vc_material (ic_validator cfg)) = EdDSA" "sm_signingKey (vc_material (ic_validator cfg)) = KEdPrivate k"
  shows "\<exists>row. rows = [row] \<and> le_sub row = Some (tr_agentDid req) \<and> le_iss row = Some (vc_jwtAuthority (ic_validator cfg)) \<and> (case r of
      Inr issued \<Rightarrow> le_decision row = Mint \<and> le_jti row = Some jti \<and> le_exp row = Some (it_expiresAt issued)
    | Inl e \<Rightarrow> le_decision row \<noteq> Mint)"
proof -
  obtain issued where m: "mintJwt J cfg t2 jti (tr_agentDid req) (tr_keyId req) = Inr issued" using mint_total [OF assms(3-5)] by blast
  have dec: "jc_decode J (it_token issued) = Some (JObj claims)" using minted_decodes [OF assms(2) m assms(4,5)] assms(3) by auto
  have exp: "it_expiresAt issued = now_seconds t2 + ic_jwtTtlSeconds cfg" using m by (auto simp: mintJwt_ok)
  note f = minted_claims_fields [OF assms(3)]
  have row: "le_sub (mint_row ip req claims) = Some (tr_agentDid req)" "le_iss (mint_row ip req claims) = Some (vc_jwtAuthority (ic_validator cfg))"
    "le_decision (mint_row ip req claims) = Mint" "le_jti (mint_row ip req claims) = Some jti"
    "le_exp (mint_row ip req claims) = Some (it_expiresAt issued)"
    using f exp by (simp_all add: mint_row_def as_string_def as_int_def as_number_def)
  have success: "issued' = issued" if "r = Inr issued'" for issued'
    using issueToken_success [of J cfg take_op pinned dw t0 t1 t1' t2 jti req ip s cache issued' rows s' cache'] assms(1) that m by force
  obtain rw where rw: "rows = [rw]" "if r = Inr issued then rw = mint_row ip req claims
      else le_decision rw \<noteq> Mint \<and> le_sub rw = Some (tr_agentDid req) \<and> le_iss rw = Some (vc_jwtAuthority (ic_validator cfg))"
    using issueToken_rows [OF assms(1) m dec] by blast
  then show ?thesis using row success by (cases r) (auto split: if_splits)
qed

theorem every_request_is_ledgered_witness:
  "\<exists>row. fst (snd (issueToken encoded_crypto sample_issuer mem_take sample_pinned None 2000000 2000000 2000000 3000000 ''j1''
      sample_request None sample_store [])) = [row] \<and> le_decision row = Mint \<and> le_jti row = Some ''j1''"
proof -
  obtain issued row where i: "issueToken encoded_crypto sample_issuer mem_take sample_pinned None 2000000 2000000 2000000 3000000 ''j1''
      sample_request None sample_store [] = (Inr issued, [row], [], [])" using sample_issued by blast
  obtain claims where "minted_claims sample_issuer 3000000 ''j1'' (tr_agentDid sample_request) (tr_keyId sample_request) = Inr claims"
    using sample_claims_minted by (auto simp: sample_request_def)
  from every_request_is_ledgered [OF i encoded_crypto_ok(3) this sample_issuer_key] i show ?thesis by auto
qed

text \<open>Revocation is authorised: a call of a caller without the admin flag reaches the repository only when the presented token verified
  under this control plane's own key and is not yet revoked, and only for the caller's own token: a JWT caller
  with the same issuer and the same non-empty subject. Claims that did not verify never authorise anything.\<close>

theorem revoke_needs_own_token:
  assumes "revoke_endpoint J cfg revocations store t0 t1 token reason actor = (r, calls)" "args \<in> set calls" "ra_actorIsAdmin actor \<noteq> Some True"
  shows "\<exists>payload d. issuer_verifyJwt J cfg revocations t0 t1 token = Inr payload \<and> ra_actorType actor = Some ''jwt''
    \<and> d \<noteq> [] \<and> ra_actorDid actor = Some (JStr d) \<and> get_prop (members_of payload) ''sub'' = Some (JStr d)
    \<and> ra_actorIssuer actor = get_prop (members_of payload) ''iss''
    \<and> va_jti args = get_prop (members_of payload) ''jti'' \<and> va_iss args = get_prop (members_of payload) ''iss''
    \<and> calls = [args]"
  using assms
  by (auto simp: revoke_endpoint_def Let_def split: sum.splits option.splits if_splits json.splits)

theorem revoke_needs_own_token_witness:
  "\<exists>token calls args payload. revoke_endpoint encoded_crypto sample_issuer None (\<lambda>a. Inr True) 7000000 7000000 token None
      (no_actor\<lparr>ra_actorType := Some ''jwt'', ra_actorDid := Some (JStr ''did:web:a''), ra_actorIssuer := Some (JStr ''cp''),
        ra_actorIsAdmin := Some False\<rparr>) = (Inr [(''revoked'', JBool True)], [args])
    \<and> issuer_verifyJwt encoded_crypto sample_issuer None 7000000 7000000 token = Inr payload
    \<and> va_jti args = get_prop (members_of payload) ''jti''"
proof -
  let ?actor = "no_actor\<lparr>ra_actorType := Some ''jwt'', ra_actorDid := Some (JStr ''did:web:a''), ra_actorIssuer := Some (JStr ''cp''),
        ra_actorIsAdmin := Some False\<rparr>"
  obtain token where t: "signJwt encoded_crypto (token_claims ''cp'') EdDSA (KEdPrivate ''priv'') (Some ''k1'') = Some token"
    using token_claims_signed by blast
  have "claims_ok 7000000 (JObj (token_claims ''cp'')) (local_options sample_validator)"
    by (simp add: claims_ok_def members_of_def token_claims_get local_options_def sample_validator_def as_number_def num_before_def
        num_of_int_def tolerance_def audience_matches_def now_seconds_eq)
  then have "verifyJwt encoded_crypto 7000000 token (local_options sample_validator) = Inr (JObj (token_claims ''cp''))"
    by (intro verify_signed [OF encoded_crypto_ok(1) token_claims_printable t])
      (simp_all add: local_options_def sample_validator_def sample_material_def encoded_crypto_def)
  then have v: "issuer_verifyJwt encoded_crypto sample_issuer None 7000000 7000000 token = Inr (JObj (token_claims ''cp''))"
    by (simp add: issuer_verifyJwt_def sample_issuer_def)
  obtain args where r: "revoke_endpoint encoded_crypto sample_issuer None (\<lambda>a. Inr True) 7000000 7000000 token None ?actor
      = (Inr [(''revoked'', JBool True)], [args])"
    by (simp add: revoke_endpoint_def v members_of_def token_claims_get no_actor_def Let_def)
  with revoke_needs_own_token [OF r, of args] show ?thesis by (auto simp: no_actor_def)
qed

end
