(* ===== verification/AuthGuard.thy ===== *)
theory AuthGuard
  imports TokenIssuer
begin

text \<open>
  The request guard: \<open>src/src/auth/auth.guard.ts\<close>.

  \<open>canActivate\<close> answers the exception it throws or the principal it pins on the request; the validator, when the module binds one, is
  an argument that answers the claims and the trust entry, so that the theorems hold for any validator and are then used
  with \<open>verifyWithProvenance\<close>. The table of tenant keys is built from a constant configuration, so its lazy construction
  is a recomputation. API keys are compared by their SHA-256 digests, as in the code.
\<close>

section \<open>Helpers\<close>

record guard_config =
  gc_authApiKeys :: "string list"
  gc_authAdminApiKeys :: "string list"
  gc_tenantApiKeysRaw :: string
  gc_requireTenant :: bool
  gc_tenantHeaderTrust :: string

record guard_request =
  gr_authorization :: "string option"
  gr_tenantHeader :: "json option"
  gr_method :: "string option"
  gr_path :: "string option"

definition looksLikeJwt :: "string \<Rightarrow> bool" where
  "looksLikeJwt token = (length (split_on (CHR ''.'') token) = 3)"

definition SAFE_METHODS :: "string list" where
  "SAFE_METHODS = [''GET'', ''HEAD'', ''OPTIONS'']"

definition upper_char :: "char \<Rightarrow> char" where
  "upper_char c = (case index_of c lower_letters of Some i \<Rightarrow> upper_letters ! i | None \<Rightarrow> c)"

definition strip_slashes :: "string \<Rightarrow> string" where
  "strip_slashes p = rev (dropWhile (\<lambda>c. c = CHR ''/'') (rev p))"

definition isSafeForReadOnlyIssuer :: "guard_request \<Rightarrow> bool" where
  "isSafeForReadOnlyIssuer req =
     (let method = map upper_char (case gr_method req of Some m \<Rightarrow> m | None \<Rightarrow> []);
          path = strip_slashes (to_lower (case gr_path req of Some p \<Rightarrow> p | None \<Rightarrow> []))
      in method \<in> set SAFE_METHODS \<or> (method = ''POST'' \<and> path = ''/auth/introspect''))"

text \<open>The whole list is scanned.\<close>

fun includes_loop :: "bytes \<Rightarrow> bool \<Rightarrow> string list \<Rightarrow> bool" where
  "includes_loop tokenHash matched [] = matched"
| "includes_loop tokenHash matched (candidate # candidates) =
     includes_loop tokenHash (if sha256 (utf8 candidate) = tokenHash then True else matched) candidates"

definition constantTimeIncludes :: "string list \<Rightarrow> string \<Rightarrow> bool" where
  "constantTimeIncludes candidates token = includes_loop (sha256 (utf8 token)) False candidates"

definition readHeaderTenant :: "guard_request \<Rightarrow> string option" where
  "readHeaderTenant req = (case gr_tenantHeader req of
     Some (JStr v) \<Rightarrow> if trim v \<noteq> [] then Some (trim v) else None
   | _ \<Rightarrow> None)"

definition tenantFor :: "guard_config \<Rightarrow> string \<Rightarrow> exn + string" where
  "tenantFor cfg apiKey = (case and_then (parseTenantApiKeys (gc_tenantApiKeysRaw cfg)) buildTenantLookup of
     Inl e \<Rightarrow> Inl (OtherObject [])
   | Inr lookup \<Rightarrow> Inr (case map_of lookup apiKey of Some t \<Rightarrow> t | None \<Rightarrow> DEFAULT_TENANT_ID))"

definition claim_tenant :: "jobj \<Rightarrow> string option" where
  "claim_tenant claims = (case get_prop claims ''tenant'' of Some (JStr t) \<Rightarrow> if t \<noteq> [] then Some t else None | _ \<Rightarrow> None)"

section \<open>The guard\<close>

definition bearer_token :: "string \<Rightarrow> string" where
  "bearer_token h = (if starts_with ''Bearer '' h then drop 7 h else h)"

definition jwt_actor :: "jobj \<Rightarrow> trusted_issuer option \<Rightarrow> string \<Rightarrow> request_actor" where
  "jwt_actor claims trusted tenant = \<lparr>ra_actorId = get_prop claims ''sub'', ra_actorDid = get_prop claims ''sub'', ra_actorType = Some ''jwt'',
     ra_actorIsAdmin = Some False, ra_actorScopes = Some (readScopes claims), ra_actorIssuer = get_prop claims ''iss'',
     ra_actorFederated = Some (trusted \<noteq> None), ra_tenantId = Some tenant\<rparr>"

text \<open>The checks on a verified token.\<close>

definition activate_jwt :: "guard_config \<Rightarrow> guard_request \<Rightarrow> jobj \<Rightarrow> trusted_issuer option \<Rightarrow> exn + request_actor" where
  "activate_jwt cfg req claims trusted =
     (let headerTenant = readHeaderTenant req; claimTenant = claim_tenant claims
      in and_then (assertNotReservedTenant claimTenant ''token claim'') (\<lambda>_.
         and_then (assertNotReservedTenant headerTenant ''X-Tenant-Id header'') (\<lambda>_.
         and_then (throw_if (claimTenant \<noteq> None \<and> headerTenant \<noteq> None \<and> headerTenant \<noteq> claimTenant)
           (AppException TENANT_MISMATCH ''X-Tenant-Id does not match the tenant the token was issued under'' 403 None)) (\<lambda>_.
         and_then (throw_if (gc_requireTenant cfg \<and> claimTenant = None)
           (AppException TENANT_REQUIRED ''tenant required: token carries no tenant claim (AUTH_REQUIRE_TENANT)'' 403 None)) (\<lambda>_.
         and_then (throw_if (claimTenant = None \<and> headerTenant \<noteq> None \<and> gc_tenantHeaderTrust cfg \<noteq> ''any_peer'')
           (AppException TENANT_HEADER_UNTRUSTED (''X-Tenant-Id is not trusted for a token with no tenant claim (TENANT_HEADER_TRUST=none); ''
              @ ''use a tenant-bound token'') 403 None)) (\<lambda>_.
         let tenant = (case claimTenant of Some t \<Rightarrow> t | None \<Rightarrow> (case headerTenant of Some h \<Rightarrow> h | None \<Rightarrow> DEFAULT_TENANT_ID))
         in and_then (throw_if ((case trusted of Some e \<Rightarrow> ti_readOnly e | None \<Rightarrow> False) \<and> \<not> isSafeForReadOnlyIssuer req)
              (AppException ISSUER_READ_ONLY ''tokens from this issuer are read-only'' 403 None)) (\<lambda>_.
            Inr (jwt_actor claims trusted tenant))))))))"

definition api_key_actor :: "guard_config \<Rightarrow> string \<Rightarrow> string \<Rightarrow> request_actor" where
  "api_key_actor cfg token tenant = \<lparr>ra_actorId = Some (JStr (take 8 token @ ''...'')), ra_actorDid = None, ra_actorType = Some ''api-key'',
     ra_actorIsAdmin = Some (constantTimeIncludes (gc_authAdminApiKeys cfg) token), ra_actorScopes = Some [], ra_actorIssuer = None,
     ra_actorFederated = Some False, ra_tenantId = Some tenant\<rparr>"

definition activate_api_key :: "guard_config \<Rightarrow> guard_request \<Rightarrow> string \<Rightarrow> exn + request_actor" where
  "activate_api_key cfg req token =
     (if gc_authApiKeys cfg = [] then
        and_then (throw_if (gc_requireTenant cfg)
          (AppException TENANT_REQUIRED ''tenant required but no AUTH_API_KEYS configured (AUTH_REQUIRE_TENANT)'' 403 None)) (\<lambda>_.
        Inr (no_actor\<lparr>ra_tenantId := Some DEFAULT_TENANT_ID\<rparr>))
      else
        and_then (throw_if (\<not> constantTimeIncludes (gc_authApiKeys cfg) token) (unauthorized ''Invalid authorization token'')) (\<lambda>_.
        and_then (tenantFor cfg token) (\<lambda>keyTenant.
        let headerTenant = readHeaderTenant req
        in and_then (assertNotReservedTenant headerTenant ''X-Tenant-Id header'') (\<lambda>_.
           and_then (throw_if (keyTenant \<noteq> DEFAULT_TENANT_ID \<and> headerTenant \<noteq> None \<and> headerTenant \<noteq> Some keyTenant)
             (AppException TENANT_MISMATCH ''X-Tenant-Id does not match the tenant this API key is bound to'' 403 None)) (\<lambda>_.
           and_then (throw_if (gc_requireTenant cfg \<and> keyTenant = DEFAULT_TENANT_ID)
             (AppException TENANT_REQUIRED ''tenant required: API key is not bound to a tenant (AUTH_REQUIRE_TENANT)'' 403 None)) (\<lambda>_.
           Inr (api_key_actor cfg token keyTenant)))))))"

type_synonym token_validator = "(string \<Rightarrow> token_failure + jobj \<times> trusted_issuer option) option"

definition canActivate :: "guard_config \<Rightarrow> token_validator \<Rightarrow> bool \<Rightarrow> guard_request \<Rightarrow> exn + request_actor" where
  "canActivate cfg validator isPublic req =
     (if isPublic then Inr no_actor
      else (case gr_authorization req of
          None \<Rightarrow> Inl (unauthorized ''Missing Authorization header'')
        | Some authHeader \<Rightarrow>
            if authHeader = [] then Inl (unauthorized ''Missing Authorization header'')
            else (let token = bearer_token authHeader
              in if token = [] then Inl (unauthorized ''Empty authorization token'')
                 else if looksLikeJwt token then
                   (case validator of
                      None \<Rightarrow> Inl (unauthorized ''JWT presented but TOKEN_ISSUANCE_ENABLED=false'')
                    | Some verify \<Rightarrow> (case verify token of
                        Inl e \<Rightarrow> Inl (unauthorized ''Invalid authorization token'')
                      | Inr (claims, trusted) \<Rightarrow> activate_jwt cfg req claims trusted))
                 else activate_api_key cfg req token)))"

section \<open>Lemmas\<close>

lemma includes_loop_iff: "includes_loop h matched cs \<longleftrightarrow> matched \<or> (\<exists>c \<in> set cs. sha256 (utf8 c) = h)"
  by (induction cs arbitrary: matched) auto

lemma constantTimeIncludes_iff: "constantTimeIncludes cs token \<longleftrightarrow> (\<exists>c \<in> set cs. sha256 (utf8 c) = sha256 (utf8 token))"
  by (auto simp: constantTimeIncludes_def includes_loop_iff)

lemma activate_jwt_ok:
  "activate_jwt cfg req claims trusted = Inr actor \<longleftrightarrow>
     claim_tenant claims \<noteq> Some DEFAULT_TENANT_ID \<and> readHeaderTenant req \<noteq> Some DEFAULT_TENANT_ID
     \<and> (claim_tenant claims = None \<or> readHeaderTenant req = None \<or> readHeaderTenant req = claim_tenant claims)
     \<and> (gc_requireTenant cfg \<longrightarrow> claim_tenant claims \<noteq> None)
     \<and> (claim_tenant claims = None \<longrightarrow> readHeaderTenant req \<noteq> None \<longrightarrow> gc_tenantHeaderTrust cfg = ''any_peer'')
     \<and> ((case trusted of Some e \<Rightarrow> ti_readOnly e | None \<Rightarrow> False) \<longrightarrow> isSafeForReadOnlyIssuer req)
     \<and> actor = jwt_actor claims trusted
         (case claim_tenant claims of Some t \<Rightarrow> t | None \<Rightarrow> (case readHeaderTenant req of Some h \<Rightarrow> h | None \<Rightarrow> DEFAULT_TENANT_ID))"
  unfolding activate_jwt_def Let_def bind_simps assertNotReservedTenant_ok throw_if_Inr by auto

lemma activate_api_key_ok:
  "activate_api_key cfg req token = Inr actor \<Longrightarrow> gc_authApiKeys cfg \<noteq> [] \<Longrightarrow>
     \<exists>t. constantTimeIncludes (gc_authApiKeys cfg) token \<and> tenantFor cfg token = Inr t \<and> readHeaderTenant req \<noteq> Some DEFAULT_TENANT_ID
       \<and> (t = DEFAULT_TENANT_ID \<or> readHeaderTenant req = None \<or> readHeaderTenant req = Some t)
       \<and> (gc_requireTenant cfg \<longrightarrow> t \<noteq> DEFAULT_TENANT_ID) \<and> actor = api_key_actor cfg token t"
  by (auto simp: activate_api_key_def bind_simps Let_def)

lemma canActivate_token:
  assumes "canActivate cfg validator False req = Inr actor"
  obtains h where "gr_authorization req = Some h"
    "if looksLikeJwt (bearer_token h)
     then (\<exists>verify claims trusted. validator = Some verify \<and> verify (bearer_token h) = Inr (claims, trusted)
       \<and> activate_jwt cfg req claims trusted = Inr actor)
     else activate_api_key cfg req (bearer_token h) = Inr actor"
  using assms by (auto simp: canActivate_def Let_def split: option.splits if_splits sum.splits)

lemma bearer_token_of: "bearer_token (''Bearer '' @ t) = t"
  by (simp add: bearer_token_def starts_with_def)

lemma canActivate_jwt:
  assumes "gr_authorization req = Some h" "bearer_token h = token" "token \<noteq> []" "looksLikeJwt token" "verify token = Inr (claims, trusted)"
  shows "canActivate cfg (Some verify) False req = activate_jwt cfg req claims trusted"
proof -
  have "h \<noteq> []" using assms(2,3) by (auto simp: bearer_token_def)
  then show ?thesis using assms by (simp add: canActivate_def Let_def)
qed

text \<open>The validator as the module wires it into the guard.\<close>

definition guard_validator ::
    "jwt_crypto \<Rightarrow> validator_config \<Rightarrow> revocation_check \<Rightarrow> (string \<Rightarrow> http_answer option) \<Rightarrow> clock \<Rightarrow> clock \<Rightarrow> clock \<Rightarrow> jwks_clients \<Rightarrow> token_validator" where
  "guard_validator J cfg revocations http t0 t1 t2 clients = Some (\<lambda>token. fst (verifyWithProvenance J cfg revocations http t0 t1 t2 token clients))"

lemma jwt_shape:
  assumes "signJwt J payload EdDSA (KEdPrivate k) keyid = Some token" "printable (JObj payload)"
  shows "looksLikeJwt token" "token \<noteq> []"
proof -
  have "signEdDSA J payload k keyid = Some token" using assms(1) by (simp add: signJwt_def)
  from signEdDSA_parts [OF this assms(2)] obtain h p where
    t: "token = h @ ''.'' @ p @ ''.'' @ b64url_encode (jc_ed_sign J k (h @ ''.'' @ p))" "CHR ''.'' \<notin> set h" "CHR ''.'' \<notin> set p"
    by metis
  show "looksLikeJwt token" unfolding looksLikeJwt_def t(1) signed_token_split [OF t(2,3)] by simp
  show "token \<noteq> []" unfolding t(1) by simp
qed

lemma minted_tenant:
  assumes "minted_claims cfg us jti did keyId = Inr claims"
  obtains lookup where "and_then (parseTenantAgents (ic_tenantAgentsRaw cfg)) buildAgentTenantLookup = Inr lookup"
    "claim_tenant claims = (if tenantForAgent lookup did = DEFAULT_TENANT_ID \<or> tenantForAgent lookup did = [] then None
       else Some (tenantForAgent lookup did))"
  using assms by (auto simp: minted_claims_def bind_simps Let_def claim_tenant_def get_prop_def)

section \<open>Properties\<close>

text \<open>C18. The tenant of a token request is the signed one: a request with a token gets the tenant of its \<open>tenant\<close> claim; the header
  can only repeat it. Without a claim the header counts only under \<open>TENANT_HEADER_TRUST=any_peer\<close>, and in strict mode such a
  token is refused. The reserved tenant is reached only when nothing is asserted, a token never gives admin rights, and
  a token of a read-only issuer passes only on a safe method or introspection.\<close>

theorem jwt_tenant_is_signed:
  assumes "canActivate cfg (Some verify) False req = Inr actor" "gr_authorization req = Some h" "looksLikeJwt (bearer_token h)"
  shows "\<exists>claims trusted. verify (bearer_token h) = Inr (claims, trusted)
    \<and> ra_tenantId actor = Some (case claim_tenant claims of Some t \<Rightarrow> t
        | None \<Rightarrow> (case readHeaderTenant req of Some v \<Rightarrow> v | None \<Rightarrow> DEFAULT_TENANT_ID))
    \<and> (claim_tenant claims = None \<or> readHeaderTenant req = None \<or> readHeaderTenant req = claim_tenant claims)
    \<and> (claim_tenant claims = None \<longrightarrow> readHeaderTenant req \<noteq> None \<longrightarrow> gc_tenantHeaderTrust cfg = ''any_peer'')
    \<and> claim_tenant claims \<noteq> Some DEFAULT_TENANT_ID \<and> readHeaderTenant req \<noteq> Some DEFAULT_TENANT_ID
    \<and> (gc_requireTenant cfg \<longrightarrow> claim_tenant claims \<noteq> None)
    \<and> ra_actorIsAdmin actor = Some False \<and> ra_actorDid actor = get_prop claims ''sub'' \<and> ra_actorFederated actor = Some (trusted \<noteq> None)
    \<and> (\<forall>e. trusted = Some e \<longrightarrow> ti_readOnly e \<longrightarrow> isSafeForReadOnlyIssuer req)"
proof -
  obtain claims trusted where "verify (bearer_token h) = Inr (claims, trusted)" "activate_jwt cfg req claims trusted = Inr actor"
    using canActivate_token [OF assms(1)] assms(2,3) by (metis option.inject)
  then show ?thesis by (auto simp: activate_jwt_ok jwt_actor_def)
qed

text \<open>The tenant of an API key is the configured one: an accepted key has the digest of a configured key, its tenant is the one the
  configuration binds to it, or the default for an unbound key, whatever the header says, and it is an admin
  exactly when an admin key has its digest.\<close>

theorem api_key_tenant_is_configured:
  assumes "canActivate cfg validator False req = Inr actor" "gr_authorization req = Some h" "\<not> looksLikeJwt (bearer_token h)"
    and "gc_authApiKeys cfg \<noteq> []" "parseTenantApiKeys (gc_tenantApiKeysRaw cfg) = Inr ks"
  shows "(\<exists>k \<in> set (gc_authApiKeys cfg). sha256 (utf8 k) = sha256 (utf8 (bearer_token h)))
    \<and> (ra_actorIsAdmin actor = Some True \<longleftrightarrow> (\<exists>k \<in> set (gc_authAdminApiKeys cfg). sha256 (utf8 k) = sha256 (utf8 (bearer_token h))))
    \<and> (\<exists>t. ra_tenantId actor = Some t
        \<and> (\<lparr>tk_tenantId = t, tk_apiKey = bearer_token h\<rparr> \<in> set ks \<or> t = DEFAULT_TENANT_ID \<and> bearer_token h \<notin> tk_apiKey ` set ks)
        \<and> (t = DEFAULT_TENANT_ID \<or> readHeaderTenant req = None \<or> readHeaderTenant req = Some t))"
proof -
  have "activate_api_key cfg req (bearer_token h) = Inr actor"
    using canActivate_token [OF assms(1)] assms(2,3) by (metis option.inject)
  then obtain t where t: "constantTimeIncludes (gc_authApiKeys cfg) (bearer_token h)" "tenantFor cfg (bearer_token h) = Inr t"
      "t = DEFAULT_TENANT_ID \<or> readHeaderTenant req = None \<or> readHeaderTenant req = Some t" "actor = api_key_actor cfg (bearer_token h) t"
    using activate_api_key_ok assms(4) by blast
  obtain lookup where lk: "buildTenantLookup ks = Inr lookup" "t = (case map_of lookup (bearer_token h) of Some t \<Rightarrow> t | None \<Rightarrow> DEFAULT_TENANT_ID)"
    using t(2) assms(5) by (auto simp: tenantFor_def split: sum.splits)
  have ne: "\<forall>k \<in> set ks. tk_tenantId k \<noteq> []" using assms(5) parse_tenant_entries_nonempty by (auto simp: parseTenantApiKeys_def split: if_splits)
  have "\<lparr>tk_tenantId = t, tk_apiKey = bearer_token h\<rparr> \<in> set ks \<or> t = DEFAULT_TENANT_ID \<and> bearer_token h \<notin> tk_apiKey ` set ks"
    using tenant_lookup_loop_spec [of ks "[]" lookup] lk ne by (auto simp: buildTenantLookup_def split: option.splits)
  with t show ?thesis by (auto simp: constantTimeIncludes_iff api_key_actor_def)
qed

definition sample_guard :: guard_config where
  "sample_guard = \<lparr>gc_authApiKeys = [''key-a'', ''key-b''], gc_authAdminApiKeys = [''key-b''], gc_tenantApiKeysRaw = ''t1:key-a'',
     gc_requireTenant = False, gc_tenantHeaderTrust = ''none''\<rparr>"

theorem api_key_tenant_is_configured_witness:
  "\<exists>actor. canActivate sample_guard None False
      \<lparr>gr_authorization = Some ''Bearer key-a'', gr_tenantHeader = Some (JStr '' t1 ''), gr_method = Some ''GET'', gr_path = None\<rparr> = Inr actor
    \<and> (\<exists>t. ra_tenantId actor = Some t \<and> (t = DEFAULT_TENANT_ID \<or> readHeaderTenant
      \<lparr>gr_authorization = Some ''Bearer key-a'', gr_tenantHeader = Some (JStr '' t1 ''), gr_method = Some ''GET'', gr_path = None\<rparr> = Some t))"
proof -
  let ?req = "\<lparr>gr_authorization = Some ''Bearer key-a'', gr_tenantHeader = Some (JStr '' t1 ''), gr_method = Some ''GET'', gr_path = None\<rparr>"
  have b: "bearer_token ''Bearer key-a'' = ''key-a''" "\<not> looksLikeJwt ''key-a''" "readHeaderTenant ?req = Some ''t1''"
    by code_simp+
  have ks: "parseTenantApiKeys (gc_tenantApiKeysRaw sample_guard) = Inr [\<lparr>tk_tenantId = ''t1'', tk_apiKey = ''key-a''\<rparr>]" by code_simp
  then have "tenantFor sample_guard ''key-a'' = Inr ''t1''" by (simp add: tenantFor_def buildTenantLookup_def)
  then have ok: "canActivate sample_guard None False ?req = Inr (api_key_actor sample_guard ''key-a'' ''t1'')"
    using b by (simp add: canActivate_def activate_api_key_def sample_guard_def constantTimeIncludes_iff DEFAULT_TENANT_ID_def
        assertNotReservedTenant_def Let_def)
  from api_key_tenant_is_configured [OF ok _ _ _ ks, of "''Bearer key-a''"] ok b show ?thesis by (auto simp: sample_guard_def)
qed



theorem jwt_tenant_is_signed_witness:
  "\<exists>h claims. looksLikeJwt (bearer_token h) \<and> canActivate sample_guard (guard_validator encoded_crypto sample_validator None (\<lambda>u. None) 7000000 7000000 7000000 [])
      False \<lparr>gr_authorization = Some h, gr_tenantHeader = None, gr_method = Some ''POST'', gr_path = None\<rparr>
      = Inr (jwt_actor claims None DEFAULT_TENANT_ID) \<and> claim_tenant claims \<noteq> Some DEFAULT_TENANT_ID"
proof -
  obtain token where t: "signJwt encoded_crypto (token_claims ''cp'') EdDSA (KEdPrivate ''priv'') (Some ''k1'') = Some token"
    using token_claims_signed by blast
  let ?h = "''Bearer '' @ token"
  let ?req = "\<lparr>gr_authorization = Some ?h, gr_tenantHeader = None, gr_method = Some ''POST'', gr_path = None\<rparr>"
  let ?v = "\<lambda>token. fst (verifyWithProvenance encoded_crypto sample_validator None (\<lambda>u. None) 7000000 7000000 7000000 token [])"
  have b: "bearer_token ?h = token" by (rule bearer_token_of)
  have v: "?v token = Inr (token_claims ''cp'', None)"
    by (rule sample_local_accepted [OF t]) (simp_all add: now_seconds_eq check_revoked_def)
  have "activate_jwt sample_guard ?req (token_claims ''cp'') None = Inr (jwt_actor (token_claims ''cp'') None DEFAULT_TENANT_ID)"
    by (simp add: activate_jwt_ok claim_tenant_def token_claims_get readHeaderTenant_def sample_guard_def)
  then have ok: "canActivate sample_guard (Some ?v) False ?req = Inr (jwt_actor (token_claims ''cp'') None DEFAULT_TENANT_ID)"
    using canActivate_jwt [OF _ b jwt_shape(2,1) [OF t token_claims_printable], where verify = ?v] v by simp
  have "gr_authorization ?req = Some ?h" "looksLikeJwt (bearer_token ?h)" using jwt_shape [OF t token_claims_printable] b by simp_all
  from jwt_tenant_is_signed [OF ok this] v b this ok show ?thesis
    by (auto simp: guard_validator_def intro!: exI [of _ ?h] exI [of _ "token_claims ''cp''"])
qed

end
