(* ===== verification/Quota.thy ===== *)
theory Quota
  imports Tenant
begin

text \<open>
  Per-tenant quotas: \<open>src/src/quota/quota-config.ts\<close> (the configuration), \<open>quota-store.ts\<close> (the fixed-window counters),
  \<open>quota.service.ts\<close> (the decision) and \<open>quota.guard.ts\<close> (the route guard).

  \<open>WINDOW_SECONDS[windowStr]\<close> reads a plain object, so the names of \<open>Object.prototype\<close> are found too; such a value is a
  \<open>ProtoMember\<close> and is \<open>NaN\<close> in arithmetic. Redis is outside the repository: the commands its script calls are the fields of \<open>redis_ops\<close>,
  and the script itself is \<open>incr_and_expire\<close>.
\<close>

section \<open>Configuration\<close>

datatype quota_action = Publish | RunStart | CapabilityDeclare | TokenIssue

fun action_string :: "quota_action \<Rightarrow> string" where
  "action_string Publish = ''publish''"
| "action_string RunStart = ''run.start''"
| "action_string CapabilityDeclare = ''capability.declare''"
| "action_string TokenIssue = ''token.issue''"

datatype window_value = Seconds int | ProtoMember string

record quota_limit =
  ql_count :: int
  ql_windowSeconds :: window_value

type_synonym tenant_limits = "(string, quota_limit) jsmap"
type_synonym quota_config = "(string, tenant_limits) jsmap"

datatype quota_config_error =
    MissingTenantPrefix string
  | EmptyTenantOrLimits string
  | MissingEquals string string
  | UnknownAction string string string
  | BadRate string string string
  | BadCount string string
  | BadWindow string string

definition OBJECT_PROTOTYPE :: "string list" where
  "OBJECT_PROTOTYPE = [''constructor'', ''__defineGetter__'', ''__defineSetter__'', ''hasOwnProperty'', ''__lookupGetter__'',
     ''__lookupSetter__'', ''isPrototypeOf'', ''propertyIsEnumerable'', ''toString'', ''valueOf'', ''__proto__'', ''toLocaleString'']"

definition WINDOW_SECONDS :: "string \<Rightarrow> window_value option" where
  "WINDOW_SECONDS w =
     (if w = ''sec'' then Some (Seconds 1) else if w = ''min'' then Some (Seconds 60) else if w = ''hour'' then Some (Seconds 3600)
      else if w \<in> set OBJECT_PROTOTYPE then Some (ProtoMember w) else None)"

definition VALID_ACTIONS :: "string list" where
  "VALID_ACTIONS = [''publish'', ''run.start'', ''capability.declare'', ''token.issue'', ''*'']"

text \<open>A separator at index 0 counts as missing.\<close>

definition split_at :: "char \<Rightarrow> string \<Rightarrow> (string \<times> string) option" where
  "split_at c s = (case index_of c s of
     Some ix \<Rightarrow> if ix = 0 then None else Some (trim (take ix s), trim (drop (ix + 1) s))
   | None \<Rightarrow> None)"

definition parseLimitEntry :: "string \<Rightarrow> string \<Rightarrow> quota_config_error + string \<times> quota_limit" where
  "parseLimitEntry entry tenantId = (case split_at (CHR ''='') entry of
     None \<Rightarrow> Inl (MissingEquals entry tenantId)
   | Some (action, rate) \<Rightarrow>
       if action \<notin> set VALID_ACTIONS then Inl (UnknownAction entry tenantId action)
       else (case split_at (CHR ''/'') rate of
           None \<Rightarrow> Inl (BadRate entry tenantId rate)
         | Some (countStr, windowStr) \<Rightarrow>
             (let count = js_number_string countStr
              in if \<not> isFinite count \<or> int_of_num count \<le> 0 \<or> \<not> isInteger count then Inl (BadCount entry tenantId)
                 else (case WINDOW_SECONDS windowStr of
                     None \<Rightarrow> Inl (BadWindow entry tenantId)
                   | Some w \<Rightarrow> Inr (action, \<lparr>ql_count = int_of_num count, ql_windowSeconds = w\<rparr>)))))"

fun parse_limits :: "string \<Rightarrow> tenant_limits \<Rightarrow> string list \<Rightarrow> quota_config_error + tenant_limits" where
  "parse_limits tenantId limits [] = Inr limits"
| "parse_limits tenantId limits (entry # entries) =
     and_then (parseLimitEntry entry tenantId) (\<lambda>(action, limit). parse_limits tenantId (AList.update action limit limits) entries)"

fun parse_blocks :: "quota_config \<Rightarrow> string list \<Rightarrow> quota_config_error + quota_config" where
  "parse_blocks byTenant [] = Inr byTenant"
| "parse_blocks byTenant (block # blocks) = (case split_at (CHR '':'') block of
     None \<Rightarrow> Inl (MissingTenantPrefix block)
   | Some (tenantId, limitsStr) \<Rightarrow>
       if tenantId = [] \<or> limitsStr = [] then Inl (EmptyTenantOrLimits block)
       else and_then (parse_limits tenantId [] (split_trim (CHR '','') limitsStr)) (\<lambda>limits.
            parse_blocks (AList.update tenantId limits byTenant) blocks))"

definition parseQuotaConfig :: "string \<Rightarrow> quota_config_error + quota_config" where
  "parseQuotaConfig raw = (if trim raw = [] then Inr [] else parse_blocks [] (split_trim (CHR '';'') raw))"

definition resolveLimit :: "quota_config \<Rightarrow> string \<Rightarrow> quota_action \<Rightarrow> quota_limit option" where
  "resolveLimit config tenantId action = (case map_of config tenantId of
     None \<Rightarrow> None
   | Some limits \<Rightarrow> (case map_of limits (action_string action) of Some l \<Rightarrow> Some l | None \<Rightarrow> map_of limits ''*''))"

section \<open>Counters\<close>

record quota_increment =
  qi_count :: int
  qi_ttlSeconds :: jsnum

record quota_bucket =
  qb_count :: int
  qb_expiresAt :: jsnum

type_synonym quota_buckets = "(string, quota_bucket) jsmap"

text \<open>\<open>now + windowSeconds * 1000\<close>, the comparison with the clock, and the seconds left in a window.\<close>

definition window_end :: "int \<Rightarrow> window_value \<Rightarrow> jsnum" where
  "window_end now w = (case w of Seconds n \<Rightarrow> num_of_int (now + n * 1000) | ProtoMember _ \<Rightarrow> NaN)"

definition expired_at :: "jsnum \<Rightarrow> int \<Rightarrow> bool" where
  "expired_at e now = (case e of Fin r \<Rightarrow> r \<le> of_int now | NegInf \<Rightarrow> True | _ \<Rightarrow> False)"

definition seconds_left :: "jsnum \<Rightarrow> int \<Rightarrow> jsnum" where
  "seconds_left e now = (case e of Fin r \<Rightarrow> num_of_int (max 1 \<lceil>(r - of_int now) / 1000\<rceil>) | _ \<Rightarrow> NaN)"

definition window_num :: "window_value \<Rightarrow> jsnum" where
  "window_num w = (case w of Seconds n \<Rightarrow> num_of_int n | ProtoMember _ \<Rightarrow> NaN)"

definition mem_increment :: "clock \<Rightarrow> string \<Rightarrow> window_value \<Rightarrow> quota_buckets \<Rightarrow> quota_increment \<times> quota_buckets" where
  "mem_increment us key w buckets =
     (let now = now_ms us;
          fresh = (\<lparr>qi_count = 1, qi_ttlSeconds = window_num w\<rparr>, AList.update key \<lparr>qb_count = 1, qb_expiresAt = window_end now w\<rparr> buckets)
      in case map_of buckets key of
           None \<Rightarrow> fresh
         | Some b \<Rightarrow> if expired_at (qb_expiresAt b) now then fresh
             else (\<lparr>qi_count = qb_count b + 1, qi_ttlSeconds = seconds_left (qb_expiresAt b) now\<rparr>,
               AList.update key (b\<lparr>qb_count := qb_count b + 1\<rparr>) buckets))"

text \<open>The commands of Redis on a server state; \<open>None\<close> is an error reply or a lost connection.\<close>

record 'r redis_ops =
  ro_incr :: "string \<Rightarrow> 'r \<Rightarrow> (int \<times> 'r) option"
  ro_expire :: "string \<Rightarrow> window_value \<Rightarrow> 'r \<Rightarrow> 'r option"
  ro_ttl :: "string \<Rightarrow> 'r \<Rightarrow> (int \<times> 'r) option"

text \<open>The script; a failing command ends it, and what it did before stays.\<close>

definition incr_and_expire :: "'r redis_ops \<Rightarrow> string \<Rightarrow> window_value \<Rightarrow> 'r \<Rightarrow> (int \<times> jsnum) option \<times> 'r" where
  "incr_and_expire R key w r = (case ro_incr R key r of
     None \<Rightarrow> (None, r)
   | Some (v, r1) \<Rightarrow>
       if v = 1 then (case ro_expire R key w r1 of Some r2 \<Rightarrow> (Some (v, window_num w), r2) | None \<Rightarrow> (None, r1))
       else (case ro_ttl R key r1 of
           None \<Rightarrow> (None, r1)
         | Some (ttl, r2) \<Rightarrow>
             if ttl < 0 then (case ro_expire R key w r2 of Some r3 \<Rightarrow> (Some (v, window_num w), r3) | None \<Rightarrow> (None, r2))
             else (Some (v, num_of_int ttl), r2)))"

definition redis_increment :: "'r redis_ops \<Rightarrow> string \<Rightarrow> window_value \<Rightarrow> 'r \<Rightarrow> quota_increment \<times> 'r" where
  "redis_increment R key w r = (case incr_and_expire R key w r of
     (Some (v, ttl), r') \<Rightarrow> (\<lparr>qi_count = v, qi_ttlSeconds = ttl\<rparr>, r')
   | (None, r') \<Rightarrow> (\<lparr>qi_count = 0, qi_ttlSeconds = Fin 0\<rparr>, r'))"

datatype redis_call = Quit | Disconnect

definition redis_close :: "string option \<Rightarrow> redis_call" where
  "redis_close status = (if status = Some ''ready'' then Quit else Disconnect)"

definition redis_health :: "string option \<Rightarrow> string" where
  "redis_health status = (if status = Some ''ready'' then ''up'' else ''down'')"

section \<open>The decision\<close>

definition max_one :: "jsnum \<Rightarrow> jsnum" where
  "max_one n = (case n of Fin r \<Rightarrow> Fin (max 1 r) | NegInf \<Rightarrow> Fin 1 | m \<Rightarrow> m)"

definition quota_key :: "string \<Rightarrow> quota_action \<Rightarrow> string" where
  "quota_key tenantId action = ''acdp:quota:'' @ tenantId @ '':'' @ action_string action"

text \<open>\<open>JSON.stringify\<close> leaves out a function and prints \<open>NaN\<close> as null.\<close>

definition window_json :: "window_value \<Rightarrow> jobj" where
  "window_json w = (case w of
     Seconds n \<Rightarrow> [(''windowSeconds'', JNum (num_of_int n))]
   | ProtoMember m \<Rightarrow> if m = ''__proto__'' then [(''windowSeconds'', JObj [])] else [])"

definition num_json :: "jsnum \<Rightarrow> json" where
  "num_json n = (case n of Fin r \<Rightarrow> JNum (Fin r) | _ \<Rightarrow> JNull)"

definition quota_exceeded :: "string \<Rightarrow> quota_action \<Rightarrow> quota_limit \<Rightarrow> jsnum \<Rightarrow> exn" where
  "quota_exceeded tenantId action limit retryAfter =
     (let details = [(''code'', JStr ''rate_limited''), (''tenantId'', JStr tenantId), (''action'', JStr (action_string action)),
          (''limit'', JNum (num_of_int (ql_count limit)))] @ window_json (ql_windowSeconds limit) @ [(''retryAfterSeconds'', num_json retryAfter)]
      in HttpException 429 (JObj ([(''statusCode'', JNum (num_of_int 429)), (''errorCode'', JStr (code_string QUOTA_EXCEEDED)),
           (''message'', JStr ''quota exceeded'')] @ details @ [(''metadata'', JObj details)])))"

type_synonym 's increment_op = "string \<Rightarrow> window_value \<Rightarrow> 's \<Rightarrow> quota_increment \<times> 's"

text \<open>The exception, or the request may proceed; with it the \<open>Retry-After\<close> header that is set on the response.\<close>

definition enforce ::
    "quota_config option \<Rightarrow> 's increment_op option \<Rightarrow> string \<Rightarrow> quota_action \<Rightarrow> 's \<Rightarrow> (exn + unit) \<times> jsnum option \<times> 's" where
  "enforce config store tenantId action s = (case (config, store) of
     (Some cfg, Some increment) \<Rightarrow> (case resolveLimit cfg tenantId action of
         None \<Rightarrow> (Inr (), None, s)
       | Some limit \<Rightarrow> (case increment (quota_key tenantId action) (ql_windowSeconds limit) s of
           (r, s') \<Rightarrow>
             if qi_count r = 0 then (Inr (), None, s')
             else if qi_count r > ql_count limit
             then (let retryAfter = max_one (qi_ttlSeconds r) in (Inl (quota_exceeded tenantId action limit retryAfter), Some retryAfter, s'))
             else (Inr (), None, s')))
   | _ \<Rightarrow> (Inr (), None, s))"

definition quota_canActivate ::
    "(string \<Rightarrow> quota_action \<Rightarrow> 's \<Rightarrow> (exn + unit) \<times> jsnum option \<times> 's) option \<Rightarrow> quota_action option \<Rightarrow> json option \<Rightarrow> 's
     \<Rightarrow> (exn + bool) \<times> jsnum option \<times> 's" where
  "quota_canActivate quota action requestTenant s = (case (action, quota) of
     (Some a, Some enf) \<Rightarrow>
       (let tenantId = (case requestTenant of Some (JStr t) \<Rightarrow> if t \<noteq> [] then t else DEFAULT_TENANT_ID | _ \<Rightarrow> DEFAULT_TENANT_ID)
        in case enf tenantId a s of (r, h, s') \<Rightarrow> (and_then r (\<lambda>_. Inr True), h, s'))
   | _ \<Rightarrow> (Inr True, None, s))"

section \<open>Lemmas\<close>

lemma action_string_inject: "action_string a = action_string b \<longleftrightarrow> a = b"
  by (cases a; cases b) simp_all

lemma action_no_colon: "CHR '':'' \<notin> set (action_string a)"
  by (cases a) simp_all

text \<open>Distinct tenants or actions never share a counter, even when a tenant id contains a colon.\<close>

lemma quota_key_inject: "quota_key t a = quota_key t' a' \<longleftrightarrow> t = t' \<and> a = a'"
  using append_sep_inject_right [of t "CHR '':''" "action_string a" t' "action_string a'"] action_no_colon [of a] action_no_colon [of a']
  by (auto simp: quota_key_def action_string_inject)

text \<open>The counts a parsed configuration can hold are positive.\<close>

definition quota_ok :: "quota_config \<Rightarrow> bool" where
  "quota_ok cfg = (\<forall>(t, limits) \<in> set cfg. \<forall>(a, l) \<in> set limits. 0 < ql_count l \<and> (\<forall>n. ql_windowSeconds l = Seconds n \<longrightarrow> 0 < n))"

lemma parseLimitEntry_ok: "parseLimitEntry e t = Inr (a, l) \<Longrightarrow> 0 < ql_count l \<and> (\<forall>n. ql_windowSeconds l = Seconds n \<longrightarrow> 0 < n)"
  by (auto simp: parseLimitEntry_def WINDOW_SECONDS_def Let_def split: option.splits if_splits)

lemma parse_limits_ok:
  "parse_limits t limits es = Inr limits' \<Longrightarrow> \<forall>(a, l) \<in> set limits. 0 < ql_count l \<and> (\<forall>n. ql_windowSeconds l = Seconds n \<longrightarrow> 0 < n) \<Longrightarrow>
   \<forall>(a, l) \<in> set limits'. 0 < ql_count l \<and> (\<forall>n. ql_windowSeconds l = Seconds n \<longrightarrow> 0 < n)"
proof (induction es arbitrary: limits)
  case (Cons e es)
  then obtain a l where p: "parseLimitEntry e t = Inr (a, l)" "parse_limits t (AList.update a l limits) es = Inr limits'"
    by (auto simp: bind_simps)
  have "\<forall>(a, l) \<in> set (AList.update a l limits). 0 < ql_count l \<and> (\<forall>n. ql_windowSeconds l = Seconds n \<longrightarrow> 0 < n)"
    using Cons.prems(2) parseLimitEntry_ok [OF p(1)] set_update_subset [of a l limits] by fastforce
  then show ?case by (rule Cons.IH [OF p(2)])
qed simp

lemma parse_blocks_ok: "parse_blocks cfg bs = Inr cfg' \<Longrightarrow> quota_ok cfg \<Longrightarrow> quota_ok cfg'"
proof (induction bs arbitrary: cfg)
  case (Cons b bs)
  then obtain t ls limits where p: "parse_limits t [] (split_trim (CHR '','') ls) = Inr limits"
      "parse_blocks (AList.update t limits cfg) bs = Inr cfg'"
    by (auto simp: bind_simps split: option.splits if_splits)
  have "quota_ok (AList.update t limits cfg)"
    using Cons.prems(2) parse_limits_ok [OF p(1)] set_update_subset [of t limits cfg] by (fastforce simp: quota_ok_def)
  then show ?case by (rule Cons.IH [OF p(2)])
qed simp

lemma parsed_quota_ok: "parseQuotaConfig raw = Inr cfg \<Longrightarrow> quota_ok cfg"
  using parse_blocks_ok [of "[]" "split_trim (CHR '';'') raw" cfg] by (auto simp: parseQuotaConfig_def quota_ok_def split: if_splits)

lemma resolved_limit_ok:
  assumes "quota_ok cfg" "resolveLimit cfg t a = Some l"
  shows "0 < ql_count l" "ql_windowSeconds l = Seconds n \<Longrightarrow> 0 < n"
proof -
  have "\<exists>k limits. (t, limits) \<in> set cfg \<and> (k, l) \<in> set limits"
    using assms(2) by (auto simp: resolveLimit_def split: option.splits dest: map_of_SomeD)
  with assms(1) show "0 < ql_count l" "ql_windowSeconds l = Seconds n \<Longrightarrow> 0 < n" by (fastforce simp: quota_ok_def)+
qed

section \<open>The fixed window\<close>

text \<open>A request is its arrival time, tenant and action; the requests are served in order on the in-memory counters.\<close>

type_synonym quota_request = "clock \<times> string \<times> quota_action"

fun serve_quota :: "quota_config \<Rightarrow> quota_request list \<Rightarrow> quota_buckets \<Rightarrow> ((string \<times> quota_action) \<times> bool) list" where
  "serve_quota cfg [] s = []"
| "serve_quota cfg ((us, t, a) # reqs) s = (case enforce (Some cfg) (Some (mem_increment us)) t a s of
     (r, h, s') \<Rightarrow> ((t, a), \<not> isl r) # serve_quota cfg reqs s')"

definition decisions_for :: "string \<Rightarrow> quota_action \<Rightarrow> ((string \<times> quota_action) \<times> bool) list \<Rightarrow> bool list" where
  "decisions_for t a ds = map snd (filter (\<lambda>d. fst d = (t, a)) ds)"

definition arrivals_of :: "string \<Rightarrow> quota_action \<Rightarrow> quota_request list \<Rightarrow> clock list" where
  "arrivals_of t a reqs = map fst (filter (\<lambda>q. snd q = (t, a)) reqs)"

lemma mem_increment_other: "k \<noteq> key \<Longrightarrow> map_of (snd (mem_increment us key w s)) k = map_of s k"
  by (simp add: mem_increment_def Let_def update_conv' split: option.split)

lemma enforce_other:
  assumes "enforce (Some cfg) (Some (mem_increment us)) t' a' s = (r, h, s')" "(t', a') \<noteq> (t, a)"
  shows "map_of s' (quota_key t a) = map_of s (quota_key t a)"
proof (cases "resolveLimit cfg t' a'")
  case None
  with assms(1) show ?thesis by (simp add: enforce_def)
next
  case (Some l)
  have "quota_key t a \<noteq> quota_key t' a'" using assms(2) by (auto simp: quota_key_inject)
  moreover have "s' = snd (mem_increment us (quota_key t' a') (ql_windowSeconds l) s)"
    using assms(1) Some by (auto simp: enforce_def Let_def split: prod.splits if_splits)
  ultimately show ?thesis using mem_increment_other by simp
qed

text \<open>A call on a live bucket, and one that opens a window.\<close>

lemma enforce_live:
  assumes "resolveLimit cfg t a = Some l" "map_of s (quota_key t a) = Some b" "\<not> expired_at (qb_expiresAt b) (now_ms us)" "0 \<le> qb_count b"
  obtains r h where "enforce (Some cfg) (Some (mem_increment us)) t a s =
      (r, h, AList.update (quota_key t a) (b\<lparr>qb_count := qb_count b + 1\<rparr>) s)" "isl r \<longleftrightarrow> ql_count l < qb_count b + 1"
proof (cases "ql_count l < qb_count b + 1")
  case True
  with assms that show thesis by (simp add: enforce_def mem_increment_def Let_def)
next
  case False
  with assms that show thesis by (simp add: enforce_def mem_increment_def Let_def)
qed

lemma enforce_fresh:
  assumes "resolveLimit cfg t a = Some l" "0 < ql_count l"
      "\<forall>b. map_of s (quota_key t a) = Some b \<longrightarrow> expired_at (qb_expiresAt b) (now_ms us)"
  shows "enforce (Some cfg) (Some (mem_increment us)) t a s =
      (Inr (), None, AList.update (quota_key t a) \<lparr>qb_count = 1, qb_expiresAt = window_end (now_ms us) (ql_windowSeconds l)\<rparr> s)"
  using assms by (auto simp: enforce_def mem_increment_def Let_def split: option.split)

lemma serve_live:
  assumes "resolveLimit cfg t a = Some l"
  shows "map_of s (quota_key t a) = Some b \<Longrightarrow> 0 \<le> qb_count b \<Longrightarrow>
    \<forall>us \<in> set (arrivals_of t a reqs). \<not> expired_at (qb_expiresAt b) (now_ms us) \<Longrightarrow>
    decisions_for t a (serve_quota cfg reqs s) = map (\<lambda>i. qb_count b + int i < ql_count l) [0..<length (arrivals_of t a reqs)]"
proof (induction reqs arbitrary: s b)
  case Nil
  then show ?case by (simp add: decisions_for_def arrivals_of_def)
next
  case (Cons q reqs)
  obtain us t' a' where q: "q = (us, t', a')" by (metis prod.exhaust)
  show ?case
  proof (cases "(t', a') = (t, a)")
    case True
    then have ar: "arrivals_of t a (q # reqs) = us # arrivals_of t a reqs" by (simp add: q arrivals_of_def)
    with Cons.prems(3) have live: "\<not> expired_at (qb_expiresAt b) (now_ms us)" by simp
    obtain r h where e: "enforce (Some cfg) (Some (mem_increment us)) t a s =
        (r, h, AList.update (quota_key t a) (b\<lparr>qb_count := qb_count b + 1\<rparr>) s)" "isl r \<longleftrightarrow> ql_count l < qb_count b + 1"
      by (rule enforce_live [OF assms Cons.prems(1) live Cons.prems(2)])
    let ?s = "AList.update (quota_key t a) (b\<lparr>qb_count := qb_count b + 1\<rparr>) s"
    have "decisions_for t a (serve_quota cfg reqs ?s) = map (\<lambda>i. qb_count b + 1 + int i < ql_count l) [0..<length (arrivals_of t a reqs)]"
      using Cons.IH [of ?s "b\<lparr>qb_count := qb_count b + 1\<rparr>"] Cons.prems ar by (simp add: update_conv')
    moreover have "decisions_for t a (serve_quota cfg (q # reqs) s) = (\<not> isl r) # decisions_for t a (serve_quota cfg reqs ?s)"
      using True e(1) by (simp add: q decisions_for_def)
    ultimately show ?thesis using e(2) by (auto simp: ar upt_conv_Cons map_Suc_upt [symmetric] simp del: upt_Suc)
  next
    case False
    obtain r h s' where e: "enforce (Some cfg) (Some (mem_increment us)) t' a' s = (r, h, s')" by (metis prod.exhaust)
    have ar: "arrivals_of t a (q # reqs) = arrivals_of t a reqs" using False by (auto simp: q arrivals_of_def)
    have "decisions_for t a (serve_quota cfg (q # reqs) s) = decisions_for t a (serve_quota cfg reqs s')"
      using False e by (auto simp: q decisions_for_def)
    with Cons.IH [of s' b] Cons.prems enforce_other [OF e False] ar show ?thesis by simp
  qed
qed

lemma serve_window:
  assumes "resolveLimit cfg t a = Some l" "0 < ql_count l"
  shows "\<forall>b. map_of s (quota_key t a) = Some b \<longrightarrow> expired_at (qb_expiresAt b) (now_ms us0) \<Longrightarrow>
    arrivals_of t a reqs = us0 # later \<Longrightarrow>
    \<forall>us \<in> set later. \<not> expired_at (window_end (now_ms us0) (ql_windowSeconds l)) (now_ms us) \<Longrightarrow>
    decisions_for t a (serve_quota cfg reqs s) = map (\<lambda>i. int i < ql_count l) [0..<length (arrivals_of t a reqs)]"
proof (induction reqs arbitrary: s)
  case Nil
  then show ?case by (simp add: arrivals_of_def)
next
  case (Cons q reqs)
  obtain us t' a' where q: "q = (us, t', a')" by (metis prod.exhaust)
  show ?case
  proof (cases "(t', a') = (t, a)")
    case True
    then have ar: "us = us0" "arrivals_of t a reqs = later" using Cons.prems(2) by (simp_all add: q arrivals_of_def)
    let ?b = "\<lparr>qb_count = 1, qb_expiresAt = window_end (now_ms us0) (ql_windowSeconds l)\<rparr>"
    let ?s = "AList.update (quota_key t a) ?b s"
    have "decisions_for t a (serve_quota cfg reqs ?s) = map (\<lambda>i. 1 + int i < ql_count l) [0..<length later]"
      using serve_live [OF assms(1), of ?s ?b reqs] Cons.prems(3) ar by (simp add: update_conv')
    moreover have "decisions_for t a (serve_quota cfg (q # reqs) s) = True # decisions_for t a (serve_quota cfg reqs ?s)"
      using True enforce_fresh [OF assms Cons.prems(1)] ar by (simp add: q decisions_for_def)
    ultimately show ?thesis
      using assms(2) by (auto simp: Cons.prems(2) upt_conv_Cons map_Suc_upt [symmetric] simp del: upt_Suc)
  next
    case False
    obtain r h s' where e: "enforce (Some cfg) (Some (mem_increment us)) t' a' s = (r, h, s')" by (metis prod.exhaust)
    have ar: "arrivals_of t a (q # reqs) = arrivals_of t a reqs" using False by (auto simp: q arrivals_of_def)
    have "decisions_for t a (serve_quota cfg (q # reqs) s) = decisions_for t a (serve_quota cfg reqs s')"
      using False e by (auto simp: q decisions_for_def)
    with Cons.IH [of s'] Cons.prems enforce_other [OF e False] ar show ?thesis by simp
  qed
qed

lemma expired_window_end [simp]: "expired_at (window_end now (Seconds n)) t \<longleftrightarrow> now + n * 1000 \<le> t"
  by (simp add: expired_at_def window_end_def num_of_int_def of_int_le_iff [where 'a = rat, symmetric] del: of_int_le_iff)

lemma proto_window_lives: "\<not> expired_at (window_end now (ProtoMember m)) t"
  by (simp add: expired_at_def window_end_def)

text \<open>C30. Under a configuration that parses, whatever other tenants and actions do in between, a tenant's requests for an action
  that arrive within one window are admitted exactly up to the configured count: the first \<open>count\<close> pass and every later one is refused. The
  window opens at the tenant's first request, with no counter for it yet or one whose window is over, so the count starts again
  after each window.\<close>

theorem quota_window_exact:
  assumes "parseQuotaConfig raw = Inr cfg" "resolveLimit cfg t a = Some l" "ql_windowSeconds l = Seconds n"
    and "\<forall>b. map_of s (quota_key t a) = Some b \<longrightarrow> expired_at (qb_expiresAt b) (now_ms us0)"
    and "arrivals_of t a reqs = us0 # later" "\<forall>us \<in> set later. now_ms us < now_ms us0 + n * 1000"
  shows "decisions_for t a (serve_quota cfg reqs s) = map (\<lambda>i. int i < ql_count l) [0..<length (arrivals_of t a reqs)]"
  using assms resolved_limit_ok(1) [OF parsed_quota_ok] by (intro serve_window) (auto simp: not_le)

text \<open>The same run from the source's example configuration: three publishes against two per minute, another tenant in between.\<close>

theorem quota_window_exact_witness:
  "decisions_for ''a'' Publish (serve_quota [(''a'', [(''publish'', \<lparr>ql_count = 2, ql_windowSeconds = Seconds 60\<rparr>)])]
     [(0, ''a'', Publish), (5, ''b'', Publish), (1000, ''a'', Publish), (59000000, ''a'', Publish)] []) = [True, True, False]"
proof -
  let ?cfg = "[(''a'', [(''publish'', \<lparr>ql_count = 2, ql_windowSeconds = Seconds 60\<rparr>)])]"
  have "parseQuotaConfig ''a:publish=2/min'' = Inr ?cfg" by code_simp
  then show ?thesis
    using quota_window_exact [of "''a:publish=2/min''" ?cfg "''a''" Publish "\<lparr>ql_count = 2, ql_windowSeconds = Seconds 60\<rparr>" 60 "[]" 0
        "[(0, ''a'', Publish), (5, ''b'', Publish), (1000, ''a'', Publish), (59000000, ''a'', Publish)]" "[1000, 59000000]"]
    by (simp add: resolveLimit_def arrivals_of_def now_ms_def)
qed

text \<open>The configuration \<open>publish=1/constructor\<close> is accepted, because the window name is looked up on a plain object and finds a member of
  \<open>Object.prototype\<close>; with the in-memory counters the tenant's first publish passes and no later one is ever admitted, at any time.\<close>

theorem proto_window_never_resets:
  "\<exists>cfg. parseQuotaConfig ''a:publish=1/constructor'' = Inr cfg \<and>
     (\<forall>us0 later. decisions_for ''a'' Publish (serve_quota cfg (map (\<lambda>us. (us, ''a'', Publish)) (us0 # later)) []) = True # map (\<lambda>us. False) later)"
proof -
  let ?l = "\<lparr>ql_count = 1, ql_windowSeconds = ProtoMember ''constructor''\<rparr>"
  let ?cfg = "[(''a'', [(''publish'', ?l)])]"
  have "parseQuotaConfig ''a:publish=1/constructor'' = Inr ?cfg" by code_simp
  moreover have "decisions_for ''a'' Publish (serve_quota ?cfg (map (\<lambda>us. (us, ''a'', Publish)) (us0 # later)) []) = True # map (\<lambda>us. False) later"
      (is "?D = _") for us0 later
  proof -
    have ar: "arrivals_of ''a'' Publish (map (\<lambda>us. (us, ''a'', Publish)) xs) = xs" for xs
      by (induction xs) (simp_all add: arrivals_of_def)
    have "?D = map (\<lambda>i. int i < ql_count ?l) [0..<length (us0 # later)]"
      using serve_window [of ?cfg "''a''" Publish ?l "[]" us0 "map (\<lambda>us. (us, ''a'', Publish)) (us0 # later)" later] ar [of "us0 # later"]
      by (simp add: resolveLimit_def proto_window_lives)
    also have "\<dots> = True # map (\<lambda>us. False) later"
      by (rule nth_equalityI) (auto simp: nth_Cons' simp del: upt_Suc)
    finally show ?thesis .
  qed
  ultimately show ?thesis by blast
qed

end
