(* ===== verification/Policy.thy ===== *)
theory Policy
  imports TokenIssuer "HOL-Library.List_Lexorder" "HOL-Library.Char_ord" "HOL-Library.Multiset"
begin

text \<open>
  The policy layer: \<open>src/src/policy/policy-decider.ts\<close> (requests and decisions), \<open>static-rules-policy.decider.ts\<close>,
  \<open>opa-policy.decider.ts\<close>, \<open>caching-policy.decider.ts\<close> and \<open>policy.guard.ts\<close>.

  The OPA server is outside the repository: a parameter that maps a time, a URL and the posted body to what \<open>fetch\<close> resolves to,
  \<open>None\<close> for a rejected or aborted fetch. The caching decider awaits the inner one between its lookup and its store, so its two halves
  are separate definitions and the histories below interleave them freely.
\<close>

section \<open>Requests and decisions\<close>

datatype policy_action = ContextPublish | ContextRetrieve | ContextList | PolicyCapabilityDeclare | PolicyRunStart | RunRead

fun policy_action_string :: "policy_action \<Rightarrow> string" where
  "policy_action_string ContextPublish = ''context.publish''"
| "policy_action_string ContextRetrieve = ''context.retrieve''"
| "policy_action_string ContextList = ''context.list''"
| "policy_action_string PolicyCapabilityDeclare = ''capability.declare''"
| "policy_action_string PolicyRunStart = ''run.start''"
| "policy_action_string RunRead = ''run.read''"

datatype visibility = VisPublic | VisRestricted | VisPrivate

fun visibility_string :: "visibility \<Rightarrow> string" where
  "visibility_string VisPublic = ''public''"
| "visibility_string VisRestricted = ''restricted''"
| "visibility_string VisPrivate = ''private''"

record policy_request =
  pr_subjectDid :: string
  pr_action :: policy_action
  pr_resourceId :: string
  pr_resourceVisibility :: "visibility option"
  pr_resourceAudience :: "string list option"
  pr_scopes :: "string list"
  pr_issuer :: "string option"
  pr_federated :: "bool option"
  pr_tenantId :: "string option"

datatype policy_deny_code = DenyVisibility | DenyAudience | DenyScope | DenyTenantMismatch | DenyUnauthenticated

fun deny_code_string :: "policy_deny_code \<Rightarrow> string" where
  "deny_code_string DenyVisibility = ''visibility''"
| "deny_code_string DenyAudience = ''audience''"
| "deny_code_string DenyScope = ''scope''"
| "deny_code_string DenyTenantMismatch = ''tenant_mismatch''"
| "deny_code_string DenyUnauthenticated = ''unauthenticated''"

datatype policy_decision =
    PolicyAllow
  | PolicyDeny policy_deny_code json
  | PolicyIndeterminate "json option"

section \<open>Static rules\<close>

record static_rules =
  sr_requiredScopes :: "(policy_action, string list) jsmap"
  sr_resourceTenantOf :: "(string \<Rightarrow> string option) option"

definition nonempty :: "string option \<Rightarrow> string option" where
  "nonempty s = (case s of Some (c # cs) \<Rightarrow> Some (c # cs) | _ \<Rightarrow> None)"

definition tenants_differ :: "static_rules \<Rightarrow> policy_request \<Rightarrow> (string \<times> string) option" where
  "tenants_differ cfg req =
     (let resourceTenant = (case sr_resourceTenantOf cfg of Some f \<Rightarrow> f (pr_resourceId req) | None \<Rightarrow> None)
      in case (nonempty (pr_tenantId req), nonempty resourceTenant) of
           (Some t, Some rt) \<Rightarrow> if t \<noteq> rt then Some (t, rt) else None
         | _ \<Rightarrow> None)"

definition missing_scopes :: "static_rules \<Rightarrow> policy_request \<Rightarrow> string list" where
  "missing_scopes cfg req =
     filter (\<lambda>s. s \<notin> set (pr_scopes req)) (case map_of (sr_requiredScopes cfg) (pr_action req) of Some ss \<Rightarrow> ss | None \<Rightarrow> [])"

definition static_decide :: "static_rules \<Rightarrow> policy_request \<Rightarrow> policy_decision" where
  "static_decide cfg req =
     (if pr_subjectDid req = [] then
        (if pr_action req = ContextRetrieve \<and> pr_resourceVisibility req = Some VisPublic then PolicyAllow
         else if pr_action req = ContextList then PolicyAllow
         else PolicyDeny DenyUnauthenticated (JStr (''action '' @ quoted (policy_action_string (pr_action req)) @ '' requires a subject'')))
      else (case tenants_differ cfg req of
        Some (t, rt) \<Rightarrow> PolicyDeny DenyTenantMismatch
          (JStr (''subject tenant '' @ quoted t @ '' does not match resource tenant '' @ quoted rt))
      | None \<Rightarrow>
          if missing_scopes cfg req \<noteq> [] then
            PolicyDeny DenyScope (JStr (''missing required scope(s) for '' @ quoted (policy_action_string (pr_action req)) @ '': ''
              @ join_with '' '' (missing_scopes cfg req)))
          else if pr_action req = ContextRetrieve then
            (case pr_resourceVisibility req of
               Some VisPublic \<Rightarrow> PolicyAllow
             | Some VisPrivate \<Rightarrow> PolicyDeny DenyVisibility (JStr ''resource is private'')
             | Some VisRestricted \<Rightarrow>
                 (let audience = (case pr_resourceAudience req of Some xs \<Rightarrow> xs | None \<Rightarrow> [])
                  in if audience = [] then PolicyDeny DenyAudience (JStr ''restricted resource has empty audience list'')
                     else if pr_subjectDid req \<notin> set audience
                     then PolicyDeny DenyAudience (JStr (''subject '' @ quoted (pr_subjectDid req) @ '' is not in the restricted audience list''))
                     else PolicyAllow)
             | None \<Rightarrow> PolicyAllow)
          else PolicyAllow))"

section \<open>The OPA backend\<close>

record opa_options =
  oo_baseUrl :: string
  oo_packagePath :: string
  oo_rule :: "string option"
  oo_failOpen :: "bool option"

definition strip_trailing :: "char \<Rightarrow> string \<Rightarrow> string" where
  "strip_trailing c s = rev (dropWhile (\<lambda>x. x = c) (rev s))"

fun collapse_slashes :: "string \<Rightarrow> string" where
  "collapse_slashes (a # b # s) =
     (if a = CHR ''/'' \<and> b = CHR ''/'' then collapse_slashes (b # s) else a # collapse_slashes (b # s))"
| "collapse_slashes s = s"

text \<open>The first \<open>:/\<close> becomes \<open>://\<close>.\<close>

fun restore_scheme :: "string \<Rightarrow> string" where
  "restore_scheme (a # b # s) =
     (if a = CHR '':'' \<and> b = CHR ''/'' then ''://'' @ s else a # restore_scheme (b # s))"
| "restore_scheme s = s"

definition opa_url :: "opa_options \<Rightarrow> string" where
  "opa_url opts =
     (let rule = (case oo_rule opts of Some r \<Rightarrow> r | None \<Rightarrow> ''decision'');
          base = strip_trailing (CHR ''/'') (oo_baseUrl opts);
          path = strip_trailing (CHR ''.'') (dropWhile (\<lambda>c. c = CHR ''.'')
            (map (\<lambda>c. if c = CHR ''/'' then CHR ''.'' else c) (oo_packagePath opts)))
      in restore_scheme (collapse_slashes (base @ ''/v1/data/'' @ path @ ''/'' @ rule)))"

definition opt_str :: "string option \<Rightarrow> string" where
  "opt_str s = (case s of Some x \<Rightarrow> x | None \<Rightarrow> [])"

definition toOpaInput :: "policy_request \<Rightarrow> json" where
  "toOpaInput req = JObj
     [(''subject_did'', JStr (pr_subjectDid req)),
      (''action'', JStr (policy_action_string (pr_action req))),
      (''resource_id'', JStr (pr_resourceId req)),
      (''resource_visibility'', (case pr_resourceVisibility req of Some v \<Rightarrow> JStr (visibility_string v) | None \<Rightarrow> JNull)),
      (''resource_audience'', JArr (map JStr (case pr_resourceAudience req of Some xs \<Rightarrow> xs | None \<Rightarrow> []))),
      (''scopes'', JArr (map JStr (pr_scopes req))),
      (''tenant_id'', JStr (opt_str (pr_tenantId req))),
      (''issuer'', JStr (opt_str (pr_issuer req))),
      (''federated'', JBool (pr_federated req = Some True))]"

definition DENY_CODES :: "policy_deny_code list" where
  "DENY_CODES = [DenyVisibility, DenyAudience, DenyScope, DenyTenantMismatch, DenyUnauthenticated]"

definition valid_deny_code :: "json \<Rightarrow> policy_deny_code" where
  "valid_deny_code code = (case filter (\<lambda>c. JStr (deny_code_string c) = code) DENY_CODES of
     c # _ \<Rightarrow> c | [] \<Rightarrow> DenyVisibility)"

text \<open>Reading \<open>result\<close> of a \<open>null\<close> body throws; other values that are not objects have no such member.\<close>

definition interpretOpa :: "json \<Rightarrow> exn + policy_decision" where
  "interpretOpa payload = (case payload of
     JNull \<Rightarrow> Inl (OtherObject [])
   | _ \<Rightarrow> (case (case payload of JObj ob \<Rightarrow> get_prop ob ''result'' | _ \<Rightarrow> None) of
       Some (JObj r) \<Rightarrow>
         if get_prop r ''allow'' = Some (JBool True) then Inr PolicyAllow
         else if get_prop r ''allow'' = Some (JBool False) then
           Inr (PolicyDeny (valid_deny_code (nullish (get_prop r ''deny_code'') (JStr ''visibility'')))
             (nullish (get_prop r ''deny_reason'') (JStr ''opa denied'')))
         else if get_prop r ''indeterminate'' = Some (JBool True) then
           Inr (PolicyIndeterminate (Some (nullish (get_prop r ''note'') (JStr ''opa indeterminate''))))
         else Inr (PolicyIndeterminate (Some (JStr ''opa result has neither allow nor indeterminate'')))
     | Some (JArr _) \<Rightarrow> Inr (PolicyIndeterminate (Some (JStr ''opa result has neither allow nor indeterminate'')))
     | _ \<Rightarrow> Inr (PolicyIndeterminate (Some (JStr ''opa returned no result'')))))"

type_synonym opa_server = "clock \<Rightarrow> string \<Rightarrow> json \<Rightarrow> http_answer option"

definition opa_onError :: "opa_options \<Rightarrow> policy_decision" where
  "opa_onError opts = (if oo_failOpen opts = Some True then PolicyAllow else PolicyIndeterminate (Some (JStr ''opa unreachable'')))"

definition opa_decide :: "opa_server \<Rightarrow> opa_options \<Rightarrow> clock \<Rightarrow> policy_request \<Rightarrow> exn + policy_decision" where
  "opa_decide server opts us req = (case server us (opa_url opts) (JObj [(''input'', toOpaInput req)]) of
     None \<Rightarrow> Inr (opa_onError opts)
   | Some resp \<Rightarrow>
       if \<not> http_ok resp then Inr (opa_onError opts)
       else (case ha_body_json resp of
           None \<Rightarrow> Inr (opa_onError opts)
         | Some payload \<Rightarrow> interpretOpa payload))"

section \<open>The cache\<close>

record policy_cache_entry =
  pe_decision :: policy_decision
  pe_expiresAt :: int

record policy_cache =
  pc_ttlMs :: int
  pc_maxEntries :: int
  pc_cache :: "(string, policy_cache_entry) jsmap"
  pc_hits :: nat
  pc_misses :: nat

definition new_policy_cache :: "int option \<Rightarrow> int option \<Rightarrow> policy_cache" where
  "new_policy_cache ttlMs maxEntries =
     \<lparr>pc_ttlMs = (case ttlMs of Some t \<Rightarrow> t | None \<Rightarrow> 5000), pc_maxEntries = (case maxEntries of Some n \<Rightarrow> n | None \<Rightarrow> 10000),
      pc_cache = [], pc_hits = 0, pc_misses = 0\<rparr>"

definition policy_key_fields :: "policy_request \<Rightarrow> string list" where
  "policy_key_fields req =
     [pr_subjectDid req, policy_action_string (pr_action req), pr_resourceId req,
      (case pr_resourceVisibility req of Some v \<Rightarrow> visibility_string v | None \<Rightarrow> []),
      (case pr_resourceAudience req of Some xs \<Rightarrow> join_with '','' (sort xs) | None \<Rightarrow> []),
      join_with '','' (sort (pr_scopes req)),
      opt_str (pr_tenantId req), opt_str (pr_issuer req),
      (if pr_federated req = Some True then ''1'' else ''0'')]"

definition cacheKey :: "policy_request \<Rightarrow> string" where
  "cacheKey req = join_with '';'' (policy_key_fields req)"

text \<open>The loop that removes the oldest entries.\<close>

fun evict_oldest :: "int \<Rightarrow> (string, 'e) jsmap \<Rightarrow> (string, 'e) jsmap" where
  "evict_oldest maxEntries [] = []"
| "evict_oldest maxEntries (e # es) = (if int (length (e # es)) > maxEntries then evict_oldest maxEntries es else e # es)"

text \<open>\<open>decide\<close> up to the await, with the decision of a hit; and from the await on. \<open>now\<close> is read before the await.\<close>

definition cache_lookup :: "clock \<Rightarrow> policy_request \<Rightarrow> policy_cache \<Rightarrow> policy_decision option \<times> policy_cache" where
  "cache_lookup us req c = (case map_of (pc_cache c) (cacheKey req) of
     Some hit \<Rightarrow> if pe_expiresAt hit > now_ms us
       then (Some (pe_decision hit),
         c\<lparr>pc_hits := pc_hits c + 1, pc_cache := AList.update (cacheKey req) hit (AList.delete (cacheKey req) (pc_cache c))\<rparr>)
       else (None, c\<lparr>pc_misses := pc_misses c + 1\<rparr>)
   | None \<Rightarrow> (None, c\<lparr>pc_misses := pc_misses c + 1\<rparr>))"

definition cache_store :: "clock \<Rightarrow> policy_request \<Rightarrow> exn + policy_decision \<Rightarrow> policy_cache \<Rightarrow> policy_cache" where
  "cache_store us req answer c = (case answer of
     Inr (PolicyIndeterminate n) \<Rightarrow> c
   | Inr decision \<Rightarrow> c\<lparr>pc_cache := evict_oldest (pc_maxEntries c)
       (AList.update (cacheKey req) \<lparr>pe_decision = decision, pe_expiresAt = now_ms us + pc_ttlMs c\<rparr> (pc_cache c))\<rparr>
   | Inl e \<Rightarrow> c)"

text \<open>The whole call when nothing else runs during the await.\<close>

definition caching_decide ::
    "(policy_request \<Rightarrow> exn + policy_decision) \<Rightarrow> clock \<Rightarrow> policy_request \<Rightarrow> policy_cache \<Rightarrow> (exn + policy_decision) \<times> policy_cache" where
  "caching_decide inner us req c = (case cache_lookup us req c of
     (Some d, c') \<Rightarrow> (Inr d, c')
   | (None, c') \<Rightarrow> (inner req, cache_store us req (inner req) c'))"

definition cache_invalidate :: "policy_request \<Rightarrow> policy_cache \<Rightarrow> policy_cache" where
  "cache_invalidate req c = c\<lparr>pc_cache := AList.delete (cacheKey req) (pc_cache c)\<rparr>"

definition cache_invalidateAll :: "policy_cache \<Rightarrow> policy_cache" where
  "cache_invalidateAll c = c\<lparr>pc_cache := []\<rparr>"

definition cache_size :: "policy_cache \<Rightarrow> nat" where
  "cache_size c = length (pc_cache c)"

section \<open>The guard\<close>

datatype route_param = OneSegment string | ManySegments "string list"

definition extractResourceId :: "(string, route_param) jsmap option \<Rightarrow> string" where
  "extractResourceId params =
     (let p = (case params of Some m \<Rightarrow> m | None \<Rightarrow> []);
          candidate = (case map_of p ''ctxId'' of Some c \<Rightarrow> Some c
            | None \<Rightarrow> (case map_of p ''runId'' of Some c \<Rightarrow> Some c | None \<Rightarrow> map_of p ''did''))
      in case candidate of
           Some (ManySegments xs) \<Rightarrow> join_with ''/'' xs
         | Some (OneSegment s) \<Rightarrow> s
         | None \<Rightarrow> [])"

definition policyDenied :: "string \<Rightarrow> json \<Rightarrow> json \<Rightarrow> exn" where
  "policyDenied message code reason = HttpException 403 (JObj
     [(''statusCode'', JNum (num_of_int 403)), (''errorCode'', JStr (code_string POLICY_DENIED)),
      (''message'', JStr message), (''code'', code), (''reason'', reason),
      (''metadata'', JObj [(''code'', code), (''reason'', reason)])])"

definition policy_request_of :: "policy_action \<Rightarrow> request_actor \<Rightarrow> (string, route_param) jsmap option \<Rightarrow> policy_request" where
  "policy_request_of action req params =
     \<lparr>pr_subjectDid = (case ra_actorDid req of
          Some (JStr (c # cs)) \<Rightarrow> c # cs
        | _ \<Rightarrow> (case ra_actorId req of Some (JStr s) \<Rightarrow> s | _ \<Rightarrow> [])),
      pr_action = action,
      pr_resourceId = extractResourceId params,
      pr_resourceVisibility = None,
      pr_resourceAudience = None,
      pr_scopes = (case ra_actorScopes req of Some xs \<Rightarrow> xs | None \<Rightarrow> []),
      pr_issuer = Some (case ra_actorIssuer req of Some (JStr s) \<Rightarrow> s | _ \<Rightarrow> []),
      pr_federated = Some (ra_actorFederated req = Some True),
      pr_tenantId = Some (case ra_tenantId req of Some t \<Rightarrow> t | None \<Rightarrow> DEFAULT_TENANT_ID)\<rparr>"

definition policy_outcome :: "exn + policy_decision \<Rightarrow> exn + bool" where
  "policy_outcome answer = (case answer of
     Inl e \<Rightarrow> Inl e
   | Inr PolicyAllow \<Rightarrow> Inr True
   | Inr (PolicyDeny code reason) \<Rightarrow> Inl (policyDenied ''policy denied'' (JStr (deny_code_string code)) reason)
   | Inr (PolicyIndeterminate note) \<Rightarrow>
       Inl (policyDenied ''policy indeterminate'' (JStr ''indeterminate'') (nullish note (JStr ''no rule matched''))))"

definition policy_canActivate ::
    "(policy_request \<Rightarrow> 's \<Rightarrow> (exn + policy_decision) \<times> 's) option \<Rightarrow> policy_action option \<Rightarrow> request_actor
     \<Rightarrow> (string, route_param) jsmap option \<Rightarrow> 's \<Rightarrow> (exn + bool) \<times> 's" where
  "policy_canActivate decider action req params s = (case (action, decider) of
     (Some a, Some decide) \<Rightarrow> (case decide (policy_request_of a req params) s of (answer, s') \<Rightarrow> (policy_outcome answer, s'))
   | _ \<Rightarrow> (Inr True, s))"

section \<open>Histories of the cache\<close>

text \<open>Callers ask, the inner decider answers a waiting call, and entries are dropped, in any order. The \<open>n\<close>-th waiting call is answered
  with the inner decision at that time.\<close>

datatype policy_op =
    PAsk clock policy_request
  | PAnswer clock nat
  | PInvalidate policy_request
  | PInvalidateAll

type_synonym policy_state = "policy_cache \<times> (clock \<times> policy_request) list"

fun policy_step ::
    "(clock \<Rightarrow> policy_request \<Rightarrow> exn + policy_decision) \<Rightarrow> policy_op \<Rightarrow> policy_state
     \<Rightarrow> (clock \<times> policy_request \<times> (exn + policy_decision)) option \<times> policy_state" where
  "policy_step inner (PAsk us req) (c, waiting) = (case cache_lookup us req c of
     (Some d, c') \<Rightarrow> (Some (us, req, Inr d), c', waiting)
   | (None, c') \<Rightarrow> (None, c', waiting @ [(us, req)]))"
| "policy_step inner (PAnswer us n) (c, waiting) =
     (if n < length waiting then (case waiting ! n of
        (us0, req) \<Rightarrow> (Some (us, req, inner us req), cache_store us0 req (inner us req) c, take n waiting @ drop (Suc n) waiting))
      else (None, c, waiting))"
| "policy_step inner (PInvalidate req) (c, waiting) = (None, cache_invalidate req c, waiting)"
| "policy_step inner PInvalidateAll (c, waiting) = (None, cache_invalidateAll c, waiting)"

definition policy_history ::
    "(clock \<Rightarrow> policy_request \<Rightarrow> exn + policy_decision) \<Rightarrow> policy_op list \<Rightarrow> policy_cache
     \<Rightarrow> (clock \<times> policy_request \<times> (exn + policy_decision)) option list" where
  "policy_history inner ops c = fst (run_ops (policy_step inner) ops (c, []))"

text \<open>Requests whose parts cannot be mistaken for separators of the key.\<close>

definition clean_field :: "string \<Rightarrow> bool" where
  "clean_field s = (CHR '';'' \<notin> set s)"

definition clean_item :: "string \<Rightarrow> bool" where
  "clean_item s = (s \<noteq> [] \<and> CHR '';'' \<notin> set s \<and> CHR '','' \<notin> set s)"

definition clean_request :: "policy_request \<Rightarrow> bool" where
  "clean_request req = (clean_field (pr_subjectDid req) \<and> clean_field (pr_resourceId req)
     \<and> list_all clean_item (case pr_resourceAudience req of Some xs \<Rightarrow> xs | None \<Rightarrow> []) \<and> list_all clean_item (pr_scopes req)
     \<and> clean_field (opt_str (pr_tenantId req)) \<and> clean_field (opt_str (pr_issuer req)))"

definition clean_op :: "policy_op \<Rightarrow> bool" where
  "clean_op x = (case x of PAsk us req \<Rightarrow> clean_request req | _ \<Rightarrow> True)"

section \<open>The cache key\<close>

lemma set_join_with: "set (join_with sep xs) \<subseteq> set sep \<union> \<Union> (set ` set xs)"
  by (induction sep xs rule: join_with.induct) auto

lemma join_empty_iff: "\<forall>x \<in> set xs. x \<noteq> [] \<Longrightarrow> join_with sep xs = [] \<longleftrightarrow> xs = []"
  by (induction sep xs rule: join_with.induct) auto

lemma join_items_inject:
  assumes "join_with '','' xs = join_with '','' ys" "list_all clean_item xs" "list_all clean_item ys"
  shows "xs = ys"
proof (cases "xs = [] \<or> ys = []")
  case True
  with assms show ?thesis using join_empty_iff [of xs "'',''"] join_empty_iff [of ys "'',''"] by (auto simp: list_all_iff clean_item_def)
next
  case False
  with assms show ?thesis using join_inject [of "CHR '',''" xs ys] by (auto simp: list_all_iff clean_item_def)
qed

lemma clean_join: "list_all clean_item xs \<Longrightarrow> CHR '';'' \<notin> set (join_with '','' xs)"
  using set_join_with [of "'',''" xs] by (auto simp: list_all_iff clean_item_def)

lemma list_all_sort [simp]: "list_all P (sort xs) = list_all P xs"
  by (simp add: list_all_iff)

lemma policy_action_string_clean: "CHR '';'' \<notin> set (policy_action_string a)"
  by (cases a) simp_all

lemma visibility_string_clean: "CHR '';'' \<notin> set (visibility_string v)" "visibility_string v \<noteq> []"
  by (cases v; simp)+

lemma policy_action_inject: "policy_action_string a = policy_action_string b \<longleftrightarrow> a = b"
  by (cases a; cases b) simp_all

lemma visibility_inject: "visibility_string a = visibility_string b \<longleftrightarrow> a = b"
  by (cases a; cases b) simp_all

lemma fields_clean:
  assumes "clean_request req"
  shows "\<forall>x \<in> set (policy_key_fields req). CHR '';'' \<notin> set x"
  using assms policy_action_string_clean [of "pr_action req"] visibility_string_clean(1)
    clean_join [of "sort (pr_scopes req)"] clean_join [of "sort (case pr_resourceAudience req of Some xs \<Rightarrow> xs | None \<Rightarrow> [])"]
  by (auto simp: policy_key_fields_def clean_request_def clean_field_def split: option.splits if_splits)

text \<open>What two requests with one key agree on: everything a decision may use, up to the order of scopes and audience.\<close>

lemma key_agrees:
  assumes "clean_request r" "clean_request r'" "cacheKey r = cacheKey r'"
  shows "pr_subjectDid r = pr_subjectDid r'" "pr_action r = pr_action r'" "pr_resourceId r = pr_resourceId r'"
    "pr_resourceVisibility r = pr_resourceVisibility r'"
    "mset (case pr_resourceAudience r of Some xs \<Rightarrow> xs | None \<Rightarrow> []) = mset (case pr_resourceAudience r' of Some xs \<Rightarrow> xs | None \<Rightarrow> [])"
    "mset (pr_scopes r) = mset (pr_scopes r')"
    "opt_str (pr_tenantId r) = opt_str (pr_tenantId r')" "opt_str (pr_issuer r) = opt_str (pr_issuer r')"
    "(pr_federated r = Some True) = (pr_federated r' = Some True)"
proof -
  have eq: "policy_key_fields r = policy_key_fields r'"
    using join_inject [of "CHR '';''" "policy_key_fields r" "policy_key_fields r'"] assms fields_clean
    by (simp add: cacheKey_def policy_key_fields_def)
  let ?aud = "\<lambda>q. case pr_resourceAudience q of Some xs \<Rightarrow> xs | None \<Rightarrow> []"
  have aud: "join_with '','' (sort (?aud r)) = join_with '','' (sort (?aud r'))"
    using eq by (auto simp: policy_key_fields_def split: option.splits)
  have "sort (?aud r) = sort (?aud r')" using aud assms by (intro join_items_inject) (simp_all add: clean_request_def)
  then show "mset (?aud r) = mset (?aud r')" by (metis mset_sort)
  have "sort (pr_scopes r) = sort (pr_scopes r')"
    using eq assms by (intro join_items_inject) (simp_all add: clean_request_def policy_key_fields_def)
  then show "mset (pr_scopes r) = mset (pr_scopes r')" by (metis mset_sort)
  show "pr_subjectDid r = pr_subjectDid r'" "pr_action r = pr_action r'" "pr_resourceId r = pr_resourceId r'"
    "opt_str (pr_tenantId r) = opt_str (pr_tenantId r')" "opt_str (pr_issuer r) = opt_str (pr_issuer r')"
    "(pr_federated r = Some True) = (pr_federated r' = Some True)"
    using eq by (simp_all add: policy_key_fields_def policy_action_inject split: if_splits)
  show "pr_resourceVisibility r = pr_resourceVisibility r'"
    using eq visibility_string_clean(2) [symmetric]
    by (cases "pr_resourceVisibility r"; cases "pr_resourceVisibility r'")
      (simp_all add: policy_key_fields_def visibility_inject visibility_string_clean(2))
qed

section \<open>Eviction\<close>

lemma evict_oldest_drop: "evict_oldest m c = drop (length c - nat m) c"
proof (induction c)
  case (Cons e c)
  show ?case
  proof (cases "int (length (e # c)) > m")
    case True
    then have "length (e # c) - nat m = (if m < 0 then Suc (length c) else Suc (length c - nat m))" by (auto simp: nat_less_iff)
    with True Cons.IH show ?thesis by auto
  qed auto
qed simp

lemma evict_oldest_subset: "set (evict_oldest m c) \<subseteq> set c"
  by (simp add: evict_oldest_drop set_drop_subset)

lemma evict_oldest_bound: "length (evict_oldest m c) \<le> nat m"
  by (simp add: evict_oldest_drop)

section \<open>The contract of an inner decider\<close>

text \<open>At any one time the decision is determined by the key.\<close>

locale keyed_decider =
  fixes inner :: "clock \<Rightarrow> policy_request \<Rightarrow> exn + policy_decision"
    and clean :: "policy_request \<Rightarrow> bool"
  assumes key_determines: "clean r \<Longrightarrow> clean r' \<Longrightarrow> cacheKey r = cacheKey r' \<Longrightarrow> inner us r = inner us r'"
begin

text \<open>Where an entry comes from: a call that was asked and answered before.\<close>

definition entry_from :: "policy_op list \<Rightarrow> int \<Rightarrow> string \<Rightarrow> policy_cache_entry \<Rightarrow> bool" where
  "entry_from ops ttl k e \<longleftrightarrow> (\<exists>us0 us1 n r. PAsk us0 r \<in> set ops \<and> PAnswer us1 n \<in> set ops \<and> clean r \<and> cacheKey r = k
     \<and> inner us1 r = Inr (pe_decision e) \<and> pe_expiresAt e = now_ms us0 + ttl)"

definition history_ok :: "policy_op list \<Rightarrow> int \<Rightarrow> policy_state \<Rightarrow> bool" where
  "history_ok ops ttl st \<longleftrightarrow> pc_ttlMs (fst st) = ttl
     \<and> (\<forall>(k, e) \<in> set (pc_cache (fst st)). entry_from ops ttl k e)
     \<and> (\<forall>(us, r) \<in> set (snd st). PAsk us r \<in> set ops \<and> clean r)"

lemma entry_fromI:
  "PAsk us0 r \<in> set ops \<Longrightarrow> PAnswer us1 n \<in> set ops \<Longrightarrow> clean r \<Longrightarrow> inner us1 r = Inr d \<Longrightarrow>
   entry_from ops ttl (cacheKey r) \<lparr>pe_decision = d, pe_expiresAt = now_ms us0 + ttl\<rparr>"
  unfolding entry_from_def by auto

lemma history_okI:
  assumes "pc_ttlMs c = ttl" "\<And>k e. (k, e) \<in> set (pc_cache c) \<Longrightarrow> entry_from ops ttl k e"
    "\<And>us r. (us, r) \<in> set waiting \<Longrightarrow> PAsk us r \<in> set ops \<and> clean r"
  shows "history_ok ops ttl (c, waiting)"
  using assms by (auto simp: history_ok_def)

lemma entry_from_more: "entry_from ops ttl k e \<Longrightarrow> entry_from (ops @ [x]) ttl k e"
  unfolding entry_from_def by auto

lemma lookup_entries:
  assumes "cache_lookup us r c = (d, c')"
  shows "set (pc_cache c') \<subseteq> set (pc_cache c)" "pc_ttlMs c' = pc_ttlMs c"
proof -
  have "set (AList.update k e (AList.delete k m)) \<subseteq> set m" if "map_of m k = Some e" for k :: string and e :: policy_cache_entry and m
    using that set_update_subset [of k e "AList.delete k m"] by (auto simp: AList.delete_eq dest: map_of_SomeD)
  then have "set (AList.update (cacheKey r) e (AList.delete (cacheKey r) (pc_cache c))) \<subseteq> set (pc_cache c)"
    if "map_of (pc_cache c) (cacheKey r) = Some e" for e
    using that by blast
  note refresh = subsetD [OF this]
  show "set (pc_cache c') \<subseteq> set (pc_cache c)"
    using assms by (auto simp: cache_lookup_def split: option.splits if_splits intro: refresh)
  show "pc_ttlMs c' = pc_ttlMs c" using assms by (auto simp: cache_lookup_def split: option.splits if_splits)
qed

lemma store_entries:
  "set (pc_cache (cache_store us r a c)) \<subseteq> set (pc_cache c) \<union>
     {(cacheKey r, \<lparr>pe_decision = d, pe_expiresAt = now_ms us + pc_ttlMs c\<rparr>) | d. a = Inr d}"
  "pc_ttlMs (cache_store us r a c) = pc_ttlMs c"
  using evict_oldest_subset set_update_subset
  by (fastforce simp: cache_store_def split: sum.splits policy_decision.splits)+

lemma history_ok_more: "history_ok ops ttl st \<Longrightarrow> history_ok (ops @ [x]) ttl st"
  unfolding history_ok_def using entry_from_more by fastforce

lemma history_step:
  assumes "history_ok ops ttl st" "\<And>us r. x = PAsk us r \<Longrightarrow> clean r"
  shows "history_ok (ops @ [x]) ttl (snd (policy_step inner x st))"
proof (cases st)
  case (Pair c waiting)
  have ok: "history_ok (ops @ [x]) ttl (c, waiting)" using assms(1) Pair history_ok_more by simp
  show ?thesis
  proof (cases x)
    case (PAsk us r)
    obtain d c' where l: "cache_lookup us r c = (d, c')" by (cases "cache_lookup us r c")
    show ?thesis using ok lookup_entries [OF l] assms(2) [OF PAsk] l PAsk Pair
      by (cases d) (auto simp: history_ok_def)
  next
    case (PAnswer us n)
    show ?thesis
    proof (cases "n < length waiting")
      case True
      obtain us0 r where w: "waiting ! n = (us0, r)" by (cases "waiting ! n")
      have "(us0, r) \<in> set waiting" using True w nth_mem by metis
      with ok have r: "PAsk us0 r \<in> set (ops @ [x])" "clean r" by (auto simp: history_ok_def)
      have sub: "set (take n waiting @ drop (Suc n) waiting) \<subseteq> set waiting" by (auto dest: in_set_takeD in_set_dropD)
      have new: "entry_from (ops @ [x]) ttl (cacheKey r) \<lparr>pe_decision = d, pe_expiresAt = now_ms us0 + ttl\<rparr>" if "inner us r = Inr d" for d
        using that r PAnswer by (intro entry_fromI [of us0 r _ us n]) simp_all
      have ttl: "pc_ttlMs c = ttl" and old: "\<And>k e. (k, e) \<in> set (pc_cache c) \<Longrightarrow> entry_from (ops @ [x]) ttl k e"
        and wait: "\<And>us r. (us, r) \<in> set waiting \<Longrightarrow> PAsk us r \<in> set (ops @ [x]) \<and> clean r"
        using ok by (auto simp: history_ok_def)
      have "entry_from (ops @ [x]) ttl k e" if "(k, e) \<in> set (pc_cache (cache_store us0 r (inner us r) c))" for k e
        using subsetD [OF store_entries(1) that] old new unfolding ttl by blast
      then have "history_ok (ops @ [x]) ttl (cache_store us0 r (inner us r) c, take n waiting @ drop (Suc n) waiting)"
        using sub wait ttl by (intro history_okI) (simp_all only: store_entries(2), blast+)
      with w True PAnswer Pair show ?thesis by simp
    qed (use ok PAnswer Pair in simp)
  next
    case (PInvalidate r)
    with ok Pair show ?thesis by (auto simp: history_ok_def cache_invalidate_def AList.delete_eq)
  next
    case PInvalidateAll
    with ok Pair show ?thesis by (auto simp: history_ok_def cache_invalidateAll_def)
  qed
qed

text \<open>An answer is the inner decision of that moment, or one obtained for a call asked less than the time to live before.\<close>

definition answer_fresh :: "policy_op list \<Rightarrow> int \<Rightarrow> clock \<Rightarrow> policy_request \<Rightarrow> exn + policy_decision \<Rightarrow> bool" where
  "answer_fresh ops ttl us r a \<longleftrightarrow> a = inner us r \<or> (\<exists>us0 us1 n r0. PAsk us0 r0 \<in> set ops \<and> PAnswer us1 n \<in> set ops
     \<and> a = inner us1 r \<and> now_ms us < now_ms us0 + ttl)"

lemma answer_step:
  assumes "history_ok ops ttl st" "\<And>us r. x = PAsk us r \<Longrightarrow> clean r" "fst (policy_step inner x st) = Some (us, r, a)"
  shows "answer_fresh ops ttl us r a"
proof (cases x)
  case (PAsk us' r')
  obtain c waiting where st: "st = (c, waiting)" by (cases st)
  obtain d c' where l: "cache_lookup us' r' c = (Some d, c')" "us = us'" "r = r'" "a = Inr d"
    using assms(3) PAsk st by (auto split: prod.splits option.splits)
  then obtain e where e: "map_of (pc_cache c) (cacheKey r) = Some e" "pe_expiresAt e > now_ms us" "pe_decision e = d"
    by (auto simp: cache_lookup_def split: option.splits if_splits)
  have "entry_from ops ttl (cacheKey r) e" using assms(1) map_of_SomeD [OF e(1)] st by (auto simp: history_ok_def)
  then obtain us0 us1 n r0 where f: "PAsk us0 r0 \<in> set ops" "PAnswer us1 n \<in> set ops" "clean r0" "cacheKey r0 = cacheKey r"
      "inner us1 r0 = Inr d" "pe_expiresAt e = now_ms us0 + ttl"
    unfolding entry_from_def using e(3) by blast
  have "inner us1 r = Inr d" using key_determines [of r r0 us1] f assms(2) [OF PAsk] l by simp
  then have "a = inner us1 r" "now_ms us < now_ms us0 + ttl" using f(6) e(2) l(4) by simp_all
  with f(1,2) show ?thesis unfolding answer_fresh_def by blast
next
  case (PAnswer us' n)
  then show ?thesis using assms(3) by (cases st) (auto simp: answer_fresh_def split: if_splits prod.splits)
qed (use assms(3) in \<open>(cases st; simp)+\<close>)

lemma history_fresh:
  assumes "history_ok done ttl st" "\<And>us r. PAsk us r \<in> set ops \<Longrightarrow> clean r"
    "Some (us, r, a) \<in> set (fst (run_ops (policy_step inner) ops st))"
  shows "answer_fresh (done @ ops) ttl us r a"
  using assms
proof (induction ops arbitrary: "done" st)
  case (Cons x ops)
  have more: "answer_fresh done ttl us r a \<Longrightarrow> answer_fresh (done @ xs) ttl us r a" for xs
    unfolding answer_fresh_def by auto
  show ?case
  proof (cases "fst (policy_step inner x st) = Some (us, r, a)")
    case True
    have "\<And>us r. x = PAsk us r \<Longrightarrow> clean r" using Cons.prems(2) by (meson list.set_intros(1))
    then show ?thesis using answer_step [OF Cons.prems(1) _ True] more by simp
  next
    case False
    have "answer_fresh ((done @ [x]) @ ops) ttl us r a"
    proof (rule Cons.IH)
      show "history_ok (done @ [x]) ttl (snd (policy_step inner x st))"
        using Cons.prems(2) by (intro history_step [OF Cons.prems(1)]) (meson list.set_intros(1))
      show "Some (us, r, a) \<in> set (fst (run_ops (policy_step inner) ops (snd (policy_step inner x st))))"
        using Cons.prems(3) False by (simp add: run_ops_Cons del: run_ops.simps(2))
    qed (use Cons.prems(2) in \<open>meson list.set_intros(2)\<close>)
    then show ?thesis by simp
  qed
qed simp

lemma answers_fresh:
  assumes "\<And>us r. PAsk us r \<in> set ops \<Longrightarrow> clean r" "Some (us, r, a) \<in> set (policy_history inner ops (new_policy_cache ttl m))"
  shows "answer_fresh ops (pc_ttlMs (new_policy_cache ttl m)) us r a"
proof -
  have "history_ok [] (pc_ttlMs (new_policy_cache ttl m)) (new_policy_cache ttl m, [])"
    by (simp add: history_ok_def new_policy_cache_def)
  from history_fresh [OF this assms(1)] assms(2) show ?thesis unfolding policy_history_def by simp
qed

end

text \<open>A decider that never changes its mind: the cache is invisible.\<close>

locale steady_decider = keyed_decider +
  assumes steady: "inner us r = inner us' r"
begin

lemma answers_exact:
  assumes "\<And>us r. PAsk us r \<in> set ops \<Longrightarrow> clean r" "Some (us, r, a) \<in> set (policy_history inner ops (new_policy_cache ttl m))"
  shows "a = inner us' r"
proof -
  have "answer_fresh ops (pc_ttlMs (new_policy_cache ttl m)) us r a" by (rule answers_fresh) (use assms in blast)+
  then show ?thesis unfolding answer_fresh_def using steady by metis
qed

end

section \<open>Static rules behind the cache\<close>

lemma nonempty_opt_str: "nonempty s = (if opt_str s = [] then None else Some (opt_str s))"
  by (auto simp: nonempty_def opt_str_def split: option.split list.split)

lemma static_key_determines:
  assumes "clean_request r" "clean_request r'" "cacheKey r = cacheKey r'"
  shows "static_decide cfg r = static_decide cfg r'"
proof -
  note k = key_agrees [OF assms]
  let ?aud = "\<lambda>q. case pr_resourceAudience q of Some xs \<Rightarrow> xs | None \<Rightarrow> []"
  have "set (?aud r) = set (?aud r')" using k(5) by (metis set_mset_mset)
  moreover from this have "?aud r = [] \<longleftrightarrow> ?aud r' = []" by (metis set_empty)
  moreover have "missing_scopes cfg r = missing_scopes cfg r'"
    using k(2) arg_cong [OF k(6), of set_mset] by (simp add: missing_scopes_def)
  moreover have "tenants_differ cfg r = tenants_differ cfg r'"
    by (simp only: tenants_differ_def nonempty_opt_str k(3,7))
  ultimately show ?thesis using k(1,2,4)
    by (cases "tenants_differ cfg r'"; cases "pr_resourceVisibility r'") (auto simp: static_decide_def Let_def split: visibility.split)
qed

interpretation static_rules_cache: steady_decider "\<lambda>us r. Inr (static_decide cfg r)" clean_request for cfg
  by unfold_locales (auto intro: static_key_determines)

lemma clean_ops: "list_all clean_op ops \<Longrightarrow> PAsk us r \<in> set ops \<Longrightarrow> clean_request r"
  by (auto simp: list_all_iff clean_op_def)

section \<open>OPA behind the cache\<close>

text \<open>A policy whose answers do not depend on the order in which scopes and audience are listed.\<close>

definition opa_order_free :: "opa_server \<Rightarrow> bool" where
  "opa_order_free server = (\<forall>us url r r'.
     pr_subjectDid r = pr_subjectDid r' \<and> pr_action r = pr_action r' \<and> pr_resourceId r = pr_resourceId r'
     \<and> pr_resourceVisibility r = pr_resourceVisibility r'
     \<and> mset (case pr_resourceAudience r of Some xs \<Rightarrow> xs | None \<Rightarrow> []) = mset (case pr_resourceAudience r' of Some xs \<Rightarrow> xs | None \<Rightarrow> [])
     \<and> mset (pr_scopes r) = mset (pr_scopes r') \<and> opt_str (pr_tenantId r) = opt_str (pr_tenantId r')
     \<and> opt_str (pr_issuer r) = opt_str (pr_issuer r') \<and> (pr_federated r = Some True) = (pr_federated r' = Some True)
     \<longrightarrow> server us url (JObj [(''input'', toOpaInput r)]) = server us url (JObj [(''input'', toOpaInput r')]))"

lemma opa_keyed:
  assumes "opa_order_free server"
  shows "keyed_decider (opa_decide server opts) clean_request"
proof
  fix r r' us assume k: "clean_request r" "clean_request r'" "cacheKey r = cacheKey r'"
  have "server us (opa_url opts) (JObj [(''input'', toOpaInput r)]) = server us (opa_url opts) (JObj [(''input'', toOpaInput r')])"
    using assms key_agrees [OF k] unfolding opa_order_free_def by blast
  then show "opa_decide server opts us r = opa_decide server opts us r'" by (simp add: opa_decide_def)
qed

lemma interpretOpa_allow:
  "interpretOpa payload = Inr PolicyAllow \<longleftrightarrow> (\<exists>ob r. payload = JObj ob \<and> get_prop ob ''result'' = Some (JObj r)
     \<and> get_prop r ''allow'' = Some (JBool True))"
  by (auto simp: interpretOpa_def split: json.splits option.splits if_splits)

lemma policy_outcome_True [simp]: "policy_outcome a = Inr True \<longleftrightarrow> a = Inr PolicyAllow"
  by (auto simp: policy_outcome_def split: sum.splits policy_decision.splits)

lemma opa_onError_allow [simp]: "opa_onError opts = PolicyAllow \<longleftrightarrow> oo_failOpen opts = Some True"
  by (simp add: opa_onError_def)

section \<open>Properties\<close>


definition sample_request :: "string \<Rightarrow> string list \<Rightarrow> policy_request" where
  "sample_request did ss = \<lparr>pr_subjectDid = did, pr_action = PolicyRunStart, pr_resourceId = ''r1'', pr_resourceVisibility = None,
     pr_resourceAudience = None, pr_scopes = ss, pr_issuer = Some ''cp'', pr_federated = Some False, pr_tenantId = Some ''t''\<rparr>"

definition sample_rules :: static_rules where
  "sample_rules = \<lparr>sr_requiredScopes = [(PolicyRunStart, [''a'', ''b''])], sr_resourceTenantOf = None\<rparr>"


text \<open>With the OPA backend and the production cache settings, every answer is the server's answer of that moment or one it gave for a call
  asked less than five seconds before; so a change of policy takes effect within five seconds. The server is assumed not to depend on the order of
  scopes and audience, which the key forgets.\<close>

theorem opa_answers_fresh:
  assumes "opa_order_free server" "list_all clean_op ops"
    and "Some (us, r, a) \<in> set (policy_history (opa_decide server opts) ops (new_policy_cache (Some 5000) (Some 10000)))"
  shows "a = opa_decide server opts us r \<or> (\<exists>us0 us1 n r0. PAsk us0 r0 \<in> set ops \<and> PAnswer us1 n \<in> set ops
     \<and> a = opa_decide server opts us1 r \<and> now_ms us < now_ms us0 + 5000)"
proof -
  note keyed = opa_keyed [OF assms(1), of opts]
  have "keyed_decider.answer_fresh (opa_decide server opts) ops (pc_ttlMs (new_policy_cache (Some 5000) (Some 10000))) us r a"
    by (rule keyed_decider.answers_fresh [OF keyed]) (use assms(2,3) clean_ops in blast)+
  then show ?thesis by (simp add: keyed_decider.answer_fresh_def [OF keyed] new_policy_cache_def)
qed

text \<open>A server that stops allowing after three seconds: at four seconds the cached permission is still served.\<close>

definition sample_server :: opa_server where
  "sample_server us url body = Some \<lparr>ha_status = 200, ha_content_length = None, ha_body_bytes = 30,
     ha_body_json = Some (JObj [(''result'', JObj [(''allow'', JBool (us < 3000000))])])\<rparr>"

definition sample_opa :: opa_options where
  "sample_opa = \<lparr>oo_baseUrl = ''http://localhost:8181'', oo_packagePath = ''acdp/policy/v1'', oo_rule = None, oo_failOpen = None\<rparr>"

theorem opa_answers_fresh_witness:
  "Some (4000000, sample_request ''did'' [], Inr PolicyAllow) \<in> set (policy_history (opa_decide sample_server sample_opa)
     [PAsk 0 (sample_request ''did'' []), PAnswer 1000 0, PAsk 4000000 (sample_request ''did'' [])] (new_policy_cache (Some 5000) (Some 10000)))
   \<and> opa_decide sample_server sample_opa 4000000 (sample_request ''did'' []) = Inr (PolicyDeny DenyVisibility (JStr ''opa denied''))
   \<and> (\<exists>us1. opa_decide sample_server sample_opa us1 (sample_request ''did'' []) = Inr PolicyAllow)"
proof -
  let ?ops = "[PAsk 0 (sample_request ''did'' []), PAnswer 1000 0, PAsk 4000000 (sample_request ''did'' [])]"
  have "Some (4000000, sample_request ''did'' [], Inr PolicyAllow) \<in> set (policy_history (opa_decide sample_server sample_opa) ?ops
      (new_policy_cache (Some 5000) (Some 10000)))" by code_simp
  moreover have "list_all clean_op ?ops" by code_simp
  moreover have "opa_order_free sample_server" by (simp add: opa_order_free_def sample_server_def)
  moreover have "opa_decide sample_server sample_opa 4000000 (sample_request ''did'' []) = Inr (PolicyDeny DenyVisibility (JStr ''opa denied''))"
    by code_simp
  ultimately show ?thesis
    using opa_answers_fresh [of sample_server ?ops 4000000 "sample_request ''did'' []" "Inr PolicyAllow" sample_opa] by auto
qed

text \<open>The policy guard on the OPA backend is fail-closed: a tagged route is entered exactly when the server answers 2xx with a JSON body whose
  \<open>result.allow\<close> is \<open>true\<close>; when it cannot be asked, answers another status or no JSON, only the fail-open option lets the request through.\<close>

theorem opa_guard_fail_closed:
  "fst (policy_canActivate (Some (\<lambda>r s. (opa_decide server opts us r, s))) (Some action) req params s) = Inr True \<longleftrightarrow>
     (case server us (opa_url opts) (JObj [(''input'', toOpaInput (policy_request_of action req params))]) of
        None \<Rightarrow> oo_failOpen opts = Some True
      | Some resp \<Rightarrow> if http_ok resp \<and> ha_body_json resp \<noteq> None
          then \<exists>ob r. ha_body_json resp = Some (JObj ob) \<and> get_prop ob ''result'' = Some (JObj r) \<and> get_prop r ''allow'' = Some (JBool True)
          else oo_failOpen opts = Some True)"
  by (auto simp: policy_canActivate_def opa_decide_def interpretOpa_allow split: option.splits)

text \<open>The cache key joins unescaped fields, so a token whose one scope is \<open>a,b\<close> has the key of a token with the scopes \<open>a\<close> and \<open>b\<close>: it is
  served the other's permission although the rules deny it.\<close>

theorem cache_key_confuses_scopes:
  "static_decide sample_rules (sample_request ''did'' [''a,b'']) \<noteq> PolicyAllow
   \<and> cacheKey (sample_request ''did'' [''a,b'']) = cacheKey (sample_request ''did'' [''a'', ''b''])
   \<and> policy_history (\<lambda>us r. Inr (static_decide sample_rules r))
       [PAsk 0 (sample_request ''did'' [''a'', ''b'']), PAnswer 1 0, PAsk 2000 (sample_request ''did'' [''a,b''])] (new_policy_cache None None)
     = [None, Some (1, sample_request ''did'' [''a'', ''b''], Inr PolicyAllow), Some (2000, sample_request ''did'' [''a,b''], Inr PolicyAllow)]"
  by code_simp

end
