(* ===== verification/Multibase.thy ===== *)
theory Multibase
  imports Prelude
begin

text \<open>
  \<open>src/src/common/multibase.ts\<close>: base58 and the multibase form of an Ed25519 public key; and \<open>src/src/common/did-authority.ts\<close>: a
  registry authority as a did:web identifier.

  A \<open>BigInt\<close> is a natural number; the hexadecimal strings the code goes through are kept.
\<close>

section \<open>Base 58\<close>

definition BASE58_ALPHABET :: string where
  "BASE58_ALPHABET = ''123456789ABCDEFGHJKLMNPQRSTUVWXYZabcdefghijkmnopqrstuvwxyz''"

definition BASE58_INDEX :: "char \<Rightarrow> nat option" where
  "BASE58_INDEX c = index_of c BASE58_ALPHABET"

text \<open>\<open>BigInt('0x' + hex)\<close> and \<open>x.toString(16)\<close>.\<close>

definition bigint_of_hex :: "string \<Rightarrow> nat" where
  "bigint_of_hex s = foldl (\<lambda>x c. x * 16 + hex_val c) 0 s"

fun hex_loop :: "nat \<Rightarrow> string \<Rightarrow> string" where
  "hex_loop x out = (if x > 0 then hex_loop (x div 16) (hex_char (x mod 16) # out) else out)"

definition hex_of_bigint :: "nat \<Rightarrow> string" where
  "hex_of_bigint x = (if x = 0 then ''0'' else hex_loop x [])"

fun encode_loop :: "nat \<Rightarrow> string \<Rightarrow> string" where
  "encode_loop x out = (if x > 0 then encode_loop (x div 58) (BASE58_ALPHABET ! (x mod 58) # out) else out)"

fun leading_ones :: "bytes \<Rightarrow> string \<Rightarrow> string" where
  "leading_ones [] out = out"
| "leading_ones (b # bs) out = (if b = 0 then leading_ones bs (BASE58_ALPHABET ! 0 # out) else out)"

definition base58btcEncode :: "bytes \<Rightarrow> string" where
  "base58btcEncode buf = leading_ones buf (encode_loop (bigint_of_hex (if buf = [] then ''0'' else hex_of_bytes buf)) [])"

fun decode_loop :: "nat \<Rightarrow> string \<Rightarrow> nat" where
  "decode_loop x [] = x"
| "decode_loop x (c # cs) = decode_loop (x * 58 + (case BASE58_INDEX c of Some d \<Rightarrow> d | None \<Rightarrow> 0)) cs"

fun count_leading :: "nat \<Rightarrow> string \<Rightarrow> nat" where
  "count_leading n [] = n"
| "count_leading n (c # cs) = (if c = BASE58_ALPHABET ! 0 then count_leading (n + 1) cs else n)"

definition base58btcDecode :: "string \<Rightarrow> bytes" where
  "base58btcDecode body =
     (let hex0 = hex_of_bigint (decode_loop 0 body);
          hex = (if length hex0 mod 2 = 1 then CHR ''0'' # hex0 else hex0);
          decoded = (if hex = ''0'' then [] else bytes_of_hex hex)
      in replicate (count_leading 0 body) 0 @ decoded)"

section \<open>Ed25519 keys\<close>

definition ED25519_MULTICODEC_PREFIX :: bytes where
  "ED25519_MULTICODEC_PREFIX = [0xed, 0x01]"

definition P256_MULTICODEC_PREFIX :: bytes where
  "P256_MULTICODEC_PREFIX = [0x80, 0x24]"

definition encodeEd25519Multibase :: "bytes \<Rightarrow> string" where
  "encodeEd25519Multibase publicKey = ''z'' @ base58btcEncode (ED25519_MULTICODEC_PREFIX @ publicKey)"

datatype multibase_error =
    NoMultibasePrefix
  | EmptyMultibase
  | BadBase58Char char
  | MultibaseTooShort
  | UnsupportedKeyAlgorithm bytes bool
  | WrongKeyLength nat

definition multibase_part :: "string \<Rightarrow> string" where
  "multibase_part input =
     (let withoutFragment = takeWhile (\<lambda>c. c \<noteq> CHR ''#'') input
      in if starts_with ''did:key:'' withoutFragment then drop 8 withoutFragment else withoutFragment)"

definition decodeEd25519Multibase :: "string \<Rightarrow> multibase_error + bytes" where
  "decodeEd25519Multibase input =
     (let multibase = multibase_part input; body = drop 1 multibase
      in if \<not> starts_with ''z'' multibase then Inl NoMultibasePrefix
         else if body = [] then Inl EmptyMultibase
         else (case filter (\<lambda>c. BASE58_INDEX c = None) body of
             c # _ \<Rightarrow> Inl (BadBase58Char c)
           | [] \<Rightarrow>
               (let decoded = base58btcDecode body; prefix = take 2 decoded; publicKey = drop 2 decoded
                in if length decoded < length ED25519_MULTICODEC_PREFIX then Inl MultibaseTooShort
                   else if prefix \<noteq> ED25519_MULTICODEC_PREFIX
                   then Inl (UnsupportedKeyAlgorithm prefix (prefix = P256_MULTICODEC_PREFIX))
                   else if length publicKey \<noteq> 32 then Inl (WrongKeyLength (length publicKey))
                   else Inr publicKey)))"

section \<open>Authorities and did:web\<close>

definition isCanonicalAuthority :: "string \<Rightarrow> bool" where
  "isCanonicalAuthority authority = (trim authority \<noteq> [] \<and> CHR ''%'' \<notin> set authority)"

definition colons_escaped :: "string \<Rightarrow> string" where
  "colons_escaped s = concat (map (\<lambda>c. if c = CHR '':'' then ''%3A'' else [c]) s)"

fun colons_restored :: "string \<Rightarrow> string" where
  "colons_restored (a # b # c # s) =
     (if a = CHR ''%'' \<and> b = CHR ''3'' \<and> c = CHR ''A'' then CHR '':'' # colons_restored s else a # colons_restored (b # c # s))"
| "colons_restored s = s"

definition authorityToDidWeb :: "string \<Rightarrow> string option" where
  "authorityToDidWeb authority =
     (if \<not> isCanonicalAuthority authority then None else Some (''did:web:'' @ colons_escaped authority))"

definition didWebToAuthority :: "string \<Rightarrow> string option" where
  "didWebToAuthority did =
     (if \<not> starts_with ''did:web:'' did then None
      else Some (colons_restored (takeWhile (\<lambda>c. c \<noteq> CHR '':'') (drop 8 did))))"

datatype authority_reason = AuthorityBlank | AuthorityEncoded

definition nonCanonicalAuthorityReason :: "string \<Rightarrow> authority_reason" where
  "nonCanonicalAuthorityReason authority = (if trim authority = [] then AuthorityBlank else AuthorityEncoded)"

section \<open>Positional notation\<close>

text \<open>The digits of a number in a base, most significant first, and the number of a digit list.\<close>

fun base_digits :: "nat \<Rightarrow> nat \<Rightarrow> nat list" where
  "base_digits b x = (if b < 2 \<or> x = 0 then [] else base_digits b (x div b) @ [x mod b])"

definition base_value :: "nat \<Rightarrow> nat list \<Rightarrow> nat" where
  "base_value b ds = foldl (\<lambda>x d. x * b + d) 0 ds"

declare base_digits.simps [simp del] hex_loop.simps [simp del] encode_loop.simps [simp del]

lemma base_digits_0 [simp]: "base_digits b 0 = []"
  by (simp add: base_digits.simps)

lemma base_digits_step: "2 \<le> b \<Longrightarrow> 0 < x \<Longrightarrow> base_digits b x = base_digits b (x div b) @ [x mod b]"
  by (subst base_digits.simps) simp

lemma base_value_snoc [simp]: "base_value b (ds @ [d]) = base_value b ds * b + d"
  by (simp add: base_value_def)

lemma base_value_Nil [simp]: "base_value b [] = 0"
  by (simp add: base_value_def)

lemma base_value_digits: "2 \<le> b \<Longrightarrow> base_value b (base_digits b x) = x"
proof (induction b x rule: base_digits.induct)
  case (1 b x)
  then show ?case by (cases "x = 0") (simp_all add: base_digits_step)
qed

lemma base_digits_less: "2 \<le> b \<Longrightarrow> d \<in> set (base_digits b x) \<Longrightarrow> d < b"
proof (induction b x rule: base_digits.induct)
  case (1 b x)
  then show ?case by (cases "x = 0") (auto simp: base_digits_step)
qed

text \<open>The other direction forgets leading zeros only.\<close>

lemma base_digits_value:
  "2 \<le> b \<Longrightarrow> \<forall>d \<in> set ds. d < b \<Longrightarrow> base_digits b (base_value b ds) = dropWhile (\<lambda>d. d = 0) ds"
proof (induction ds rule: rev_induct)
  case (snoc d ds)
  then have IH: "base_digits b (base_value b ds) = dropWhile (\<lambda>d. d = 0) ds" by simp
  show ?case
  proof (cases "base_value b ds * b + d = 0")
    case True
    then have z: "base_value b ds = 0" "d = 0" using snoc.prems(1) by auto
    have "dropWhile (\<lambda>d. d = 0) ds = []" using IH z(1) by simp
    then have "\<forall>x \<in> set ds. x = 0" by (simp only: dropWhile_eq_Nil_conv)
    with z show ?thesis by (simp add: dropWhile_append)
  next
    case False
    have "d < b" using snoc.prems(2) by simp
    then have "base_digits b (base_value b ds * b + d) = dropWhile (\<lambda>d. d = 0) ds @ [d]"
      using base_digits_step [OF snoc.prems(1), of "base_value b ds * b + d"] False IH snoc.prems(1) by (simp add: div_mult_self3)
    moreover have "dropWhile (\<lambda>d. d = 0) (ds @ [d]) = dropWhile (\<lambda>d. d = 0) ds @ [d]"
    proof (cases "\<forall>x \<in> set ds. x = 0")
      case True
      then have "base_value b ds = 0" by (induction ds rule: rev_induct) simp_all
      with False True show ?thesis by (simp add: dropWhile_append)
    qed (auto simp: dropWhile_append)
    ultimately show ?thesis by simp
  qed
qed simp

lemma base_value_zeros: "base_value b (replicate a 0 @ ds) = base_value b ds"
proof -
  have "foldl (\<lambda>x d. x * b + d) 0 (replicate a 0) = 0" by (induction a) simp_all
  then show ?thesis by (simp add: base_value_def)
qed

lemma base_digits_no_zero: "2 \<le> b \<Longrightarrow> takeWhile (\<lambda>d. d = 0) (base_digits b x) = []"
proof -
  assume b: "2 \<le> b"
  have "dropWhile (\<lambda>d. d = 0) (base_digits b x) = base_digits b x"
    using base_digits_value [OF b, of "base_digits b x"] base_digits_less [OF b] base_value_digits [OF b] by simp
  then show ?thesis using takeWhile_dropWhile_id [of "\<lambda>d. d = 0" "base_digits b x"] by (metis append_same_eq append_Nil)
qed

section \<open>The loops as digits\<close>

abbreviation b58_char :: "nat \<Rightarrow> char" where
  "b58_char d \<equiv> BASE58_ALPHABET ! d"

definition b58_val :: "char \<Rightarrow> nat" where
  "b58_val c = (case BASE58_INDEX c of Some d \<Rightarrow> d | None \<Rightarrow> 0)"

lemma b58_table: "list_all (\<lambda>d. BASE58_INDEX (b58_char d) = Some d \<and> (b58_char d = CHR ''1'') = (d = 0)) [0..<58]"
  by code_simp

lemma b58_char: "d < 58 \<Longrightarrow> BASE58_INDEX (b58_char d) = Some d" "d < 58 \<Longrightarrow> b58_char d = CHR ''1'' \<longleftrightarrow> d = 0"
  using b58_table by (simp_all add: list_all_iff)

lemma index_of_nth: "index_of c s = Some i \<Longrightarrow> i < length s \<and> s ! i = c"
  by (induction s arbitrary: i) (auto split: if_splits)

lemma b58_length: "length BASE58_ALPHABET = 58"
  by code_simp

lemma b58_val: "BASE58_INDEX c \<noteq> None \<Longrightarrow> b58_val c < 58 \<and> b58_char (b58_val c) = c"
  using index_of_nth [of c BASE58_ALPHABET] by (auto simp: BASE58_INDEX_def b58_val_def b58_length)

lemma b58_val_char [simp]: "d < 58 \<Longrightarrow> b58_val (b58_char d) = d"
  by (simp add: b58_val_def b58_char)

lemma b58_zero: "b58_char 0 = CHR ''1''"
  by code_simp

lemma encode_loop_digits: "encode_loop x out = map b58_char (base_digits 58 x) @ out"
proof (induction x out rule: encode_loop.induct)
  case (1 x out)
  then show ?case by (subst encode_loop.simps) (auto simp: base_digits_step)
qed

lemma hex_loop_digits: "hex_loop x out = map hex_char (base_digits 16 x) @ out"
proof (induction x out rule: hex_loop.induct)
  case (1 x out)
  then show ?case by (subst hex_loop.simps) (auto simp: base_digits_step)
qed

lemma decode_loop_value: "decode_loop x s = foldl (\<lambda>x d. x * 58 + d) x (map b58_val s)"
  by (induction s arbitrary: x) (simp_all add: b58_val_def)

lemma leading_ones_eq: "leading_ones bs out = replicate (length (takeWhile (\<lambda>b. b = 0) bs)) (CHR ''1'') @ out"
  by (induction bs arbitrary: out) (simp_all add: b58_zero replicate_app_Cons_same)

lemma count_leading_eq: "count_leading n s = n + length (takeWhile (\<lambda>c. c = CHR ''1'') s)"
  by (induction s arbitrary: n) (simp_all add: b58_zero)

lemma hex_of_bytes_simps [simp]:
  "hex_of_bytes [] = []" "hex_of_bytes (xs @ ys) = hex_of_bytes xs @ hex_of_bytes ys"
  "hex_of_bytes [b] = [hex_char (unat b div 16), hex_char (unat b mod 16)]"
  by (simp_all add: hex_of_bytes_def hex_of_byte_def)

lemma bigint_of_bytes: "bigint_of_hex (hex_of_bytes bs) = base_value 256 (map unat bs)"
proof (induction bs rule: rev_induct)
  case (snoc b bs)
  have "unat b < 256" using unsigned_less [of b] by simp
  then have "hex_val (hex_char (unat b div 16)) = unat b div 16" "hex_val (hex_char (unat b mod 16)) = unat b mod 16"
    by (intro hex_val_char; simp)+
  moreover have "unat b = 16 * (unat b div 16) + unat b mod 16" by simp
  ultimately show ?case using snoc by (simp add: bigint_of_hex_def algebra_simps)
qed (simp add: bigint_of_hex_def)

definition even_hex :: "string \<Rightarrow> string" where
  "even_hex s = (if length s mod 2 = 1 then CHR ''0'' # s else s)"

lemma hex_zero: "hex_char 0 = CHR ''0''"
  by code_simp

lemma even_hex_digits:
  "0 < x \<Longrightarrow> even_hex (map hex_char (base_digits 16 x)) = hex_of_bytes (map of_nat (base_digits 256 x))"
proof (induction x rule: less_induct)
  case (less x)
  define q r where qr: "q = x div 256" "r = x mod 256"
  have r: "r < 256" "unat (of_nat r :: byte) = r" by (simp_all add: qr unat_of_nat8)
  show ?case
  proof (cases "q = 0")
    case True
    then have x: "x = r" "x < 256" by (simp_all add: qr)
    have "base_digits 256 x = [x]" using less.prems x by (simp add: base_digits_step)
    moreover have "base_digits 16 x = (if x < 16 then [x] else [x div 16, x mod 16])"
      using less.prems x by (auto simp: base_digits_step)
    ultimately show ?thesis using r x(1) by (auto simp: even_hex_def hex_zero)
  next
    case False
    have d256: "base_digits 256 x = base_digits 256 q @ [r]" using less.prems by (simp add: base_digits_step qr)
    have "x div 16 > 0" "x div 16 div 16 = q" "x div 16 mod 16 = r div 16" "x mod 16 = r mod 16"
      using False by (auto simp: qr div_mult2_eq [symmetric] mod_mod_cancel mod_mult2_eq [of x 16 16, simplified])
    then have d16: "base_digits 16 x = base_digits 16 q @ [r div 16, r mod 16]"
      using less.prems by (simp add: base_digits_step)
    have "q < x" using less.prems by (simp add: qr)
    then have "even_hex (map hex_char (base_digits 16 q)) = hex_of_bytes (map of_nat (base_digits 256 q))"
      using less.IH False by simp
    moreover have "even_hex (s @ [a, b]) = even_hex s @ [a, b]" for s a b by (simp add: even_hex_def)
    ultimately show ?thesis using r by (simp add: d16 d256)
  qed
qed

lemma base58btcDecode_eq:
  "base58btcDecode body = replicate (length (takeWhile (\<lambda>c. c = CHR ''1'') body)) 0 @
     (let n = base_value 58 (map b58_val body) in if n = 0 then [0] else map of_nat (base_digits 256 n))"
proof -
  let ?n = "base_value 58 (map b58_val body)"
  have n: "decode_loop 0 body = ?n" by (simp add: decode_loop_value base_value_def)
  show ?thesis
  proof (cases "?n = 0")
    case True
    then show ?thesis by (simp add: base58btcDecode_def n hex_of_bigint_def count_leading_eq Let_def hex_val_def) (simp add: hex_digits_def)
  next
    case False
    then have "even_hex (hex_of_bigint ?n) = hex_of_bytes (map of_nat (base_digits 256 ?n))"
      by (simp add: hex_of_bigint_def hex_loop_digits even_hex_digits)
    moreover have "hex_of_bytes bs \<noteq> ''0''" for bs
    proof
      assume "hex_of_bytes bs = ''0''"
      then have "2 * length bs = 1" using length_hex_of_bytes [of bs] by simp
      then show False by presburger
    qed
    ultimately show ?thesis using False
      unfolding base58btcDecode_def n Let_def even_hex_def [symmetric] count_leading_eq by simp
  qed
qed

lemma base58btcEncode_eq:
  "base58btcEncode buf = replicate (length (takeWhile (\<lambda>b. b = 0) buf)) (CHR ''1'') @ map b58_char (base_digits 58 (base_value 256 (map unat buf)))"
  by (cases "buf = []") (simp_all add: base58btcEncode_def leading_ones_eq encode_loop_digits bigint_of_bytes,
    simp add: bigint_of_hex_def hex_zero [symmetric])

lemma drop_leading_bytes: "map of_nat (dropWhile (\<lambda>d. d = 0) (map unat bs)) = dropWhile (\<lambda>b. b = 0) bs" for bs :: bytes
  by (induction bs) (simp_all add: unat_eq_0 o_def)

lemma bytes_below: "\<forall>d \<in> set (map unat bs). d < 256" for bs :: bytes
proof -
  have "unat b < 256" for b :: byte using unsigned_less [of b] by simp
  then show ?thesis by simp
qed

lemma zero_value: "base_value 256 (map unat bs) = 0 \<longleftrightarrow> (\<forall>b \<in> set bs. b = 0)" for bs :: bytes
  by (induction bs rule: rev_induct) (auto simp: unat_eq_0)

lemma zeros_split: "replicate (length (takeWhile (\<lambda>b. b = 0) bs)) 0 @ dropWhile (\<lambda>b. b = 0) bs = bs"
  by (induction bs) simp_all

lemma all_zero_replicate: "\<forall>b \<in> set bs. b = 0 \<Longrightarrow> length (takeWhile (\<lambda>b. b = 0) bs) = length bs"
  by (induction bs) simp_all

lemma takeWhile_ones:
  "takeWhile (\<lambda>c. c = CHR ''1'') (replicate a (CHR ''1'') @ map b58_char (base_digits 58 n)) = replicate a (CHR ''1'')"
proof -
  have "takeWhile (\<lambda>c. c = CHR ''1'') (map b58_char ds) = map b58_char (takeWhile (\<lambda>d. d = 0) ds)" if "\<forall>d \<in> set ds. d < 58" for ds
    using that b58_char(2) by (induction ds) auto
  then have "takeWhile (\<lambda>c. c = CHR ''1'') (map b58_char (base_digits 58 n)) = []"
    using base_digits_no_zero [of 58 n] base_digits_less [of 58 _ n] by simp
  then show ?thesis by (induction a) simp_all
qed

lemma encoded_value: "base_value 58 (map b58_val (base58btcEncode buf)) = base_value 256 (map unat buf)"
proof -
  let ?n = "base_value 256 (map unat buf)"
  have "map b58_val (map b58_char (base_digits 58 ?n)) = base_digits 58 ?n"
    using base_digits_less [of 58 _ ?n] by (simp add: map_idI)
  moreover have "b58_val (CHR ''1'') = 0" using b58_val_char [of 0] by (simp add: b58_zero)
  ultimately show ?thesis by (simp only: base58btcEncode_eq map_append map_replicate base_value_zeros) (simp add: base_value_digits)
qed

lemma base58_decode_encode:
  "base58btcDecode (base58btcEncode buf) = (if \<forall>b \<in> set buf. b = 0 then replicate (length buf) 0 @ [0] else buf)"
proof -
  have ones: "length (takeWhile (\<lambda>c. c = CHR ''1'') (base58btcEncode buf)) = length (takeWhile (\<lambda>b. b = 0) buf)"
    by (simp only: base58btcEncode_eq takeWhile_ones length_replicate)
  show ?thesis
  proof (cases "\<forall>b \<in> set buf. b = 0")
    case True
    then have "base_value 256 (map unat buf) = 0" by (simp only: zero_value)
    with True show ?thesis by (simp add: base58btcDecode_eq encoded_value ones all_zero_replicate)
  next
    case False
    then have "base_value 256 (map unat buf) \<noteq> 0" by (simp only: zero_value) simp
    moreover have "map of_nat (base_digits 256 (base_value 256 (map unat buf))) = dropWhile (\<lambda>b. b = 0) buf"
      using base_digits_value [OF _ bytes_below, of buf] drop_leading_bytes [of buf] by simp
    ultimately have "base58btcDecode (base58btcEncode buf) = buf"
      by (simp only: base58btcDecode_eq encoded_value ones zeros_split Let_def if_False)
    with False show ?thesis by auto
  qed
qed

text \<open>The body of a decoded key is the only spelling of that key.\<close>

lemma base58_canonical:
  assumes "\<forall>c \<in> set body. BASE58_INDEX c \<noteq> None" "base58btcDecode body = b # bs" "b \<noteq> 0"
  shows "base58btcEncode (b # bs) = body"
proof -
  let ?ds = "map b58_val body" and ?n = "base_value 58 (map b58_val body)"
  have ds: "\<forall>d \<in> set ?ds. d < 58" "map b58_char ?ds = body" using assms(1) b58_val by (auto simp: map_idI)
  have lead: "takeWhile (\<lambda>c. c = CHR ''1'') body = []" and n: "?n \<noteq> 0" and bytes: "map of_nat (base_digits 256 ?n) = b # bs"
    using assms(2,3) by (auto simp: base58btcDecode_eq Let_def split: if_splits) (cases "takeWhile (\<lambda>c. c = CHR ''1'') body"; simp)+
  have "map unat (b # bs) = base_digits 256 ?n"
    using base_digits_less [of 256 _ ?n] by (simp add: bytes [symmetric] unat_of_nat8 map_idI o_def)
  then have v: "base_value 256 (map unat (b # bs)) = ?n" by (simp only: base_value_digits)
  have "dropWhile (\<lambda>d. d = 0) ?ds = ?ds"
  proof (cases body)
    case (Cons c cs)
    then have "c \<noteq> CHR ''1''" using lead by (auto split: if_splits)
    then have "b58_val c \<noteq> 0" using assms(1) b58_val [of c] Cons b58_zero by (metis list.set_intros(1))
    with Cons show ?thesis by simp
  qed simp
  then have "base_digits 58 ?n = ?ds" using base_digits_value [of 58 ?ds] ds(1) by simp
  with assms(3) ds(2) show ?thesis by (simp only: base58btcEncode_eq v) simp
qed

lemma encode_chars: "c \<in> set (base58btcEncode buf) \<Longrightarrow> BASE58_INDEX c \<noteq> None"
  using b58_char(1) [of 0] b58_char(1) base_digits_less [of 58]
  by (auto simp: base58btcEncode_eq b58_zero in_set_replicate)

lemma decode_ok_iff:
  "decodeEd25519Multibase input = Inr k \<longleftrightarrow> (\<exists>body. multibase_part input = CHR ''z'' # body \<and> body \<noteq> []
     \<and> (\<forall>c \<in> set body. BASE58_INDEX c \<noteq> None) \<and> base58btcDecode body = ED25519_MULTICODEC_PREFIX @ k \<and> length k = 32)"
  (is "?L \<longleftrightarrow> ?R")
proof
  assume L: ?L
  then obtain body where b: "multibase_part input = CHR ''z'' # body"
    by (cases "multibase_part input") (auto simp: decodeEd25519Multibase_def starts_with_def Let_def split: if_splits)
  have f: "filter (\<lambda>c. BASE58_INDEX c = None) body = []"
    using L b by (auto simp: decodeEd25519Multibase_def Let_def split: if_splits list.splits)
  then have "\<forall>c \<in> set body. BASE58_INDEX c \<noteq> None" by (simp add: filter_empty_conv)
  moreover have "base58btcDecode body = take 2 (base58btcDecode body) @ drop 2 (base58btcDecode body)" by simp
  ultimately show ?R using L b f by (auto simp: decodeEd25519Multibase_def Let_def ED25519_MULTICODEC_PREFIX_def simp del: append_take_drop_id split: if_splits)
next
  assume ?R
  then obtain body where b: "multibase_part input = CHR ''z'' # body" "body \<noteq> []" "\<forall>c \<in> set body. BASE58_INDEX c \<noteq> None"
      "base58btcDecode body = ED25519_MULTICODEC_PREFIX @ k" "length k = 32" by blast
  then have "filter (\<lambda>c. BASE58_INDEX c = None) body = []" by (simp add: filter_empty_conv)
  with b show ?L by (simp add: decodeEd25519Multibase_def starts_with_def Let_def ED25519_MULTICODEC_PREFIX_def)
qed

lemma colons_restored_plain: "c \<noteq> CHR ''%'' \<Longrightarrow> colons_restored (c # s) = c # colons_restored s"
  by (cases s rule: colons_restored.cases; cases "tl s") auto

lemma colons_round_trip: "CHR ''%'' \<notin> set s \<Longrightarrow> colons_restored (colons_escaped s) = s"
proof (induction s)
  case (Cons c s)
  then have "c \<noteq> CHR ''%''" by auto
  with Cons colons_restored_plain [of c] show ?case by (simp add: colons_escaped_def)
qed (simp add: colons_escaped_def)

lemma escaped_no_colon: "CHR '':'' \<notin> set (colons_escaped s)"
  by (auto simp: colons_escaped_def)

section \<open>Properties\<close>

text \<open>Decoding what was encoded in base 58 gives the buffer back exactly when it has a byte other than zero; a buffer of zeros comes back
  one byte longer, because the test for \<open>'0'\<close> follows the padding of the hexadecimal string to an even length.\<close>

theorem base58_round_trip_exact:
  "base58btcDecode (base58btcEncode buf) = buf \<longleftrightarrow> (\<exists>b \<in> set buf. b \<noteq> 0)"
proof -
  have "replicate (length buf) 0 @ [0] \<noteq> buf"
  proof
    assume "replicate (length buf) 0 @ [0] = buf"
    from arg_cong [OF this, of length] show False by simp
  qed
  then show ?thesis by (auto simp: base58_decode_encode)
qed

text \<open>A string decodes to an Ed25519 key exactly when its multibase part, with or without \<open>did:key:\<close> and a fragment, is the encoding of that
  32-byte key: encoding and decoding are inverse, and no key has two spellings.\<close>

theorem multibase_key_canonical:
  "decodeEd25519Multibase input = Inr k \<longleftrightarrow> length k = 32 \<and> multibase_part input = encodeEd25519Multibase k"
  (is "?L \<longleftrightarrow> ?R")
proof
  assume ?L
  then obtain body where b: "multibase_part input = CHR ''z'' # body" "\<forall>c \<in> set body. BASE58_INDEX c \<noteq> None"
      "base58btcDecode body = 0xed # 0x01 # k" "length k = 32"
    by (auto simp: decode_ok_iff ED25519_MULTICODEC_PREFIX_def)
  have "base58btcEncode (0xed # 0x01 # k) = body" by (rule base58_canonical [OF b(2,3)]) simp
  with b show ?R by (simp add: encodeEd25519Multibase_def ED25519_MULTICODEC_PREFIX_def)
next
  assume R: ?R
  let ?body = "base58btcEncode (ED25519_MULTICODEC_PREFIX @ k)"
  have d: "base58btcDecode ?body = ED25519_MULTICODEC_PREFIX @ k"
    by (simp add: base58_decode_encode ED25519_MULTICODEC_PREFIX_def)
  have "?body \<noteq> []"
  proof
    assume e: "?body = []"
    have "base58btcDecode [] = [0]" by (simp add: base58btcDecode_eq)
    with d e show False by (simp add: ED25519_MULTICODEC_PREFIX_def)
  qed
  with R d encode_chars show ?L by (auto simp: decode_ok_iff encodeEd25519Multibase_def)
qed

text \<open>The did:web identifier of an authority decodes to that authority, and there is one exactly for the canonical authorities: those that
  are not blank and carry no percent sign.\<close>

theorem authority_round_trip:
  "Option.bind (authorityToDidWeb authority) didWebToAuthority = (if isCanonicalAuthority authority then Some authority else None)"
proof (cases "isCanonicalAuthority authority")
  case True
  have "\<forall>c \<in> set (colons_escaped authority). c \<noteq> CHR '':''" using escaped_no_colon [of authority] by blast
  then have "takeWhile (\<lambda>c. c \<noteq> CHR '':'') (colons_escaped authority) = colons_escaped authority"
    by (rule takeWhile_eq_all_conv [THEN iffD2])
  note plain = this
  from True show ?thesis
    by (simp add: plain authorityToDidWeb_def didWebToAuthority_def starts_with_def colons_round_trip isCanonicalAuthority_def)
qed (simp add: authorityToDidWeb_def)

end
