(* ===== verification/Cosign.thy ===== *)
theory Cosign
  imports LogVerify Codec Multibase Errors
begin

text \<open>
  Witness cosignatures (\<open>src/src/audit/cosign.ts\<close>): minting, parsing, verification and the count of an N-witnessed quorum, with the
  native binding and the host fallback.

  The binding is outside the repository: which methods exist and what they do are the fields of \<open>cosign_surface\<close>. A private key is
  what \<open>node:crypto\<close> offers of it, its PKCS#8 export and its signing function. Human-readable reasons are constructors with the values the
  text shows.
\<close>

section \<open>Data\<close>

definition COSIGNATURE_VERSION :: string where
  "COSIGNATURE_VERSION = ''acdp-cosig/1''"

definition COSIGNATURE_MAX_FUTURE_SKEW_MS :: int where
  "COSIGNATURE_MAX_FUTURE_SKEW_MS = 120000"

definition WITNESS_DID_RE :: "string \<Rightarrow> bool" where
  "WITNESS_DID_RE s =
     ((starts_with ''did:web:'' s \<and> drop 8 s \<noteq> [] \<and> all_in (lower_letters @ upper_letters @ digits @ ''.%:-'') (drop 8 s))
      \<or> (starts_with ''did:key:z'' s \<and> drop 9 s \<noteq> [] \<and> all_in BASE58_ALPHABET (drop 9 s)))"

record witnessed_checkpoint =
  wc_log_id :: string
  wc_tree_size :: int
  wc_root_hash :: string
  wc_timestamp :: string

record log_cosignature =
  lc_witness_id :: string
  lc_checkpoint :: witnessed_checkpoint
  lc_witnessed_at :: string
  lc_signature :: wire_signature
  lc_raw :: jobj

datatype cosign_reason =
    CosigAlgorithm string
  | KeyNotOfWitness string string
  | CosigNotCanonical
  | CosigSignatureInvalid
  | WitnessedInFuture string
  | CosigNativeThrew string
  | CosigNativeNotJson
  | CosigNativeError string
  | CosigNativeFailed

record cosign_failure =
  cf_code :: "string option"
  cf_reason :: cosign_reason

type_synonym cosign_outcome = "cosign_failure + unit"

definition invalid_cosignature :: "cosign_reason \<Rightarrow> cosign_failure" where
  "invalid_cosignature r = \<lparr>cf_code = Some (code_string INVALID_WITNESS_COSIGNATURE), cf_reason = r\<rparr>"

section \<open>The witness signer\<close>

record private_key =
  pk_pkcs8 :: "bytes option"
  pk_sign :: "bytes \<Rightarrow> bytes"

record witness_signer =
  ws_witnessId :: string
  ws_keyId :: string
  ws_algorithm :: string
  ws_seedHex :: "string option"
  ws_signAsciiToBase64 :: "string \<Rightarrow> string"

text \<open>\<open>Buffer.from(message, 'ascii')\<close> takes the low byte of every character.\<close>

definition ascii_bytes :: "string \<Rightarrow> bytes" where
  "ascii_bytes s = map (\<lambda>c. of_nat (of_char c)) s"

definition nodeWitnessSigner :: "string \<Rightarrow> string \<Rightarrow> private_key \<Rightarrow> witness_signer" where
  "nodeWitnessSigner witnessId keyId privateKey =
     \<lparr>ws_witnessId = witnessId, ws_keyId = keyId, ws_algorithm = ''ed25519'',
      ws_seedHex = (case pk_pkcs8 privateKey of
          Some der \<Rightarrow> if length der = 48 then Some (hex_of_bytes (drop 16 der)) else None
        | None \<Rightarrow> None),
      ws_signAsciiToBase64 = (\<lambda>message. b64_encode (pk_sign privateKey (ascii_bytes message)))\<rparr>"

section \<open>The binding\<close>

record cosign_surface =
  has_buildWitnessCosignature :: bool
  has_verifyWitnessCosignature :: bool
  has_evaluateWitnessQuorum :: bool
  buildWitnessCosignature :: "jobj \<Rightarrow> string \<Rightarrow> string \<Rightarrow> string \<Rightarrow> native_run"
  verifyWitnessCosignature :: "jobj \<Rightarrow> jobj \<Rightarrow> jobj \<Rightarrow> native_run"
  evaluateWitnessQuorum :: "json list \<Rightarrow> jobj \<Rightarrow> string list \<Rightarrow> jobj \<Rightarrow> jobj \<Rightarrow> int \<Rightarrow> native_run"

definition sdkHasCosignatureSurface :: "cosign_surface \<Rightarrow> bool" where
  "sdkHasCosignatureSurface B =
     (has_buildWitnessCosignature B \<and> has_verifyWitnessCosignature B \<and> has_evaluateWitnessQuorum B)"

definition QUORUM_FAILURE_MAX_CHARS :: nat where
  "QUORUM_FAILURE_MAX_CHARS = 500"

text \<open>\<open>None\<close> where the text would hold a number that is not an integer, whose printing is not modelled; the ellipsis is the byte 0x85 of
  the character range.\<close>

definition formatQuorumFailure :: "json \<Rightarrow> string option" where
  "formatQuorumFailure f = (case f of
     JStr s \<Rightarrow> Some s
   | _ \<Rightarrow>
     (let ob = (case f of JObj ob \<Rightarrow> ob | _ \<Rightarrow> []);
          code = as_string (get_prop ob ''code''); err = as_string (get_prop ob ''error'')
      in if code \<noteq> None \<or> err \<noteq> None
         then map_option (\<lambda>e. (case code of Some c \<Rightarrow> c | None \<Rightarrow> ''acdp_error'') @ '': '' @ e)
                (case err of Some e \<Rightarrow> Some e | None \<Rightarrow> stringify f)
         else map_option (\<lambda>t. if length t > QUORUM_FAILURE_MAX_CHARS then take QUORUM_FAILURE_MAX_CHARS t @ [CHR 0x85] else t)
                (stringify f)))"

section \<open>Minting\<close>

definition cosignatureHash :: "jcs \<Rightarrow> jobj \<Rightarrow> string option" where
  "cosignatureHash jcs unsigned_part = map_option (\<lambda>canonical. wire_digest (utf8 canonical)) (jcs (JObj unsigned_part))"

datatype mint_error =
    MintNoSeed
  | MintNativeThrew string
  | MintNativeNotJson
  | MintNotCanonical

record minted =
  mt_cosignature :: jobj
  mt_hash :: string

definition checkpoint_tuple :: "witnessed_checkpoint \<Rightarrow> jobj" where
  "checkpoint_tuple wc =
     [(''log_id'', JStr (wc_log_id wc)), (''tree_size'', JNum (num_of_int (wc_tree_size wc))),
      (''root_hash'', JStr (wc_root_hash wc)), (''timestamp'', JStr (wc_timestamp wc))]"

definition canNativeMint :: "cosign_surface \<Rightarrow> witness_signer \<Rightarrow> bool" where
  "canNativeMint B signer =
     (sdkHasCosignatureSurface B \<and> ws_seedHex signer \<noteq> None \<and> ws_keyId signer = ws_witnessId signer @ ''#witness-key-1'')"

definition nativeMintCosignature ::
    "cosign_surface \<Rightarrow> jcs \<Rightarrow> witnessed_checkpoint \<Rightarrow> string \<Rightarrow> witness_signer \<Rightarrow> mint_error + minted" where
  "nativeMintCosignature B jcs wc witnessedAt signer = (case ws_seedHex signer of
     None \<Rightarrow> Inl MintNoSeed
   | Some seedHex \<Rightarrow> (case buildWitnessCosignature B (checkpoint_tuple wc) (ws_witnessId signer) seedHex witnessedAt of
       Threw code msg \<Rightarrow> Inl (MintNativeThrew (nativeErr code msg))
     | ReturnedNonJson \<Rightarrow> Inl MintNativeNotJson
     | Returned cosignature \<Rightarrow> (case cosignatureHash jcs (omit_key ''signature'' cosignature) of
         None \<Rightarrow> Inl MintNotCanonical
       | Some hash \<Rightarrow> Inr \<lparr>mt_cosignature = cosignature, mt_hash = hash\<rparr>)))"

definition unsigned_cosignature :: "witnessed_checkpoint \<Rightarrow> string \<Rightarrow> string \<Rightarrow> jobj" where
  "unsigned_cosignature wc witnessedAt witnessId =
     [(''cosignature_version'', JStr COSIGNATURE_VERSION), (''witness_id'', JStr witnessId),
      (''witnessed_checkpoint'', JObj (checkpoint_tuple wc)), (''witnessed_at'', JStr witnessedAt)]"

definition tsMintCosignature :: "jcs \<Rightarrow> witnessed_checkpoint \<Rightarrow> string \<Rightarrow> witness_signer \<Rightarrow> mint_error + minted" where
  "tsMintCosignature jcs wc witnessedAt signer =
     (let unsigned_part = unsigned_cosignature wc witnessedAt (ws_witnessId signer)
      in case cosignatureHash jcs unsigned_part of
           None \<Rightarrow> Inl MintNotCanonical
         | Some hash \<Rightarrow> Inr \<lparr>mt_cosignature = unsigned_part @ [(''signature'', JObj
              [(''algorithm'', JStr (ws_algorithm signer)), (''key_id'', JStr (ws_keyId signer)),
               (''value'', JStr (ws_signAsciiToBase64 signer hash))])], mt_hash = hash\<rparr>)"

definition mintCosignature ::
    "cosign_surface \<Rightarrow> jcs \<Rightarrow> witnessed_checkpoint \<Rightarrow> string \<Rightarrow> witness_signer \<Rightarrow> mint_error + minted" where
  "mintCosignature B jcs wc witnessedAt signer =
     (let native = nativeMintCosignature B jcs wc witnessedAt signer
      in if canNativeMint B signer \<and> \<not> isl native then native else tsMintCosignature jcs wc witnessedAt signer)"

section \<open>Parsing\<close>

datatype tuple_error = TupleNotObject | TupleSchema | TupleLogId | TupleTreeSize | TupleRootHash | TupleTimestamp

datatype cosig_parse_error =
    CosigNotObject
  | CosigSchema "string list" "string list"
  | CosigBadVersion
  | CosigBadWitness
  | CosigBadTuple tuple_error
  | CosigBadWitnessedAt
  | CosigSignatureNotObject
  | CosigSignatureNotClosed

definition cosignature_fields :: "string list" where
  "cosignature_fields = [''cosignature_version'', ''witness_id'', ''witnessed_checkpoint'', ''witnessed_at'', ''signature'']"

definition tuple_fields :: "string list" where
  "tuple_fields = [''log_id'', ''tree_size'', ''root_hash'', ''timestamp'']"

definition canonical_time :: "json option \<Rightarrow> string option" where
  "canonical_time v = (case v of
     Some (JStr s) \<Rightarrow> if CANONICAL_TS_RE s \<and> date_parse s \<noteq> None then Some s else None
   | _ \<Rightarrow> None)"

definition validateWitnessedCheckpoint :: "json option \<Rightarrow> tuple_error + witnessed_checkpoint" where
  "validateWitnessedCheckpoint raw = (case raw of
     Some (JObj ob) \<Rightarrow>
       if filter (\<lambda>k. k \<notin> set tuple_fields) (object_keys ob) \<noteq> [] \<or> filter (\<lambda>k. k \<notin> set (object_keys ob)) tuple_fields \<noteq> []
       then Inl TupleSchema
       else (case as_string (get_prop ob ''log_id'') of
           Some log_id \<Rightarrow> if \<not> LOG_ID_RE log_id then Inl TupleLogId
             else (case as_int (get_prop ob ''tree_size'') of
                 Some tsize \<Rightarrow> if tsize < 0 then Inl TupleTreeSize
                   else (case as_string (get_prop ob ''root_hash'') of
                       Some rootH \<Rightarrow> if \<not> WIRE_HASH_RE rootH then Inl TupleRootHash
                         else (case canonical_time (get_prop ob ''timestamp'') of
                             Some ts \<Rightarrow> Inr \<lparr>wc_log_id = log_id, wc_tree_size = tsize, wc_root_hash = rootH, wc_timestamp = ts\<rparr>
                           | None \<Rightarrow> Inl TupleTimestamp)
                     | None \<Rightarrow> Inl TupleRootHash)
               | None \<Rightarrow> Inl TupleTreeSize)
         | None \<Rightarrow> Inl TupleLogId)
   | _ \<Rightarrow> Inl TupleNotObject)"

definition parseCosignature :: "json \<Rightarrow> cosig_parse_error + log_cosignature" where
  "parseCosignature raw = (case raw of
     JObj ob \<Rightarrow>
       (let keys = object_keys ob;
            extra = filter (\<lambda>k. k \<notin> set cosignature_fields) keys;
            missing = filter (\<lambda>k. k \<notin> set keys) cosignature_fields
        in if extra \<noteq> [] \<or> missing \<noteq> [] then Inl (CosigSchema missing extra)
           else if get_prop ob ''cosignature_version'' \<noteq> Some (JStr COSIGNATURE_VERSION) then Inl CosigBadVersion
           else (case as_string (get_prop ob ''witness_id'') of
               Some witness \<Rightarrow> if \<not> WITNESS_DID_RE witness then Inl CosigBadWitness
                 else (case validateWitnessedCheckpoint (get_prop ob ''witnessed_checkpoint'') of
                     Inl e \<Rightarrow> Inl (CosigBadTuple e)
                   | Inr wc \<Rightarrow> (case canonical_time (get_prop ob ''witnessed_at'') of
                       None \<Rightarrow> Inl CosigBadWitnessedAt
                     | Some seen \<Rightarrow> (case get_prop ob ''signature'' of
                         Some (JObj s) \<Rightarrow> (case parseClosedSignature s of
                             None \<Rightarrow> Inl CosigSignatureNotClosed
                           | Some sg \<Rightarrow> Inr \<lparr>lc_witness_id = witness, lc_checkpoint = wc, lc_witnessed_at = seen,
                               lc_signature = sg, lc_raw = ob\<rparr>)
                       | _ \<Rightarrow> Inl CosigSignatureNotObject)))
             | None \<Rightarrow> Inl CosigBadWitness))
   | _ \<Rightarrow> Inl CosigNotObject)"

section \<open>Verification\<close>

definition stripFragment :: "string \<Rightarrow> string" where
  "stripFragment didUrl = (case index_of (CHR ''#'') didUrl of Some i \<Rightarrow> take i didUrl | None \<Rightarrow> didUrl)"

definition witnessDidDocFromPubkey :: "string \<Rightarrow> string \<Rightarrow> string \<Rightarrow> jobj" where
  "witnessDidDocFromPubkey witnessId keyId publicKeyB64 =
     [(''@context'', JArr [JStr ''https://www.w3.org/ns/did/v1'']), (''id'', JStr witnessId),
      (''verificationMethod'', JArr [JObj [(''id'', JStr keyId), (''type'', JStr ''Ed25519VerificationKey2020''),
         (''controller'', JStr witnessId), (''publicKeyMultibase'', JStr (encodeEd25519Multibase (b64url_decode publicKeyB64)))]]),
      (''assertionMethod'', JArr [JStr keyId])]"

definition nativeVerifyCosignature :: "cosign_surface \<Rightarrow> log_cosignature \<Rightarrow> string \<Rightarrow> log_checkpoint \<Rightarrow> cosign_outcome" where
  "nativeVerifyCosignature B c witnessPublicKeyB64 expectedCheckpoint =
     (case verifyWitnessCosignature B (lc_raw c)
        (witnessDidDocFromPubkey (lc_witness_id c) (sig_key_id (lc_signature c)) witnessPublicKeyB64) (cp_raw expectedCheckpoint) of
        Threw code msg \<Rightarrow> Inl \<lparr>cf_code = None, cf_reason = CosigNativeThrew (nativeErr code msg)\<rparr>
      | ReturnedNonJson \<Rightarrow> Inl \<lparr>cf_code = None, cf_reason = CosigNativeNotJson\<rparr>
      | Returned parsed \<Rightarrow>
          if get_prop parsed ''valid'' = Some (JBool True) then Inr ()
          else Inl \<lparr>cf_code = as_string (get_prop parsed ''code''),
            cf_reason = (case as_string (get_prop parsed ''error'') of Some e \<Rightarrow> CosigNativeError e | None \<Rightarrow> CosigNativeFailed)\<rparr>)"

definition tsVerifyCosignature :: "acdp_verifier \<Rightarrow> jcs \<Rightarrow> log_cosignature \<Rightarrow> string \<Rightarrow> cosign_outcome" where
  "tsVerifyCosignature V jcs c witnessPublicKeyB64 =
     (let sg = lc_signature c
      in if sig_algorithm sg \<noteq> ''ed25519'' then Inl (invalid_cosignature (CosigAlgorithm (sig_algorithm sg)))
         else if stripFragment (sig_key_id sg) \<noteq> lc_witness_id c
         then Inl (invalid_cosignature (KeyNotOfWitness (sig_key_id sg) (lc_witness_id c)))
         else (case cosignatureHash jcs (omit_key ''signature'' (lc_raw c)) of
             None \<Rightarrow> Inl (invalid_cosignature CosigNotCanonical)
           | Some hash \<Rightarrow> if verifySignatureB64 V ''ed25519'' witnessPublicKeyB64 hash (sig_value sg) then Inr ()
               else Inl (invalid_cosignature CosigSignatureInvalid)))"

definition verifyCosignature ::
    "cosign_surface \<Rightarrow> acdp_verifier \<Rightarrow> jcs \<Rightarrow> log_cosignature \<Rightarrow> string \<Rightarrow> log_checkpoint option \<Rightarrow> cosign_outcome" where
  "verifyCosignature B V jcs c key expectedCheckpoint = (case expectedCheckpoint of
     Some cp \<Rightarrow> if sdkHasCosignatureSurface B then nativeVerifyCosignature B c key cp else tsVerifyCosignature V jcs c key
   | None \<Rightarrow> tsVerifyCosignature V jcs c key)"

definition cosignatureFreshnessOk :: "log_cosignature \<Rightarrow> int \<Rightarrow> int \<Rightarrow> cosign_outcome" where
  "cosignatureFreshnessOk c nowMs maxFutureSkewMs = (case date_parse (lc_witnessed_at c) of
     Some ts \<Rightarrow> if ts - nowMs > maxFutureSkewMs then Inl (invalid_cosignature (WitnessedInFuture (lc_witnessed_at c))) else Inr ()
   | None \<Rightarrow> Inr ())"

definition cosignatureAgeOk :: "log_cosignature \<Rightarrow> int \<Rightarrow> int option \<Rightarrow> bool" where
  "cosignatureAgeOk c nowMs maxAgeSecs = (case maxAgeSecs of
     None \<Rightarrow> True
   | Some secs \<Rightarrow> (case date_parse (lc_witnessed_at c) of Some ts \<Rightarrow> nowMs - ts \<le> secs * 1000 | None \<Rightarrow> False))"

section \<open>Quorum\<close>

datatype quorum_failure =
    QfUnparsable cosig_parse_error
  | QfKeyUnresolved string
  | QfOtherTuple string
  | QfFuture string cosign_reason
  | QfRejected string cosign_reason
  | QfNative "string option"

record quorum_report =
  qr_witnessedCount :: jsnum
  qr_meetsQuorum :: bool
  qr_verifiedWitnessIds :: "string list"
  qr_failures :: "quorum_failure list"
  qr_freshWitnessedCount :: jsnum
  qr_meetsFreshQuorum :: bool
  qr_historicalWitnessedCount :: nat

text \<open>\<open>maxAgeSecs\<close> may be absent, null or a number.\<close>

record quorum_inputs =
  qn_cosignatures :: "json list"
  qn_checkpoint :: log_checkpoint
  qn_trustedWitnessIds :: "string list"
  qn_witnessKeysB64 :: "(string, string) jsmap"
  qn_historicalWitnessIds :: "string list"
  qn_minWitnesses :: int
  qn_maxAgeSecs :: "int option option"
  qn_maxClockSkewSecs :: "int option"
  qn_nowMs :: "int option"

definition quorum_now :: "quorum_inputs \<Rightarrow> clock \<Rightarrow> int" where
  "quorum_now inp us = (case qn_nowMs inp of Some n \<Rightarrow> n | None \<Rightarrow> now_ms us)"

definition quorum_skew_ms :: "quorum_inputs \<Rightarrow> int" where
  "quorum_skew_ms inp = (case qn_maxClockSkewSecs inp of Some s \<Rightarrow> s | None \<Rightarrow> 120) * 1000"

definition quorum_max_age :: "quorum_inputs \<Rightarrow> int option" where
  "quorum_max_age inp = (case qn_maxAgeSecs inp of Some a \<Rightarrow> a | None \<Rightarrow> Some 300)"

definition same_tuple :: "log_cosignature \<Rightarrow> log_checkpoint \<Rightarrow> bool" where
  "same_tuple c cp = (wc_log_id (lc_checkpoint c) = cp_log_id cp \<and> wc_tree_size (lc_checkpoint c) = cp_tree_size cp
     \<and> wc_root_hash (lc_checkpoint c) = cp_root_hash cp)"

fun historical_loop ::
    "cosign_surface \<Rightarrow> acdp_verifier \<Rightarrow> jcs \<Rightarrow> quorum_inputs \<Rightarrow> int \<Rightarrow> string list \<Rightarrow> json list \<Rightarrow> string list" where
  "historical_loop B V jcs inp nowMs counted [] = counted"
| "historical_loop B V jcs inp nowMs counted (raw # raws) = historical_loop B V jcs inp nowMs
     (case parseCosignature raw of
        Inl e \<Rightarrow> counted
      | Inr c \<Rightarrow>
          if lc_witness_id c \<notin> set (qn_historicalWitnessIds inp) \<or> lc_witness_id c \<in> set counted then counted
          else (case map_of (qn_witnessKeysB64 inp) (lc_witness_id c) of
              None \<Rightarrow> counted
            | Some key \<Rightarrow>
                if \<not> same_tuple c (qn_checkpoint inp) then counted
                else if isl (cosignatureFreshnessOk c nowMs (quorum_skew_ms inp)) then counted
                else if isl (verifyCosignature B V jcs c key (Some (qn_checkpoint inp))) then counted
                else counted @ [lc_witness_id c])) raws"

definition countHistoricalWitnesses :: "cosign_surface \<Rightarrow> acdp_verifier \<Rightarrow> jcs \<Rightarrow> quorum_inputs \<Rightarrow> int \<Rightarrow> nat" where
  "countHistoricalWitnesses B V jcs inp nowMs =
     (if qn_historicalWitnessIds inp = [] then 0
      else length (historical_loop B V jcs inp nowMs [] (qn_cosignatures inp)))"

fun did_docs :: "(string, string) jsmap \<Rightarrow> jobj \<Rightarrow> json list \<Rightarrow> jobj" where
  "did_docs keys docs [] = docs"
| "did_docs keys docs (raw # raws) = did_docs keys
     (case parseCosignature raw of
        Inl e \<Rightarrow> docs
      | Inr c \<Rightarrow> (case map_of keys (lc_witness_id c) of
            None \<Rightarrow> docs
          | Some key \<Rightarrow>
              if map_of docs (lc_witness_id c) \<noteq> None then docs
              else docs @ [(lc_witness_id c, JObj (witnessDidDocFromPubkey (lc_witness_id c) (sig_key_id (lc_signature c)) key))])) raws"

definition quorum_policy :: "quorum_inputs \<Rightarrow> jobj" where
  "quorum_policy inp = [(''min_witnesses'', JNum (num_of_int (qn_minWitnesses inp)))]
     @ (case qn_maxAgeSecs inp of
          Some (Some n) \<Rightarrow> [(''max_age_secs'', JNum (num_of_int n))] | Some None \<Rightarrow> [(''max_age_secs'', JNull)] | None \<Rightarrow> [])
     @ (case qn_maxClockSkewSecs inp of Some n \<Rightarrow> [(''max_clock_skew_secs'', JNum (num_of_int n))] | None \<Rightarrow> [])"

definition nativeEvaluateQuorum ::
    "cosign_surface \<Rightarrow> acdp_verifier \<Rightarrow> jcs \<Rightarrow> clock \<Rightarrow> quorum_inputs \<Rightarrow> quorum_report option" where
  "nativeEvaluateQuorum B V jcs us inp =
     (let historicalIds = qn_historicalWitnessIds inp;
          nativeTrustedIds = (if historicalIds = [] then qn_trustedWitnessIds inp
            else filter (\<lambda>i. i \<notin> set historicalIds) (qn_trustedWitnessIds inp));
          nowMs = quorum_now inp us
      in case evaluateWitnessQuorum B (qn_cosignatures inp) (cp_raw (qn_checkpoint inp)) nativeTrustedIds
           (did_docs (qn_witnessKeysB64 inp) [] (qn_cosignatures inp)) (quorum_policy inp) nowMs of
           Threw code msg \<Rightarrow> None
         | ReturnedNonJson \<Rightarrow> None
         | Returned report \<Rightarrow>
             (let count = (case as_number (get_prop report ''witnessed_count'') of Some n \<Rightarrow> n | None \<Rightarrow> Fin 0);
                  meets = (get_prop report ''meets_quorum'' = Some (JBool True))
              in Some \<lparr>qr_witnessedCount = count, qr_meetsQuorum = meets,
                   qr_verifiedWitnessIds = (case get_prop report ''witnesses'' of
                       Some (JArr ws) \<Rightarrow> List.map_filter (\<lambda>w. as_string (Some w)) ws | _ \<Rightarrow> []),
                   qr_failures = (case get_prop report ''failures'' of
                       Some (JArr fs) \<Rightarrow> map (\<lambda>f. QfNative (formatQuorumFailure f)) fs | _ \<Rightarrow> []),
                   qr_freshWitnessedCount = (case as_number (get_prop report ''fresh_witnessed_count'') of Some n \<Rightarrow> n | None \<Rightarrow> count),
                   qr_meetsFreshQuorum = (case get_prop report ''meets_fresh_quorum'' of None \<Rightarrow> meets | Some v \<Rightarrow> v = JBool True),
                   qr_historicalWitnessedCount = countHistoricalWitnesses B V jcs inp nowMs\<rparr>))"

type_synonym quorum_acc = "string list \<times> string list \<times> quorum_failure list"

definition quorum_step ::
    "cosign_surface \<Rightarrow> acdp_verifier \<Rightarrow> jcs \<Rightarrow> quorum_inputs \<Rightarrow> int \<Rightarrow> json \<Rightarrow> quorum_acc \<Rightarrow> quorum_acc" where
  "quorum_step B V jcs inp nowMs raw = (\<lambda>(verified, fresh, failures). (case parseCosignature raw of
     Inl e \<Rightarrow> (verified, fresh, failures @ [QfUnparsable e])
   | Inr c \<Rightarrow>
     (let w = lc_witness_id c
      in if w \<notin> set (qn_trustedWitnessIds inp) then (verified, fresh, failures)
         else if w \<in> set (qn_historicalWitnessIds inp) then (verified, fresh, failures)
         else if w \<in> set verified then (verified, fresh, failures)
         else (case map_of (qn_witnessKeysB64 inp) w of
             None \<Rightarrow> (verified, fresh, failures @ [QfKeyUnresolved w])
           | Some key \<Rightarrow>
               if \<not> same_tuple c (qn_checkpoint inp) then (verified, fresh, failures @ [QfOtherTuple w])
               else (case cosignatureFreshnessOk c nowMs (quorum_skew_ms inp) of
                   Inl e \<Rightarrow> (verified, fresh, failures @ [QfFuture w (cf_reason e)])
                 | Inr _ \<Rightarrow> (case verifyCosignature B V jcs c key (Some (qn_checkpoint inp)) of
                     Inl e \<Rightarrow> (verified, fresh, failures @ [QfRejected w (cf_reason e)])
                   | Inr _ \<Rightarrow> (verified @ [w],
                       (if cosignatureAgeOk c nowMs (quorum_max_age inp) then fresh @ [w] else fresh), failures)))))))"

definition hostEvaluateQuorum :: "cosign_surface \<Rightarrow> acdp_verifier \<Rightarrow> jcs \<Rightarrow> clock \<Rightarrow> quorum_inputs \<Rightarrow> quorum_report" where
  "hostEvaluateQuorum B V jcs us inp =
     (let nowMs = quorum_now inp us
      in case fold (quorum_step B V jcs inp nowMs) (qn_cosignatures inp) ([], [], []) of
           (verified, fresh, failures) \<Rightarrow>
             \<lparr>qr_witnessedCount = num_of_int (int (length verified)), qr_meetsQuorum = (int (length verified) \<ge> qn_minWitnesses inp),
              qr_verifiedWitnessIds = verified, qr_failures = failures,
              qr_freshWitnessedCount = num_of_int (int (length fresh)), qr_meetsFreshQuorum = (int (length fresh) \<ge> qn_minWitnesses inp),
              qr_historicalWitnessedCount = countHistoricalWitnesses B V jcs inp nowMs\<rparr>)"

definition evaluateQuorum :: "cosign_surface \<Rightarrow> acdp_verifier \<Rightarrow> jcs \<Rightarrow> clock \<Rightarrow> quorum_inputs \<Rightarrow> quorum_report" where
  "evaluateQuorum B V jcs us inp =
     (case (if sdkHasCosignatureSurface B then nativeEvaluateQuorum B V jcs us inp else None) of
        Some report \<Rightarrow> report
      | None \<Rightarrow> hostEvaluateQuorum B V jcs us inp)"

section \<open>What counts\<close>

text \<open>The witness a served cosignature is evidence for.\<close>

definition evidence_of :: "cosign_surface \<Rightarrow> acdp_verifier \<Rightarrow> jcs \<Rightarrow> quorum_inputs \<Rightarrow> int \<Rightarrow> json \<Rightarrow> string option" where
  "evidence_of B V jcs inp nowMs raw = (case parseCosignature raw of
     Inl e \<Rightarrow> None
   | Inr c \<Rightarrow> (case map_of (qn_witnessKeysB64 inp) (lc_witness_id c) of
         None \<Rightarrow> None
       | Some key \<Rightarrow>
           if lc_witness_id c \<in> set (qn_trustedWitnessIds inp) \<and> lc_witness_id c \<notin> set (qn_historicalWitnessIds inp)
              \<and> same_tuple c (qn_checkpoint inp) \<and> cosignatureFreshnessOk c nowMs (quorum_skew_ms inp) = Inr ()
              \<and> verifyCosignature B V jcs c key (Some (qn_checkpoint inp)) = Inr ()
           then Some (lc_witness_id c) else None))"

lemma evidence_of_Some:
  "evidence_of B V jcs inp nowMs raw = Some w \<longleftrightarrow> (\<exists>c key. parseCosignature raw = Inr c \<and> lc_witness_id c = w
     \<and> w \<in> set (qn_trustedWitnessIds inp) \<and> w \<notin> set (qn_historicalWitnessIds inp) \<and> map_of (qn_witnessKeysB64 inp) w = Some key
     \<and> same_tuple c (qn_checkpoint inp) \<and> cosignatureFreshnessOk c nowMs (quorum_skew_ms inp) = Inr ()
     \<and> verifyCosignature B V jcs c key (Some (qn_checkpoint inp)) = Inr ())"
  by (auto simp: evidence_of_def split: sum.splits option.splits if_splits)

lemma quorum_step_verified:
  "fst (quorum_step B V jcs inp nowMs raw acc) = (case evidence_of B V jcs inp nowMs raw of
     Some w \<Rightarrow> if w \<in> set (fst acc) then fst acc else fst acc @ [w] | None \<Rightarrow> fst acc)"
  by (cases acc) (auto simp: quorum_step_def evidence_of_def Let_def split: sum.splits option.splits)

lemma quorum_step_fresh:
  assumes "set (fst (snd acc)) \<subseteq> set (fst acc)" "distinct (fst (snd acc))"
  shows "set (fst (snd (quorum_step B V jcs inp nowMs raw acc))) \<subseteq> set (fst (quorum_step B V jcs inp nowMs raw acc))
    \<and> distinct (fst (snd (quorum_step B V jcs inp nowMs raw acc)))"
  using assms by (cases acc) (auto simp: quorum_step_def Let_def split: sum.splits option.splits)

lemma quorum_fold:
  "let acc = fold (quorum_step B V jcs inp nowMs) raws ([], [], [])
   in set (fst acc) = {w. \<exists>raw. raw \<in> set raws \<and> evidence_of B V jcs inp nowMs raw = Some w} \<and> distinct (fst acc)
      \<and> set (fst (snd acc)) \<subseteq> set (fst acc) \<and> distinct (fst (snd acc))"
proof (induction raws rule: rev_induct)
  case (snoc raw raws)
  let ?acc = "fold (quorum_step B V jcs inp nowMs) raws ([], [], [])"
  have IH: "set (fst ?acc) = {w. \<exists>raw. raw \<in> set raws \<and> evidence_of B V jcs inp nowMs raw = Some w}" "distinct (fst ?acc)"
    "set (fst (snd ?acc)) \<subseteq> set (fst ?acc)" "distinct (fst (snd ?acc))"
    using snoc unfolding Let_def by blast+
  have "set (fst (quorum_step B V jcs inp nowMs raw ?acc))
      = {w. \<exists>r. r \<in> set (raws @ [raw]) \<and> evidence_of B V jcs inp nowMs r = Some w}
    \<and> distinct (fst (quorum_step B V jcs inp nowMs raw ?acc))"
    unfolding quorum_step_verified using IH(1,2) by (cases "evidence_of B V jcs inp nowMs raw") auto
  moreover have "fold (quorum_step B V jcs inp nowMs) (raws @ [raw]) ([], [], []) = quorum_step B V jcs inp nowMs raw ?acc" by simp
  ultimately show ?case unfolding Let_def using quorum_step_fresh [OF IH(3,4), of B V jcs inp nowMs raw] by presburger
qed simp

lemma host_report:
  "qr_verifiedWitnessIds (hostEvaluateQuorum B V jcs us inp) =
     fst (fold (quorum_step B V jcs inp (quorum_now inp us)) (qn_cosignatures inp) ([], [], []))"
  "qr_witnessedCount (hostEvaluateQuorum B V jcs us inp) = num_of_int (int (length (qr_verifiedWitnessIds (hostEvaluateQuorum B V jcs us inp))))"
  "qr_meetsQuorum (hostEvaluateQuorum B V jcs us inp) =
     (int (length (qr_verifiedWitnessIds (hostEvaluateQuorum B V jcs us inp))) \<ge> qn_minWitnesses inp)"
  by (simp_all add: hostEvaluateQuorum_def Let_def split: prod.split)

lemma host_verified:
  "set (qr_verifiedWitnessIds (hostEvaluateQuorum B V jcs us inp)) =
     {w. \<exists>raw. raw \<in> set (qn_cosignatures inp) \<and> evidence_of B V jcs inp (quorum_now inp us) raw = Some w}"
  "distinct (qr_verifiedWitnessIds (hostEvaluateQuorum B V jcs us inp))"
  using quorum_fold [of B V jcs inp "quorum_now inp us" "qn_cosignatures inp"] unfolding Let_def host_report(1) by blast+

section \<open>Minted cosignatures\<close>

lemma stripFragment_eq: "stripFragment s = takeWhile (\<lambda>c. c \<noteq> CHR ''#'') s"
proof (induction s)
  case (Cons c s)
  then show ?case by (auto simp: stripFragment_def split: option.splits)
qed (simp add: stripFragment_def)

lemma parse_minted:
  assumes "tsMintCosignature jcs wc t signer = Inr m" "WITNESS_DID_RE (ws_witnessId signer)"
    and "validateWitnessedCheckpoint (Some (JObj (checkpoint_tuple wc))) = Inr wc" "canonical_time (Some (JStr t)) = Some t"
  shows "parseCosignature (JObj (mt_cosignature m)) = Inr \<lparr>lc_witness_id = ws_witnessId signer, lc_checkpoint = wc, lc_witnessed_at = t,
     lc_signature = \<lparr>sig_algorithm = ws_algorithm signer, sig_key_id = ws_keyId signer, sig_value = ws_signAsciiToBase64 signer (mt_hash m)\<rparr>,
     lc_raw = mt_cosignature m\<rparr>"
  and "cosignatureHash jcs (omit_key ''signature'' (mt_cosignature m)) = Some (mt_hash m)"
proof -
  have h: "cosignatureHash jcs (unsigned_cosignature wc t (ws_witnessId signer)) = Some (mt_hash m)"
    and m: "mt_cosignature m = unsigned_cosignature wc t (ws_witnessId signer) @ [(''signature'', JObj
        [(''algorithm'', JStr (ws_algorithm signer)), (''key_id'', JStr (ws_keyId signer)),
         (''value'', JStr (ws_signAsciiToBase64 signer (mt_hash m)))])]"
    using assms(1) by (auto simp: tsMintCosignature_def Let_def split: option.splits)
  show "cosignatureHash jcs (omit_key ''signature'' (mt_cosignature m)) = Some (mt_hash m)"
    using h by (simp add: m omit_key_def unsigned_cosignature_def)
  have srt: "join_with '','' (sort [''algorithm'', ''key_id'', ''value'']) = ''algorithm,key_id,value''" by code_simp
  show "parseCosignature (JObj (mt_cosignature m)) = Inr \<lparr>lc_witness_id = ws_witnessId signer, lc_checkpoint = wc, lc_witnessed_at = t,
     lc_signature = \<lparr>sig_algorithm = ws_algorithm signer, sig_key_id = ws_keyId signer, sig_value = ws_signAsciiToBase64 signer (mt_hash m)\<rparr>,
     lc_raw = mt_cosignature m\<rparr>"
    using assms(2-4) srt
    by (simp add: m parseCosignature_def unsigned_cosignature_def object_keys_def cosignature_fields_def get_prop_def as_string_def
      parseClosedSignature_def COSIGNATURE_VERSION_def Let_def)
qed

text \<open>The key pair of a witness: what the private key signs, the binding verifies under the public key.\<close>

definition ed25519_pair :: "acdp_verifier \<Rightarrow> private_key \<Rightarrow> string \<Rightarrow> bool" where
  "ed25519_pair V key publicKeyB64 = (\<forall>m. av_verifySignature V publicKeyB64 (b64_encode (pk_sign key (ascii_bytes m))) m = Some True)"

lemma minted_verifies:
  assumes "ed25519_pair V key pub" "signer = nodeWitnessSigner w k key" "stripFragment k = w" "WITNESS_DID_RE w"
    and "validateWitnessedCheckpoint (Some (JObj (checkpoint_tuple wc))) = Inr wc" "canonical_time (Some (JStr t)) = Some t"
    and "tsMintCosignature jcs wc t signer = Inr m"
  obtains c where "parseCosignature (JObj (mt_cosignature m)) = Inr c" "lc_witness_id c = w" "lc_checkpoint c = wc" "lc_witnessed_at c = t"
    "tsVerifyCosignature V jcs c pub = Inr ()"
proof -
  have w: "ws_witnessId signer = w" "ws_keyId signer = k" "ws_algorithm signer = ''ed25519''"
    "ws_signAsciiToBase64 signer = (\<lambda>m. b64_encode (pk_sign key (ascii_bytes m)))"
    using assms(2) by (simp_all add: nodeWitnessSigner_def)
  note p = parse_minted [OF assms(7) assms(4) [folded w(1)] assms(5,6)]
  let ?c = "\<lparr>lc_witness_id = ws_witnessId signer, lc_checkpoint = wc, lc_witnessed_at = t,
     lc_signature = \<lparr>sig_algorithm = ws_algorithm signer, sig_key_id = ws_keyId signer, sig_value = ws_signAsciiToBase64 signer (mt_hash m)\<rparr>,
     lc_raw = mt_cosignature m\<rparr>"
  have "tsVerifyCosignature V jcs ?c pub = Inr ()"
    using p(2) assms(1,3) by (simp add: tsVerifyCosignature_def Let_def w verifySignatureB64_def ed25519_pair_def)
  with p(1) w(1) that [of ?c] show thesis by simp
qed

section \<open>Properties\<close>

text \<open>C19. The host quorum counts exactly the trusted witnesses, each once, for which some served cosignature parses, is over the verified
  checkpoint's log, size and root, is not dated beyond the clock skew, and verifies under that witness's resolved key, retired keys left out.
  Order, repetitions and other cosignatures do not matter.\<close>

theorem quorum_counts_exactly:
  "set (qr_verifiedWitnessIds (hostEvaluateQuorum B V jcs us inp)) =
     {w. \<exists>raw c key. raw \<in> set (qn_cosignatures inp) \<and> parseCosignature raw = Inr c \<and> lc_witness_id c = w
        \<and> w \<in> set (qn_trustedWitnessIds inp) \<and> w \<notin> set (qn_historicalWitnessIds inp) \<and> map_of (qn_witnessKeysB64 inp) w = Some key
        \<and> same_tuple c (qn_checkpoint inp) \<and> cosignatureFreshnessOk c (quorum_now inp us) (quorum_skew_ms inp) = Inr ()
        \<and> verifyCosignature B V jcs c key (Some (qn_checkpoint inp)) = Inr ()}
   \<and> distinct (qr_verifiedWitnessIds (hostEvaluateQuorum B V jcs us inp))
   \<and> qr_witnessedCount (hostEvaluateQuorum B V jcs us inp) = num_of_int (int (card (set (qr_verifiedWitnessIds (hostEvaluateQuorum B V jcs us inp)))))
   \<and> qr_meetsQuorum (hostEvaluateQuorum B V jcs us inp) =
       (qn_minWitnesses inp \<le> int (card (set (qr_verifiedWitnessIds (hostEvaluateQuorum B V jcs us inp)))))"
  unfolding host_report(2,3) distinct_card [OF host_verified(2)] by (simp add: host_verified evidence_of_Some)

text \<open>C28. A cosignature minted by the host path counts: served with others for the same checkpoint to a consumer that trusts the witness
  and resolved its key, on a binding without the native surface, the witness is among the counted ones.\<close>

theorem minted_cosignature_counts:
  assumes "ed25519_pair V key pub" "stripFragment k = w" "WITNESS_DID_RE w"
    and "validateWitnessedCheckpoint (Some (JObj (checkpoint_tuple wc))) = Inr wc" "canonical_time (Some (JStr t)) = Some t"
    and "\<not> sdkHasCosignatureSurface B" "mintCosignature B jcs wc t (nodeWitnessSigner w k key) = Inr m"
    and "JObj (mt_cosignature m) \<in> set (qn_cosignatures inp)" "w \<in> set (qn_trustedWitnessIds inp)" "w \<notin> set (qn_historicalWitnessIds inp)"
    and "map_of (qn_witnessKeysB64 inp) w = Some pub" "wc_log_id wc = cp_log_id (qn_checkpoint inp)"
    and "wc_tree_size wc = cp_tree_size (qn_checkpoint inp)" "wc_root_hash wc = cp_root_hash (qn_checkpoint inp)"
    and "date_parse t = Some ts" "ts - quorum_now inp us \<le> quorum_skew_ms inp"
  shows "w \<in> set (qr_verifiedWitnessIds (evaluateQuorum B V jcs us inp))"
proof -
  have mint: "tsMintCosignature jcs wc t (nodeWitnessSigner w k key) = Inr m"
    using assms(6,7) by (simp add: mintCosignature_def canNativeMint_def Let_def)
  obtain c where c: "parseCosignature (JObj (mt_cosignature m)) = Inr c" "lc_witness_id c = w" "lc_checkpoint c = wc" "lc_witnessed_at c = t"
      "tsVerifyCosignature V jcs c pub = Inr ()"
    by (rule minted_verifies [OF assms(1) refl assms(2-5) mint])
  have "evidence_of B V jcs inp (quorum_now inp us) (JObj (mt_cosignature m)) = Some w"
    unfolding evidence_of_Some using c assms(6,9-16)
    by (auto simp: same_tuple_def cosignatureFreshnessOk_def verifyCosignature_def)
  then have "w \<in> set (qr_verifiedWitnessIds (hostEvaluateQuorum B V jcs us inp))" using assms(8) unfolding host_verified by blast
  then show ?thesis using assms(6) by (simp add: evaluateQuorum_def)
qed

subsection \<open>Samples\<close>

definition sample_witness :: string where "sample_witness = ''did:web:w.example''"

definition sample_key :: private_key where
  "sample_key = \<lparr>pk_pkcs8 = None, pk_sign = (\<lambda>m. m)\<rparr>"

text \<open>A verifier that accepts the base64 of the message as its signature.\<close>

definition echo_verifier :: acdp_verifier where
  "echo_verifier = \<lparr>av_verifySignature = (\<lambda>pub sg m. Some (sg = b64_encode (ascii_bytes m))),
     av_verifySignatureP256 = (\<lambda>pub sg m. Some False)\<rparr>"

definition no_surface :: cosign_surface where
  "no_surface = \<lparr>has_buildWitnessCosignature = False, has_verifyWitnessCosignature = False, has_evaluateWitnessQuorum = False,
     buildWitnessCosignature = (\<lambda>_ _ _ _. ReturnedNonJson), verifyWitnessCosignature = (\<lambda>_ _ _. ReturnedNonJson),
     evaluateWitnessQuorum = (\<lambda>_ _ _ _ _ _. ReturnedNonJson)\<rparr>"

definition sample_tuple :: witnessed_checkpoint where
  "sample_tuple = \<lparr>wc_log_id = ''did:web:r.example/log/1'', wc_tree_size = 8,
     wc_root_hash = ''sha256:'' @ replicate 64 (CHR ''0''), wc_timestamp = ''2026-01-01T00:00:00.000Z''\<rparr>"

definition sample_checkpoint :: log_checkpoint where
  "sample_checkpoint = \<lparr>cp_version = ''acdp-log/1'', cp_log_id = ''did:web:r.example/log/1'', cp_tree_size = 8,
     cp_root_hash = ''sha256:'' @ replicate 64 (CHR ''0''), cp_timestamp = ''2026-01-01T00:00:00.000Z'',
     cp_signature = \<lparr>sig_algorithm = ''ed25519'', sig_key_id = ''did:web:r.example#k'', sig_value = ''AA''\<rparr>, cp_raw = []\<rparr>"

definition sample_inputs :: "json list \<Rightarrow> int \<Rightarrow> quorum_inputs" where
  "sample_inputs cosigs now = \<lparr>qn_cosignatures = cosigs, qn_checkpoint = sample_checkpoint, qn_trustedWitnessIds = [sample_witness],
     qn_witnessKeysB64 = [(sample_witness, ''pub'')], qn_historicalWitnessIds = [], qn_minWitnesses = 1, qn_maxAgeSecs = None,
     qn_maxClockSkewSecs = None, qn_nowMs = Some now\<rparr>"

definition sample_cosignature :: "string \<Rightarrow> json" where
  "sample_cosignature t = JObj (unsigned_cosignature sample_tuple t sample_witness @ [(''signature'', JObj
     [(''algorithm'', JStr ''ed25519''), (''key_id'', JStr (sample_witness @ ''#witness-key-1'')), (''value'', JStr ''AA'')])])"

theorem minted_cosignature_counts_witness:
  "\<exists>m. mintCosignature no_surface (\<lambda>v. Some ''x'') sample_tuple ''2026-01-01T00:01:00.000Z''
        (nodeWitnessSigner sample_witness (sample_witness @ ''#witness-key-1'') sample_key) = Inr m
      \<and> sample_witness \<in> set (qr_verifiedWitnessIds (evaluateQuorum no_surface echo_verifier (\<lambda>v. Some ''x'') 0
          (sample_inputs [JObj (mt_cosignature m)] 1767225660000)))"
proof -
  let ?k = "sample_witness @ ''#witness-key-1''" and ?t = "''2026-01-01T00:01:00.000Z''"
  obtain m where m: "mintCosignature no_surface (\<lambda>v. Some ''x'') sample_tuple ?t (nodeWitnessSigner sample_witness ?k sample_key) = Inr m"
    by (simp add: mintCosignature_def canNativeMint_def no_surface_def sdkHasCosignatureSurface_def tsMintCosignature_def
      cosignatureHash_def Let_def)
  have "ed25519_pair echo_verifier sample_key ''pub''" by (simp add: ed25519_pair_def echo_verifier_def sample_key_def)
  moreover have "stripFragment ?k = sample_witness" "WITNESS_DID_RE sample_witness"
    "validateWitnessedCheckpoint (Some (JObj (checkpoint_tuple sample_tuple))) = Inr sample_tuple"
    "canonical_time (Some (JStr ?t)) = Some ?t" "\<not> sdkHasCosignatureSurface no_surface" "date_parse ?t = Some 1767225660000"
    by code_simp+
  ultimately show ?thesis
    using minted_cosignature_counts [of echo_verifier sample_key "''pub''" ?k sample_witness sample_tuple ?t no_surface "\<lambda>v. Some ''x''" m
        "sample_inputs [JObj (mt_cosignature m)] 1767225660000" 1767225660000 0] m
    by (auto simp: sample_inputs_def sample_checkpoint_def sample_tuple_def quorum_now_def quorum_skew_ms_def)
qed

text \<open>A binding that accepts every cosignature but cannot evaluate a quorum, so that the host loop runs.\<close>

definition lenient_surface :: cosign_surface where
  "lenient_surface = \<lparr>has_buildWitnessCosignature = True, has_verifyWitnessCosignature = True, has_evaluateWitnessQuorum = True,
     buildWitnessCosignature = (\<lambda>_ _ _ _. ReturnedNonJson), verifyWitnessCosignature = (\<lambda>_ _ _. Returned [(''valid'', JBool True)]),
     evaluateWitnessQuorum = (\<lambda>_ _ _ _ _ _. ReturnedNonJson)\<rparr>"

definition sample_parsed :: "string \<Rightarrow> log_cosignature" where
  "sample_parsed t = \<lparr>lc_witness_id = sample_witness, lc_checkpoint = sample_tuple, lc_witnessed_at = t,
     lc_signature = \<lparr>sig_algorithm = ''ed25519'', sig_key_id = sample_witness @ ''#witness-key-1'', sig_value = ''AA''\<rparr>,
     lc_raw = (case sample_cosignature t of JObj ob \<Rightarrow> ob | _ \<Rightarrow> [])\<rparr>"

lemma lenient_accepts: "verifyCosignature lenient_surface V jcs c key (Some cp) = Inr ()"
  by (simp add: verifyCosignature_def sdkHasCosignatureSurface_def nativeVerifyCosignature_def lenient_surface_def get_prop_def)

lemma lenient_host: "evaluateQuorum lenient_surface V jcs us inp = hostEvaluateQuorum lenient_surface V jcs us inp"
  by (simp add: evaluateQuorum_def nativeEvaluateQuorum_def lenient_surface_def Let_def)

text \<open>The fresh count depends on the order in which the registry lists the cosignatures: a witness whose stale cosignature comes first is
  skipped before its fresh one is looked at, so the same evidence meets the fresh quorum in one order and not in the other.\<close>

theorem fresh_quorum_depends_on_order:
  "qr_meetsFreshQuorum (evaluateQuorum lenient_surface echo_verifier (\<lambda>v. Some ''x'') 0 (sample_inputs
       [sample_cosignature ''2026-01-01T00:00:00.000Z'', sample_cosignature ''2026-01-01T01:00:00.000Z''] 1767229200000)) = False
   \<and> qr_meetsFreshQuorum (evaluateQuorum lenient_surface echo_verifier (\<lambda>v. Some ''x'') 0 (sample_inputs
       [sample_cosignature ''2026-01-01T01:00:00.000Z'', sample_cosignature ''2026-01-01T00:00:00.000Z''] 1767229200000)) = True"
proof -
  let ?old = "''2026-01-01T00:00:00.000Z''" and ?new = "''2026-01-01T01:00:00.000Z''"
  have p: "parseCosignature (sample_cosignature ?old) = Inr (sample_parsed ?old)"
    "parseCosignature (sample_cosignature ?new) = Inr (sample_parsed ?new)" by code_simp+
  have d: "date_parse ?old = Some 1767225600000" "date_parse ?new = Some 1767229200000" by code_simp+
  show ?thesis
    unfolding lenient_host
    by (simp add: hostEvaluateQuorum_def quorum_step_def sample_inputs_def p lenient_accepts sample_parsed_def same_tuple_def
      sample_tuple_def sample_checkpoint_def cosignatureFreshnessOk_def cosignatureAgeOk_def d quorum_now_def quorum_skew_ms_def
      quorum_max_age_def Let_def)
qed

end
