(* ===== verification/WitnessStore.thy ===== *)
theory WitnessStore
  imports Cosign
begin

text \<open>
  The tables of the checkpoint witness: \<open>src/src/storage/log-witness.repository.ts\<close>, \<open>src/src/storage/log-cosignature.repository.ts\<close> and their
  definitions in \<open>src/src/db/schema.ts\<close>.

  A table is a list of rows, the cursors a map on their primary key. Storage calls succeed; times are milliseconds.
\<close>

section \<open>Rows\<close>

record witness_row =
  wr_tenantId :: string
  wr_registryAuthority :: string
  wr_logId :: string
  wr_treeSize :: int
  wr_rootHash :: string
  wr_timestamp :: string
  wr_rawCheckpoint :: jobj
  wr_witnessedAt :: int
  wr_signatureValid :: bool
  wr_consistencyOk :: "bool option"
  wr_quorum :: "quorum_report option"

record 'd witness_cursor =
  cu_logId :: "string option"
  cu_lastWitnessedSize :: "int option"
  cu_lastRootHash :: "string option"
  cu_consecutiveFailures :: int
  cu_alerted :: bool
  cu_lastAlertReason :: "string option"
  cu_lastAlertDetail :: "'d option"
  cu_lastAlertAt :: "int option"
  cu_acknowledgedAt :: "int option"
  cu_acknowledgedBy :: "string option"
  cu_lastSuccessAt :: "int option"
  cu_updatedAt :: int

record cosignature_row =
  cr_tenantId :: string
  cr_witnessId :: string
  cr_registryAuthority :: string
  cr_logId :: string
  cr_treeSize :: int
  cr_rootHash :: string
  cr_timestamp :: string
  cr_witnessedAt :: int
  cr_keyId :: string
  cr_cosignatureHash :: string
  cr_signatureValue :: string
  cr_cosignature :: jobj

type_synonym 'd cursors = "(string \<times> string, 'd witness_cursor) jsmap"

text \<open>The column defaults.\<close>

definition new_cursor :: "int \<Rightarrow> 'd witness_cursor" where
  "new_cursor now = \<lparr>cu_logId = None, cu_lastWitnessedSize = None, cu_lastRootHash = None, cu_consecutiveFailures = 0, cu_alerted = False,
     cu_lastAlertReason = None, cu_lastAlertDetail = None, cu_lastAlertAt = None, cu_acknowledgedAt = None, cu_acknowledgedBy = None,
     cu_lastSuccessAt = None, cu_updatedAt = now\<rparr>"

section \<open>Checkpoints\<close>

definition same_head :: "witness_row \<Rightarrow> witness_row \<Rightarrow> bool" where
  "same_head a b = (wr_tenantId a = wr_tenantId b \<and> wr_logId a = wr_logId b \<and> wr_treeSize a = wr_treeSize b \<and> wr_rootHash a = wr_rootHash b)"

definition recordCheckpoint :: "witness_row \<Rightarrow> witness_row list \<Rightarrow> witness_row option \<times> witness_row list" where
  "recordCheckpoint input rows = (if \<exists>r \<in> set rows. same_head r input then (None, rows) else (Some input, rows @ [input]))"

definition updateQuorum :: "string \<Rightarrow> string \<Rightarrow> int \<Rightarrow> string \<Rightarrow> quorum_report \<Rightarrow> witness_row list \<Rightarrow> witness_row list" where
  "updateQuorum tenantId logId treeSize rootHash q rows = map (\<lambda>r.
     if wr_tenantId r = tenantId \<and> wr_logId r = logId \<and> wr_treeSize r = treeSize \<and> wr_rootHash r = rootHash
     then r\<lparr>wr_quorum := Some q\<rparr> else r) rows"

definition latestForAuthority :: "string \<Rightarrow> string \<Rightarrow> nat \<Rightarrow> witness_row list \<Rightarrow> witness_row list" where
  "latestForAuthority tenantId authority limit rows = take limit (sort_key (\<lambda>r. - wr_witnessedAt r)
     (sort_key (\<lambda>r. - wr_treeSize r) (filter (\<lambda>r. wr_tenantId r = tenantId \<and> wr_registryAuthority r = authority) rows)))"

definition findByLogIdAndSize :: "string \<Rightarrow> string \<Rightarrow> int \<Rightarrow> witness_row list \<Rightarrow> witness_row option" where
  "findByLogIdAndSize tenantId logId treeSize rows =
     find (\<lambda>r. wr_tenantId r = tenantId \<and> wr_logId r = logId \<and> wr_treeSize r = treeSize) rows"

section \<open>Cursors\<close>

definition getCursor :: "string \<Rightarrow> string \<Rightarrow> 'd cursors \<Rightarrow> 'd witness_cursor option" where
  "getCursor tenantId authority cursors = map_of cursors (tenantId, authority)"

definition upsert_cursor ::
    "string \<Rightarrow> string \<Rightarrow> int \<Rightarrow> ('d witness_cursor \<Rightarrow> 'd witness_cursor) \<Rightarrow> 'd cursors \<Rightarrow> 'd cursors" where
  "upsert_cursor tenantId authority now f cursors =
     AList.update (tenantId, authority) (f (case map_of cursors (tenantId, authority) of Some c \<Rightarrow> c | None \<Rightarrow> new_cursor now)) cursors"

definition listAlerted :: "string \<Rightarrow> bool \<Rightarrow> 'd cursors \<Rightarrow> ((string \<times> string) \<times> 'd witness_cursor) list" where
  "listAlerted tenantId includeAcknowledged cursors =
     sort_key (\<lambda>(k, c). case cu_lastAlertAt c of Some t \<Rightarrow> - t | None \<Rightarrow> 0)
       (filter (\<lambda>(k, c). fst k = tenantId \<and> cu_alerted c \<and> (includeAcknowledged \<or> cu_acknowledgedAt c = None)) cursors)"

definition acknowledgeAlert ::
    "string \<Rightarrow> string \<Rightarrow> string \<Rightarrow> int \<Rightarrow> 'd cursors \<Rightarrow> 'd witness_cursor option \<times> 'd cursors" where
  "acknowledgeAlert tenantId authority acknowledgedBy now cursors = (case map_of cursors (tenantId, authority) of
     Some c \<Rightarrow> if cu_alerted c
       then (let c' = c\<lparr>cu_acknowledgedAt := Some now, cu_acknowledgedBy := Some acknowledgedBy, cu_updatedAt := now\<rparr>
             in (Some c', AList.update (tenantId, authority) c' cursors))
       else (None, cursors)
   | None \<Rightarrow> (None, cursors))"

definition advanceCursor :: "string \<Rightarrow> string \<Rightarrow> string \<Rightarrow> int \<Rightarrow> string \<Rightarrow> int \<Rightarrow> 'd cursors \<Rightarrow> 'd cursors" where
  "advanceCursor tenantId authority logId treeSize rootHash now = upsert_cursor tenantId authority now (\<lambda>c.
     c\<lparr>cu_logId := Some logId, cu_lastWitnessedSize := Some treeSize, cu_lastRootHash := Some rootHash, cu_consecutiveFailures := 0,
       cu_alerted := False, cu_lastAlertReason := None, cu_lastAlertDetail := None, cu_acknowledgedAt := None, cu_acknowledgedBy := None,
       cu_lastSuccessAt := Some now, cu_updatedAt := now\<rparr>)"

text \<open>Returns the alert state before the call.\<close>

definition markAlert :: "string \<Rightarrow> string \<Rightarrow> string \<Rightarrow> 'd \<Rightarrow> int \<Rightarrow> 'd cursors \<Rightarrow> (bool \<times> string option) \<times> 'd cursors" where
  "markAlert tenantId authority reason detail now cursors =
     (let existing = getCursor tenantId authority cursors;
          previousReason = (case existing of Some c \<Rightarrow> cu_lastAlertReason c | None \<Rightarrow> None);
          reasonChanged = (previousReason \<noteq> Some reason)
      in (((case existing of Some c \<Rightarrow> cu_alerted c | None \<Rightarrow> False), previousReason),
          upsert_cursor tenantId authority now (\<lambda>c.
            let c' = c\<lparr>cu_alerted := True, cu_lastAlertReason := Some reason, cu_lastAlertDetail := Some detail,
                 cu_lastAlertAt := Some now, cu_updatedAt := now\<rparr>
            in if reasonChanged then c'\<lparr>cu_acknowledgedAt := None, cu_acknowledgedBy := None\<rparr> else c') cursors))"

definition markFailure :: "string \<Rightarrow> string \<Rightarrow> int \<Rightarrow> 'd cursors \<Rightarrow> 'd cursors" where
  "markFailure tenantId authority now = upsert_cursor tenantId authority now (\<lambda>c.
     c\<lparr>cu_consecutiveFailures := cu_consecutiveFailures c + 1, cu_updatedAt := now\<rparr>)"

section \<open>Cosignatures\<close>

definition same_cosignature :: "cosignature_row \<Rightarrow> cosignature_row \<Rightarrow> bool" where
  "same_cosignature a b = (cr_tenantId a = cr_tenantId b \<and> cr_witnessId a = cr_witnessId b \<and> cr_logId a = cr_logId b
     \<and> cr_treeSize a = cr_treeSize b \<and> cr_rootHash a = cr_rootHash b \<and> cr_witnessedAt a = cr_witnessedAt b)"

definition record_cosignature :: "cosignature_row \<Rightarrow> cosignature_row list \<Rightarrow> cosignature_row option \<times> cosignature_row list" where
  "record_cosignature input rows = (if \<exists>r \<in> set rows. same_cosignature r input then (None, rows) else (Some input, rows @ [input]))"

definition cosig_tuple :: "cosignature_row \<Rightarrow> string \<times> int \<times> string" where
  "cosig_tuple r = (cr_logId r, cr_treeSize r, cr_rootHash r)"

text \<open>The first row of every tuple.\<close>

fun distinct_on :: "(string \<times> int \<times> string) list \<Rightarrow> cosignature_row list \<Rightarrow> cosignature_row list" where
  "distinct_on seen [] = []"
| "distinct_on seen (r # rs) = (if cosig_tuple r \<in> set seen then distinct_on seen rs else r # distinct_on (cosig_tuple r # seen) rs)"

definition newest_first :: "cosignature_row list \<Rightarrow> cosignature_row list" where
  "newest_first rows = sort_key (\<lambda>r. - cr_witnessedAt r) (sort_key (\<lambda>r. - cr_treeSize r) rows)"

definition list_cosignatures ::
    "string \<Rightarrow> string option \<Rightarrow> int option \<Rightarrow> nat option \<Rightarrow> bool \<Rightarrow> cosignature_row list \<Rightarrow> cosignature_row list" where
  "list_cosignatures witnessId logId treeSize limit all rows =
     (let matching = filter (\<lambda>r. cr_witnessId r = witnessId \<and> (logId = None \<or> logId = Some (cr_logId r))
            \<and> (treeSize = None \<or> treeSize = Some (cr_treeSize r))) rows
      in if all then take (case limit of Some n \<Rightarrow> n | None \<Rightarrow> 200) (newest_first matching)
         else take (case limit of Some n \<Rightarrow> n | None \<Rightarrow> 50) (newest_first (distinct_on [] (sort_key (\<lambda>r. - cr_witnessedAt r) matching))))"

definition same_partition :: "cosignature_row \<Rightarrow> cosignature_row \<Rightarrow> bool" where
  "same_partition a b = (cr_tenantId a = cr_tenantId b \<and> cr_witnessId a = cr_witnessId b \<and> cosig_tuple a = cosig_tuple b)"

text \<open>\<open>ROW_NUMBER()\<close> within a partition; the unique key excludes ties.\<close>

definition rank_desc :: "cosignature_row list \<Rightarrow> cosignature_row \<Rightarrow> int" where
  "rank_desc rows r = 1 + int (length (filter (\<lambda>q. same_partition q r \<and> cr_witnessedAt q > cr_witnessedAt r) rows))"

definition rank_asc :: "cosignature_row list \<Rightarrow> cosignature_row \<Rightarrow> int" where
  "rank_asc rows r = 1 + int (length (filter (\<lambda>q. same_partition q r \<and> cr_witnessedAt q < cr_witnessedAt r) rows))"

definition purgeOldPerTuple :: "int \<Rightarrow> int \<Rightarrow> cosignature_row list \<Rightarrow> nat \<times> cosignature_row list" where
  "purgeOldPerTuple cutoff keepPerHead rows =
     (let doomed = (\<lambda>r. rank_desc rows r > max (keepPerHead - 1) 0 \<and> rank_asc rows r > 1 \<and> cr_witnessedAt r < cutoff)
      in (length (filter doomed rows), filter (\<lambda>r. \<not> doomed r) rows))"

definition coveredLogs :: "string \<Rightarrow> cosignature_row list \<Rightarrow> string list" where
  "coveredLogs witnessId rows = sort (remdups (map cr_logId (filter (\<lambda>r. cr_witnessId r = witnessId) rows)))"

definition countForTenant :: "string \<Rightarrow> cosignature_row list \<Rightarrow> nat" where
  "countForTenant tenantId rows = length (filter (\<lambda>r. cr_tenantId r = tenantId) rows)"

section \<open>Times as text\<close>

text \<open>\<open>new Date(ms).toISOString()\<close> for the years 0 to 9999.\<close>

definition civil_from_days :: "int \<Rightarrow> int \<times> int \<times> int" where
  "civil_from_days z =
     (let z' = z + 719468; era = z' div 146097; doe = z' mod 146097;
          yoe = (doe - doe div 1460 + doe div 36524 - doe div 146096) div 365;
          doy = doe - (365 * yoe + yoe div 4 - yoe div 100);
          mp = (5 * doy + 2) div 153;
          d = doy - (153 * mp + 2) div 5 + 1;
          m = (if mp < 10 then mp + 3 else mp - 9)
      in (yoe + era * 400 + (if m \<le> 2 then 1 else 0), m, d))"

definition pad_digits :: "nat \<Rightarrow> int \<Rightarrow> string" where
  "pad_digits k n = (let s = show_nat (nat n) in replicate (k - length s) (CHR ''0'') @ s)"

definition toISOString :: "int \<Rightarrow> string" where
  "toISOString ms = (case civil_from_days (ms div 86400000) of
     (y, m, d) \<Rightarrow>
       (let t = ms mod 86400000
        in pad_digits 4 y @ ''-'' @ pad_digits 2 m @ ''-'' @ pad_digits 2 d @ ''T'' @ pad_digits 2 (t div 3600000) @ '':''
           @ pad_digits 2 (t div 60000 mod 60) @ '':'' @ pad_digits 2 (t div 1000 mod 60) @ ''.'' @ pad_digits 3 (t mod 1000) @ ''Z''))"

section \<open>Lemmas\<close>

lemma upsert_same: "map_of (upsert_cursor t a now f cs) (t, a) =
    Some (f (case map_of cs (t, a) of Some c \<Rightarrow> c | None \<Rightarrow> new_cursor now))"
  by (simp add: upsert_cursor_def update_conv')

lemma upsert_other: "k \<noteq> (t, a) \<Longrightarrow> map_of (upsert_cursor t a now f cs) k = map_of cs k"
  by (simp add: upsert_cursor_def update_conv')

lemma record_cosignature_rows: "set (snd (record_cosignature r rows)) \<subseteq> insert r (set rows)" "set rows \<subseteq> set (snd (record_cosignature r rows))"
  by (auto simp: record_cosignature_def)

end
