(* ===== verification/CheckpointWitness.thy ===== *)
theory CheckpointWitness
  imports WitnessStore DidWeb
begin

text \<open>
  The checkpoint witness (\<open>src/src/audit/checkpoint-witness.service.ts\<close>): one pass over a registry fetches its signed tree head, vets it,
  compares it with the retained head, advances the cursor or raises an alert, cosigns, and counts the quorum of other witnesses.

  What the pass asks of other components is the record \<open>witness_env\<close>: configuration, clock, the answers of the registry, the key
  resolver, the binding and the signer. Metrics and log lines are not modelled; an alert that is published over the event stream and the
  webhooks is one entry of \<open>wd_alerts\<close>. Storage calls succeed.
\<close>

section \<open>Data\<close>

datatype alert_reason =
    CheckpointInvalid | CheckpointSignatureInvalid | TreeSizeRegression | RootMismatchAlert | ConsistencyFailed | LogIdChanged

fun alert_string :: "alert_reason \<Rightarrow> string" where
  "alert_string CheckpointInvalid = ''checkpoint_invalid''"
| "alert_string CheckpointSignatureInvalid = ''checkpoint_signature_invalid''"
| "alert_string TreeSizeRegression = ''tree_size_regression''"
| "alert_string RootMismatchAlert = ''root_mismatch''"
| "alert_string ConsistencyFailed = ''consistency_failed''"
| "alert_string LogIdChanged = ''log_id_changed''"

record retained_head =
  rh_logId :: string
  rh_size :: int
  rh_root :: string

datatype growth_error =
    GrowthRefused int
  | GrowthUnparsable proof_error
  | GrowthOtherLog string
  | GrowthOtherSizes int int
  | GrowthFold verify_reason

datatype alert_error =
    AeShape checkpoint_error
  | AeLogDid "string option" string
  | AeKeyDid string string
  | AeSkew verify_reason
  | AeSignature verify_reason
  | AeLogChanged
  | AeRegressed
  | AeSplitView
  | AeGrowth growth_error

record alert_detail =
  ad_error :: alert_error
  ad_previous :: "retained_head option"
  ad_checkpoint :: json
  ad_path :: "string list option"

datatype witness_error =
    NoBaseUrl
  | CheckpointHttp int
  | CheckpointFetchFailed
  | UnverifiedAuthority authority_reason
  | ReceiptKeyUnresolved
  | ProofFetchFailed

datatype skip_reason = Excluded | NoTransparencyLog | CapabilitiesUnreadable

datatype witness_outcome =
    Witnessed
  | Skipped skip_reason
  | Alerted alert_reason
  | Failed witness_error

record witness_alert =
  al_tenantId :: string
  al_authority :: string
  al_reason :: alert_reason
  al_logId :: "string option"
  al_detail :: alert_detail
  al_ts :: int

record witness_db =
  wd_checkpoints :: "witness_row list"
  wd_cursors :: "alert_detail cursors"
  wd_cosignatures :: "cosignature_row list"
  wd_alerts :: "witness_alert list"

definition empty_db :: witness_db where
  "empty_db = \<lparr>wd_checkpoints = [], wd_cursors = [], wd_cosignatures = [], wd_alerts = []\<rparr>"

record enrollment =
  en_tenantId :: string
  en_authority :: string
  en_baseUrl :: "string option"

record witness_env =
  we_now :: clock
  we_exclude :: "string list"
  we_advertises :: "string \<Rightarrow> string \<Rightarrow> bool option"
  we_registryBaseUrl :: "string \<Rightarrow> string \<Rightarrow> string option"
  we_get :: "string \<Rightarrow> http_answer option"
  we_resolveReceiptKey :: "string \<Rightarrow> string \<Rightarrow> resolved_receipt_key option"
  we_resolveWitnessKey :: "string \<Rightarrow> string \<Rightarrow> resolved_receipt_key option"
  we_stripFragment :: "string \<Rightarrow> string"
  we_verifier :: acdp_verifier
  we_jcs :: jcs
  we_log :: log_surface
  we_cosign :: cosign_surface
  we_signer :: "witness_signer option"
  we_cosigning :: bool
  we_quorum :: bool
  we_trusted :: "string list"
  we_minWitnesses :: int
  we_maxAgeSeconds :: "int option"
  we_maxClockSkewSeconds :: int

section \<open>Storage steps of a pass\<close>

definition recordFailureSafe :: "witness_env \<Rightarrow> string \<Rightarrow> string \<Rightarrow> witness_db \<Rightarrow> witness_db" where
  "recordFailureSafe env tenantId authority db =
     db\<lparr>wd_cursors := markFailure tenantId authority (now_ms (we_now env)) (wd_cursors db)\<rparr>"

definition persistCheckpointSafe ::
    "witness_env \<Rightarrow> string \<Rightarrow> string \<Rightarrow> log_checkpoint \<Rightarrow> bool \<Rightarrow> bool option \<Rightarrow> quorum_report option \<Rightarrow> witness_db \<Rightarrow> witness_db" where
  "persistCheckpointSafe env tenantId authority cp signatureValid consistencyOk quorum db =
     (case recordCheckpoint \<lparr>wr_tenantId = tenantId, wr_registryAuthority = authority, wr_logId = cp_log_id cp, wr_treeSize = cp_tree_size cp,
         wr_rootHash = cp_root_hash cp, wr_timestamp = cp_timestamp cp, wr_rawCheckpoint = cp_raw cp, wr_witnessedAt = now_ms (we_now env),
         wr_signatureValid = signatureValid, wr_consistencyOk = consistencyOk, wr_quorum = quorum\<rparr> (wd_checkpoints db) of
        (Some inserted, rows) \<Rightarrow> db\<lparr>wd_checkpoints := rows\<rparr>
      | (None, rows) \<Rightarrow> (case quorum of
            Some q \<Rightarrow> db\<lparr>wd_checkpoints := updateQuorum tenantId (cp_log_id cp) (cp_tree_size cp) (cp_root_hash cp) q rows\<rparr>
          | None \<Rightarrow> db\<lparr>wd_checkpoints := rows\<rparr>))"

definition checkpoint_log_id :: "json \<Rightarrow> string option" where
  "checkpoint_log_id v = (case v of JObj ob \<Rightarrow> as_string (get_prop ob ''log_id'') | _ \<Rightarrow> None)"

definition raiseAlert ::
    "witness_env \<Rightarrow> string \<Rightarrow> string \<Rightarrow> alert_reason \<Rightarrow> alert_detail \<Rightarrow> witness_db \<Rightarrow> witness_outcome \<times> witness_db" where
  "raiseAlert env tenantId authority reason detail db =
     (let now = now_ms (we_now env)
      in case markAlert tenantId authority (alert_string reason) detail now (wd_cursors db) of
           ((wasAlerted, previousReason), cursors) \<Rightarrow>
             (let isTransition = (\<not> wasAlerted \<or> previousReason \<noteq> Some (alert_string reason));
                  al = \<lparr>al_tenantId = tenantId, al_authority = authority, al_reason = reason,
                    al_logId = checkpoint_log_id (ad_checkpoint detail), al_detail = detail, al_ts = now\<rparr>
              in (Alerted reason, db\<lparr>wd_cursors := cursors, wd_alerts := (if isTransition then wd_alerts db @ [al] else wd_alerts db)\<rparr>)))"

section \<open>Cosigning\<close>

text \<open>The row of a minted object; \<open>None\<close> when a member it reads is missing, which the column constraints reject.\<close>

definition cosignature_row_of :: "string \<Rightarrow> string \<Rightarrow> minted \<Rightarrow> cosignature_row option" where
  "cosignature_row_of tenantId authority m =
     (let ob = mt_cosignature m in
      case (as_object (get_prop ob ''witnessed_checkpoint''), as_object (get_prop ob ''signature'')) of
        (Some wc, Some sg) \<Rightarrow>
          (case (as_string (get_prop ob ''witness_id''), as_string (get_prop wc ''log_id''), as_int (get_prop wc ''tree_size''),
                 as_string (get_prop wc ''root_hash''), as_string (get_prop wc ''timestamp''), as_string (get_prop ob ''witnessed_at''),
                 as_string (get_prop sg ''key_id''), as_string (get_prop sg ''value'')) of
             (Some w, Some l, Some n, Some r, Some t, Some seen, Some k, Some v) \<Rightarrow>
               (case date_parse seen of
                  Some ms \<Rightarrow> Some \<lparr>cr_tenantId = tenantId, cr_witnessId = w, cr_registryAuthority = authority, cr_logId = l, cr_treeSize = n,
                    cr_rootHash = r, cr_timestamp = t, cr_witnessedAt = ms, cr_keyId = k, cr_cosignatureHash = mt_hash m,
                    cr_signatureValue = v, cr_cosignature = ob\<rparr>
                | None \<Rightarrow> None)
           | _ \<Rightarrow> None)
      | _ \<Rightarrow> None)"

definition tuple_of :: "log_checkpoint \<Rightarrow> witnessed_checkpoint" where
  "tuple_of cp = \<lparr>wc_log_id = cp_log_id cp, wc_tree_size = cp_tree_size cp, wc_root_hash = cp_root_hash cp, wc_timestamp = cp_timestamp cp\<rparr>"

definition cosignSafe :: "witness_env \<Rightarrow> string \<Rightarrow> string \<Rightarrow> log_checkpoint \<Rightarrow> witness_db \<Rightarrow> witness_db" where
  "cosignSafe env tenantId authority cp db = (case we_signer env of
     Some signer \<Rightarrow>
       if \<not> we_cosigning env then db
       else (case mintCosignature (we_cosign env) (we_jcs env) (tuple_of cp) (toISOString (now_ms (we_now env))) signer of
           Inl e \<Rightarrow> db
         | Inr m \<Rightarrow> (case cosignature_row_of tenantId authority m of
             None \<Rightarrow> db
           | Some row \<Rightarrow> db\<lparr>wd_cosignatures := snd (record_cosignature row (wd_cosignatures db))\<rparr>))
   | None \<Rightarrow> db)"

section \<open>Quorum consumption\<close>

fun resolve_witness_keys ::
    "witness_env \<Rightarrow> (string, string) jsmap \<times> string list \<Rightarrow> json list \<Rightarrow> (string, string) jsmap \<times> string list" where
  "resolve_witness_keys env acc [] = acc"
| "resolve_witness_keys env (keys, historical) (raw # raws) = resolve_witness_keys env
     (case parseCosignature raw of
        Inl e \<Rightarrow> (keys, historical)
      | Inr c \<Rightarrow>
          if lc_witness_id c \<notin> set (we_trusted env) then (keys, historical)
          else if map_of keys (lc_witness_id c) \<noteq> None then (keys, historical)
          else if starts_with ''did:key:'' (lc_witness_id c) then
            (case decodeEd25519Multibase (lc_witness_id c) of
               Inr publicKey \<Rightarrow> (keys @ [(lc_witness_id c, b64_encode publicKey)], historical)
             | Inl e \<Rightarrow> (keys, historical))
          else (case we_resolveWitnessKey env (sig_key_id (lc_signature c)) ''ed25519'' of
              Some resolved \<Rightarrow> (keys @ [(lc_witness_id c, rk_publicKeyB64 (rr_key resolved))],
                if rr_historical resolved then historical @ [lc_witness_id c] else historical)
            | None \<Rightarrow> (keys, historical))) raws"

definition consumeQuorumSafe :: "witness_env \<Rightarrow> log_checkpoint \<Rightarrow> json list \<Rightarrow> quorum_report option" where
  "consumeQuorumSafe env cp witnessSignatures =
     (if \<not> we_quorum env then None
      else (case resolve_witness_keys env ([], []) witnessSignatures of
        (keys, historical) \<Rightarrow> Some (evaluateQuorum (we_cosign env) (we_verifier env) (we_jcs env) (we_now env)
          \<lparr>qn_cosignatures = witnessSignatures, qn_checkpoint = cp, qn_trustedWitnessIds = we_trusted env, qn_witnessKeysB64 = keys,
           qn_historicalWitnessIds = historical, qn_minWitnesses = we_minWitnesses env, qn_maxAgeSecs = Some (we_maxAgeSeconds env),
           qn_maxClockSkewSecs = Some (we_maxClockSkewSeconds env), qn_nowMs = None\<rparr>)))"

section \<open>Vetting a served checkpoint\<close>

definition unwrapCheckpointEnvelope :: "json \<Rightarrow> json \<times> json list" where
  "unwrapCheckpointEnvelope raw = (case raw of
     JObj ob \<Rightarrow> (case (get_prop ob ''log_checkpoint'', get_prop ob ''witness_signatures'') of
         (Some cp, Some (JArr ws)) \<Rightarrow> (cp, ws)
       | (Some cp, Some _) \<Rightarrow> (cp, [])
       | _ \<Rightarrow> (raw, []))
   | _ \<Rightarrow> (raw, []))"

definition checkRegistryBinding :: "witness_env \<Rightarrow> log_checkpoint \<Rightarrow> string \<Rightarrow> alert_error option" where
  "checkRegistryBinding env cp expectedDid =
     (if logIdRegistryDid (cp_log_id cp) \<noteq> Some expectedDid then Some (AeLogDid (logIdRegistryDid (cp_log_id cp)) expectedDid)
      else if we_stripFragment env (sig_key_id (cp_signature cp)) \<noteq> expectedDid then Some (AeKeyDid (sig_key_id (cp_signature cp)) expectedDid)
      else None)"

datatype vet_failure =
    VetAlert alert_error json
  | VetError witness_error
  | VetBadSignature verify_reason log_checkpoint

text \<open>Shape, registry binding, clock skew and signature, in the order of the code.\<close>

definition vet_checkpoint :: "witness_env \<Rightarrow> string \<Rightarrow> json \<Rightarrow> vet_failure + log_checkpoint" where
  "vet_checkpoint env authority raw = (case parseCheckpoint raw of
     Inl e \<Rightarrow> Inl (VetAlert (AeShape e) raw)
   | Inr cp \<Rightarrow> (case authorityToDidWeb authority of
       None \<Rightarrow> Inl (VetError (UnverifiedAuthority (nonCanonicalAuthorityReason authority)))
     | Some expectedDid \<Rightarrow> (case checkRegistryBinding env cp expectedDid of
         Some e \<Rightarrow> Inl (VetAlert e raw)
       | None \<Rightarrow> (case checkpointTimestampOk cp (now_ms (we_now env)) of
           Inl e \<Rightarrow> Inl (VetAlert (AeSkew e) raw)
         | Inr _ \<Rightarrow> (case we_resolveReceiptKey env (sig_key_id (cp_signature cp)) ''ed25519'' of
             None \<Rightarrow> Inl (VetError ReceiptKeyUnresolved)
           | Some resolved \<Rightarrow> (case verifyCheckpointSignature (we_verifier env) (we_jcs env) cp (rk_publicKeyB64 (rr_key resolved)) of
               Inl e \<Rightarrow> Inl (VetBadSignature e cp)
             | Inr _ \<Rightarrow> Inr cp))))))"

section \<open>The state machine\<close>

definition retained_of :: "alert_detail witness_cursor option \<Rightarrow> retained_head option" where
  "retained_of cursor = (case cursor of
     Some c \<Rightarrow> (case (cu_logId c, cu_lastWitnessedSize c, cu_lastRootHash c) of
         (Some l, Some n, Some r) \<Rightarrow> Some \<lparr>rh_logId = l, rh_size = n, rh_root = r\<rparr>
       | _ \<Rightarrow> None)
   | None \<Rightarrow> None)"

definition head_of :: "log_checkpoint \<Rightarrow> retained_head" where
  "head_of cp = \<lparr>rh_logId = cp_log_id cp, rh_size = cp_tree_size cp, rh_root = cp_root_hash cp\<rparr>"

text \<open>Advance the cursor, then cosign.\<close>

definition advance_and_cosign :: "witness_env \<Rightarrow> string \<Rightarrow> string \<Rightarrow> log_checkpoint \<Rightarrow> witness_db \<Rightarrow> witness_outcome \<times> witness_db" where
  "advance_and_cosign env tenantId authority cp db =
     (Witnessed, cosignSafe env tenantId authority cp
       (db\<lparr>wd_cursors := advanceCursor tenantId authority (cp_log_id cp) (cp_tree_size cp) (cp_root_hash cp) (now_ms (we_now env)) (wd_cursors db)\<rparr>))"

definition alert_on ::
    "witness_env \<Rightarrow> string \<Rightarrow> string \<Rightarrow> alert_reason \<Rightarrow> alert_error \<Rightarrow> retained_head \<Rightarrow> string list option \<Rightarrow> log_checkpoint \<Rightarrow> witness_db
     \<Rightarrow> witness_outcome \<times> witness_db" where
  "alert_on env tenantId authority reason e prior path cp db = raiseAlert env tenantId authority reason
     \<lparr>ad_error = e, ad_previous = Some prior, ad_checkpoint = JObj (cp_raw cp), ad_path = path\<rparr> db"

definition growth_verdict :: "witness_env \<Rightarrow> retained_head \<Rightarrow> log_checkpoint \<Rightarrow> json \<Rightarrow> (growth_error \<times> string list option) + unit" where
  "growth_verdict env prior cp proofRaw = (case parseConsistencyProof proofRaw of
     Inl e \<Rightarrow> Inl (GrowthUnparsable e, None)
   | Inr p \<Rightarrow>
       if cq_log_id p \<noteq> cp_log_id cp then Inl (GrowthOtherLog (cq_log_id p), Some (cq_path p))
       else if cq_first_tree_size p \<noteq> rh_size prior \<or> cq_second_tree_size p \<noteq> cp_tree_size cp
       then Inl (GrowthOtherSizes (cq_first_tree_size p) (cq_second_tree_size p), Some (cq_path p))
       else (case verifyConsistency (we_log env) p cp (rh_root prior) of
           Inl e \<Rightarrow> Inl (GrowthFold e, Some (cq_path p))
         | Inr _ \<Rightarrow> Inr ()))"

definition proof_url :: "string \<Rightarrow> int \<Rightarrow> int \<Rightarrow> string" where
  "proof_url baseUrl a b = baseUrl @ ''/log/proof?first='' @ show_int a @ ''&second='' @ show_int b"

definition verifyGrowth ::
    "witness_env \<Rightarrow> string \<Rightarrow> string \<Rightarrow> string \<Rightarrow> retained_head \<Rightarrow> log_checkpoint \<Rightarrow> quorum_report option \<Rightarrow> witness_db
     \<Rightarrow> witness_outcome \<times> witness_db" where
  "verifyGrowth env tenantId authority baseUrl prior cp quorum db =
     (case we_get env (proof_url baseUrl (rh_size prior) (cp_tree_size cp)) of
        None \<Rightarrow> (Failed ProofFetchFailed, recordFailureSafe env tenantId authority db)
      | Some resp \<Rightarrow>
          if \<not> http_ok resp
          then alert_on env tenantId authority ConsistencyFailed (AeGrowth (GrowthRefused (ha_status resp))) prior None cp
                 (persistCheckpointSafe env tenantId authority cp True (Some False) None db)
          else (case ha_body_json resp of
              None \<Rightarrow> (Failed ProofFetchFailed, recordFailureSafe env tenantId authority db)
            | Some proofRaw \<Rightarrow> (case growth_verdict env prior cp proofRaw of
                Inl (e, path) \<Rightarrow> alert_on env tenantId authority ConsistencyFailed (AeGrowth e) prior path cp
                  (persistCheckpointSafe env tenantId authority cp True (Some False) None db)
              | Inr _ \<Rightarrow> advance_and_cosign env tenantId authority cp
                  (persistCheckpointSafe env tenantId authority cp True (Some True) quorum db))))"

definition judge_head ::
    "witness_env \<Rightarrow> string \<Rightarrow> string \<Rightarrow> string \<Rightarrow> log_checkpoint \<Rightarrow> quorum_report option \<Rightarrow> witness_db \<Rightarrow> witness_outcome \<times> witness_db" where
  "judge_head env tenantId authority baseUrl cp quorum db =
     (case retained_of (getCursor tenantId authority (wd_cursors db)) of
        None \<Rightarrow> advance_and_cosign env tenantId authority cp (persistCheckpointSafe env tenantId authority cp True None quorum db)
      | Some prior \<Rightarrow>
          if cp_log_id cp \<noteq> rh_logId prior
          then alert_on env tenantId authority LogIdChanged AeLogChanged prior None cp
                 (persistCheckpointSafe env tenantId authority cp True None None db)
          else if cp_tree_size cp < rh_size prior
          then alert_on env tenantId authority TreeSizeRegression AeRegressed prior None cp
                 (persistCheckpointSafe env tenantId authority cp True (Some False) None db)
          else if cp_tree_size cp = rh_size prior
          then (if cp_root_hash cp \<noteq> rh_root prior
                then alert_on env tenantId authority RootMismatchAlert AeSplitView prior None cp
                       (persistCheckpointSafe env tenantId authority cp True (Some False) None db)
                else advance_and_cosign env tenantId authority cp
                       (if quorum \<noteq> None then persistCheckpointSafe env tenantId authority cp True None quorum db else db))
          else verifyGrowth env tenantId authority baseUrl prior cp quorum db)"

definition resolveBaseUrl :: "witness_env \<Rightarrow> enrollment \<Rightarrow> string option" where
  "resolveBaseUrl env en = (case en_baseUrl en of
     Some (c # cs) \<Rightarrow> Some (strip_slash (c # cs))
   | _ \<Rightarrow> (case we_registryBaseUrl env (en_authority en) (en_tenantId en) of
       Some (c # cs) \<Rightarrow> Some (strip_slash (c # cs))
     | _ \<Rightarrow> None))"

definition witnessRegistry :: "witness_env \<Rightarrow> enrollment \<Rightarrow> witness_db \<Rightarrow> witness_outcome \<times> witness_db" where
  "witnessRegistry env en db =
     (let authority = en_authority en; tenantId = en_tenantId en;
          failed = (\<lambda>e. (Failed e, recordFailureSafe env tenantId authority db))
      in if authority \<in> set (we_exclude env) then (Skipped Excluded, db)
         else (case we_advertises env authority tenantId of
             Some False \<Rightarrow> (Skipped NoTransparencyLog, db)
           | None \<Rightarrow> (Skipped CapabilitiesUnreadable, db)
           | Some True \<Rightarrow> (case resolveBaseUrl env en of
               Some (b # bs) \<Rightarrow> (case we_get env ((b # bs) @ ''/log/checkpoint'') of
                   None \<Rightarrow> failed CheckpointFetchFailed
                 | Some resp \<Rightarrow>
                     if \<not> http_ok resp then failed (CheckpointHttp (ha_status resp))
                     else (case ha_body_json resp of
                         None \<Rightarrow> failed CheckpointFetchFailed
                       | Some body \<Rightarrow> (case unwrapCheckpointEnvelope body of
                           (checkpointRaw, witnessSignatures) \<Rightarrow> (case vet_checkpoint env authority checkpointRaw of
                               Inl (VetAlert e raw) \<Rightarrow> raiseAlert env tenantId authority CheckpointInvalid
                                 \<lparr>ad_error = e, ad_previous = None, ad_checkpoint = raw, ad_path = None\<rparr> db
                             | Inl (VetError e) \<Rightarrow> failed e
                             | Inl (VetBadSignature e cp) \<Rightarrow> raiseAlert env tenantId authority CheckpointSignatureInvalid
                                 \<lparr>ad_error = AeSignature e, ad_previous = None, ad_checkpoint = JObj (cp_raw cp), ad_path = None\<rparr>
                                 (persistCheckpointSafe env tenantId authority cp False None None db)
                             | Inr cp \<Rightarrow> judge_head env tenantId authority (b # bs) cp (consumeQuorumSafe env cp witnessSignatures) db))))
             | _ \<Rightarrow> failed NoBaseUrl)))"

fun sweep_loop :: "(enrollment \<Rightarrow> witness_env) \<Rightarrow> enrollment list \<Rightarrow> witness_db \<Rightarrow> (string \<times> witness_outcome) list \<times> witness_db" where
  "sweep_loop envs [] db = ([], db)"
| "sweep_loop envs (en # ens) db = (case witnessRegistry (envs en) en db of
     (r, db') \<Rightarrow> (case sweep_loop envs ens db' of (rs, db'') \<Rightarrow> ((en_authority en, r) # rs, db'')))"

text \<open>\<open>envs\<close> gives what the pass over each enrollment sees; without the advisory lock nothing happens.\<close>

definition witness_sweep ::
    "bool \<Rightarrow> (enrollment \<Rightarrow> witness_env) \<Rightarrow> enrollment list \<Rightarrow> witness_db \<Rightarrow> (string \<times> witness_outcome) list \<times> witness_db" where
  "witness_sweep acquired envs enrollments db = (if \<not> acquired then ([], db) else sweep_loop envs enrollments db)"

end
