(* ===== verification/WitnessSafety.thy ===== *)
theory WitnessSafety
  imports CheckpointWitness
begin

text \<open>
  What the checkpoint witness guarantees: its retained head of a registry only ever grows, a pass that grows it checked a consistency proof,
  it never signs two roots for one size of a tenant's registry; and two places where the code falls short of what its comments say.
\<close>

section \<open>The retained head across a pass\<close>

definition head_at :: "witness_db \<Rightarrow> string \<Rightarrow> string \<Rightarrow> retained_head option" where
  "head_at db t a = retained_of (getCursor t a (wd_cursors db))"

definition head_le :: "retained_head option \<Rightarrow> retained_head option \<Rightarrow> bool" where
  "head_le x y = (case (x, y) of
     (None, _) \<Rightarrow> True
   | (Some h, Some h') \<Rightarrow> rh_logId h = rh_logId h' \<and> rh_size h \<le> rh_size h' \<and> (rh_size h = rh_size h' \<longrightarrow> rh_root h = rh_root h')
   | _ \<Rightarrow> False)"

lemma head_le_refl [simp]: "head_le x x"
  by (simp add: head_le_def split: option.split)

lemma head_le_trans: "head_le x y \<Longrightarrow> head_le y z \<Longrightarrow> head_le x z"
  by (auto simp: head_le_def split: option.splits)

lemma head_upsert:
  assumes "\<And>c. cu_logId (f c) = cu_logId c \<and> cu_lastWitnessedSize (f c) = cu_lastWitnessedSize c \<and> cu_lastRootHash (f c) = cu_lastRootHash c"
  shows "retained_of (getCursor t' a' (upsert_cursor t a now f cs)) = retained_of (getCursor t' a' cs)"
proof (cases "(t', a') = (t, a)")
  case True
  then show ?thesis using assms by (auto simp: getCursor_def upsert_same retained_of_def new_cursor_def split: option.split)
next
  case False
  then show ?thesis by (simp add: getCursor_def upsert_other)
qed

lemma head_failure [simp]: "head_at (recordFailureSafe env t a db) t' a' = head_at db t' a'"
  by (simp add: head_at_def recordFailureSafe_def markFailure_def head_upsert)

lemma head_alert [simp]: "head_at (snd (raiseAlert env t a reason d db)) t' a' = head_at db t' a'"
  by (simp add: head_at_def raiseAlert_def markAlert_def Let_def split: prod.split) (simp add: head_upsert)

lemma cosigs_alert [simp]: "wd_cosignatures (snd (raiseAlert env t a reason d db)) = wd_cosignatures db"
  by (simp add: raiseAlert_def Let_def split: prod.split)

lemma outcome_alert [simp]: "fst (raiseAlert env t a reason d db) = Alerted reason"
  by (simp add: raiseAlert_def Let_def split: prod.split)

lemma cosigs_failure [simp]: "wd_cosignatures (recordFailureSafe env t a db) = wd_cosignatures db"
  by (simp add: recordFailureSafe_def)

lemma persist_keeps [simp]:
  "wd_cursors (persistCheckpointSafe env t a cp v ok q db) = wd_cursors db"
  "wd_cosignatures (persistCheckpointSafe env t a cp v ok q db) = wd_cosignatures db"
  "head_at (persistCheckpointSafe env t a cp v ok q db) t' a' = head_at db t' a'"
  by (simp_all add: persistCheckpointSafe_def head_at_def split: prod.split option.split)

lemma cosign_keeps: "wd_cursors (cosignSafe env t a cp db) = wd_cursors db"
  by (simp add: cosignSafe_def split: option.split sum.split)

lemma head_advanced: "head_at (snd (advance_and_cosign env t a cp db)) t' a' = (if (t', a') = (t, a) then Some (head_of cp) else head_at db t' a')"
proof (cases "(t', a') = (t, a)")
  case True
  then show ?thesis
    by (simp add: head_at_def advance_and_cosign_def cosign_keeps getCursor_def advanceCursor_def upsert_same retained_of_def head_of_def)
next
  case False
  then show ?thesis by (auto simp: head_at_def advance_and_cosign_def cosign_keeps getCursor_def advanceCursor_def upsert_other)
qed

text \<open>The cosignature rows a witnessed head can add.\<close>

definition minted_row :: "witness_env \<Rightarrow> string \<Rightarrow> string \<Rightarrow> log_checkpoint \<Rightarrow> cosignature_row \<Rightarrow> bool" where
  "minted_row env t a cp row \<longleftrightarrow> (\<exists>signer m. we_signer env = Some signer \<and> we_cosigning env
     \<and> mintCosignature (we_cosign env) (we_jcs env) (tuple_of cp) (toISOString (now_ms (we_now env))) signer = Inr m
     \<and> cosignature_row_of t a m = Some row)"

lemma cosigs_advanced:
  assumes "row \<in> set (wd_cosignatures (snd (advance_and_cosign env t a cp db)))"
  shows "row \<in> set (wd_cosignatures db) \<or> minted_row env t a cp row"
  using assms record_cosignature_rows(1)
  by (fastforce simp: advance_and_cosign_def cosignSafe_def minted_row_def split: option.splits sum.splits if_splits)

text \<open>When a vetted head may follow the retained one.\<close>

definition extends :: "witness_env \<Rightarrow> string \<Rightarrow> retained_head option \<Rightarrow> log_checkpoint \<Rightarrow> bool" where
  "extends env b prior cp \<longleftrightarrow> (case prior of
     None \<Rightarrow> True
   | Some h \<Rightarrow> h = head_of cp \<or> (rh_logId h = cp_log_id cp \<and> rh_size h < cp_tree_size cp
       \<and> (\<exists>resp raw. we_get env (proof_url b (rh_size h) (cp_tree_size cp)) = Some resp \<and> http_ok resp \<and> ha_body_json resp = Some raw
            \<and> growth_verdict env h cp raw = Inr ())))"

lemma extends_le: "extends env b prior cp \<Longrightarrow> head_le prior (Some (head_of cp))"
  by (auto simp: extends_def head_le_def head_of_def split: option.splits)

text \<open>A pass either leaves the retained heads and the cosignatures alone, or witnesses a vetted head that extends the retained one.\<close>

definition quiet :: "witness_db \<Rightarrow> witness_outcome \<times> witness_db \<Rightarrow> bool" where
  "quiet db r \<longleftrightarrow> fst r \<noteq> Witnessed \<and> (\<forall>t a. head_at (snd r) t a = head_at db t a) \<and> wd_cosignatures (snd r) = wd_cosignatures db"

definition witnessed :: "witness_env \<Rightarrow> string \<Rightarrow> string \<Rightarrow> string \<Rightarrow> log_checkpoint \<Rightarrow> witness_db \<Rightarrow> witness_outcome \<times> witness_db \<Rightarrow> bool" where
  "witnessed env t a b cp db r \<longleftrightarrow> fst r = Witnessed \<and> extends env b (head_at db t a) cp
     \<and> (\<forall>t' a'. head_at (snd r) t' a' = (if (t', a') = (t, a) then Some (head_of cp) else head_at db t' a'))
     \<and> (\<forall>row \<in> set (wd_cosignatures (snd r)). row \<in> set (wd_cosignatures db) \<or> minted_row env t a cp row)"

lemma quiet_failure: "quiet db (Failed e, recordFailureSafe env t a db)"
  by (simp add: quiet_def)

lemma quiet_alert: "quiet db (raiseAlert env t a reason d (persistCheckpointSafe env t a cp v ok q db))"
  by (simp add: quiet_def)

lemma witnessed_advance:
  assumes "extends env b (head_at db t a) cp" "wd_cursors db' = wd_cursors db" "wd_cosignatures db' = wd_cosignatures db"
  shows "witnessed env t a b cp db (advance_and_cosign env t a cp db')"
proof -
  have "head_at db' t' a' = head_at db t' a'" for t' a' using assms(2) by (simp add: head_at_def)
  moreover have "fst (advance_and_cosign env t a cp db') = Witnessed" by (simp add: advance_and_cosign_def)
  ultimately show ?thesis unfolding witnessed_def using assms head_advanced cosigs_advanced [of _ env t a cp db'] by simp
qed

lemma growth_cases:
  assumes "head_at db t a = Some h" "rh_logId h = cp_log_id cp" "rh_size h < cp_tree_size cp"
  shows "quiet db (verifyGrowth env t a b h cp q db) \<or> witnessed env t a b cp db (verifyGrowth env t a b h cp q db)"
proof (cases "\<exists>resp raw. we_get env (proof_url b (rh_size h) (cp_tree_size cp)) = Some resp \<and> http_ok resp \<and> ha_body_json resp = Some raw
    \<and> growth_verdict env h cp raw = Inr ()")
  case True
  then have "extends env b (head_at db t a) cp" using assms by (simp add: extends_def)
  then have "witnessed env t a b cp db (advance_and_cosign env t a cp (persistCheckpointSafe env t a cp True (Some True) q db))"
    by (rule witnessed_advance) simp_all
  with True show ?thesis by (auto simp: verifyGrowth_def)
next
  case False
  then show ?thesis
    using quiet_failure quiet_alert
    by (fastforce simp: verifyGrowth_def alert_on_def split: option.split sum.split prod.split)
qed

lemma judge_cases:
  "quiet db (judge_head env t a b cp q db) \<or> witnessed env t a b cp db (judge_head env t a b cp q db)"
proof (cases "head_at db t a")
  case None
  then have "witnessed env t a b cp db (advance_and_cosign env t a cp (persistCheckpointSafe env t a cp True None q db))"
    by (intro witnessed_advance) (simp_all add: extends_def)
  with None show ?thesis by (simp add: judge_head_def head_at_def)
next
  case (Some h)
  note Some' = Some [unfolded head_at_def]
  consider (quiet) "cp_log_id cp \<noteq> rh_logId h \<or> cp_tree_size cp < rh_size h \<or> (cp_tree_size cp = rh_size h \<and> cp_root_hash cp \<noteq> rh_root h)"
    | (same) "h = head_of cp"
    | (grow) "rh_logId h = cp_log_id cp" "rh_size h < cp_tree_size cp"
    by (cases h; cases "cp_tree_size cp" "rh_size h" rule: linorder_cases) (auto simp: head_of_def)
  then show ?thesis
  proof cases
    case quiet
    then show ?thesis using quiet_alert by (auto simp: judge_head_def Some' alert_on_def)
  next
    case same
    have "witnessed env t a b cp db (advance_and_cosign env t a cp
        (if q \<noteq> None then persistCheckpointSafe env t a cp True None q db else db))"
      by (rule witnessed_advance) (simp_all add: extends_def Some same)
    then show ?thesis by (simp add: judge_head_def Some' same head_of_def)
  next
    case grow
    then have "judge_head env t a b cp q db = verifyGrowth env t a b h cp q db" by (simp add: judge_head_def Some')
    with growth_cases [OF Some grow] show ?thesis by simp
  qed
qed

lemma pass_cases:
  obtains "quiet db (witnessRegistry env en db)"
  | b cp where "resolveBaseUrl env en = Some b" "witnessed env (en_tenantId en) (en_authority en) b cp db (witnessRegistry env en db)"
    "\<exists>raw. vet_checkpoint env (en_authority en) raw = Inr cp"
proof -
  have q: "quiet db (Skipped x, db)" "quiet db (raiseAlert env t a reason d db)" for x t a reason d by (simp_all add: quiet_def)
  have "quiet db (witnessRegistry env en db) \<or> (\<exists>b cp raw w. resolveBaseUrl env en = Some b \<and> vet_checkpoint env (en_authority en) raw = Inr cp
      \<and> witnessRegistry env en db = judge_head env (en_tenantId en) (en_authority en) b cp w db)"
    unfolding witnessRegistry_def Let_def
    by (auto simp: q quiet_failure quiet_alert split: option.split bool.split list.split prod.split sum.split vet_failure.split)
  then show thesis using that judge_cases by metis
qed

section \<open>Histories\<close>

text \<open>Passes over enrollments in any order, each with its own view of the world.\<close>

definition witness_run :: "(witness_env \<times> enrollment) list \<Rightarrow> witness_db \<Rightarrow> witness_db" where
  "witness_run passes db = fold (\<lambda>(env, en) db. snd (witnessRegistry env en db)) passes db"

lemma witness_run_snoc: "witness_run (passes @ [(env, en)]) db = snd (witnessRegistry env en (witness_run passes db))"
  by (simp add: witness_run_def)

lemma pass_le: "head_le (head_at db t a) (head_at (snd (witnessRegistry env en db)) t a)"
proof (rule pass_cases [of db env en])
  assume "quiet db (witnessRegistry env en db)"
  then show ?thesis by (simp add: quiet_def)
next
  fix b cp assume "witnessed env (en_tenantId en) (en_authority en) b cp db (witnessRegistry env en db)"
  then show ?thesis using extends_le by (auto simp: witnessed_def)
qed

lemma run_le: "head_le (head_at db t a) (head_at (witness_run passes db) t a)"
proof (induction passes rule: rev_induct)
  case (snoc p passes)
  obtain env en where p: "p = (env, en)" by (cases p)
  show ?case unfolding p witness_run_snoc by (rule head_le_trans [OF snoc pass_le])
qed (simp add: witness_run_def)

section \<open>Cosigned tuples\<close>

text \<open>What the witness relies on from a native mint: the signed object carries the tuple it was given.\<close>

definition mint_faithful :: "witness_env \<Rightarrow> bool" where
  "mint_faithful env \<longleftrightarrow> (\<forall>wc w seed at0 ob. buildWitnessCosignature (we_cosign env) (checkpoint_tuple wc) w seed at0 = Returned ob
     \<longrightarrow> get_prop ob ''witnessed_checkpoint'' = Some (JObj (checkpoint_tuple wc)))"

lemma minted_tuple:
  assumes "mintCosignature B jcs wc seen signer = Inr m"
    and "\<And>w seed at0 ob. buildWitnessCosignature B (checkpoint_tuple wc) w seed at0 = Returned ob \<Longrightarrow>
      get_prop ob ''witnessed_checkpoint'' = Some (JObj (checkpoint_tuple wc))"
  shows "get_prop (mt_cosignature m) ''witnessed_checkpoint'' = Some (JObj (checkpoint_tuple wc))"
proof (cases "canNativeMint B signer \<and> \<not> isl (nativeMintCosignature B jcs wc seen signer)")
  case True
  then have "nativeMintCosignature B jcs wc seen signer = Inr m" using assms(1) by (simp add: mintCosignature_def Let_def)
  then show ?thesis using assms(2) by (auto simp: nativeMintCosignature_def split: option.splits native_run.splits)
next
  case False
  then have "tsMintCosignature jcs wc seen signer = Inr m" using assms(1) by (auto simp: mintCosignature_def Let_def split: if_splits)
  then show ?thesis
    by (auto simp: tsMintCosignature_def Let_def unsigned_cosignature_def get_prop_def COSIGNATURE_VERSION_def split: option.splits)
qed

lemma row_tuple:
  assumes "mint_faithful env" "minted_row env t a cp row"
  shows "cr_tenantId row = t" "cr_registryAuthority row = a" "cr_logId row = cp_log_id cp" "cr_treeSize row = cp_tree_size cp"
    "cr_rootHash row = cp_root_hash cp"
proof -
  obtain signer m where m: "mintCosignature (we_cosign env) (we_jcs env) (tuple_of cp) (toISOString (now_ms (we_now env))) signer = Inr m"
      "cosignature_row_of t a m = Some row"
    using assms(2) by (auto simp: minted_row_def)
  have "get_prop (mt_cosignature m) ''witnessed_checkpoint'' = Some (JObj (checkpoint_tuple (tuple_of cp)))"
    using minted_tuple [OF m(1)] assms(1) unfolding mint_faithful_def by blast
  with m(2) show "cr_tenantId row = t" "cr_registryAuthority row = a" "cr_logId row = cp_log_id cp" "cr_treeSize row = cp_tree_size cp"
    "cr_rootHash row = cp_root_hash cp"
    by (auto simp: cosignature_row_of_def Let_def checkpoint_tuple_def tuple_of_def get_prop_def as_object_def as_string_def as_int_def
      as_number_def split: option.splits json.splits)
qed

definition row_head :: "cosignature_row \<Rightarrow> retained_head" where
  "row_head r = \<lparr>rh_logId = cr_logId r, rh_size = cr_treeSize r, rh_root = cr_rootHash r\<rparr>"

text \<open>Every cosigned tuple lies below the retained head of its tenant and registry.\<close>

definition cosigs_ok :: "witness_db \<Rightarrow> bool" where
  "cosigs_ok db \<longleftrightarrow> (\<forall>r \<in> set (wd_cosignatures db). head_le (Some (row_head r)) (head_at db (cr_tenantId r) (cr_registryAuthority r)))"

definition no_equivocation :: "witness_db \<Rightarrow> bool" where
  "no_equivocation db \<longleftrightarrow> (\<forall>r \<in> set (wd_cosignatures db). \<forall>q \<in> set (wd_cosignatures db).
     cr_tenantId r = cr_tenantId q \<and> cr_registryAuthority r = cr_registryAuthority q \<longrightarrow>
       cr_logId r = cr_logId q \<and> (cr_treeSize r = cr_treeSize q \<longrightarrow> cr_rootHash r = cr_rootHash q))"

lemma pass_cosigs:
  assumes "mint_faithful env" "cosigs_ok db" "no_equivocation db"
  shows "cosigs_ok (snd (witnessRegistry env en db)) \<and> no_equivocation (snd (witnessRegistry env en db))"
proof (rule pass_cases [of db env en])
  assume "quiet db (witnessRegistry env en db)"
  then have q: "\<And>t a. head_at (snd (witnessRegistry env en db)) t a = head_at db t a"
      "wd_cosignatures (snd (witnessRegistry env en db)) = wd_cosignatures db"
    by (simp_all add: quiet_def)
  show ?thesis using assms(2,3) unfolding cosigs_ok_def no_equivocation_def q by blast
next
  fix b cp
  let ?db = "snd (witnessRegistry env en db)" and ?t = "en_tenantId en" and ?a = "en_authority en"
  assume "witnessed env ?t ?a b cp db (witnessRegistry env en db)"
  then have new: "head_at ?db ?t ?a = Some (head_of cp)"
    and rows: "\<And>r. r \<in> set (wd_cosignatures ?db) \<Longrightarrow> r \<in> set (wd_cosignatures db) \<or> minted_row env ?t ?a cp r"
    by (auto simp: witnessed_def)
  have below: "head_le (Some (row_head r)) (head_at ?db (cr_tenantId r) (cr_registryAuthority r))" if "r \<in> set (wd_cosignatures ?db)" for r
    using rows [OF that]
  proof
    assume "r \<in> set (wd_cosignatures db)"
    with assms(2) show ?thesis using head_le_trans [OF _ pass_le] unfolding cosigs_ok_def by blast
  next
    assume "minted_row env ?t ?a cp r"
    with new show ?thesis using row_tuple [OF assms(1)] by (simp add: row_head_def head_of_def)
  qed
  have minted: "row_head r = head_of cp" "cr_tenantId r = ?t" "cr_registryAuthority r = ?a" if "minted_row env ?t ?a cp r" for r
    using row_tuple [OF assms(1) that] by (simp_all add: row_head_def head_of_def)
  have agree: "cr_logId r = cr_logId q \<and> (cr_treeSize r = cr_treeSize q \<longrightarrow> cr_rootHash r = cr_rootHash q)"
    if "minted_row env ?t ?a cp q" "r \<in> set (wd_cosignatures ?db)" "cr_tenantId r = ?t" "cr_registryAuthority r = ?a" for r q
    using below [OF that(2)] that(3,4) new minted(1) [OF that(1)] by (auto simp: head_le_def row_head_def head_of_def)
  have "no_equivocation ?db"
    unfolding no_equivocation_def
  proof (intro ballI impI)
    fix r q assume rq: "r \<in> set (wd_cosignatures ?db)" "q \<in> set (wd_cosignatures ?db)"
      "cr_tenantId r = cr_tenantId q \<and> cr_registryAuthority r = cr_registryAuthority q"
    consider "minted_row env ?t ?a cp q" | "minted_row env ?t ?a cp r" | "r \<in> set (wd_cosignatures db)" "q \<in> set (wd_cosignatures db)"
      using rows rq(1,2) by blast
    then show "cr_logId r = cr_logId q \<and> (cr_treeSize r = cr_treeSize q \<longrightarrow> cr_rootHash r = cr_rootHash q)"
    proof cases
      case 1
      with agree [OF 1 rq(1)] minted [OF 1] rq(3) show ?thesis by simp
    next
      case 2
      with agree [OF 2 rq(2)] minted [OF 2] rq(3) show ?thesis by auto
    next
      case 3
      with assms(3) rq(3) show ?thesis unfolding no_equivocation_def by blast
    qed
  qed
  with below show ?thesis unfolding cosigs_ok_def by blast
qed

lemma run_cosigs:
  "\<forall>p \<in> set passes. mint_faithful (fst p) \<Longrightarrow> cosigs_ok (witness_run passes empty_db) \<and> no_equivocation (witness_run passes empty_db)"
proof (induction passes rule: rev_induct)
  case (snoc p passes)
  obtain env en where p: "p = (env, en)" by (cases p)
  with snoc show ?case unfolding p witness_run_snoc by (intro pass_cosigs) auto
qed (simp add: witness_run_def empty_db_def cosigs_ok_def no_equivocation_def)

section \<open>Growth\<close>

lemma witnessed_growth:
  assumes "head_at db (en_tenantId en) (en_authority en) = Some h" "head_at (snd (witnessRegistry env en db)) (en_tenantId en) (en_authority en) = Some h'"
    and "rh_size h < rh_size h'" "\<not> sdkHasLogSurface (we_log env)"
  obtains b resp raw p where "resolveBaseUrl env en = Some b" "we_get env (proof_url b (rh_size h) (rh_size h')) = Some resp"
    "ha_body_json resp = Some raw" "parseConsistencyProof raw = Inr p"
    "verifyConsistencyPath (num_of_int (rh_size h)) (num_of_int (rh_size h')) (cq_path p) (rh_root h) (rh_root h') = Inr ()"
proof (rule pass_cases [of db env en])
  assume "quiet db (witnessRegistry env en db)"
  with assms(1-3) show thesis by (simp add: quiet_def)
next
  fix b cp assume b: "resolveBaseUrl env en = Some b" and w: "witnessed env (en_tenantId en) (en_authority en) b cp db (witnessRegistry env en db)"
  have h': "h' = head_of cp" using w assms(2) by (simp add: witnessed_def)
  then have "h \<noteq> head_of cp" using assms(3) by auto
  then obtain resp raw where g: "we_get env (proof_url b (rh_size h) (cp_tree_size cp)) = Some resp" "ha_body_json resp = Some raw"
      "growth_verdict env h cp raw = Inr ()"
    using w assms(1) by (auto simp: witnessed_def extends_def)
  from g(3) obtain p where p: "parseConsistencyProof raw = Inr p" "cq_first_tree_size p = rh_size h" "cq_second_tree_size p = cp_tree_size cp"
      "verifyConsistency (we_log env) p cp (rh_root h) = Inr ()"
    by (auto simp: growth_verdict_def split: sum.splits if_splits)
  with that [OF b, of resp raw p] g assms(4) h' show thesis
    by (simp add: verifyConsistency_def tsVerifyConsistency_def head_of_def)
qed

section \<open>A sample world\<close>

text \<open>A registry \<open>r.example\<close> with a log whose checkpoints verify, asked by a witness on the host paths.\<close>

definition registry_log :: string where "registry_log = ''did:web:r.example/log/1''"

definition served_checkpoint :: "int \<Rightarrow> string \<Rightarrow> jobj" where
  "served_checkpoint n r =
     [(''checkpoint_version'', JStr ''acdp-log/1''), (''log_id'', JStr registry_log), (''tree_size'', JNum (num_of_int n)),
      (''root_hash'', JStr r), (''timestamp'', JStr ''2026-01-01T00:00:00.000Z''),
      (''signature'', JObj [(''algorithm'', JStr ''ed25519''), (''key_id'', JStr ''did:web:r.example#k''), (''value'', JStr ''AA'')])]"

definition parsed_checkpoint :: "int \<Rightarrow> string \<Rightarrow> log_checkpoint" where
  "parsed_checkpoint n r = \<lparr>cp_version = ''acdp-log/1'', cp_log_id = registry_log, cp_tree_size = n, cp_root_hash = r,
     cp_timestamp = ''2026-01-01T00:00:00.000Z'',
     cp_signature = \<lparr>sig_algorithm = ''ed25519'', sig_key_id = ''did:web:r.example#k'', sig_value = ''AA''\<rparr>, cp_raw = served_checkpoint n r\<rparr>"

definition served_proof :: "int \<Rightarrow> int \<Rightarrow> string list \<Rightarrow> json" where
  "served_proof m n path = JObj
     [(''log_id'', JStr registry_log), (''first_tree_size'', JNum (num_of_int m)), (''second_tree_size'', JNum (num_of_int n)),
      (''consistency_path'', JArr (map JStr path)), (''log_checkpoint'', JObj [])]"

definition answer_ok :: "json \<Rightarrow> http_answer" where
  "answer_ok v = \<lparr>ha_status = 200, ha_content_length = None, ha_body_bytes = 0, ha_body_json = Some v\<rparr>"

definition accepting :: acdp_verifier where
  "accepting = \<lparr>av_verifySignature = (\<lambda>pub sg m. Some True), av_verifySignatureP256 = (\<lambda>pub sg m. Some True)\<rparr>"

definition some_key :: resolved_receipt_key where
  "some_key = \<lparr>rr_key = \<lparr>rk_keyId = ''k'', rk_algorithm = ''ed25519'', rk_publicKeyB64 = ''AA''\<rparr>, rr_historical = False\<rparr>"

definition no_log_surface :: log_surface where
  "no_log_surface = \<lparr>has_verifyLogCheckpoint = False, has_verifyLogInclusion = False, has_verifyLogConsistency = False, has_buildLogLeaf = False,
     verifyLogInclusion = (\<lambda>_ _ _. ReturnedNonJson), verifyLogConsistency = (\<lambda>_ _ _. ReturnedNonJson)\<rparr>"

definition sample_env :: "int \<Rightarrow> string \<Rightarrow> json \<Rightarrow> witness_env" where
  "sample_env n r proofs = \<lparr>we_now = 1767225660000000, we_exclude = [], we_advertises = (\<lambda>_ _. Some True), we_registryBaseUrl = (\<lambda>_ _. None),
     we_get = (\<lambda>url. if url = ''https://r.example/log/checkpoint'' then Some (answer_ok (JObj (served_checkpoint n r))) else Some (answer_ok proofs)),
     we_resolveReceiptKey = (\<lambda>_ _. Some some_key), we_resolveWitnessKey = (\<lambda>_ _. None), we_stripFragment = stripFragment,
     we_verifier = accepting, we_jcs = (\<lambda>_. Some ''x''), we_log = no_log_surface, we_cosign = no_surface,
     we_signer = Some (nodeWitnessSigner sample_witness (sample_witness @ ''#witness-key-1'') sample_key), we_cosigning = True,
     we_quorum = False, we_trusted = [], we_minWitnesses = 1, we_maxAgeSeconds = None, we_maxClockSkewSeconds = 120\<rparr>"

definition sample_enrollment :: "string \<Rightarrow> enrollment" where
  "sample_enrollment t = \<lparr>en_tenantId = t, en_authority = ''r.example'', en_baseUrl = Some ''https://r.example''\<rparr>"

lemma parse_served:
  assumes "0 \<le> n" "WIRE_HASH_RE r"
  shows "parseCheckpoint (JObj (served_checkpoint n r)) = Inr (parsed_checkpoint n r)"
proof -
  have "LOG_ID_RE registry_log" "CANONICAL_TS_RE ''2026-01-01T00:00:00.000Z''" "date_parse ''2026-01-01T00:00:00.000Z'' \<noteq> None"
    "join_with '','' (sort [''algorithm'', ''key_id'', ''value'']) = ''algorithm,key_id,value''"
    by code_simp+
  with assms show ?thesis
    by (simp add: parseCheckpoint_def served_checkpoint_def parsed_checkpoint_def object_keys_def checkpoint_fields_def get_prop_def as_string_def
      as_int_def as_number_def parseClosedSignature_def Let_def)
qed

lemma vet_served:
  assumes "0 \<le> n" "WIRE_HASH_RE r"
  shows "vet_checkpoint (sample_env n r p) ''r.example'' (JObj (served_checkpoint n r)) = Inr (parsed_checkpoint n r)"
proof -
  have "authorityToDidWeb ''r.example'' = Some ''did:web:r.example''" "logIdRegistryDid registry_log = Some ''did:web:r.example''"
    "stripFragment ''did:web:r.example#k'' = ''did:web:r.example''" "date_parse ''2026-01-01T00:00:00.000Z'' = Some 1767225600000"
    "now_ms 1767225660000000 = 1767225660000"
    by code_simp+
  note facts = this
  let ?env = "sample_env n r p" and ?cp = "parsed_checkpoint n r"
  have "checkRegistryBinding ?env ?cp ''did:web:r.example'' = None" using facts by (simp add: checkRegistryBinding_def parsed_checkpoint_def sample_env_def)
  moreover have "checkpointTimestampOk ?cp (now_ms (we_now ?env)) = Inr ()"
    using facts by (simp add: checkpointTimestampOk_def parsed_checkpoint_def sample_env_def CHECKPOINT_MAX_FUTURE_SKEW_MS_def)
  moreover have "verifyCheckpointSignature (we_verifier ?env) (we_jcs ?env) ?cp k = Inr ()" for k
    by (simp add: verifyCheckpointSignature_def checkpointHash_def verifySignatureB64_def accepting_def parsed_checkpoint_def sample_env_def)
  moreover have "we_resolveReceiptKey ?env k alg = Some some_key" for k alg by (simp add: sample_env_def)
  ultimately show ?thesis using facts(1) by (simp add: vet_checkpoint_def parse_served [OF assms])
qed

lemma sample_pass:
  assumes "0 \<le> n" "WIRE_HASH_RE r"
  shows "witnessRegistry (sample_env n r p) (sample_enrollment t) db =
    judge_head (sample_env n r p) t ''r.example'' ''https://r.example'' (parsed_checkpoint n r) None db"
proof -
  have "unwrapCheckpointEnvelope (JObj (served_checkpoint n r)) = (JObj (served_checkpoint n r), [])"
    by (simp add: unwrapCheckpointEnvelope_def served_checkpoint_def get_prop_def)
  moreover have "resolveBaseUrl (sample_env n r p) (sample_enrollment t) = Some ''https://r.example''"
    by (simp add: resolveBaseUrl_def sample_enrollment_def strip_slash_def)
  moreover have "consumeQuorumSafe (sample_env n r p) cp ws = None" for cp ws by (simp add: consumeQuorumSafe_def sample_env_def)
  moreover have "we_get (sample_env n r p) ''https://r.example/log/checkpoint'' = Some (answer_ok (JObj (served_checkpoint n r)))"
    by (simp add: sample_env_def)
  moreover have "we_exclude (sample_env n r p) = []" "we_advertises (sample_env n r p) x y = Some True" for x y by (simp_all add: sample_env_def)
  moreover have "en_tenantId (sample_enrollment t) = t" "en_authority (sample_enrollment t) = ''r.example''" by (simp_all add: sample_enrollment_def)
  ultimately show ?thesis using vet_served [OF assms, of p]
    by (simp add: witnessRegistry_def answer_ok_def http_ok_def Let_def)
qed

text \<open>A first observation is cosigned.\<close>

lemma sample_cosigned:
  assumes "0 \<le> n" "WIRE_HASH_RE r" "head_at db t ''r.example'' = None" "\<forall>q \<in> set (wd_cosignatures db). cr_tenantId q \<noteq> t"
  shows "\<exists>row. row \<in> set (wd_cosignatures (snd (witnessRegistry (sample_env n r p) (sample_enrollment t) db)))
     \<and> cr_tenantId row = t \<and> cr_witnessId row = sample_witness \<and> cr_logId row = registry_log \<and> cr_treeSize row = n \<and> cr_rootHash row = r"
proof -
  let ?env = "sample_env n r p" and ?cp = "parsed_checkpoint n r"
  obtain m where m: "mintCosignature (we_cosign ?env) (we_jcs ?env) (tuple_of ?cp) (toISOString (now_ms (we_now ?env)))
      (nodeWitnessSigner sample_witness (sample_witness @ ''#witness-key-1'') sample_key) = Inr m"
    "mt_cosignature m = unsigned_cosignature (tuple_of ?cp) (toISOString (now_ms (we_now ?env))) sample_witness @ [(''signature'', JObj
       [(''algorithm'', JStr ''ed25519''), (''key_id'', JStr (sample_witness @ ''#witness-key-1'')),
        (''value'', JStr (b64_encode (pk_sign sample_key (ascii_bytes (mt_hash m)))))])]"
    by (simp add: mintCosignature_def canNativeMint_def sample_env_def no_surface_def sdkHasCosignatureSurface_def tsMintCosignature_def
      cosignatureHash_def nodeWitnessSigner_def Let_def)
  have "toISOString (now_ms 1767225660000000) = ''2026-01-01T00:01:00.000Z''" "date_parse ''2026-01-01T00:01:00.000Z'' = Some 1767225660000"
    by code_simp+
  then have "date_parse (toISOString (now_ms (we_now ?env))) = Some 1767225660000" by (simp add: sample_env_def)
  then obtain row where row: "cosignature_row_of t ''r.example'' m = Some row" "cr_tenantId row = t" "cr_witnessId row = sample_witness"
      "cr_logId row = registry_log" "cr_treeSize row = n" "cr_rootHash row = r"
    by (simp add: cosignature_row_of_def Let_def m(2) unsigned_cosignature_def checkpoint_tuple_def tuple_of_def get_prop_def as_object_def
      as_string_def as_int_def as_number_def parsed_checkpoint_def)
  have s: "we_signer ?env = Some (nodeWitnessSigner sample_witness (sample_witness @ ''#witness-key-1'') sample_key)" "we_cosigning ?env"
    by (simp_all add: sample_env_def)
  have "wd_cosignatures (snd (witnessRegistry ?env (sample_enrollment t) db)) = snd (record_cosignature row (wd_cosignatures db))"
    using assms(3) m(1) row(1) s
    by (simp add: sample_pass [OF assms(1,2)] judge_head_def head_at_def advance_and_cosign_def cosignSafe_def)
  moreover have "row \<in> set (snd (record_cosignature row (wd_cosignatures db)))"
    using assms(4) row(2) by (auto simp: record_cosignature_def same_cosignature_def)
  ultimately show ?thesis using row by auto
qed

section \<open>Properties\<close>

text \<open>Whatever registries serve and in whatever order passes run, the head the witness retains for a tenant and registry only moves forward:
  once set, its log never changes, its size never shrinks, and its root never changes at an unchanged size.\<close>

theorem retained_head_append_only:
  "head_le (head_at db t a) (head_at (witness_run passes db) t a)"
  by (rule run_le)

text \<open>C4. When a pass on the host path moves the retained head from one log to a longer one, the registry served a consistency proof for exactly
  that step, and unless SHA-256 collides among the strings hashed to build the two trees and to check that proof, the older log is a prefix of the
  newer: a rewritten history is never witnessed.\<close>

theorem witnessed_growth_keeps_history:
  assumes "head_at db (en_tenantId en) (en_authority en) = Some h"
    and "head_at (snd (witnessRegistry env en db)) (en_tenantId en) (en_authority en) = Some h'"
    and "\<not> sdkHasLogSurface (we_log env)" "old \<noteq> []" "length old < length new" "\<forall>x \<in> set old \<union> set new. length x = 32"
    and "rh_size h = int (length old)" "rh_root h = wire_hash (mth old)" "rh_size h' = int (length new)" "rh_root h' = wire_hash (mth new)"
  shows "\<exists>b resp raw p. resolveBaseUrl env en = Some b \<and> we_get env (proof_url b (rh_size h) (rh_size h')) = Some resp
    \<and> ha_body_json resp = Some raw \<and> parseConsistencyProof raw = Inr p
    \<and> (inj_on sha256 (mth_inputs old \<union> mth_inputs new \<union> consistency_run_inputs (length old) (length new) (cq_path p) (mth old))
        \<longrightarrow> prefix old new)"
proof -
  have less: "rh_size h < rh_size h'" using assms(5,7,9) by simp
  obtain b resp raw p where g: "resolveBaseUrl env en = Some b" "we_get env (proof_url b (rh_size h) (rh_size h')) = Some resp"
    "ha_body_json resp = Some raw" "parseConsistencyProof raw = Inr p"
    "verifyConsistencyPath (num_of_int (rh_size h)) (num_of_int (rh_size h')) (cq_path p) (rh_root h) (rh_root h') = Inr ()"
    by (rule witnessed_growth [OF assms(1,2) less assms(3)])
  then show ?thesis using consistency_sound [of old new "cq_path p"] assms(4,6-10) by auto
qed

definition leaf5 :: bytes where "leaf5 = replicate 32 5"
definition leaf6 :: bytes where "leaf6 = replicate 32 6"

lemma leaves [simp]: "length leaf5 = 32" "length leaf6 = 32"
  by (simp_all add: leaf5_def leaf6_def)

lemma wire_hash_ok: "length x = 32 \<Longrightarrow> WIRE_HASH_RE (wire_hash x)"
  using wireHashToBuf_wire [of x] by (auto simp: wireHashToBuf_def split: if_splits)

text \<open>A witness that saw one entry is shown two, with the proof.\<close>

lemma sample_growth:
  assumes "head_at db t ''r.example'' = Some \<lparr>rh_logId = registry_log, rh_size = 1, rh_root = wire_hash leaf5\<rparr>"
  shows "let r = witnessRegistry (sample_env 2 (wire_hash (nodeHash leaf5 leaf6)) (served_proof 1 2 [wire_hash leaf6])) (sample_enrollment t) db
    in fst r = Witnessed \<and> head_at (snd r) t ''r.example'' = Some \<lparr>rh_logId = registry_log, rh_size = 2, rh_root = wire_hash (nodeHash leaf5 leaf6)\<rparr>"
proof -
  let ?r = "wire_hash (nodeHash leaf5 leaf6)" and ?p = "served_proof 1 2 [wire_hash leaf6]"
  let ?env = "sample_env 2 ?r ?p" and ?cp = "parsed_checkpoint 2 ?r"
  have root: "length (nodeHash leaf5 leaf6) = 32" using length_mth [of "[leaf5, leaf6]"] by (simp add: two_leaf_log)
  have parse: "parseConsistencyProof ?p = Inr \<lparr>cq_log_id = registry_log, cq_first_tree_size = 1, cq_second_tree_size = 2,
      cq_path = [wire_hash leaf6], cq_checkpoint = JObj []\<rparr>"
    by (simp add: parseConsistencyProof_def served_proof_def get_prop_def as_string_def nonneg_int_def as_int_def as_number_def isWireHashArray_def
      nonnull_object_def wire_hash_ok)
  have "consistency_proof 1 [leaf5, leaf6] = [leaf6]" by (simp add: consistency_proof_def subproof_odd two_leaf_log)
  then have "verifyConsistencyPath (num_of_int 1) (num_of_int 2) [wire_hash leaf6] (wire_hash leaf5) ?r = Inr ()"
    using consistency_complete [of 1 "[leaf5, leaf6]"] by (simp add: two_leaf_log)
  then have verdict: "growth_verdict ?env \<lparr>rh_logId = registry_log, rh_size = 1, rh_root = wire_hash leaf5\<rparr> ?cp ?p = Inr ()"
    by (simp add: growth_verdict_def parse parsed_checkpoint_def verifyConsistency_def sdkHasLogSurface_def no_log_surface_def tsVerifyConsistency_def
      sample_env_def)
  have get: "we_get ?env (proof_url ''https://r.example'' 1 2) = Some (answer_ok ?p)" by (simp add: sample_env_def proof_url_def)
  have cp: "cp_log_id ?cp = registry_log" "cp_tree_size ?cp = 2" by (simp_all add: parsed_checkpoint_def)
  have "judge_head ?env t ''r.example'' ''https://r.example'' ?cp None db = verifyGrowth ?env t ''r.example'' ''https://r.example''
      \<lparr>rh_logId = registry_log, rh_size = 1, rh_root = wire_hash leaf5\<rparr> ?cp None db"
    using assms by (simp add: judge_head_def head_at_def cp)
  also have "\<dots> = advance_and_cosign ?env t ''r.example'' ?cp (persistCheckpointSafe ?env t ''r.example'' ?cp True (Some True) None db)"
    using verdict get by (simp add: verifyGrowth_def cp answer_ok_def http_ok_def)
  finally have pass: "witnessRegistry ?env (sample_enrollment t) db =
      advance_and_cosign ?env t ''r.example'' ?cp (persistCheckpointSafe ?env t ''r.example'' ?cp True (Some True) None db)"
    using sample_pass [of 2 ?r ?p t db] wire_hash_ok [OF root] by simp
  show ?thesis unfolding Let_def pass head_advanced by (simp add: advance_and_cosign_def head_of_def parsed_checkpoint_def)
qed

definition sample_db :: witness_db where
  "sample_db = empty_db\<lparr>wd_cursors := advanceCursor ''t'' ''r.example'' registry_log 1 (wire_hash leaf5) 0 []\<rparr>"

lemma sample_db_head: "head_at sample_db ''t'' ''r.example'' = Some \<lparr>rh_logId = registry_log, rh_size = 1, rh_root = wire_hash leaf5\<rparr>"
  by (simp add: sample_db_def head_at_def getCursor_def advanceCursor_def upsert_same retained_of_def)

theorem witnessed_growth_keeps_history_witness:
  "head_at (snd (witnessRegistry (sample_env 2 (wire_hash (nodeHash leaf5 leaf6)) (served_proof 1 2 [wire_hash leaf6])) (sample_enrollment ''t'') sample_db))
     ''t'' ''r.example'' = Some \<lparr>rh_logId = registry_log, rh_size = 2, rh_root = wire_hash (nodeHash leaf5 leaf6)\<rparr>
   \<and> (\<exists>b resp raw p. resolveBaseUrl (sample_env 2 (wire_hash (nodeHash leaf5 leaf6)) (served_proof 1 2 [wire_hash leaf6])) (sample_enrollment ''t'') = Some b
        \<and> we_get (sample_env 2 (wire_hash (nodeHash leaf5 leaf6)) (served_proof 1 2 [wire_hash leaf6])) (proof_url b 1 2) = Some resp
        \<and> ha_body_json resp = Some raw \<and> parseConsistencyProof raw = Inr p)"
proof -
  let ?env = "sample_env 2 (wire_hash (nodeHash leaf5 leaf6)) (served_proof 1 2 [wire_hash leaf6])"
  have g: "head_at (snd (witnessRegistry ?env (sample_enrollment ''t'') sample_db)) ''t'' ''r.example'' =
      Some \<lparr>rh_logId = registry_log, rh_size = 2, rh_root = wire_hash (nodeHash leaf5 leaf6)\<rparr>"
    using sample_growth [OF sample_db_head] by (simp add: Let_def)
  have "\<not> sdkHasLogSurface (we_log ?env)" by (simp add: sample_env_def sdkHasLogSurface_def no_log_surface_def)
  then show ?thesis
    using witnessed_growth_keeps_history [of sample_db "sample_enrollment ''t''" _ ?env _ "[leaf5]" "[leaf5, leaf6]"] sample_db_head g
    by (auto simp: sample_enrollment_def two_leaf_log)
qed

text \<open>C27. An honest registry is witnessed: when its vetted head is the root of the log it retains a prefix of, up to \<open>2 ^ 32\<close> entries, and it
  serves the RFC 6962 consistency proof, the pass succeeds and that head is retained.\<close>

theorem honest_growth_is_witnessed:
  assumes "head_at db t a = Some \<lparr>rh_logId = cp_log_id cp, rh_size = int m, rh_root = wire_hash (mth (take m new))\<rparr>"
    and "cp_tree_size cp = int (length new)" "cp_root_hash cp = wire_hash (mth new)"
    and "0 < m" "m < length new" "m \<le> 2 ^ 32" "\<forall>x \<in> set new. length x = 32" "\<not> sdkHasLogSurface (we_log env)"
    and "we_get env (proof_url b (int m) (int (length new))) = Some resp" "http_ok resp" "ha_body_json resp = Some raw"
    and "parseConsistencyProof raw = Inr p" "cq_log_id p = cp_log_id cp" "cq_first_tree_size p = int m" "cq_second_tree_size p = int (length new)"
    and "cq_path p = map wire_hash (consistency_proof m new)"
  shows "fst (judge_head env t a b cp q db) = Witnessed \<and> head_at (snd (judge_head env t a b cp q db)) t a = Some (head_of cp)"
proof -
  have "verifyConsistencyPath (num_of_int (int m)) (num_of_int (int (length new))) (cq_path p) (wire_hash (mth (take m new))) (wire_hash (mth new)) = Inr ()"
    using consistency_complete [of m new] assms(4-7,16) by simp
  then have v: "growth_verdict env \<lparr>rh_logId = cp_log_id cp, rh_size = int m, rh_root = wire_hash (mth (take m new))\<rparr> cp raw = Inr ()"
    using assms(2,3,8,12-15) by (simp add: growth_verdict_def verifyConsistency_def tsVerifyConsistency_def)
  have "judge_head env t a b cp q db = advance_and_cosign env t a cp (persistCheckpointSafe env t a cp True (Some True) q db)"
    using assms(1,2,5,9-11) v by (simp add: judge_head_def head_at_def verifyGrowth_def)
  then show ?thesis by (simp add: head_advanced) (simp add: advance_and_cosign_def)
qed

theorem honest_growth_is_witnessed_witness:
  "fst (judge_head (sample_env 2 (wire_hash (nodeHash leaf5 leaf6)) (served_proof 1 2 [wire_hash leaf6])) ''t'' ''r.example'' ''https://r.example''
     (parsed_checkpoint 2 (wire_hash (nodeHash leaf5 leaf6))) None sample_db) = Witnessed"
proof -
  let ?env = "sample_env 2 (wire_hash (nodeHash leaf5 leaf6)) (served_proof 1 2 [wire_hash leaf6])"
  have "parseConsistencyProof (served_proof 1 2 [wire_hash leaf6]) = Inr \<lparr>cq_log_id = registry_log, cq_first_tree_size = 1, cq_second_tree_size = 2,
      cq_path = [wire_hash leaf6], cq_checkpoint = JObj []\<rparr>"
    by (simp add: parseConsistencyProof_def served_proof_def get_prop_def as_string_def nonneg_int_def as_int_def as_number_def isWireHashArray_def
      nonnull_object_def wire_hash_ok)
  moreover have "consistency_proof 1 [leaf5, leaf6] = [leaf6]" by (simp add: consistency_proof_def subproof_odd two_leaf_log)
  moreover have "\<not> sdkHasLogSurface (we_log ?env)" by (simp add: sample_env_def sdkHasLogSurface_def no_log_surface_def)
  moreover have "we_get ?env (proof_url ''https://r.example'' 1 2) = Some (answer_ok (served_proof 1 2 [wire_hash leaf6]))"
    by (simp add: sample_env_def proof_url_def)
  ultimately show ?thesis
    using honest_growth_is_witnessed [of sample_db "''t''" "''r.example''" "parsed_checkpoint 2 (wire_hash (nodeHash leaf5 leaf6))" 1 "[leaf5, leaf6]"
        ?env "''https://r.example''" "answer_ok (served_proof 1 2 [wire_hash leaf6])" "served_proof 1 2 [wire_hash leaf6]"] sample_db_head
    by (simp add: two_leaf_log answer_ok_def http_ok_def) (simp add: parsed_checkpoint_def)
qed


lemma sample_faithful: "mint_faithful (sample_env n r p)"
  by (simp add: mint_faithful_def sample_env_def no_surface_def)


lemma cosigs_kept: "set (wd_cosignatures db) \<subseteq> set (wd_cosignatures (snd (advance_and_cosign env t a cp (persistCheckpointSafe env t a cp v ok q db))))"
  using record_cosignature_rows(2) by (fastforce simp: advance_and_cosign_def cosignSafe_def split: option.split sum.split)

lemma alerts_advanced: "wd_alerts (snd (advance_and_cosign env t a cp (persistCheckpointSafe env t a cp v ok q db))) = wd_alerts db"
  by (simp add: advance_and_cosign_def cosignSafe_def persistCheckpointSafe_def split: option.split sum.split prod.split)

text \<open>Across tenants it does: two tenants that enrolled one registry keep separate heads, so a registry that shows each a different root of the same
  size is witnessed for both, no alert is raised, and the one witness identity signs both roots.\<close>

theorem tenants_hide_split_view:
  "\<exists>db r q. db = witness_run [(sample_env 1 (wire_hash leaf5) JNull, sample_enrollment ''t''), (sample_env 1 (wire_hash leaf6) JNull, sample_enrollment ''u'')]
        empty_db \<and> wd_alerts db = []
     \<and> r \<in> set (wd_cosignatures db) \<and> q \<in> set (wd_cosignatures db) \<and> cr_witnessId r = cr_witnessId q \<and> cr_logId r = cr_logId q
     \<and> cr_treeSize r = cr_treeSize q \<and> cr_rootHash r \<noteq> cr_rootHash q"
proof -
  let ?e1 = "sample_env 1 (wire_hash leaf5) JNull" and ?e2 = "sample_env 1 (wire_hash leaf6) JNull"
  let ?db1 = "snd (witnessRegistry ?e1 (sample_enrollment ''t'') empty_db)"
  have ok: "WIRE_HASH_RE (wire_hash leaf5)" "WIRE_HASH_RE (wire_hash leaf6)" by (simp_all add: wire_hash_ok)
  obtain r where r: "r \<in> set (wd_cosignatures ?db1)" "cr_witnessId r = sample_witness" "cr_logId r = registry_log" "cr_treeSize r = 1"
      "cr_rootHash r = wire_hash leaf5"
    using sample_cosigned [of 1 "wire_hash leaf5" empty_db "''t''" JNull] ok
    by (auto simp: empty_db_def head_at_def getCursor_def retained_of_def)
  have db1: "witnessRegistry ?e1 (sample_enrollment ''t'') empty_db = advance_and_cosign ?e1 ''t'' ''r.example'' (parsed_checkpoint 1 (wire_hash leaf5))
      (persistCheckpointSafe ?e1 ''t'' ''r.example'' (parsed_checkpoint 1 (wire_hash leaf5)) True None None empty_db)"
    using sample_pass [of 1 "wire_hash leaf5" JNull "''t''" empty_db] ok
    by (simp add: judge_head_def empty_db_def getCursor_def retained_of_def)
  have h2: "head_at ?db1 ''u'' ''r.example'' = None"
    unfolding db1 head_advanced by (simp add: empty_db_def head_at_def getCursor_def retained_of_def)
  have tenants: "cr_tenantId x \<noteq> ''u''" if "x \<in> set (wd_cosignatures ?db1)" for x
  proof -
    have "minted_row ?e1 ''t'' ''r.example'' (parsed_checkpoint 1 (wire_hash leaf5)) x"
      using cosigs_advanced that unfolding db1 by (fastforce simp: empty_db_def)
    then show ?thesis using row_tuple(1) [OF sample_faithful] by fastforce
  qed
  obtain q where q: "q \<in> set (wd_cosignatures (snd (witnessRegistry ?e2 (sample_enrollment ''u'') ?db1)))" "cr_witnessId q = sample_witness"
      "cr_logId q = registry_log" "cr_treeSize q = 1" "cr_rootHash q = wire_hash leaf6"
    using sample_cosigned [of 1 "wire_hash leaf6" ?db1 "''u''" JNull] ok h2 tenants by auto
  have db2: "witnessRegistry ?e2 (sample_enrollment ''u'') ?db1 = advance_and_cosign ?e2 ''u'' ''r.example'' (parsed_checkpoint 1 (wire_hash leaf6))
      (persistCheckpointSafe ?e2 ''u'' ''r.example'' (parsed_checkpoint 1 (wire_hash leaf6)) True None None ?db1)"
    using sample_pass [of 1 "wire_hash leaf6" JNull "''u''" ?db1] ok h2 by (simp add: judge_head_def head_at_def)
  have r2: "r \<in> set (wd_cosignatures (snd (witnessRegistry ?e2 (sample_enrollment ''u'') ?db1)))"
    unfolding db2 using cosigs_kept r(1) by fastforce
  have alerts: "wd_alerts (snd (witnessRegistry ?e2 (sample_enrollment ''u'') ?db1)) = []"
    unfolding db2 alerts_advanced unfolding db1 alerts_advanced by (simp add: empty_db_def)
  have "wire_hash leaf5 \<noteq> wire_hash leaf6"
    by (simp add: wire_hash_def hex_of_bytes_inject leaf5_def leaf6_def replicate_eq_replicate)
  then show ?thesis
    using r(2-) r2 q alerts by (intro exI [of _ "snd (witnessRegistry ?e2 (sample_enrollment ''u'') ?db1)"] exI [of _ r] exI [of _ q]) (auto simp: witness_run_def)
qed

text \<open>A consumer that trusts one witness, whose published key is \<open>REAL\<close>; \<open>EVIL\<close> is the key of another DID.\<close>

definition key_of :: "string \<Rightarrow> resolved_receipt_key" where
  "key_of k = \<lparr>rr_key = \<lparr>rk_keyId = k, rk_algorithm = ''ed25519'', rk_publicKeyB64 = k\<rparr>, rr_historical = False\<rparr>"

definition consumer_env :: witness_env where
  "consumer_env = (sample_env 8 (wire_hash leaf5) JNull)
     \<lparr>we_quorum := True, we_trusted := [sample_witness],
      we_verifier := \<lparr>av_verifySignature = (\<lambda>pub sg m. Some (pub = ''EVIL'')), av_verifySignatureP256 = (\<lambda>pub sg m. Some False)\<rparr>,
      we_resolveWitnessKey := (\<lambda>k alg. if k = sample_witness @ ''#witness-key-1'' then Some (key_of ''REAL'')
        else if k = ''did:web:evil.example#k'' then Some (key_of ''EVIL'') else None)\<rparr>"

definition forged :: "string \<Rightarrow> json" where
  "forged k = JObj (unsigned_cosignature sample_tuple ''2026-01-01T00:01:00.000Z'' sample_witness @ [(''signature'', JObj
     [(''algorithm'', JStr ''ed25519''), (''key_id'', JStr k), (''value'', JStr ''AA'')])])"

definition forged_parsed :: "string \<Rightarrow> log_cosignature" where
  "forged_parsed k = \<lparr>lc_witness_id = sample_witness, lc_checkpoint = sample_tuple, lc_witnessed_at = ''2026-01-01T00:01:00.000Z'',
     lc_signature = \<lparr>sig_algorithm = ''ed25519'', sig_key_id = k, sig_value = ''AA''\<rparr>, lc_raw = (case forged k of JObj ob \<Rightarrow> ob | _ \<Rightarrow> [])\<rparr>"

text \<open>C31. The witness key is resolved from the key id of a served cosignature without checking that it belongs to the witness. A registry that serves one
  cosignature under a key id of the witness that does not exist, and a second under a key of its own DID, gets its own key accepted as the witness's: the
  quorum of trusted witnesses is met although nothing verifies under the key the witness publishes.\<close>

theorem quorum_is_forgeable:
  "(\<exists>report. consumeQuorumSafe consumer_env sample_checkpoint [forged (sample_witness @ ''#none''), forged ''did:web:evil.example#k''] = Some report
      \<and> qr_meetsQuorum report \<and> qr_verifiedWitnessIds report = [sample_witness])
   \<and> we_resolveWitnessKey consumer_env (sample_witness @ ''#witness-key-1'') ''ed25519'' = Some (key_of ''REAL'')
   \<and> (\<forall>sg m. av_verifySignature (we_verifier consumer_env) ''REAL'' sg m = Some False)"
proof -
  have p: "parseCosignature (forged (sample_witness @ ''#none'')) = Inr (forged_parsed (sample_witness @ ''#none''))"
    "parseCosignature (forged ''did:web:evil.example#k'') = Inr (forged_parsed ''did:web:evil.example#k'')" by code_simp+
  have f: "starts_with ''did:key:'' sample_witness = False" "stripFragment (sample_witness @ ''#none'') = sample_witness"
    "date_parse ''2026-01-01T00:01:00.000Z'' = Some 1767225660000" "sample_witness @ ''#none'' \<noteq> sample_witness @ ''#witness-key-1''"
    "sample_witness @ ''#none'' \<noteq> ''did:web:evil.example#k''" "''did:web:evil.example#k'' \<noteq> sample_witness @ ''#witness-key-1''"
    by code_simp+
  have env: "we_quorum consumer_env" "we_trusted consumer_env = [sample_witness]" "we_cosign consumer_env = no_surface"
    "we_jcs consumer_env = (\<lambda>_. Some ''x'')" "we_now consumer_env = 1767225660000000" "we_minWitnesses consumer_env = 1"
    "we_maxAgeSeconds consumer_env = None" "we_maxClockSkewSeconds consumer_env = 120"
    "we_verifier consumer_env = \<lparr>av_verifySignature = (\<lambda>pub sg m. Some (pub = ''EVIL'')), av_verifySignatureP256 = (\<lambda>pub sg m. Some False)\<rparr>"
    by (simp_all add: consumer_env_def sample_env_def)
  have keys: "we_resolveWitnessKey consumer_env (sample_witness @ ''#none'') alg = None"
    "we_resolveWitnessKey consumer_env ''did:web:evil.example#k'' alg = Some (key_of ''EVIL'')" for alg
    using f(4-6) by (simp_all add: consumer_env_def)
  have ks: "resolve_witness_keys consumer_env ([], []) [forged (sample_witness @ ''#none''), forged ''did:web:evil.example#k''] =
      ([(sample_witness, ''EVIL'')], [])"
    by (simp add: p env keys f(1) forged_parsed_def) (simp add: key_of_def)
  have v: "tsVerifyCosignature (we_verifier consumer_env) (we_jcs consumer_env) (forged_parsed (sample_witness @ ''#none'')) ''EVIL'' = Inr ()"
    using f(2) by (simp add: tsVerifyCosignature_def forged_parsed_def Let_def cosignatureHash_def env verifySignatureB64_def)
  have t: "same_tuple (forged_parsed k) sample_checkpoint" "cosignatureFreshnessOk (forged_parsed k) 1767225660000 120000 = Inr ()"
    "lc_witness_id (forged_parsed k) = sample_witness" for k
    using f(3) by (simp_all add: same_tuple_def forged_parsed_def sample_tuple_def sample_checkpoint_def cosignatureFreshnessOk_def)
  have n: "now_ms 1767225660000000 = 1767225660000" "sdkHasCosignatureSurface no_surface = False"
    by (simp_all add: now_ms_def sdkHasCosignatureSurface_def no_surface_def)
  let ?served = "[forged (sample_witness @ ''#none''), forged ''did:web:evil.example#k'']"
  let ?inp = "\<lparr>qn_cosignatures = ?served, qn_checkpoint = sample_checkpoint, qn_trustedWitnessIds = [sample_witness],
      qn_witnessKeysB64 = [(sample_witness, ''EVIL'')], qn_historicalWitnessIds = [], qn_minWitnesses = 1, qn_maxAgeSecs = Some None,
      qn_maxClockSkewSecs = Some 120, qn_nowMs = None\<rparr>"
  have r: "consumeQuorumSafe consumer_env sample_checkpoint ?served = Some (hostEvaluateQuorum no_surface (we_verifier consumer_env)
      (we_jcs consumer_env) (we_now consumer_env) ?inp)"
    unfolding consumeQuorumSafe_def ks by (simp add: env evaluateQuorum_def n)
  have "qr_meetsQuorum (hostEvaluateQuorum no_surface (we_verifier consumer_env) (we_jcs consumer_env) (we_now consumer_env) ?inp)
      \<and> qr_verifiedWitnessIds (hostEvaluateQuorum no_surface (we_verifier consumer_env) (we_jcs consumer_env) (we_now consumer_env) ?inp) = [sample_witness]"
    using v by (simp add: hostEvaluateQuorum_def quorum_now_def quorum_skew_ms_def quorum_step_def p t n env(5) verifyCosignature_def Let_def)
  with r have "\<exists>report. consumeQuorumSafe consumer_env sample_checkpoint ?served = Some report \<and> qr_meetsQuorum report
      \<and> qr_verifiedWitnessIds report = [sample_witness]" by simp
  moreover have "we_resolveWitnessKey consumer_env (sample_witness @ ''#witness-key-1'') ''ed25519'' = Some (key_of ''REAL'')" by (simp add: consumer_env_def)
  ultimately show ?thesis by (auto simp: env)
qed

end
