(* ===== verification/FederationClient.thy ===== *)
theory FederationClient
  imports DidWeb Errors
begin

text \<open>
  The outbound client of the audits (\<open>src/src/contexts/safe-federation-client.ts\<close>) and the cached probe of a registry's capabilities
  (\<open>src/src/audit/registry-profile.service.ts\<close>).

  The network is the field \<open>fe_fetch\<close> of \<open>federation_env\<close>; the URL parser of the platform is \<open>dh_newURL\<close> of the host record
  (for the scheme and host name), \<open>fe_urlHost\<close> (host with port) and \<open>fe_joinUrl\<close> (\<open>new URL(location, base).toString()\<close>).
  A body is read as the list of results its reader delivers. Timers are a read or a fetch that fails. Next to its result the client
  returns the list of URLs it has fetched. The text decoder followed by \<open>JSON.parse\<close> is \<open>fe_json\<close>: the characters of the model are
  those of one byte, so the text of a body is not a value of the model.
\<close>

section \<open>The client\<close>

datatype read_step = Chunk bytes | ReadFailed

record fetch_answer =
  fa_status :: int
  fa_location :: "string option"
  fa_retryAfter :: "string option"
  fa_contentLength :: "string option"
  fa_contentType :: "string option"
  fa_body :: "read_step list option"

datatype fetch_code = FSSRF | FFETCH | FREDIRECT | FBODY_TOO_LARGE

datatype get_error = FederationFetchError fetch_code | UpstreamRateLimited exn

record federation_response =
  fr_status :: int
  fr_contentType :: "string option"
  fr_body :: bytes

record federation_env =
  fe_binding :: did_binding
  fe_host :: did_host
  fe_policy :: ssrf_policy
  fe_urlHost :: "string \<Rightarrow> string"
  fe_joinUrl :: "string \<Rightarrow> string \<Rightarrow> string option"
  fe_fetch :: "string \<Rightarrow> fetch_answer option"
  fe_json :: "bytes \<Rightarrow> json option"

definition FEDERATION_MAX_BODY_BYTES :: nat where "FEDERATION_MAX_BODY_BYTES = 1024 * 1024"

definition MAX_REDIRECTS :: nat where "MAX_REDIRECTS = 3"

definition safeOrigin :: "federation_env \<Rightarrow> string \<Rightarrow> string" where
  "safeOrigin env url = (case dh_newURL (fe_host env) url of
     Some u \<Rightarrow> up_protocol u @ ''//'' @ fe_urlHost env url
   | None \<Rightarrow> [])"

definition safeHost :: "federation_env \<Rightarrow> string \<Rightarrow> string" where
  "safeHost env url = (case dh_newURL (fe_host env) url of Some u \<Rightarrow> fe_urlHost env url | None \<Rightarrow> ''<unknown>'')"

text \<open>\<open>Number(header ?? '')\<close> is finite and above the cap.\<close>

definition declared_too_large :: "string option \<Rightarrow> bool" where
  "declared_too_large header = (case js_number_string (case header of Some h \<Rightarrow> h | None \<Rightarrow> []) of
     Fin r \<Rightarrow> r > of_nat FEDERATION_MAX_BODY_BYTES | _ \<Rightarrow> False)"

fun read_loop :: "bytes \<Rightarrow> read_step list \<Rightarrow> get_error + bytes" where
  "read_loop combined [] = Inr combined"
| "read_loop combined (ReadFailed # steps) = Inl (FederationFetchError FFETCH)"
| "read_loop combined (Chunk c # steps) =
     (if length combined + length c > FEDERATION_MAX_BODY_BYTES then Inl (FederationFetchError FBODY_TOO_LARGE)
      else read_loop (combined @ c) steps)"

definition readCapped :: "fetch_answer \<Rightarrow> get_error + bytes" where
  "readCapped resp =
     (if declared_too_large (fa_contentLength resp) then Inl (FederationFetchError FBODY_TOO_LARGE)
      else (case fa_body resp of None \<Rightarrow> Inr [] | Some steps \<Rightarrow> read_loop [] steps))"

definition rate_limited :: "federation_env \<Rightarrow> string \<Rightarrow> string option \<Rightarrow> exn" where
  "rate_limited env url retryAfter = AppException FEDERATION_UPSTREAM_RATE_LIMITED
     (''upstream '' @ quoted (safeHost env url) @ '' is rate limiting''
      @ (case retryAfter of Some r \<Rightarrow> if r = [] then [] else '' (Retry-After: '' @ r @ '')'' | None \<Rightarrow> [])) 503 None"

text \<open>The loop over the hops; the second argument counts the hops that are left.\<close>

fun get_hops :: "federation_env \<Rightarrow> nat \<Rightarrow> string \<Rightarrow> string \<Rightarrow> (get_error + federation_response) \<times> string list" where
  "get_hops env 0 origin url = (Inl (FederationFetchError FREDIRECT), [])"
| "get_hops env (Suc hops) origin url = (case checkUrl (fe_host env) (fe_policy env) url of
     Inl e \<Rightarrow> (Inl (FederationFetchError FSSRF), [])
   | Inr _ \<Rightarrow> (case checkResolvedHost (fe_binding env) (fe_host env) (fe_policy env) (up_hostname (the (dh_newURL (fe_host env) url))) of
       Inl e \<Rightarrow> (Inl (FederationFetchError FSSRF), [])
     | Inr _ \<Rightarrow> (case fe_fetch env url of
         None \<Rightarrow> (Inl (FederationFetchError FFETCH), [url])
       | Some resp \<Rightarrow>
           if 300 \<le> fa_status resp \<and> fa_status resp < 400
           then (case fa_location resp of
               None \<Rightarrow> (Inl (FederationFetchError FREDIRECT), [url])
             | Some location \<Rightarrow>
                 if location = [] then (Inl (FederationFetchError FREDIRECT), [url])
                 else (case fe_joinUrl env location url of
                     None \<Rightarrow> (Inl (FederationFetchError FREDIRECT), [url])
                   | Some next \<Rightarrow>
                       if safeOrigin env next \<noteq> origin then (Inl (FederationFetchError FREDIRECT), [url])
                       else (case get_hops env hops origin next of (r, urls) \<Rightarrow> (r, url # urls))))
           else if fa_status resp = 429 then (Inl (UpstreamRateLimited (rate_limited env url (fa_retryAfter resp))), [url])
           else (case readCapped resp of
               Inl e \<Rightarrow> (Inl e, [url])
             | Inr body \<Rightarrow> (Inr \<lparr>fr_status = fa_status resp, fr_contentType = fa_contentType resp, fr_body = body\<rparr>, [url])))))"

definition federation_get :: "federation_env \<Rightarrow> string \<Rightarrow> (get_error + federation_response) \<times> string list" where
  "federation_get env rawUrl = get_hops env (Suc MAX_REDIRECTS) (safeOrigin env rawUrl) rawUrl"

section \<open>The capabilities probe\<close>

record profile_entry =
  pf_profiles :: "string list option"
  pf_registryDid :: "string option"
  pf_acdpVersion :: "string option"
  pf_cachedAt :: int

type_synonym profile_cache = "(string, profile_entry) jsmap"

definition PROFILE_CACHE_TTL_MS :: int where "PROFILE_CACHE_TTL_MS = 10 * 60 * 1000"
definition RECEIPTS_PROFILE :: string where "RECEIPTS_PROFILE = ''acdp-registry-receipts''"
definition TRANSPARENCY_LOG_PROFILE :: string where "TRANSPARENCY_LOG_PROFILE = ''acdp-registry-transparency-log''"

definition unreadable :: "int \<Rightarrow> profile_entry" where
  "unreadable now = \<lparr>pf_profiles = None, pf_registryDid = None, pf_acdpVersion = None, pf_cachedAt = now\<rparr>"

definition string_items :: "json option \<Rightarrow> string list" where
  "string_items v = (case v of Some (JArr xs) \<Rightarrow> List.map_filter (\<lambda>x. as_string (Some x)) xs | _ \<Rightarrow> [])"

text \<open>Reading a member of a parsed \<open>null\<close> throws; of any other value it is \<open>undefined\<close> unless the value is an object.\<close>

definition probe :: "federation_env \<Rightarrow> string option \<Rightarrow> int \<Rightarrow> profile_entry" where
  "probe env baseUrl now = (case baseUrl of
     None \<Rightarrow> unreadable now
   | Some base \<Rightarrow>
       if base = [] then unreadable now
       else (case fst (federation_get env (strip_slash base @ ''/.well-known/acdp.json'')) of
           Inl e \<Rightarrow> unreadable now
         | Inr resp \<Rightarrow>
             if fr_status resp < 200 \<or> fr_status resp \<ge> 300 then unreadable now
             else (case fe_json env (fr_body resp) of
                 None \<Rightarrow> unreadable now
               | Some JNull \<Rightarrow> unreadable now
               | Some doc \<Rightarrow>
                   (let ob = (case doc of JObj ob \<Rightarrow> ob | _ \<Rightarrow> [])
                    in \<lparr>pf_profiles = Some (string_items (get_prop ob ''profiles'')), pf_registryDid = as_string (get_prop ob ''registry_did''),
                         pf_acdpVersion = as_string (get_prop ob ''acdp_version''), pf_cachedAt = now\<rparr>))))"

definition profile_key :: "string \<Rightarrow> string \<Rightarrow> string" where
  "profile_key tenantId authority = tenantId @ '' '' @ authority"

definition entryFor ::
    "federation_env \<Rightarrow> (string \<Rightarrow> string \<Rightarrow> string option) \<Rightarrow> clock \<Rightarrow> string \<Rightarrow> string \<Rightarrow> profile_cache \<Rightarrow> profile_entry \<times> profile_cache" where
  "entryFor env findByAuthority us authority tenantId cache =
     (let key = profile_key tenantId authority;
          fresh = probe env (findByAuthority authority tenantId) (now_ms us);
          miss = (fresh, AList.update key fresh cache)
      in case map_of cache key of
           Some cached \<Rightarrow> if now_ms us - pf_cachedAt cached < PROFILE_CACHE_TTL_MS then (cached, cache) else miss
         | None \<Rightarrow> miss)"

definition advertisesProfile ::
    "federation_env \<Rightarrow> (string \<Rightarrow> string \<Rightarrow> string option) \<Rightarrow> clock \<Rightarrow> string \<Rightarrow> string \<Rightarrow> string \<Rightarrow> profile_cache \<Rightarrow> bool option \<times> profile_cache" where
  "advertisesProfile env findByAuthority us authority tenantId profile cache =
     (case entryFor env findByAuthority us authority tenantId cache of
        (e, cache') \<Rightarrow> (map_option (\<lambda>ps. profile \<in> set ps) (pf_profiles e), cache'))"

definition registryCapabilities ::
    "federation_env \<Rightarrow> (string \<Rightarrow> string \<Rightarrow> string option) \<Rightarrow> clock \<Rightarrow> string \<Rightarrow> string \<Rightarrow> profile_cache
     \<Rightarrow> (string option \<times> string option) \<times> profile_cache" where
  "registryCapabilities env findByAuthority us authority tenantId cache =
     (case entryFor env findByAuthority us authority tenantId cache of (e, cache') \<Rightarrow> ((pf_registryDid e, pf_acdpVersion e), cache'))"

section \<open>What the client fetches\<close>

definition cleared :: "federation_env \<Rightarrow> string \<Rightarrow> bool" where
  "cleared env url = (checkUrl (fe_host env) (fe_policy env) url = Inr ()
     \<and> (\<exists>addrs. checkResolvedHost (fe_binding env) (fe_host env) (fe_policy env) (up_hostname (the (dh_newURL (fe_host env) url))) = Inr addrs))"

lemma read_loop_capped:
  "read_loop combined steps = Inr body \<Longrightarrow> length combined \<le> FEDERATION_MAX_BODY_BYTES \<Longrightarrow> length body \<le> FEDERATION_MAX_BODY_BYTES"
  by (induction combined steps rule: read_loop.induct) (auto split: if_splits)

lemma readCapped_capped: "readCapped resp = Inr body \<Longrightarrow> length body \<le> FEDERATION_MAX_BODY_BYTES"
  by (auto simp: readCapped_def intro: read_loop_capped split: if_splits option.splits)

lemma get_hops_safe:
  assumes "get_hops env hops origin url = (r, urls)" "safeOrigin env url = origin"
  shows "list_all (\<lambda>u. cleared env u \<and> safeOrigin env u = origin) urls \<and> length urls \<le> hops"
  using assms
proof (induction env hops origin url arbitrary: r urls rule: get_hops.induct)
  case (2 env hops origin url)
  then show ?case
    by (auto simp: cleared_def split: sum.splits option.splits if_splits prod.splits)
qed simp

lemma get_hops_response:
  assumes "get_hops env hops origin url = (Inr resp, urls)"
  shows "length (fr_body resp) \<le> FEDERATION_MAX_BODY_BYTES \<and> (fr_status resp < 300 \<or> 400 \<le> fr_status resp) \<and> fr_status resp \<noteq> 429"
  using assms
proof (induction env hops origin url arbitrary: urls rule: get_hops.induct)
  case (2 env hops origin url)
  then show ?case
    by (auto split: sum.splits option.splits if_splits prod.splits dest: readCapped_capped)
qed simp

text \<open>The outbound client stays where it was sent: every URL it fetches has passed the scheme and address checks and has the scheme, host and
  port of the requested one, it fetches at most four, and a response it returns is not a redirect, not a rate limit and at most one MiB.\<close>

theorem federation_get_confined:
  "list_all (\<lambda>u. cleared env u \<and> safeOrigin env u = safeOrigin env rawUrl) (snd (federation_get env rawUrl))
     \<and> length (snd (federation_get env rawUrl)) \<le> 4
     \<and> (case fst (federation_get env rawUrl) of
          Inl e \<Rightarrow> True
        | Inr resp \<Rightarrow> length (fr_body resp) \<le> 1048576 \<and> (fr_status resp < 300 \<or> 400 \<le> fr_status resp) \<and> fr_status resp \<noteq> 429)"
proof -
  obtain r urls where g: "federation_get env rawUrl = (r, urls)" by fastforce
  then have h: "get_hops env 4 (safeOrigin env rawUrl) rawUrl = (r, urls)" by (simp add: federation_get_def MAX_REDIRECTS_def)
  have "list_all (\<lambda>u. cleared env u \<and> safeOrigin env u = safeOrigin env rawUrl) urls \<and> length urls \<le> 4" using get_hops_safe [OF h refl] .
  moreover have "length (fr_body resp) \<le> 1048576 \<and> (fr_status resp < 300 \<or> 400 \<le> fr_status resp) \<and> fr_status resp \<noteq> 429" if "r = Inr resp" for resp
    using get_hops_response [OF h [unfolded that]] by (simp add: FEDERATION_MAX_BODY_BYTES_def)
  ultimately show ?thesis using g by (cases r) simp_all
qed

section \<open>A sample network\<close>

definition open_host :: did_host where
  "open_host = \<lparr>dh_newURL = (\<lambda>u. Some \<lparr>up_protocol = ''https:'', up_hostname = ''r.example''\<rparr>), dh_isIP = (\<lambda>h. 0),
     dh_lookup = (\<lambda>h. Some [''203.0.113.7'']), dh_fetch = (\<lambda>u. None)\<rparr>"

definition open_binding :: did_binding where
  "open_binding = \<lparr>db_checkIp = (\<lambda>l ip. Inr ()), db_checkRedirectAuthority = (\<lambda>l a b. Inr ()), db_stripFragment = (\<lambda>s. s),
     db_webToUrl = (\<lambda>d. Inr d), db_parse = (\<lambda>t d. Inr ()), db_keyForAlgorithm = (\<lambda>d k a. Inl ([], [])),
     db_receiptKeyForAlgorithm = (\<lambda>d k a. Inl ([], []))\<rparr>"

definition served_answer :: "byte \<Rightarrow> fetch_answer" where
  "served_answer b = \<lparr>fa_status = 200, fa_location = None, fa_retryAfter = None, fa_contentLength = None, fa_contentType = None,
     fa_body = Some [Chunk [b]]\<rparr>"

text \<open>A network that serves the documents of an association list; the body of a document is its number.\<close>

definition audit_fed :: "(string \<times> byte) list \<Rightarrow> (byte \<times> json) list \<Rightarrow> federation_env" where
  "audit_fed urls docs = \<lparr>fe_binding = open_binding, fe_host = open_host, fe_policy = SsrfPolicy None None, fe_urlHost = (\<lambda>u. ''r.example''),
     fe_joinUrl = (\<lambda>l b. None), fe_fetch = (\<lambda>u. map_option served_answer (map_of urls u)),
     fe_json = (\<lambda>bs. case bs of [b] \<Rightarrow> map_of docs b | _ \<Rightarrow> None)\<rparr>"

lemma audit_fed_get:
  assumes "map_of urls url = Some b"
  shows "fst (federation_get (audit_fed urls docs) url) = Inr \<lparr>fr_status = 200, fr_contentType = None, fr_body = [b]\<rparr>"
proof -
  have "checkUrl open_host (SsrfPolicy None None) url = Inr ()"
    by (simp add: checkUrl_def open_host_def SsrfPolicy_def strip_brackets_def)
  moreover have "checkResolvedHost open_binding open_host (SsrfPolicy None None) h = Inr [''203.0.113.7'']" for h
    by (simp add: checkResolvedHost_def open_host_def open_binding_def checkIp_def)
  moreover have "readCapped (served_answer b) = Inr [b]"
    by (simp add: readCapped_def served_answer_def declared_too_large_def js_number_string_def trim_def FEDERATION_MAX_BODY_BYTES_def)
  ultimately show ?thesis using assms
    by (auto simp: federation_get_def audit_fed_def served_answer_def split: sum.split)
qed

end
