(* ===== verification/KeyRevocation.thy ===== *)
theory KeyRevocation
  imports FederationClient Multibase AcdpVerify WitnessStore
begin

text \<open>
  Key-revocation facts: the wrappers around the binding (\<open>src/src/audit/receipt-verify.ts\<close>, \<open>revocation-verify.ts\<close>), the registry
  binding (\<open>revocation-binding.ts\<close>), the context types (\<open>src/src/contracts/revocation.ts\<close>), the table of facts
  (\<open>src/src/storage/key-revocation.repository.ts\<close>) and the lineage walk (\<open>revocation-lineage.ts\<close>).

  The functions of the binding are the fields of \<open>audit_binding\<close>; one that the installed binding may lack is an option. They take the
  JSON value a text was printed from, which determines the text. A thrown value is its code, when it has one, and its message. A
  \<open>timestamptz\<close> column keeps an instant in microseconds.
\<close>

section \<open>The binding and its wrappers\<close>

record sdk_error =
  sx_code :: "string option"
  sx_message :: string

record audit_binding =
  ab_verifyContentHash :: "json \<Rightarrow> string \<Rightarrow> sdk_error + unit"
  ab_verifyReceipt :: "(json \<Rightarrow> json \<Rightarrow> string \<Rightarrow> string \<Rightarrow> string \<Rightarrow> string \<Rightarrow> sdk_error + unit) option"
  ab_fingerprint :: "(string \<Rightarrow> sdk_error + string) option"
  ab_verifyBodyOffline :: "(json \<Rightarrow> sdk_error + unit) option"
  ab_explainHashMismatch :: "(json \<Rightarrow> string \<Rightarrow> sdk_error + string option) option"
  ab_verifyCtxIdBinding :: "(json \<Rightarrow> string \<Rightarrow> sdk_error + unit) option"
  ab_parseKeyRevocation :: "(json \<Rightarrow> string \<Rightarrow> sdk_error + json option) option"
  ab_classify :: "(json list \<Rightarrow> string \<Rightarrow> string option \<Rightarrow> sdk_error + json option) option"
  ab_stripFragment :: "string \<Rightarrow> string"
  ab_verifier :: acdp_verifier

text \<open>An exception that leaves a function is its message.\<close>

type_synonym crash = string

definition sdk_errMsg :: "sdk_error \<Rightarrow> string" where
  "sdk_errMsg e = (case sx_code e of Some c \<Rightarrow> c @ '': '' @ sx_message e | None \<Rightarrow> sx_message e)"

definition sdkSupportsReceipts :: "audit_binding \<Rightarrow> bool" where
  "sdkSupportsReceipts B = (ab_verifyReceipt B \<noteq> None \<and> ab_fingerprint B \<noteq> None)"

datatype receipt_failure = MalformedBody | CtxIdRejected | ReceiptDishonest

definition classifyReceiptFailure :: "string \<Rightarrow> receipt_failure" where
  "classifyReceiptFailure message =
     (if starts_with ''invalid body JSON: '' message then MalformedBody
      else if starts_with ''invalid expectedCtxId: '' message then CtxIdRejected
      else ReceiptDishonest)"

text \<open>\<open>CANONICAL_CTX_ID\<close>: \<open>acdp://\<close>, dot-separated lower-case labels, and a lower-case version 4 UUID.\<close>

definition dns_label :: "string \<Rightarrow> bool" where
  "dns_label l = (l \<noteq> [] \<and> all_in (lower_letters @ digits @ ''-'') l \<and> hd l \<noteq> CHR ''-'' \<and> last l \<noteq> CHR ''-'')"

definition uuid_v4 :: "string \<Rightarrow> bool" where
  "uuid_v4 u = (case split_on (CHR ''-'') u of
     [a, b, c, d, e] \<Rightarrow> list_all (all_in hex_digits) [a, b, c, d, e] \<and> map length [a, b, c, d, e] = [8, 4, 4, 4, 12]
       \<and> hd c = CHR ''4'' \<and> hd d \<in> set ''89ab''
   | _ \<Rightarrow> False)"

definition isCanonicalCtxId :: "string \<Rightarrow> bool" where
  "isCanonicalCtxId ctxId = (starts_with ''acdp://'' ctxId \<and> (case split_on (CHR ''/'') (drop 7 ctxId) of
     [authority, u] \<Rightarrow> list_all dns_label (split_on (CHR ''.'') authority) \<and> uuid_v4 u
   | _ \<Rightarrow> False))"

definition verifyContentHash :: "audit_binding \<Rightarrow> json \<Rightarrow> string \<Rightarrow> string + unit" where
  "verifyContentHash B body expectedHash = (case ab_verifyContentHash B body expectedHash of Inl e \<Rightarrow> Inl (sdk_errMsg e) | Inr _ \<Rightarrow> Inr ())"

definition verifyReceipt ::
    "audit_binding \<Rightarrow> json \<Rightarrow> json \<Rightarrow> string \<Rightarrow> string \<Rightarrow> string \<Rightarrow> string \<Rightarrow> crash + ((receipt_failure \<times> string) + unit)" where
  "verifyReceipt B receipt body registryKey ctxId bodyHash producerFp = (case ab_verifyReceipt B of
     None \<Rightarrow> Inl ''installed acdp SDK has no verifyReceipt (need >= 0.14.1)''
   | Some f \<Rightarrow> Inr (case f receipt body registryKey ctxId bodyHash producerFp of
       Inl e \<Rightarrow> Inl (classifyReceiptFailure (sx_message e), sdk_errMsg e)
     | Inr _ \<Rightarrow> Inr ()))"

datatype ctx_binding_failure = CtxMismatch | CtxUnverifiable

definition classifyCtxIdBindingFailure :: "string \<Rightarrow> ctx_binding_failure" where
  "classifyCtxIdBindingFailure message = (if starts_with ''context substitution: '' message then CtxMismatch else CtxUnverifiable)"

definition verifyCtxIdBinding :: "audit_binding \<Rightarrow> json \<Rightarrow> string \<Rightarrow> (ctx_binding_failure \<times> string) + unit" where
  "verifyCtxIdBinding B body ctxId = (case ab_verifyCtxIdBinding B of
     None \<Rightarrow> Inl (CtxUnverifiable, ''installed acdp SDK has no verifyCtxIdBinding (need >= 0.14.1)'')
   | Some f \<Rightarrow> (case f body ctxId of
       Inl e \<Rightarrow> Inl (classifyCtxIdBindingFailure (sx_message e), sdk_errMsg e)
     | Inr _ \<Rightarrow> Inr ()))"

definition fingerprintEd25519B64 :: "audit_binding \<Rightarrow> string \<Rightarrow> crash + string" where
  "fingerprintEd25519B64 B key = (case ab_fingerprint B of
     None \<Rightarrow> Inl ''installed acdp SDK has no fingerprintEd25519B64 (need > 0.3.0)''
   | Some f \<Rightarrow> (case f key of Inl e \<Rightarrow> Inl (sx_message e) | Inr fp \<Rightarrow> Inr fp))"

definition verifyBodyOffline :: "audit_binding \<Rightarrow> json \<Rightarrow> string + unit" where
  "verifyBodyOffline B body = (case ab_verifyBodyOffline B of
     None \<Rightarrow> Inl ''installed acdp SDK has no verifyBodyOffline (need > 0.3.0)''
   | Some f \<Rightarrow> (case f body of Inl e \<Rightarrow> Inl (sdk_errMsg e) | Inr _ \<Rightarrow> Inr ()))"

definition explainHashMismatch :: "audit_binding \<Rightarrow> json \<Rightarrow> string \<Rightarrow> string option" where
  "explainHashMismatch B body expectedHash = (case ab_explainHashMismatch B of
     None \<Rightarrow> None
   | Some f \<Rightarrow> (case f body expectedHash of Inl e \<Rightarrow> None | Inr d \<Rightarrow> d))"

section \<open>Parsing a revocation\<close>

definition REVOCATION_CONTEXT_TYPES :: "string list" where
  "REVOCATION_CONTEXT_TYPES = [''key-revocation'', ''acdp:key-revocation'']"

definition isRevocationContextType :: "string \<Rightarrow> bool" where
  "isRevocationContextType t = (t \<in> set REVOCATION_CONTEXT_TYPES)"

datatype trust_class = ProducerSigned | RegistryAttested

fun trust_class_string :: "trust_class \<Rightarrow> string" where
  "trust_class_string ProducerSigned = ''producer_signed''"
| "trust_class_string RegistryAttested = ''registry_attested''"

definition trust_class_of :: "json option \<Rightarrow> trust_class option" where
  "trust_class_of v = (if v = Some (JStr ''producer_signed'') then Some ProducerSigned
     else if v = Some (JStr ''registry_attested'') then Some RegistryAttested else None)"

record parsed_revocation =
  pv_revokedKeyFingerprint :: string
  pv_compromisedSince :: string
  pv_reason :: "string option"
  pv_revokedKeyId :: "string option"
  pv_revokedKeyController :: string
  pv_publisher :: string
  pv_trustClass :: trust_class

datatype parse_code = SchemaViolation | KeyNotAuthorized | InvalidInput | UnknownCode

definition codeOf :: "sdk_error \<Rightarrow> parse_code" where
  "codeOf e = (case sx_code e of
     Some c \<Rightarrow> if c = ''schema_violation'' then SchemaViolation else if c = ''key_not_authorized'' then KeyNotAuthorized
       else if c = ''invalid_input'' then InvalidInput else UnknownCode
   | None \<Rightarrow> UnknownCode)"

text \<open>\<open>strOf(v) ?? ''\<close>.\<close>

definition str_or_empty :: "json option \<Rightarrow> string" where
  "str_or_empty v = (case as_string v of Some s \<Rightarrow> s | None \<Rightarrow> [])"

definition sdkSupportsRevocations :: "audit_binding \<Rightarrow> bool" where
  "sdkSupportsRevocations B = (ab_parseKeyRevocation B \<noteq> None)"

text \<open>A result that is not JSON, or is the JSON \<open>null\<close>, throws inside the \<open>try\<close> block.\<close>

definition parseKeyRevocation :: "audit_binding \<Rightarrow> json \<Rightarrow> string \<Rightarrow> crash + (parse_code + parsed_revocation)" where
  "parseKeyRevocation B body signerFingerprint = (case ab_parseKeyRevocation B of
     None \<Rightarrow> Inl ''installed acdp SDK has no parseKeyRevocation (need >= 0.9.1)''
   | Some f \<Rightarrow>
       if signerFingerprint = [] then Inl ''parseKeyRevocation requires a non-empty signerFingerprint''
       else Inr (case f body signerFingerprint of
           Inl e \<Rightarrow> Inl (codeOf e)
         | Inr None \<Rightarrow> Inl UnknownCode
         | Inr (Some parsed) \<Rightarrow>
             (let ob = (case parsed of JObj ob \<Rightarrow> ob | _ \<Rightarrow> [])
              in case trust_class_of (get_prop ob ''trust_class'') of
                   None \<Rightarrow> Inl UnknownCode
                 | Some tc \<Rightarrow> Inr \<lparr>pv_revokedKeyFingerprint = str_or_empty (get_prop ob ''revoked_key_fingerprint''),
                     pv_compromisedSince = str_or_empty (get_prop ob ''compromised_since''), pv_reason = as_string (get_prop ob ''reason''),
                     pv_revokedKeyId = as_string (get_prop ob ''revoked_key_id''),
                     pv_revokedKeyController = str_or_empty (get_prop ob ''revoked_key_controller''),
                     pv_publisher = str_or_empty (get_prop ob ''publisher''), pv_trustClass = tc\<rparr>)))"

datatype binding_reason = BindingAuthority authority_reason | BindingServing string string | BindingCapabilities string string

definition crossCheckRegistryBinding :: "string \<Rightarrow> string \<Rightarrow> string \<Rightarrow> binding_reason + unit" where
  "crossCheckRegistryBinding publisher servingAuthority capabilitiesRegistryDid = (case authorityToDidWeb servingAuthority of
     None \<Rightarrow> Inl (BindingAuthority (nonCanonicalAuthorityReason servingAuthority))
   | Some expectedDid \<Rightarrow>
       if publisher \<noteq> expectedDid then Inl (BindingServing publisher expectedDid)
       else if publisher \<noteq> capabilitiesRegistryDid then Inl (BindingCapabilities publisher capabilitiesRegistryDid)
       else Inr ())"

section \<open>The table of facts\<close>

record context_event =
  ce_id :: string
  ce_tenantId :: string
  ce_eventType :: string
  ce_runId :: "string option"
  ce_ctxId :: "string option"
  ce_lineageId :: "string option"
  ce_agentId :: string
  ce_contextType :: "string option"
  ce_registryAuthority :: string
  ce_keyFingerprint :: "string option"
  ce_rawPayload :: jobj
  ce_createdAt :: clock

record key_revocation =
  kr_tenantId :: string
  kr_ctxId :: string
  kr_revokedKeyFingerprint :: string
  kr_compromisedSince :: clock
  kr_revokedKeyController :: string
  kr_publisher :: string
  kr_trustClass :: trust_class
  kr_revokedKeyId :: "string option"
  kr_reason :: "string option"
  kr_lineageId :: string
  kr_originAuthority :: string
  kr_contextType :: string

type_synonym lineage_cursors = "(string \<times> string \<times> string, clock) jsmap"

definition same_fact :: "key_revocation \<Rightarrow> key_revocation \<Rightarrow> bool" where
  "same_fact r input = (kr_tenantId r = kr_tenantId input \<and> kr_ctxId r = kr_ctxId input)"

definition record_fact :: "key_revocation \<Rightarrow> key_revocation list \<Rightarrow> key_revocation list" where
  "record_fact input rows = (if \<exists>r \<in> set rows. same_fact r input then rows else rows @ [input])"

definition has_fact :: "key_revocation list \<Rightarrow> context_event \<Rightarrow> bool" where
  "has_fact rows ev = (\<exists>r \<in> set rows. ce_ctxId ev = Some (kr_ctxId r) \<and> kr_tenantId r = ce_tenantId ev)"

definition findCandidates :: "clock \<Rightarrow> nat \<Rightarrow> context_event list \<Rightarrow> key_revocation list \<Rightarrow> context_event list" where
  "findCandidates since limit events rows =
     take limit (sort_key (\<lambda>ev. - ce_createdAt ev) (filter (\<lambda>ev. (case ce_contextType ev of Some t \<Rightarrow> isRevocationContextType t | None \<Rightarrow> False)
       \<and> ce_createdAt ev > since \<and> \<not> has_fact rows ev) events))"

definition findByFingerprint :: "string \<Rightarrow> string \<Rightarrow> key_revocation list \<Rightarrow> key_revocation list" where
  "findByFingerprint fingerprint tenantId rows = filter (\<lambda>r. kr_tenantId r = tenantId \<and> kr_revokedKeyFingerprint r = fingerprint) rows"

definition distinctFingerprints :: "key_revocation list \<Rightarrow> (string \<times> string) list" where
  "distinctFingerprints rows = remdups (map (\<lambda>r. (kr_tenantId r, kr_revokedKeyFingerprint r)) rows)"

definition countByLineage :: "string \<Rightarrow> string \<Rightarrow> key_revocation list \<Rightarrow> nat" where
  "countByLineage tenantId lineageId rows = length (filter (\<lambda>r. kr_tenantId r = tenantId \<and> kr_lineageId r = lineageId) rows)"

definition findFreshLineageCursor :: "clock \<Rightarrow> string \<Rightarrow> string \<Rightarrow> string \<Rightarrow> int \<Rightarrow> lineage_cursors \<Rightarrow> bool" where
  "findFreshLineageCursor us tenantId lineageId authority ttlMs cursors = (case map_of cursors (tenantId, lineageId, authority) of
     Some walkedAt \<Rightarrow> now_ms us - now_ms walkedAt < ttlMs
   | None \<Rightarrow> False)"

definition recordLineageWalk :: "clock \<Rightarrow> string \<Rightarrow> string \<Rightarrow> string \<Rightarrow> lineage_cursors \<Rightarrow> lineage_cursors" where
  "recordLineageWalk us tenantId lineageId authority cursors = AList.update (tenantId, lineageId, authority) us cursors"

definition deleteLineageCursor :: "string \<Rightarrow> string \<Rightarrow> string \<Rightarrow> lineage_cursors \<Rightarrow> lineage_cursors" where
  "deleteLineageCursor tenantId lineageId authority cursors = AList.delete (tenantId, lineageId, authority) cursors"

section \<open>The lineage walk\<close>

definition MAX_LINEAGE_WALKS :: nat where "MAX_LINEAGE_WALKS = 100"

datatype failure_class = Transient | Permanent | Hard

datatype lineage_failure = LfStatus int | LfFetch fetch_code | LfDid did_error_code

fun classifyLineageFailure :: "lineage_failure \<Rightarrow> failure_class" where
  "classifyLineageFailure (LfStatus n) = (if n = 429 \<or> n = 408 \<or> 500 \<le> n \<and> n \<le> 599 then Transient else Permanent)"
| "classifyLineageFailure (LfFetch FFETCH) = Transient"
| "classifyLineageFailure (LfFetch FBODY_TOO_LARGE) = Hard"
| "classifyLineageFailure (LfFetch c) = Permanent"
| "classifyLineageFailure (LfDid DFETCH) = Transient"
| "classifyLineageFailure (LfDid DSTATUS) = Transient"
| "classifyLineageFailure (LfDid c) = Permanent"

datatype revocation_reason =
    NoCtxId | NoRevocationBaseUrl | ContextFetchFailed | ContextHttp int | NoBodyMember | NotJson | CtxSubstituted | CtxBindingUnverifiable
  | NoContentHash | HashMismatch | OfflineSignatureInvalid | UnsupportedAlgorithm | UndecodableKey | SignatureIncomplete | NoFragment
  | KeyOfAnotherDid | SignerUnresolved | SignatureInvalid | OtherDidMethod | ParseRejected parse_code | CapabilitiesUnknown
  | NotBound binding_reason | AuditCrashed crash

datatype revocation_outcome =
    RoVerified parsed_revocation json
  | RoInvalid "trust_class option" revocation_reason
  | RoUnavailable "trust_class option" revocation_reason
  | RoUnsupported revocation_reason

text \<open>\<open>encodeURIComponent\<close>: every byte of a character outside the unreserved set is written with upper-case hexadecimal digits.\<close>

definition percent_byte :: "byte \<Rightarrow> string" where
  "percent_byte b = CHR ''%'' # map (\<lambda>c. case map_of (zip ''abcdef'' ''ABCDEF'') c of Some d \<Rightarrow> d | None \<Rightarrow> c) (hex_of_byte b)"

definition encode_uri_component :: "string \<Rightarrow> string" where
  "encode_uri_component s = concat (map (\<lambda>c. if c \<in> set (upper_letters @ lower_letters @ digits @ ''-_.!~*()'' @ [CHR 0x27]) then [c]
     else concat (map percent_byte (utf8_char c))) s)"

record lineage_params =
  lp_lineageId :: string
  lp_registryAuthority :: string
  lp_baseUrl :: string
  lp_tenantId :: string
  lp_expectCtxId :: string

record lineage_member =
  lm_ctxId :: string
  lm_contextType :: string
  lm_originAuthority :: "string option"
  lm_revocation :: parsed_revocation

record member_counts =
  mc_verified :: nat
  mc_invalid :: nat
  mc_unavailable :: nat
  mc_unsupported :: nat

definition no_verdicts :: member_counts where
  "no_verdicts = \<lparr>mc_verified = 0, mc_invalid = 0, mc_unavailable = 0, mc_unsupported = 0\<rparr>"

datatype walk_failure = WalkEmpty | WalkMissingNamedCtx | WalkFailed failure_class

type_synonym walk_outcome = "(walk_failure + lineage_member list) \<times> member_counts"

text \<open>A property read of an array or of a missing member is \<open>undefined\<close>; \<open>typeof\<close> an array is \<open>object\<close>.\<close>

definition props_of :: "json \<Rightarrow> jobj" where
  "props_of v = (case v of JObj ob \<Rightarrow> ob | _ \<Rightarrow> [])"

definition object_member :: "json option \<Rightarrow> json option" where
  "object_member v = (case v of Some (JObj ob) \<Rightarrow> Some (JObj ob) | Some (JArr xs) \<Rightarrow> Some (JArr xs) | _ \<Rightarrow> None)"

definition raw_members :: "json list \<Rightarrow> json list" where
  "raw_members raw = List.map_filter (\<lambda>item. object_member (get_prop (props_of item) ''body'')) raw"

definition member_ctx :: "json \<Rightarrow> string option" where
  "member_ctx body = as_string (get_prop (props_of body) ''ctx_id'')"

definition member_type :: "json \<Rightarrow> string option" where
  "member_type body = as_string (get_prop (props_of body) ''type'')"

text \<open>A member takes part when its type is a revocation type and it has a non-empty \<open>ctx_id\<close>.\<close>

definition revocation_member :: "json \<Rightarrow> bool" where
  "revocation_member body = ((case member_type body of Some t \<Rightarrow> isRevocationContextType t | None \<Rightarrow> False)
     \<and> (case member_ctx body of Some c \<Rightarrow> c \<noteq> [] | None \<Rightarrow> False))"

fun walk_members :: "(json \<Rightarrow> crash + revocation_outcome) \<Rightarrow> member_counts \<Rightarrow> lineage_member list \<Rightarrow> json list \<Rightarrow> crash + walk_outcome" where
  "walk_members verify counts members [] = Inr (Inr members, counts)"
| "walk_members verify counts members (body # bodies) =
     (if \<not> revocation_member body then walk_members verify counts members bodies
      else (case verify body of
          Inl crashed \<Rightarrow> Inl crashed
        | Inr (RoUnavailable tc r) \<Rightarrow> Inr (Inl (WalkFailed Transient), counts\<lparr>mc_unavailable := Suc (mc_unavailable counts)\<rparr>)
        | Inr (RoInvalid tc r) \<Rightarrow> walk_members verify (counts\<lparr>mc_invalid := Suc (mc_invalid counts)\<rparr>) members bodies
        | Inr (RoUnsupported r) \<Rightarrow> walk_members verify (counts\<lparr>mc_unsupported := Suc (mc_unsupported counts)\<rparr>) members bodies
        | Inr (RoVerified rv b) \<Rightarrow> walk_members verify (counts\<lparr>mc_verified := Suc (mc_verified counts)\<rparr>)
            (members @ [\<lparr>lm_ctxId = the (member_ctx body), lm_contextType = the (member_type body),
               lm_originAuthority = as_string (get_prop (props_of body) ''origin_registry''), lm_revocation = rv\<rparr>]) bodies))"

definition walkRevocationLineage ::
    "federation_env \<Rightarrow> (json \<Rightarrow> crash + revocation_outcome) \<Rightarrow> lineage_params \<Rightarrow> crash + walk_outcome" where
  "walkRevocationLineage F verify params =
     (case fst (federation_get F (strip_slash (lp_baseUrl params) @ ''/lineages/'' @ encode_uri_component (lp_lineageId params))) of
        Inl (FederationFetchError c) \<Rightarrow> Inr (Inl (WalkFailed (classifyLineageFailure (LfFetch c))), no_verdicts)
      | Inl (UpstreamRateLimited e) \<Rightarrow> Inr (Inl (WalkFailed Transient), no_verdicts)
      | Inr resp \<Rightarrow>
          if fr_status resp < 200 \<or> fr_status resp \<ge> 300
          then Inr (Inl (WalkFailed (classifyLineageFailure (LfStatus (fr_status resp)))), no_verdicts)
          else (case fe_json F (fr_body resp) of
              Some (JArr raw) \<Rightarrow>
                if raw = [] then Inr (Inl WalkEmpty, no_verdicts)
                else if \<not> (\<exists>b \<in> set (raw_members raw). member_ctx b = Some (lp_expectCtxId params))
                then Inr (Inl WalkMissingNamedCtx, no_verdicts)
                else walk_members verify no_verdicts [] (raw_members raw)
            | _ \<Rightarrow> Inr (Inl (WalkFailed Permanent), no_verdicts)))"

end
