(* ===== verification/ReceiptAudit.thy ===== *)
theory ReceiptAudit
  imports KeyRevocation "HOL-Library.List_Lexorder" "HOL-Library.Char_ord"
begin

text \<open>
  The receipt audit (\<open>src/src/audit/receipt-audit.service.ts\<close>) and its table (\<open>src/src/storage/receipt-audit.repository.ts\<close>): the
  audit of a publish event, its classification under the revocation facts, the sweep and the re-audit of sealed verdicts.

  What a pass asks of other components is the record \<open>audit_env\<close>. Flags and notes are constructors instead of their texts.
  \<open>Date.parse\<close> and the parser of a \<open>timestamptz\<close> column are fields, because both accept more than the canonical form; a text the
  column rejects makes the statement throw. Log lines and metrics are not modelled; the other statements succeed.
\<close>

section \<open>Classification under revocation facts\<close>

datatype revoked_kind = PreCompromise | RevokedAtOrAfter | RevokedTimeUnverifiable

datatype kr_class = Unrevoked | Revoked revoked_kind string trust_class "(string \<times> string) list"

definition sdkSupportsRevocationClassification :: "audit_binding \<Rightarrow> bool" where
  "sdkSupportsRevocationClassification B = (ab_classify B \<noteq> None)"

definition iso_instant :: "clock \<Rightarrow> string" where
  "iso_instant us = toISOString (now_ms us)"

definition opt_string :: "string option \<Rightarrow> json" where
  "opt_string s = (case s of Some x \<Rightarrow> JStr x | None \<Rightarrow> JNull)"

definition toRevocationJson :: "key_revocation \<Rightarrow> json" where
  "toRevocationJson r = JObj [(''revoked_key_fingerprint'', JStr (kr_revokedKeyFingerprint r)),
     (''compromised_since'', JStr (iso_instant (kr_compromisedSince r))), (''reason'', opt_string (kr_reason r)),
     (''revoked_key_id'', opt_string (kr_revokedKeyId r)), (''revoked_key_controller'', JStr (kr_revokedKeyController r)),
     (''publisher'', JStr (kr_publisher r)), (''trust_class'', JStr (trust_class_string (kr_trustClass r)))]"

definition boundary_winners :: "key_revocation list \<Rightarrow> string \<Rightarrow> key_revocation list" where
  "boundary_winners revocations boundary =
     (let atBoundary = filter (\<lambda>r. iso_instant (kr_compromisedSince r) = boundary) revocations
      in if atBoundary \<noteq> [] then atBoundary else revocations)"

definition winning_class :: "key_revocation list \<Rightarrow> trust_class" where
  "winning_class winners =
     (if \<exists>r \<in> set winners. kr_trustClass r = ProducerSigned then ProducerSigned
      else (case winners of w # ws \<Rightarrow> kr_trustClass w | [] \<Rightarrow> ProducerSigned))"

text \<open>The classification itself; \<open>created\<close> is the time of a verified receipt in milliseconds.\<close>

definition classifyKeyRevocation :: "audit_binding \<Rightarrow> key_revocation list \<Rightarrow> string \<Rightarrow> int option \<Rightarrow> crash + kr_class" where
  "classifyKeyRevocation B revocations fingerprint created =
     (if revocations = [] then Inr Unrevoked
      else (case ab_classify B of
          None \<Rightarrow> Inr Unrevoked
        | Some f \<Rightarrow> (case f (map toRevocationJson revocations) fingerprint (map_option toISOString created) of
            Inl e \<Rightarrow> Inl (sx_message e)
          | Inr None \<Rightarrow> Inl ''Unexpected token''
          | Inr (Some JNull) \<Rightarrow> Inl ''Cannot read properties of null''
          | Inr (Some parsed) \<Rightarrow> (case get_prop (props_of parsed) ''boundary'' of
              Some (JStr boundary) \<Rightarrow>
                Inr (Revoked
                  (if get_prop (props_of parsed) ''authorization'' = Some (JStr ''historically_authorized_pre_compromise'') then PreCompromise
                   else if created = None then RevokedTimeUnverifiable else RevokedAtOrAfter)
                  boundary (winning_class (boundary_winners revocations boundary))
                  (map (\<lambda>r. (kr_ctxId r, kr_publisher r)) revocations))
            | _ \<Rightarrow> Inr Unrevoked))))"

record audit_env =
  au_now :: clock
  au_binding :: audit_binding
  au_fed :: federation_env
  au_findByAuthority :: "string \<Rightarrow> string \<Rightarrow> string option"
  au_profile :: "string \<Rightarrow> string \<Rightarrow> profile_entry"
  au_resolveKey :: "string \<Rightarrow> string \<Rightarrow> did_error_code + resolved_key"
  au_resolveReceiptKey :: "string \<Rightarrow> string \<Rightarrow> did_error_code + resolved_receipt_key"
  au_dateParse :: "string \<Rightarrow> int option"
  au_pgTime :: "string \<Rightarrow> clock option"
  au_checkEnabled :: bool
  au_attestedScope :: string
  au_ignoreFingerprints :: "string list"
  au_batchSize :: nat
  au_receiptLookbackHours :: int
  au_revocationLookbackHours :: int
  au_lineageCursorTtlHours :: int

definition filterApplicableRevocations :: "audit_env \<Rightarrow> key_revocation list \<Rightarrow> string \<Rightarrow> key_revocation list" where
  "filterApplicableRevocations env rows registryAuthority = filter (\<lambda>r.
     kr_trustClass r = ProducerSigned
     \<or> (if au_attestedScope env = ''off'' then False
        else if au_attestedScope env = ''global'' then True
        else authorityToDidWeb registryAuthority = Some (kr_publisher r))) rows"

definition classifyRevocationForEvent ::
    "audit_env \<Rightarrow> key_revocation list \<Rightarrow> context_event \<Rightarrow> string \<Rightarrow> int option \<Rightarrow> crash + kr_class" where
  "classifyRevocationForEvent env facts ev fingerprint created =
     (let found = findByFingerprint fingerprint (ce_tenantId ev) facts
      in if found = [] then Inr Unrevoked
         else if fingerprint \<in> set (au_ignoreFingerprints env) then Inr Unrevoked
         else classifyKeyRevocation (au_binding env) (filterApplicableRevocations env found (ce_registryAuthority ev)) fingerprint created)"

section \<open>Verdicts\<close>

datatype audit_status = AVerified | AVerifiedHistorical | AStructural | ADiscrepancy | ANoReceipt | AError

datatype discrepancy =
    MissingReceipt | CtxIdMismatch "string option" string | LineageIdMismatch string string | KeyFingerprintMismatch string string
  | OriginRegistryMismatch "string option" string | RegistryDidMismatch "string option" string | CreatedAfterObservation
  | ContentHashMismatch string "string option" | BodySignatureInvalid string | ReceiptKeyMissing | ReceiptKeyForeignDid string string
  | ReceiptInvalid string
  | NoteAuthority authority_reason | NoteNoCtxId | NoteCtxId string | NoteNoBaseUrl | NoteHttp int
  | NoteNoBody | NoteFetch | NoteNoContentHash | NoteReceiptAlg string | NoteReceiptKey
  | NoteBody string | NoteCtxRejected string | NoteNoKeyId | NoteProducerAlg string | NoteProducerKey
  | NoteCrash crash

record base_verdict =
  bv_status :: audit_status
  bv_discrepancies :: "discrepancy list"
  bv_receiptCreatedAt :: "string option"
  bv_skewMs :: "int option"

record verdict = base_verdict +
  vd_class :: kr_class

definition with_class :: "base_verdict \<Rightarrow> kr_class \<Rightarrow> verdict" where
  "with_class b c = \<lparr>bv_status = bv_status b, bv_discrepancies = bv_discrepancies b, bv_receiptCreatedAt = bv_receiptCreatedAt b,
     bv_skewMs = bv_skewMs b, vd_class = c\<rparr>"

definition fully_verified :: "audit_status \<Rightarrow> bool" where
  "fully_verified s = (s = AVerified \<or> s = AVerifiedHistorical)"

definition withRevocationClassification ::
    "audit_env \<Rightarrow> key_revocation list \<Rightarrow> context_event \<Rightarrow> base_verdict \<Rightarrow> string option \<Rightarrow> crash + verdict" where
  "withRevocationClassification env facts ev b producerFp =
     (if \<not> au_checkEnabled env then Inr (with_class b Unrevoked)
      else (case (case producerFp of Some fp \<Rightarrow> Some fp | None \<Rightarrow> ce_keyFingerprint ev) of
          None \<Rightarrow> Inr (with_class b Unrevoked)
        | Some fp \<Rightarrow>
            if fp = [] then Inr (with_class b Unrevoked)
            else and_then (classifyRevocationForEvent env facts ev fp
                   (if fully_verified (bv_status b) then Option.bind (bv_receiptCreatedAt b) (au_dateParse env) else None))
                 (\<lambda>c. Inr (with_class b c))))"

section \<open>The audit of one event\<close>

record crypto_outcome =
  co_ran :: bool
  co_historical :: bool
  co_producerFp :: "string option"

definition not_run :: "string option \<Rightarrow> crypto_outcome" where
  "not_run fp = \<lparr>co_ran = False, co_historical = False, co_producerFp = fp\<rparr>"

text \<open>A step returns its result with the flags and the notes it appends.\<close>

type_synonym 'a noted = "'a \<times> discrepancy list \<times> discrepancy list"

definition sig_member :: "jobj \<Rightarrow> string \<Rightarrow> string option" where
  "sig_member ob k = (case object_member (get_prop ob ''signature'') of
     Some s \<Rightarrow> as_string (get_prop (props_of s) k)
   | None \<Rightarrow> None)"

definition resolveProducerFingerprint :: "audit_env \<Rightarrow> context_event \<Rightarrow> json \<Rightarrow> jobj \<Rightarrow> string option noted" where
  "resolveProducerFingerprint env ev body receipt =
     (let claimedFp = str_or_empty (get_prop receipt ''key_fingerprint'');
          keyId = sig_member (props_of body) ''key_id'';
          algorithm = (case sig_member (props_of body) ''algorithm'' of Some a \<Rightarrow> a | None \<Rightarrow> ''ed25519'')
      in if starts_with ''did:key:'' (ce_agentId ev)
         then (case verifyBodyOffline (au_binding env) body of
             Inl reason \<Rightarrow> (None, [BodySignatureInvalid reason], [])
           | Inr _ \<Rightarrow> (Some claimedFp, [], []))
         else (case keyId of
             None \<Rightarrow> (None, [], [NoteNoKeyId])
           | Some k \<Rightarrow>
               if k = [] then (None, [], [NoteNoKeyId])
               else if algorithm \<noteq> ''ed25519'' then (Some claimedFp, [], [NoteProducerAlg algorithm])
               else (case au_resolveKey env k ''ed25519'' of
                   Inl e \<Rightarrow> (None, [], [NoteProducerKey])
                 | Inr key \<Rightarrow> (case fingerprintEd25519B64 (au_binding env) (rk_publicKeyB64 key) of
                     Inl e \<Rightarrow> (None, [], [NoteProducerKey])
                   | Inr fp \<Rightarrow> (Some fp, [], [])))))"

text \<open>The registry's key and the receipt itself, once the producer's fingerprint is known.\<close>

definition verify_with_registry_key ::
    "audit_env \<Rightarrow> context_event \<Rightarrow> string \<Rightarrow> jobj \<Rightarrow> json \<Rightarrow> string \<Rightarrow> string \<Rightarrow> crash + crypto_outcome noted" where
  "verify_with_registry_key env ev ctxId receipt body echoedHash producerFp =
     (let notRun = not_run (Some producerFp)
      in case sig_member receipt ''key_id'' of
           None \<Rightarrow> Inr (notRun, [ReceiptKeyMissing], [])
         | Some keyId \<Rightarrow>
             if keyId = [] then Inr (notRun, [ReceiptKeyMissing], [])
             else if (case sig_member receipt ''algorithm'' of Some a \<Rightarrow> a \<noteq> [] \<and> a \<noteq> ''ed25519'' | None \<Rightarrow> False)
             then Inr (notRun, [], [NoteReceiptAlg (the (sig_member receipt ''algorithm''))])
             else (case authorityToDidWeb (ce_registryAuthority ev) of
                 None \<Rightarrow> Inr (notRun, [], [NoteAuthority (nonCanonicalAuthorityReason (ce_registryAuthority ev))])
               | Some expectedDid \<Rightarrow>
                   if ab_stripFragment (au_binding env) keyId \<noteq> expectedDid then Inr (notRun, [ReceiptKeyForeignDid keyId expectedDid], [])
                   else (case au_resolveReceiptKey env keyId ''ed25519'' of
                       Inl e \<Rightarrow> Inr (notRun, [], [NoteReceiptKey])
                     | Inr resolved \<Rightarrow>
                         and_then (verifyReceipt (au_binding env) (JObj receipt) body (rk_publicKeyB64 (rr_key resolved)) ctxId echoedHash producerFp)
                           (\<lambda>r. Inr (case r of
                              Inl (MalformedBody, reason) \<Rightarrow> (notRun, [], [NoteBody reason])
                            | Inl (CtxIdRejected, reason) \<Rightarrow> (notRun, [], [NoteCtxRejected reason])
                            | Inl (ReceiptDishonest, reason) \<Rightarrow> (notRun, [ReceiptInvalid reason], [])
                            | Inr _ \<Rightarrow> (\<lparr>co_ran = True, co_historical = rr_historical resolved, co_producerFp = Some producerFp\<rparr>, [], []))))))"

text \<open>The context the registry serves for the event, or the note that says why there is none.\<close>

definition fetch_context :: "audit_env \<Rightarrow> string \<Rightarrow> string \<Rightarrow> discrepancy + json" where
  "fetch_context env baseUrl ctxId =
     (case fst (federation_get (au_fed env) (strip_slash baseUrl @ ''/contexts/'' @ encode_uri_component ctxId)) of
        Inl e \<Rightarrow> Inl NoteFetch
      | Inr resp \<Rightarrow>
          if fr_status resp < 200 \<or> fr_status resp \<ge> 300 then Inl (NoteHttp (fr_status resp))
          else (case fe_json (au_fed env) (fr_body resp) of
              None \<Rightarrow> Inl NoteFetch
            | Some JNull \<Rightarrow> Inl NoteFetch
            | Some full \<Rightarrow> (case object_member (get_prop (props_of full) ''body'') of
                None \<Rightarrow> Inl NoteNoBody
              | Some body \<Rightarrow> Inr body)))"

definition verifyCryptographically :: "audit_env \<Rightarrow> context_event \<Rightarrow> jobj \<Rightarrow> crash + crypto_outcome noted" where
  "verifyCryptographically env ev receipt =
     (let B = au_binding env
      in if \<not> sdkSupportsReceipts B then Inr (not_run None, [], [])
         else (case ce_ctxId ev of
             None \<Rightarrow> Inr (not_run None, [], [NoteNoCtxId])
           | Some ctxId \<Rightarrow>
               if ctxId = [] then Inr (not_run None, [], [NoteNoCtxId])
               else if \<not> isCanonicalCtxId ctxId then Inr (not_run None, [], [NoteCtxId ctxId])
               else (case au_findByAuthority env (ce_registryAuthority ev) (ce_tenantId ev) of
                   None \<Rightarrow> Inr (not_run None, [], [NoteNoBaseUrl])
                 | Some baseUrl \<Rightarrow>
                     if baseUrl = [] then Inr (not_run None, [], [NoteNoBaseUrl])
                     else (case fetch_context env baseUrl ctxId of
                         Inl note \<Rightarrow> Inr (not_run None, [], [note])
                       | Inr body \<Rightarrow> (case as_string (get_prop (props_of body) ''content_hash'') of
                           None \<Rightarrow> Inr (not_run None, [], [NoteNoContentHash])
                         | Some echoedHash \<Rightarrow>
                             if echoedHash = [] then Inr (not_run None, [], [NoteNoContentHash])
                             else (case verifyContentHash B body echoedHash of
                                 Inl reason \<Rightarrow> Inr (not_run None, [ContentHashMismatch reason
                                   (case explainHashMismatch B body echoedHash of Some d \<Rightarrow> if d = [] then None else Some (take 300 d) | None \<Rightarrow> None)], [])
                               | Inr _ \<Rightarrow> (case resolveProducerFingerprint env ev body receipt of
                                   (None, flags, notes) \<Rightarrow> Inr (not_run None, flags, notes)
                                 | (Some fp, flags, notes) \<Rightarrow>
                                     and_then (verify_with_registry_key env ev ctxId receipt body echoedHash fp)
                                       (\<lambda>(c, flags', notes'). Inr (c, flags @ flags', notes @ notes')))))))))"

definition CLOCK_SKEW_TOLERANCE_MS :: int where "CLOCK_SKEW_TOLERANCE_MS = 5 * 60 * 1000"

definition claimed_ms :: "audit_env \<Rightarrow> string option \<Rightarrow> int option" where
  "claimed_ms env created = (case created of Some s \<Rightarrow> if s = [] then None else au_dateParse env s | None \<Rightarrow> None)"

definition nonempty :: "string option \<Rightarrow> bool" where
  "nonempty s = (case s of Some x \<Rightarrow> x \<noteq> [] | None \<Rightarrow> False)"

definition structural_flags :: "audit_env \<Rightarrow> context_event \<Rightarrow> jobj \<Rightarrow> discrepancy list" where
  "structural_flags env ev receipt =
     (let r = (\<lambda>k. as_string (get_prop receipt k)); authority = ce_registryAuthority ev
      in (if nonempty (ce_ctxId ev) \<and> r ''ctx_id'' \<noteq> ce_ctxId ev then [CtxIdMismatch (r ''ctx_id'') (the (ce_ctxId ev))] else [])
       @ (if nonempty (ce_lineageId ev) \<and> nonempty (r ''lineage_id'') \<and> r ''lineage_id'' \<noteq> ce_lineageId ev
          then [LineageIdMismatch (the (r ''lineage_id'')) (the (ce_lineageId ev))] else [])
       @ (if nonempty (ce_keyFingerprint ev) \<and> nonempty (r ''key_fingerprint'') \<and> r ''key_fingerprint'' \<noteq> ce_keyFingerprint ev
          then [KeyFingerprintMismatch (the (r ''key_fingerprint'')) (the (ce_keyFingerprint ev))] else [])
       @ (if r ''origin_registry'' \<noteq> Some authority then [OriginRegistryMismatch (r ''origin_registry'') authority] else [])
       @ (case authorityToDidWeb authority of
            Some did \<Rightarrow> if r ''registry_did'' \<noteq> Some did then [RegistryDidMismatch (r ''registry_did'') did] else []
          | None \<Rightarrow> [])
       @ (case claimed_ms env (r ''created_at'') of
            Some claimed \<Rightarrow> if now_ms (ce_createdAt ev) - claimed < - CLOCK_SKEW_TOLERANCE_MS then [CreatedAfterObservation] else []
          | None \<Rightarrow> []))"

definition structural_notes :: "context_event \<Rightarrow> discrepancy list" where
  "structural_notes ev = (case authorityToDidWeb (ce_registryAuthority ev) of
     None \<Rightarrow> [NoteAuthority (nonCanonicalAuthorityReason (ce_registryAuthority ev))]
   | Some did \<Rightarrow> [])"

definition verdict_status :: "discrepancy list \<Rightarrow> discrepancy list \<Rightarrow> crypto_outcome \<Rightarrow> audit_status" where
  "verdict_status flags notes c =
     (if flags \<noteq> [] then ADiscrepancy else if notes \<noteq> [] then AError
      else if co_ran c then (if co_historical c then AVerifiedHistorical else AVerified) else AStructural)"

definition auditEventInner :: "audit_env \<Rightarrow> key_revocation list \<Rightarrow> context_event \<Rightarrow> crash + verdict" where
  "auditEventInner env facts ev = (case object_member (get_prop (ce_rawPayload ev) ''registry_receipt'') of
     None \<Rightarrow>
       withRevocationClassification env facts ev
         (if pf_profiles (au_profile env (ce_registryAuthority ev) (ce_tenantId ev)) \<noteq> None
             \<and> RECEIPTS_PROFILE \<in> set (the (pf_profiles (au_profile env (ce_registryAuthority ev) (ce_tenantId ev))))
          then \<lparr>bv_status = ADiscrepancy, bv_discrepancies = [MissingReceipt], bv_receiptCreatedAt = None, bv_skewMs = None\<rparr>
          else \<lparr>bv_status = ANoReceipt, bv_discrepancies = [], bv_receiptCreatedAt = None, bv_skewMs = None\<rparr>) None
   | Some receiptValue \<Rightarrow>
       (let receipt = props_of receiptValue;
            created = as_string (get_prop receipt ''created_at'')
        in and_then (verifyCryptographically env ev receipt) (\<lambda>(c, flags', notes').
             let flags = structural_flags env ev receipt @ flags'; notes = structural_notes ev @ notes'
             in withRevocationClassification env facts ev
                  \<lparr>bv_status = verdict_status flags notes c, bv_discrepancies = flags @ notes,
                   bv_receiptCreatedAt = (if claimed_ms env created \<noteq> None then created else None),
                   bv_skewMs = map_option (\<lambda>claimed. now_ms (ce_createdAt ev) - claimed) (claimed_ms env created)\<rparr>
                  (co_producerFp c))))"

definition auditEvent :: "audit_env \<Rightarrow> key_revocation list \<Rightarrow> context_event \<Rightarrow> verdict" where
  "auditEvent env facts ev = (case auditEventInner env facts ev of
     Inl e \<Rightarrow> \<lparr>bv_status = AError, bv_discrepancies = [NoteCrash e], bv_receiptCreatedAt = None, bv_skewMs = None, vd_class = Unrevoked\<rparr>
   | Inr v \<Rightarrow> v)"

section \<open>The table of verdicts\<close>

record audit_row =
  ra_eventId :: string
  ra_tenantId :: string
  ra_runId :: "string option"
  ra_ctxId :: "string option"
  ra_registryAuthority :: string
  ra_status :: audit_status
  ra_discrepancies :: "discrepancy list"
  ra_receiptCreatedAt :: "clock option"
  ra_eventArrivedAt :: clock
  ra_skewMs :: "int option"
  ra_checkedAt :: clock
  ra_keyRevocationStatus :: "revoked_kind option"
  ra_keyRevocationTrustClass :: "trust_class option"
  ra_compromiseBoundary :: "clock option"
  ra_keyRevocationSources :: "(string \<times> string) list"

text \<open>\<open>toRow\<close> and the conversion of its two timestamps by the columns; a text a column rejects makes the insert throw.\<close>

definition column_time :: "audit_env \<Rightarrow> string option \<Rightarrow> crash + clock option" where
  "column_time env t = (case t of
     None \<Rightarrow> Inr None
   | Some s \<Rightarrow> (case au_pgTime env s of Some us \<Rightarrow> Inr (Some us) | None \<Rightarrow> Inl ''invalid input syntax for type timestamp with time zone''))"

definition toRow :: "audit_env \<Rightarrow> context_event \<Rightarrow> verdict \<Rightarrow> crash + audit_row" where
  "toRow env ev v =
     and_then (column_time env (bv_receiptCreatedAt v)) (\<lambda>created.
     and_then (column_time env (case vd_class v of Revoked k b tc src \<Rightarrow> Some b | Unrevoked \<Rightarrow> None)) (\<lambda>boundary.
     Inr \<lparr>ra_eventId = ce_id ev, ra_tenantId = ce_tenantId ev, ra_runId = ce_runId ev, ra_ctxId = ce_ctxId ev,
       ra_registryAuthority = ce_registryAuthority ev, ra_status = bv_status v, ra_discrepancies = bv_discrepancies v,
       ra_receiptCreatedAt = created, ra_eventArrivedAt = ce_createdAt ev, ra_skewMs = bv_skewMs v, ra_checkedAt = au_now env,
       ra_keyRevocationStatus = (case vd_class v of Revoked k b tc src \<Rightarrow> Some k | Unrevoked \<Rightarrow> None),
       ra_keyRevocationTrustClass = (case vd_class v of Revoked k b tc src \<Rightarrow> Some tc | Unrevoked \<Rightarrow> None),
       ra_compromiseBoundary = boundary,
       ra_keyRevocationSources = (case vd_class v of Revoked k b tc src \<Rightarrow> src | Unrevoked \<Rightarrow> [])\<rparr>))"

definition record_audit :: "audit_row \<Rightarrow> audit_row list \<Rightarrow> audit_row list" where
  "record_audit input rows = (if \<exists>r \<in> set rows. ra_eventId r = ra_eventId input then rows else rows @ [input])"

definition findUnauditedPublishes :: "clock \<Rightarrow> nat \<Rightarrow> context_event list \<Rightarrow> audit_row list \<Rightarrow> context_event list" where
  "findUnauditedPublishes since limit events rows =
     take limit (sort_key ce_createdAt (filter (\<lambda>ev. ce_eventType ev = ''context_published'' \<and> ce_createdAt ev > since
       \<and> \<not> (\<exists>r \<in> set rows. ra_eventId r = ce_id ev)) events))"

definition receipt_deleteBefore :: "clock \<Rightarrow> audit_row list \<Rightarrow> audit_row list" where
  "receipt_deleteBefore cutoff rows = filter (\<lambda>r. \<not> ra_checkedAt r < cutoff) rows"

record run_trust_summary =
  ts_audited :: nat
  ts_verified :: nat
  ts_verifiedHistorical :: nat
  ts_structural :: nat
  ts_noReceipt :: nat
  ts_errors :: nat
  ts_flagged :: "(string \<times> string option \<times> discrepancy list) list"
  ts_preCompromise :: nat
  ts_revokedAtOrAfter :: nat
  ts_revokedTimeUnverifiable :: nat
  ts_revoked :: "(string \<times> string option \<times> revoked_kind \<times> clock option \<times> trust_class option \<times> (string \<times> string) list) list"

definition summarizeByRun :: "string \<Rightarrow> string \<Rightarrow> audit_row list \<Rightarrow> run_trust_summary option" where
  "summarizeByRun runId tenantId table =
     (let rows = take 500 (sort_key ra_checkedAt (filter (\<lambda>r. ra_runId r = Some runId \<and> ra_tenantId r = tenantId) table));
          byStatus = (\<lambda>s. length (filter (\<lambda>r. ra_status r = s) rows));
          byRevocation = (\<lambda>k. length (filter (\<lambda>r. ra_keyRevocationStatus r = Some k) rows))
      in if rows = [] then None
         else Some \<lparr>ts_audited = length rows, ts_verified = byStatus AVerified, ts_verifiedHistorical = byStatus AVerifiedHistorical,
           ts_structural = byStatus AStructural, ts_noReceipt = byStatus ANoReceipt, ts_errors = byStatus AError,
           ts_flagged = map (\<lambda>r. (ra_eventId r, ra_ctxId r, ra_discrepancies r)) (filter (\<lambda>r. ra_status r = ADiscrepancy) rows),
           ts_preCompromise = byRevocation PreCompromise, ts_revokedAtOrAfter = byRevocation RevokedAtOrAfter,
           ts_revokedTimeUnverifiable = byRevocation RevokedTimeUnverifiable,
           ts_revoked = map (\<lambda>r. (ra_eventId r, ra_ctxId r, the (ra_keyRevocationStatus r), ra_compromiseBoundary r,
               ra_keyRevocationTrustClass r, ra_keyRevocationSources r)) (filter (\<lambda>r. ra_keyRevocationStatus r \<noteq> None) rows)\<rparr>)"

text \<open>A comparison with a missing boundary is unknown, which a \<open>WHERE\<close> clause treats as false.\<close>

definition boundary_after :: "audit_row \<Rightarrow> clock \<Rightarrow> bool" where
  "boundary_after r us = (case ra_compromiseBoundary r of Some b \<Rightarrow> b > us | None \<Rightarrow> False)"

text \<open>The rows in the order \<open>random()\<close> gives them, which is the argument \<open>shuffle\<close>, joined with their events.\<close>

definition findRevocationAmendmentCandidates ::
    "((audit_row \<times> string) list \<Rightarrow> (audit_row \<times> string) list) \<Rightarrow> string \<Rightarrow> string \<Rightarrow> clock option \<Rightarrow> nat \<Rightarrow> context_event list \<Rightarrow> audit_row list
     \<Rightarrow> (audit_row \<times> string) list" where
  "findRevocationAmendmentCandidates shuffle tenantId fingerprint globalMin limit events rows =
     take limit (shuffle (concat (map (\<lambda>r. map (\<lambda>ev. (r, ce_registryAuthority ev))
       (filter (\<lambda>ev. ce_id ev = ra_eventId r \<and> ce_tenantId ev = tenantId \<and> ce_keyFingerprint ev = Some fingerprint) events))
       (filter (\<lambda>r. ra_tenantId r = tenantId
          \<and> (ra_keyRevocationStatus r = None \<or> (case globalMin of Some m \<Rightarrow> boundary_after r m | None \<Rightarrow> False))) rows))))"

definition amend_row :: "revoked_kind \<Rightarrow> trust_class \<Rightarrow> clock \<Rightarrow> (string \<times> string) list \<Rightarrow> audit_row \<Rightarrow> audit_row" where
  "amend_row k tc boundary sources r = r\<lparr>ra_keyRevocationStatus := Some k, ra_keyRevocationTrustClass := Some tc,
     ra_compromiseBoundary := Some boundary, ra_keyRevocationSources := sources\<rparr>"

definition amendKeyRevocation ::
    "string \<Rightarrow> string \<Rightarrow> revoked_kind \<Rightarrow> trust_class \<Rightarrow> clock \<Rightarrow> (string \<times> string) list \<Rightarrow> audit_row list \<Rightarrow> audit_row list" where
  "amendKeyRevocation tenantId eventId k tc boundary sources rows = map (\<lambda>r.
     if ra_eventId r = eventId \<and> ra_tenantId r = tenantId \<and> (ra_keyRevocationStatus r = None \<or> boundary_after r boundary)
     then amend_row k tc boundary sources r else r) rows"

section \<open>The sweep and the re-audit\<close>

fun audit_loop :: "audit_env \<Rightarrow> key_revocation list \<Rightarrow> context_event list \<Rightarrow> audit_row list \<Rightarrow> crash option \<times> audit_row list" where
  "audit_loop env facts [] rows = (None, rows)"
| "audit_loop env facts (ev # evs) rows = (case toRow env ev (auditEvent env facts ev) of
     Inl e \<Rightarrow> (Some e, rows)
   | Inr row \<Rightarrow> audit_loop env facts evs (record_audit row rows))"

definition receipt_sweep :: "audit_env \<Rightarrow> bool \<Rightarrow> context_event list \<Rightarrow> key_revocation list \<Rightarrow> audit_row list \<Rightarrow> crash option \<times> audit_row list" where
  "receipt_sweep env acquired events facts rows =
     (if \<not> acquired then (None, rows)
      else audit_loop env facts
        (findUnauditedPublishes ((now_ms (au_now env) - au_receiptLookbackHours env * 60 * 60 * 1000) * 1000) (au_batchSize env) events rows) rows)"

text \<open>A row that throws is skipped.\<close>

fun reaudit_loop :: "audit_env \<Rightarrow> key_revocation list \<Rightarrow> string \<Rightarrow> string \<Rightarrow> (audit_row \<times> string) list \<Rightarrow> audit_row list \<Rightarrow> audit_row list" where
  "reaudit_loop env found tenantId fingerprint [] rows = rows"
| "reaudit_loop env found tenantId fingerprint ((r, authority) # cs) rows =
     (let created = (if fully_verified (ra_status r) then map_option now_ms (ra_receiptCreatedAt r) else None)
      in case classifyKeyRevocation (au_binding env) (filterApplicableRevocations env found authority) fingerprint created of
           Inr (Revoked k boundary tc sources) \<Rightarrow> (case au_pgTime env boundary of
               Some b \<Rightarrow> reaudit_loop env found tenantId fingerprint cs (amendKeyRevocation tenantId (ra_eventId r) k tc b sources rows)
             | None \<Rightarrow> reaudit_loop env found tenantId fingerprint cs rows)
         | _ \<Rightarrow> reaudit_loop env found tenantId fingerprint cs rows)"

text \<open>The least ISO text of the boundaries, by \<open>reduce\<close>.\<close>

definition least_iso :: "key_revocation list \<Rightarrow> string" where
  "least_iso found = (case map (\<lambda>r. iso_instant (kr_compromisedSince r)) found of
     [] \<Rightarrow> [] | x # xs \<Rightarrow> foldl (\<lambda>m iso. if iso < m then iso else m) x xs)"

definition reauditForFingerprint ::
    "audit_env \<Rightarrow> ((audit_row \<times> string) list \<Rightarrow> (audit_row \<times> string) list) \<Rightarrow> string \<Rightarrow> string \<Rightarrow> context_event list \<Rightarrow> key_revocation list \<Rightarrow> audit_row list
     \<Rightarrow> audit_row list" where
  "reauditForFingerprint env shuffle tenantId fingerprint events facts rows =
     (let found = findByFingerprint fingerprint tenantId facts
      in if \<not> au_checkEnabled env \<or> \<not> sdkSupportsRevocationClassification (au_binding env) \<or> fingerprint \<in> set (au_ignoreFingerprints env)
            \<or> found = [] then rows
         else (case au_pgTime env (least_iso found) of
             None \<Rightarrow> rows
           | Some m \<Rightarrow> reaudit_loop env found tenantId fingerprint
               (findRevocationAmendmentCandidates shuffle tenantId fingerprint (Some m) (au_batchSize env) events rows) rows))"

end
