(* ===== verification/RevocationAudit.thy ===== *)
theory RevocationAudit
  imports ReceiptAudit
begin

text \<open>
  The key-revocation sweep (\<open>src/src/audit/revocation-audit.service.ts\<close>): candidates are fetched and verified, verified facts are recorded,
  their lineages are walked, and sealed verdicts are re-audited.

  The environment is that of the receipt audit. The state is the record \<open>audit_db\<close>. An exception that leaves the sweep is \<open>Some\<close> of its
  message next to the state at that moment; timers, metrics and log lines are not modelled.
\<close>

section \<open>Verification of a body\<close>

fun toStatus :: "failure_class \<Rightarrow> revocation_reason \<Rightarrow> revocation_outcome" where
  "toStatus Transient r = RoUnavailable None r"
| "toStatus c r = RoInvalid None r"

text \<open>Steps 3 and 4: the signature and the fingerprint of its key.\<close>

definition verify_did_key_signer :: "audit_env \<Rightarrow> json \<Rightarrow> string \<Rightarrow> crash + (revocation_outcome + string)" where
  "verify_did_key_signer env body agentId = (case verifyBodyOffline (au_binding env) body of
     Inl e \<Rightarrow> Inr (Inl (RoInvalid None OfflineSignatureInvalid))
   | Inr _ \<Rightarrow> (case decodeEd25519Multibase agentId of
       Inl e \<Rightarrow> Inr (Inl (case e of UnsupportedKeyAlgorithm codec True \<Rightarrow> RoUnsupported UnsupportedAlgorithm | _ \<Rightarrow> RoInvalid None UndecodableKey))
     | Inr key \<Rightarrow> and_then (fingerprintEd25519B64 (au_binding env) (b64_encode key)) (\<lambda>fp. Inr (Inr fp))))"

definition verify_did_web_signer :: "audit_env \<Rightarrow> json \<Rightarrow> string \<Rightarrow> string \<Rightarrow> crash + (revocation_outcome + string)" where
  "verify_did_web_signer env body agentId echoedHash =
     (let keyId = str_or_empty (map_option JStr (sig_member (props_of body) ''key_id''));
          sigValue = str_or_empty (map_option JStr (sig_member (props_of body) ''value''));
          algorithm = str_or_empty (map_option JStr (sig_member (props_of body) ''algorithm''))
      in if keyId = [] \<or> sigValue = [] then Inr (Inl (RoInvalid None SignatureIncomplete))
         else if CHR ''#'' \<notin> set keyId \<or> last keyId = CHR ''#'' then Inr (Inl (RoInvalid None NoFragment))
         else if ab_stripFragment (au_binding env) keyId \<noteq> agentId then Inr (Inl (RoInvalid None KeyOfAnotherDid))
         else if algorithm \<noteq> [] \<and> algorithm \<noteq> ''ed25519'' then Inr (Inl (RoUnsupported UnsupportedAlgorithm))
         else (case au_resolveKey env keyId ''ed25519'' of
             Inl e \<Rightarrow> Inr (Inl (toStatus (classifyLineageFailure (LfDid e)) SignerUnresolved))
           | Inr key \<Rightarrow>
               if \<not> verifySignatureB64 (ab_verifier (au_binding env)) ''ed25519'' (rk_publicKeyB64 key) echoedHash sigValue
               then Inr (Inl (RoInvalid None SignatureInvalid))
               else and_then (fingerprintEd25519B64 (au_binding env) (rk_publicKeyB64 key)) (\<lambda>fp. Inr (Inr fp))))"

definition verify_signer :: "audit_env \<Rightarrow> json \<Rightarrow> string \<Rightarrow> crash + (revocation_outcome + string)" where
  "verify_signer env body echoedHash =
     (let agentId = str_or_empty (get_prop (props_of body) ''agent_id'')
      in if starts_with ''did:key:'' agentId then verify_did_key_signer env body agentId
         else if starts_with ''did:web:'' agentId then verify_did_web_signer env body agentId echoedHash
         else Inr (Inl (RoInvalid None OtherDidMethod)))"

text \<open>Step 5: the registry binding of an attested revocation.\<close>

definition check_attested :: "audit_env \<Rightarrow> string \<Rightarrow> string \<Rightarrow> json \<Rightarrow> parsed_revocation \<Rightarrow> revocation_outcome" where
  "check_attested env registryAuthority tenantId body rv =
     (if pv_trustClass rv \<noteq> RegistryAttested then RoVerified rv body
      else (case pf_registryDid (au_profile env registryAuthority tenantId) of
          None \<Rightarrow> RoUnavailable (Some RegistryAttested) CapabilitiesUnknown
        | Some did \<Rightarrow> (case crossCheckRegistryBinding (pv_publisher rv) registryAuthority did of
            Inl e \<Rightarrow> RoInvalid (Some RegistryAttested) (NotBound e)
          | Inr _ \<Rightarrow> RoVerified rv body)))"

definition verifyRevocationBody :: "audit_env \<Rightarrow> string \<Rightarrow> string \<Rightarrow> json \<Rightarrow> crash + revocation_outcome" where
  "verifyRevocationBody env registryAuthority tenantId body =
     (let echoedHash = str_or_empty (get_prop (props_of body) ''content_hash'')
      in if echoedHash = [] then Inr (RoInvalid None NoContentHash)
         else (case verifyContentHash (au_binding env) body echoedHash of
             Inl e \<Rightarrow> Inr (RoInvalid None HashMismatch)
           | Inr _ \<Rightarrow> and_then (verify_signer env body echoedHash) (\<lambda>signer. case signer of
               Inl rejected \<Rightarrow> Inr rejected
             | Inr fp \<Rightarrow> and_then (parseKeyRevocation (au_binding env) body fp) (\<lambda>parsed. Inr (case parsed of
                 Inl code \<Rightarrow> RoInvalid None (ParseRejected code)
               | Inr rv \<Rightarrow> check_attested env registryAuthority tenantId body rv)))))"

definition verifyEventInner :: "audit_env \<Rightarrow> context_event \<Rightarrow> crash + revocation_outcome" where
  "verifyEventInner env ev = (case ce_ctxId ev of
     None \<Rightarrow> Inr (RoInvalid None NoCtxId)
   | Some ctxId \<Rightarrow>
       if ctxId = [] then Inr (RoInvalid None NoCtxId)
       else (case au_findByAuthority env (ce_registryAuthority ev) (ce_tenantId ev) of
           None \<Rightarrow> Inr (RoUnavailable None NoRevocationBaseUrl)
         | Some baseUrl \<Rightarrow>
             if baseUrl = [] then Inr (RoUnavailable None NoRevocationBaseUrl)
             else (case fst (federation_get (au_fed env) (strip_slash baseUrl @ ''/contexts/'' @ encode_uri_component ctxId)) of
                 Inl (FederationFetchError c) \<Rightarrow> Inr (toStatus (classifyLineageFailure (LfFetch c)) ContextFetchFailed)
               | Inl (UpstreamRateLimited e) \<Rightarrow> Inr (RoUnavailable None ContextFetchFailed)
               | Inr resp \<Rightarrow>
                   if fr_status resp < 200 \<or> fr_status resp \<ge> 300
                   then Inr (toStatus (classifyLineageFailure (LfStatus (fr_status resp))) (ContextHttp (fr_status resp)))
                   else (case fe_json (au_fed env) (fr_body resp) of
                       None \<Rightarrow> Inr (RoInvalid None NotJson)
                     | Some JNull \<Rightarrow> Inr (RoInvalid None NotJson)
                     | Some full \<Rightarrow> (case object_member (get_prop (props_of full) ''body'') of
                         None \<Rightarrow> Inr (RoInvalid None NoBodyMember)
                       | Some body \<Rightarrow> (case verifyCtxIdBinding (au_binding env) body ctxId of
                           Inl (kind, reason) \<Rightarrow> Inr (RoInvalid None (if kind = CtxMismatch then CtxSubstituted else CtxBindingUnverifiable))
                         | Inr _ \<Rightarrow> verifyRevocationBody env (ce_registryAuthority ev) (ce_tenantId ev) body))))))"

definition verifyEvent :: "audit_env \<Rightarrow> context_event \<Rightarrow> revocation_outcome" where
  "verifyEvent env ev = (case verifyEventInner env ev of Inl e \<Rightarrow> RoUnavailable None (AuditCrashed e) | Inr r \<Rightarrow> r)"

section \<open>The sweep\<close>

record audit_db =
  adb_facts :: "key_revocation list"
  adb_cursors :: lineage_cursors
  adb_audits :: "audit_row list"

definition fact_of :: "string \<Rightarrow> string \<Rightarrow> string \<Rightarrow> string \<Rightarrow> string \<Rightarrow> parsed_revocation \<Rightarrow> clock \<Rightarrow> key_revocation" where
  "fact_of tenantId ctxId lineageId origin contextType rv since = \<lparr>kr_tenantId = tenantId, kr_ctxId = ctxId,
     kr_revokedKeyFingerprint = pv_revokedKeyFingerprint rv, kr_compromisedSince = since, kr_revokedKeyController = pv_revokedKeyController rv,
     kr_publisher = pv_publisher rv, kr_trustClass = pv_trustClass rv, kr_revokedKeyId = pv_revokedKeyId rv, kr_reason = pv_reason rv,
     kr_lineageId = lineageId, kr_originAuthority = origin, kr_contextType = contextType\<rparr>"

text \<open>The insert; a \<open>compromised_since\<close> the column rejects makes it throw.\<close>

definition insert_fact ::
    "audit_env \<Rightarrow> string \<Rightarrow> string \<Rightarrow> string \<Rightarrow> string \<Rightarrow> string \<Rightarrow> parsed_revocation \<Rightarrow> key_revocation list \<Rightarrow> crash + key_revocation list" where
  "insert_fact env tenantId ctxId lineageId origin contextType rv rows = (case au_pgTime env (pv_compromisedSince rv) of
     None \<Rightarrow> Inl ''invalid input syntax for type timestamp with time zone''
   | Some since \<Rightarrow> Inr (record_fact (fact_of tenantId ctxId lineageId origin contextType rv since) rows))"

fun persist_members :: "audit_env \<Rightarrow> lineage_params \<Rightarrow> lineage_member list \<Rightarrow> key_revocation list \<Rightarrow> crash option \<times> key_revocation list" where
  "persist_members env item [] rows = (None, rows)"
| "persist_members env item (m # ms) rows = (case insert_fact env (lp_tenantId item) (lm_ctxId m) (lp_lineageId item)
       (case lm_originAuthority m of Some a \<Rightarrow> a | None \<Rightarrow> lp_registryAuthority item) (lm_contextType m) (lm_revocation m) rows of
     Inl e \<Rightarrow> (Some e, rows)
   | Inr rows' \<Rightarrow> persist_members env item ms rows')"

definition walkAndPersistLineage :: "audit_env \<Rightarrow> lineage_params \<Rightarrow> audit_db \<Rightarrow> crash option \<times> audit_db" where
  "walkAndPersistLineage env item db =
     (case walkRevocationLineage (au_fed env) (verifyRevocationBody env (lp_registryAuthority item) (lp_tenantId item)) item of
        Inl e \<Rightarrow> (Some e, db)
      | Inr (Inl failure, counts) \<Rightarrow> (None, db)
      | Inr (Inr members, counts) \<Rightarrow> (case persist_members env item members (adb_facts db) of
          (Some e, rows) \<Rightarrow> (Some e, db\<lparr>adb_facts := rows\<rparr>)
        | (None, rows) \<Rightarrow> (None, db\<lparr>adb_facts := rows, adb_cursors := recordLineageWalk (au_now env) (lp_tenantId item) (lp_lineageId item)
            (lp_registryAuthority item) (adb_cursors db)\<rparr>)))"

fun walk_queue :: "audit_env \<Rightarrow> lineage_params list \<Rightarrow> audit_db \<Rightarrow> crash option \<times> audit_db" where
  "walk_queue env [] db = (None, db)"
| "walk_queue env (item # items) db = (case walkAndPersistLineage env item db of
     (Some e, db') \<Rightarrow> (Some e, db')
   | (None, db') \<Rightarrow> walk_queue env items db')"

text \<open>The queue is a \<open>Map\<close> by tenant, lineage and authority; the first candidate of a key sets its entry.\<close>

definition queue_key :: "string \<Rightarrow> string \<Rightarrow> string \<Rightarrow> string" where
  "queue_key tenantId lineageId authority = tenantId @ ''::'' @ lineageId @ ''::'' @ authority"

type_synonym lineage_queue = "(string, lineage_params) jsmap"

definition enqueue_lineage :: "audit_env \<Rightarrow> context_event \<Rightarrow> string \<Rightarrow> nat \<Rightarrow> lineage_cursors \<Rightarrow> lineage_queue \<Rightarrow> lineage_queue" where
  "enqueue_lineage env ev lineageId priorFactCount cursors queue =
     (let key = queue_key (ce_tenantId ev) lineageId (ce_registryAuthority ev)
      in if lineageId = [] then queue
         else if priorFactCount > 0 \<and> findFreshLineageCursor (au_now env) (ce_tenantId ev) lineageId (ce_registryAuthority ev)
              (au_lineageCursorTtlHours env * 60 * 60 * 1000) cursors then queue
         else if map_of queue key \<noteq> None then queue
         else (case au_findByAuthority env (ce_registryAuthority ev) (ce_tenantId ev) of
             Some (c # base) \<Rightarrow> AList.update key \<lparr>lp_lineageId = lineageId, lp_registryAuthority = ce_registryAuthority ev, lp_baseUrl = c # base,
               lp_tenantId = ce_tenantId ev, lp_expectCtxId = the (ce_ctxId ev)\<rparr> queue
           | _ \<Rightarrow> queue))"

definition event_lineage :: "context_event \<Rightarrow> json \<Rightarrow> string" where
  "event_lineage ev body = (case as_string (get_prop (props_of body) ''lineage_id'') of
     Some l \<Rightarrow> l
   | None \<Rightarrow> (case ce_lineageId ev of Some l \<Rightarrow> l | None \<Rightarrow> []))"

fun candidate_loop ::
    "audit_env \<Rightarrow> context_event list \<Rightarrow> lineage_queue \<Rightarrow> audit_db \<Rightarrow> crash option \<times> lineage_queue \<times> audit_db" where
  "candidate_loop env [] queue db = (None, queue, db)"
| "candidate_loop env (ev # evs) queue db = (case verifyEvent env ev of
     RoVerified rv body \<Rightarrow>
       (let lineageId = event_lineage ev body;
            prior = (if lineageId = [] then 0 else countByLineage (ce_tenantId ev) lineageId (adb_facts db))
        in case insert_fact env (ce_tenantId ev) (the (ce_ctxId ev)) lineageId
             (case as_string (get_prop (props_of body) ''origin_registry'') of Some a \<Rightarrow> a | None \<Rightarrow> ce_registryAuthority ev)
             (case ce_contextType ev of Some t \<Rightarrow> t | None \<Rightarrow> []) rv (adb_facts db) of
           Inl e \<Rightarrow> (Some e, queue, db)
         | Inr rows \<Rightarrow> candidate_loop env evs (enqueue_lineage env ev lineageId prior (adb_cursors db) queue) (db\<lparr>adb_facts := rows\<rparr>))
   | _ \<Rightarrow> candidate_loop env evs queue db)"

definition reaudit_all ::
    "audit_env \<Rightarrow> ((audit_row \<times> string) list \<Rightarrow> (audit_row \<times> string) list) \<Rightarrow> context_event list \<Rightarrow> audit_db \<Rightarrow> audit_db" where
  "reaudit_all env shuffle events db =
     (if \<not> au_checkEnabled env then db
      else db\<lparr>adb_audits := fold (\<lambda>(tenantId, fp). reauditForFingerprint env shuffle tenantId fp events (adb_facts db))
        (distinctFingerprints (adb_facts db)) (adb_audits db)\<rparr>)"

definition revocation_sweep ::
    "audit_env \<Rightarrow> ((audit_row \<times> string) list \<Rightarrow> (audit_row \<times> string) list) \<Rightarrow> bool \<Rightarrow> context_event list \<Rightarrow> audit_db \<Rightarrow> crash option \<times> audit_db" where
  "revocation_sweep env shuffle acquired events db =
     (if \<not> acquired then (None, db)
      else (case candidate_loop env (findCandidates ((now_ms (au_now env) - au_revocationLookbackHours env * 60 * 60 * 1000) * 1000)
              (au_batchSize env) events (adb_facts db)) [] db of
          (Some e, queue, db1) \<Rightarrow> (Some e, db1)
        | (None, queue, db1) \<Rightarrow>
            (case (if length queue > MAX_LINEAGE_WALKS then (None, db1) else walk_queue env (map snd queue) db1) of
               (Some e, db2) \<Rightarrow> (Some e, db2)
             | (None, db2) \<Rightarrow> (None, reaudit_all env shuffle events db2))))"

end
