(* ===== verification/AuditSafety.thy ===== *)
theory AuditSafety
  imports RevocationAudit
begin

text \<open>
  Properties of the two audit sweeps: which revocations are recorded, what a lineage walk persists, how sealed verdicts change, and what a
  verified receipt stands for.
\<close>

section \<open>Genuine revocations\<close>

text \<open>What RFC-ACDP-0014 asks of a revocation body: a content hash that recomputes, a signature of the agent's own key, a body the binding
  parses under the fingerprint of that key, and for an attested one the DID of the serving registry as publisher.\<close>

definition genuine_signer :: "audit_env \<Rightarrow> json \<Rightarrow> string \<Rightarrow> string \<Rightarrow> bool" where
  "genuine_signer env body hash fp =
     (let B = au_binding env; agent = str_or_empty (get_prop (props_of body) ''agent_id''); sig = sig_member (props_of body)
      in starts_with ''did:key:'' agent \<and> verifyBodyOffline B body = Inr ()
           \<and> (\<exists>key. decodeEd25519Multibase agent = Inr key \<and> fingerprintEd25519B64 B (b64_encode key) = Inr fp)
       \<or> starts_with ''did:web:'' agent
           \<and> (\<exists>k v key. sig ''key_id'' = Some k \<and> CHR ''#'' \<in> set k \<and> last k \<noteq> CHR ''#'' \<and> ab_stripFragment B k = agent
                \<and> sig ''value'' = Some v \<and> v \<noteq> [] \<and> sig ''algorithm'' \<in> {None, Some [], Some ''ed25519''}
                \<and> au_resolveKey env k ''ed25519'' = Inr key \<and> verifySignatureB64 (ab_verifier B) ''ed25519'' (rk_publicKeyB64 key) hash v
                \<and> fingerprintEd25519B64 B (rk_publicKeyB64 key) = Inr fp))"

definition genuine_revocation :: "audit_env \<Rightarrow> string \<Rightarrow> string \<Rightarrow> json \<Rightarrow> parsed_revocation \<Rightarrow> bool" where
  "genuine_revocation env authority tenantId body rv =
     (\<exists>hash fp. get_prop (props_of body) ''content_hash'' = Some (JStr hash) \<and> hash \<noteq> [] \<and> verifyContentHash (au_binding env) body hash = Inr ()
        \<and> genuine_signer env body hash fp \<and> parseKeyRevocation (au_binding env) body fp = Inr (Inr rv)
        \<and> (pv_trustClass rv = ProducerSigned
           \<or> authorityToDidWeb authority = Some (pv_publisher rv) \<and> pf_registryDid (au_profile env authority tenantId) = Some (pv_publisher rv)))"

lemma str_or_empty_nonempty: "str_or_empty v \<noteq> [] \<Longrightarrow> v = Some (JStr (str_or_empty v))"
  by (auto simp: str_or_empty_def as_string_def split: option.splits json.splits)

lemma str_or_empty_JStr [simp]: "str_or_empty (Some (JStr s)) = s" "str_or_empty None = []"
  by (simp_all add: str_or_empty_def as_string_def)

lemma str_or_empty_map_JStr: "str_or_empty (map_option JStr x) = (case x of Some s \<Rightarrow> s | None \<Rightarrow> [])"
  by (cases x) simp_all

lemma starts_with_did_excl: "starts_with ''did:web:'' a \<Longrightarrow> \<not> starts_with ''did:key:'' a"
  by (auto simp: starts_with_def)

lemma toStatus_not_verified: "toStatus c r \<noteq> RoVerified rv b"
  by (cases c) auto

lemma verify_did_key_signer_iff:
  "verify_did_key_signer env body agent = Inr (Inr fp) \<longleftrightarrow> verifyBodyOffline (au_binding env) body = Inr ()
     \<and> (\<exists>key. decodeEd25519Multibase agent = Inr key \<and> fingerprintEd25519B64 (au_binding env) (b64_encode key) = Inr fp)"
  by (auto simp: verify_did_key_signer_def and_then_def split: sum.splits)

lemma verify_did_web_signer_iff:
  "verify_did_web_signer env body agent hash = Inr (Inr fp) \<longleftrightarrow>
     (\<exists>k v key. sig_member (props_of body) ''key_id'' = Some k \<and> CHR ''#'' \<in> set k \<and> last k \<noteq> CHR ''#''
        \<and> ab_stripFragment (au_binding env) k = agent
        \<and> sig_member (props_of body) ''value'' = Some v \<and> v \<noteq> []
        \<and> sig_member (props_of body) ''algorithm'' \<in> {None, Some [], Some ''ed25519''}
        \<and> au_resolveKey env k ''ed25519'' = Inr key
        \<and> verifySignatureB64 (ab_verifier (au_binding env)) ''ed25519'' (rk_publicKeyB64 key) hash v
        \<and> fingerprintEd25519B64 (au_binding env) (rk_publicKeyB64 key) = Inr fp)"
  by (cases "sig_member (props_of body) ''key_id''"; cases "sig_member (props_of body) ''value''"; cases "sig_member (props_of body) ''algorithm''")
    (auto simp: verify_did_web_signer_def and_then_def Let_def split: sum.splits if_splits)

lemma verify_signer_iff: "verify_signer env body hash = Inr (Inr fp) \<longleftrightarrow> genuine_signer env body hash fp"
  using starts_with_did_excl
  by (simp add: verify_signer_def genuine_signer_def Let_def verify_did_key_signer_iff verify_did_web_signer_iff)

lemma verify_did_key_signer_rejects: "verify_did_key_signer env body agent = Inr (Inl r) \<Longrightarrow> r \<noteq> RoVerified rv b"
  by (auto simp: verify_did_key_signer_def and_then_def split: sum.splits multibase_error.splits bool.splits)

lemma verify_did_web_signer_rejects: "verify_did_web_signer env body agent hash = Inr (Inl r) \<Longrightarrow> r \<noteq> RoVerified rv b"
  by (auto simp: verify_did_web_signer_def and_then_def Let_def toStatus_not_verified split: sum.splits if_splits)

lemma verify_signer_rejects: "verify_signer env body hash = Inr (Inl r) \<Longrightarrow> r \<noteq> RoVerified rv b"
  by (auto simp: verify_signer_def Let_def split: if_splits dest: verify_did_key_signer_rejects verify_did_web_signer_rejects)

lemma crossCheck_iff: "crossCheckRegistryBinding p a did = Inr () \<longleftrightarrow> authorityToDidWeb a = Some p \<and> p = did"
  by (auto simp: crossCheckRegistryBinding_def split: option.splits)

lemma check_attested_iff:
  "check_attested env a t body rv = RoVerified rv' b \<longleftrightarrow> rv' = rv \<and> b = body
     \<and> (pv_trustClass rv = ProducerSigned \<or> authorityToDidWeb a = Some (pv_publisher rv) \<and> pf_registryDid (au_profile env a t) = Some (pv_publisher rv))"
proof (cases "pv_trustClass rv")
  case RegistryAttested
  then show ?thesis
    by (cases "pf_registryDid (au_profile env a t)"; cases "crossCheckRegistryBinding (pv_publisher rv) a (the (pf_registryDid (au_profile env a t)))")
      (auto simp: check_attested_def crossCheckRegistryBinding_def split: option.splits if_splits)
qed (auto simp: check_attested_def)

lemma verifyRevocationBody_iff:
  "verifyRevocationBody env a t body = Inr (RoVerified rv b) \<longleftrightarrow> b = body \<and> genuine_revocation env a t body rv"
proof
  assume v: "verifyRevocationBody env a t body = Inr (RoVerified rv b)"
  let ?h = "str_or_empty (get_prop (props_of body) ''content_hash'')"
  from v have h: "?h \<noteq> []" "verifyContentHash (au_binding env) body ?h = Inr ()"
    by (auto simp: verifyRevocationBody_def Let_def split: if_splits sum.splits)
  with v obtain signer where s: "verify_signer env body ?h = Inr signer"
    by (auto simp: verifyRevocationBody_def Let_def bind_simps)
  with v h obtain fp where fp: "signer = Inr fp"
    using verify_signer_rejects by (cases signer) (fastforce simp: verifyRevocationBody_def Let_def and_then_def)+
  with v h s obtain parsed where p: "parseKeyRevocation (au_binding env) body fp = Inr parsed"
    by (auto simp: verifyRevocationBody_def Let_def and_then_def split: sum.splits)
  with v h s fp obtain rv' where rv': "parsed = Inr rv'" "check_attested env a t body rv' = RoVerified rv b"
    by (cases parsed) (auto simp: verifyRevocationBody_def Let_def and_then_def)
  with s fp p h str_or_empty_nonempty [OF h(1)] show "b = body \<and> genuine_revocation env a t body rv"
    unfolding genuine_revocation_def by (auto simp: check_attested_iff verify_signer_iff)
next
  assume "b = body \<and> genuine_revocation env a t body rv"
  then show "verifyRevocationBody env a t body = Inr (RoVerified rv b)"
    by (auto simp: genuine_revocation_def verifyRevocationBody_def verify_signer_iff [symmetric] and_then_def check_attested_iff)
qed

section \<open>The recorded facts\<close>

definition fact_backed :: "audit_env \<Rightarrow> key_revocation \<Rightarrow> bool" where
  "fact_backed env r = (\<exists>authority body rv since. genuine_revocation env authority (kr_tenantId r) body rv
     \<and> au_pgTime env (pv_compromisedSince rv) = Some since
     \<and> r = fact_of (kr_tenantId r) (kr_ctxId r) (kr_lineageId r) (kr_originAuthority r) (kr_contextType r) rv since)"

definition grown :: "(key_revocation \<Rightarrow> bool) \<Rightarrow> key_revocation list \<Rightarrow> key_revocation list \<Rightarrow> bool" where
  "grown P rows rows' = (\<exists>new. rows' = rows @ new \<and> list_all P new)"

lemma grown_refl [simp, intro]: "grown P rows rows"
  by (simp add: grown_def)

lemma grown_trans [trans]: "grown P a b \<Longrightarrow> grown P b c \<Longrightarrow> grown P a c"
  unfolding grown_def by force

lemma grown_mono: "grown P a b \<Longrightarrow> (\<And>r. P r \<Longrightarrow> Q r) \<Longrightarrow> grown Q a b"
  unfolding grown_def by (metis list_all_iff)

lemma insert_fact_grown:
  assumes "insert_fact env t c l origin ty rv rows = Inr rows'" "genuine_revocation env a t body rv"
  shows "grown (fact_backed env) rows rows'"
proof -
  obtain since where s: "au_pgTime env (pv_compromisedSince rv) = Some since" "rows' = record_fact (fact_of t c l origin ty rv since) rows"
    using assms(1) by (auto simp: insert_fact_def split: option.splits)
  with assms(2) have "fact_backed env (fact_of t c l origin ty rv since)"
    unfolding fact_backed_def by (intro exI [of _ a] exI [of _ body] exI [of _ rv] exI [of _ since]) (simp add: fact_of_def)
  with s show ?thesis by (auto simp: record_fact_def grown_def intro: exI [of _ "[]"])
qed

text \<open>The members a completed walk returns, and when it completes.\<close>

definition verified_member :: "(json \<Rightarrow> crash + revocation_outcome) \<Rightarrow> json \<Rightarrow> lineage_member list" where
  "verified_member verify body = (if revocation_member body then (case verify body of
       Inr (RoVerified rv b) \<Rightarrow> [\<lparr>lm_ctxId = the (member_ctx body), lm_contextType = the (member_type body),
         lm_originAuthority = as_string (get_prop (props_of body) ''origin_registry''), lm_revocation = rv\<rparr>]
     | _ \<Rightarrow> []) else [])"

definition answered :: "(json \<Rightarrow> crash + revocation_outcome) \<Rightarrow> json \<Rightarrow> bool" where
  "answered verify body = (case verify body of Inl e \<Rightarrow> False | Inr (RoUnavailable tc r) \<Rightarrow> False | _ \<Rightarrow> True)"

lemma walk_members_complete:
  assumes "walk_members verify counts members bodies = Inr (Inr found, counts')"
  shows "found = members @ concat (map (verified_member verify) bodies) \<and> list_all (\<lambda>b. revocation_member b \<longrightarrow> answered verify b) bodies"
  using assms
proof (induction bodies arbitrary: counts members)
  case (Cons body bodies)
  show ?case
  proof (cases "revocation_member body")
    case True
    with Cons.prems obtain r where r: "verify body = Inr r" by (auto split: sum.splits)
    with True Cons.prems show ?thesis by (cases r) (auto simp: verified_member_def answered_def dest: Cons.IH)
  next
    case False
    with Cons.prems show ?thesis by (auto simp: verified_member_def dest: Cons.IH)
  qed
qed simp

definition served_lineage :: "federation_env \<Rightarrow> lineage_params \<Rightarrow> json list option" where
  "served_lineage F params =
     (case fst (federation_get F (strip_slash (lp_baseUrl params) @ ''/lineages/'' @ encode_uri_component (lp_lineageId params))) of
        Inr resp \<Rightarrow> if fr_status resp < 200 \<or> fr_status resp \<ge> 300 then None
          else (case fe_json F (fr_body resp) of Some (JArr raw) \<Rightarrow> Some (raw_members raw) | _ \<Rightarrow> None)
      | Inl e \<Rightarrow> None)"

lemma walkRevocationLineage_complete:
  assumes "walkRevocationLineage F verify params = Inr (Inr found, counts)"
  obtains bodies where "served_lineage F params = Some bodies" "\<exists>b \<in> set bodies. member_ctx b = Some (lp_expectCtxId params)"
    "found = concat (map (verified_member verify) bodies)" "list_all (\<lambda>b. revocation_member b \<longrightarrow> answered verify b) bodies"
  using assms
  by (auto simp: walkRevocationLineage_def served_lineage_def split: sum.splits get_error.splits if_splits option.splits json.splits
      dest!: walk_members_complete)

lemma persist_members_grown:
  assumes "list_all (\<lambda>m. \<exists>body. genuine_revocation env (lp_registryAuthority item) (lp_tenantId item) body (lm_revocation m)) ms"
    "persist_members env item ms rows = (e, rows')"
  shows "grown (fact_backed env) rows rows'"
  using assms
proof (induction ms arbitrary: rows)
  case (Cons m ms)
  then obtain body where "genuine_revocation env (lp_registryAuthority item) (lp_tenantId item) body (lm_revocation m)" by auto
  with Cons show ?case by (auto split: sum.splits dest: insert_fact_grown intro: grown_trans)
qed simp

lemma verified_memberD:
  assumes "m \<in> set (verified_member verify body)"
  obtains rv b where "revocation_member body" "verify body = Inr (RoVerified rv b)" "lm_ctxId m = the (member_ctx body)" "lm_revocation m = rv"
proof (cases "verify body")
  case (Inr r)
  show ?thesis
  proof (cases "revocation_member body \<and> (\<exists>rv b. r = RoVerified rv b)")
    case True
    with Inr assms that show ?thesis by (auto simp: verified_member_def)
  next
    case False
    with Inr have "verified_member verify body = []" by (cases r) (auto simp: verified_member_def)
    with assms show ?thesis by simp
  qed
next
  case (Inl e)
  then have "verified_member verify body = []" by (simp add: verified_member_def)
  with assms show ?thesis by simp
qed

lemma verified_member_genuine:
  assumes "m \<in> set (verified_member (verifyRevocationBody env a t) body)"
  shows "genuine_revocation env a t body (lm_revocation m)"
  using assms by (rule verified_memberD) (use verifyRevocationBody_iff in blast)

lemma walkAndPersistLineage_grown: "grown (fact_backed env) (adb_facts db) (adb_facts (snd (walkAndPersistLineage env item db)))"
proof -
  let ?v = "verifyRevocationBody env (lp_registryAuthority item) (lp_tenantId item)"
  have "grown (fact_backed env) (adb_facts db) rows"
    if w: "walkRevocationLineage (au_fed env) ?v item = Inr (Inr found, counts)" and p: "persist_members env item found (adb_facts db) = (e, rows)"
    for found counts e rows
  proof -
    obtain bodies where "found = concat (map (verified_member ?v) bodies)" by (rule walkRevocationLineage_complete [OF w])
    then have "list_all (\<lambda>m. \<exists>body. genuine_revocation env (lp_registryAuthority item) (lp_tenantId item) body (lm_revocation m)) found"
      by (auto simp: list_all_iff dest: verified_member_genuine)
    then show ?thesis using p by (rule persist_members_grown)
  qed
  then show ?thesis
    by (auto simp: walkAndPersistLineage_def split: sum.splits prod.splits option.splits)
qed

lemma walk_queue_grown: "grown (fact_backed env) (adb_facts db) (adb_facts (snd (walk_queue env items db)))"
proof (induction items arbitrary: db)
  case (Cons item items)
  have "grown (fact_backed env) (adb_facts db) (adb_facts (snd (walkAndPersistLineage env item db)))" by (rule walkAndPersistLineage_grown)
  with Cons show ?case by (auto split: prod.splits option.splits intro: grown_trans)
qed simp

lemma verifyEvent_verified:
  assumes "verifyEvent env ev = RoVerified rv body"
  shows "genuine_revocation env (ce_registryAuthority ev) (ce_tenantId ev) body rv"
proof -
  have "verifyEventInner env ev = Inr (RoVerified rv body)"
    using assms by (auto simp: verifyEvent_def split: sum.splits)
  then obtain b where "verifyRevocationBody env (ce_registryAuthority ev) (ce_tenantId ev) b = Inr (RoVerified rv body)"
    by (auto simp: verifyEventInner_def toStatus_not_verified split: option.splits if_splits sum.splits get_error.splits json.splits)
  then show ?thesis by (auto simp: verifyRevocationBody_iff)
qed

lemma candidate_loop_grown: "grown (fact_backed env) (adb_facts db) (adb_facts (snd (snd (candidate_loop env evs queue db))))"
proof (induction evs arbitrary: queue db)
  case (Cons ev evs)
  show ?case
  proof (cases "\<exists>rv body. verifyEvent env ev = RoVerified rv body")
    case True
    then obtain rv body where v: "verifyEvent env ev = RoVerified rv body" by blast
    let ?l = "event_lineage ev body"
    let ?insert = "insert_fact env (ce_tenantId ev) (the (ce_ctxId ev)) ?l
      (case as_string (get_prop (props_of body) ''origin_registry'') of Some a \<Rightarrow> a | None \<Rightarrow> ce_registryAuthority ev)
      (case ce_contextType ev of Some t \<Rightarrow> t | None \<Rightarrow> []) rv (adb_facts db)"
    show ?thesis
    proof (cases ?insert)
      case (Inr rows)
      have "grown (fact_backed env) (adb_facts db) rows" using Inr verifyEvent_verified [OF v] by (rule insert_fact_grown)
      also have "grown (fact_backed env) rows (adb_facts (snd (snd (candidate_loop env evs q (db\<lparr>adb_facts := rows\<rparr>)))))" for q
        using Cons.IH [of "db\<lparr>adb_facts := rows\<rparr>" q] by simp
      finally show ?thesis using v Inr by (simp add: Let_def)
    qed (use v in \<open>simp add: Let_def\<close>)
  next
    case False
    then show ?thesis using Cons.IH by (cases "verifyEvent env ev") auto
  qed
qed simp

section \<open>Sealed verdicts\<close>

text \<open>An amendment writes the four revocation columns, once or with an earlier boundary.\<close>

definition tightened :: "audit_row \<Rightarrow> audit_row \<Rightarrow> bool" where
  "tightened r r' = (r' = r \<or> (\<exists>k tc b src. r' = amend_row k tc b src r \<and> (ra_keyRevocationStatus r = None \<or> boundary_after r b)))"

definition kept_and_tightened :: "audit_row list \<Rightarrow> audit_row list \<Rightarrow> bool" where
  "kept_and_tightened rows rows' = (\<exists>kept added. rows' = kept @ added \<and> list_all2 tightened rows kept)"

lemma tightened_refl [simp, intro]: "tightened r r"
  by (simp add: tightened_def)

lemma amend_row_amend_row: "amend_row k' tc' b' src' (amend_row k tc b src r) = amend_row k' tc' b' src' r"
  by (simp add: amend_row_def)

lemma boundary_after_amend_row: "boundary_after (amend_row k tc b src r) b' \<longleftrightarrow> b' < b"
  by (simp add: boundary_after_def amend_row_def)

lemma boundary_after_trans: "boundary_after r b \<Longrightarrow> b' < b \<Longrightarrow> boundary_after r b'"
  by (auto simp: boundary_after_def split: option.splits)

lemma tightened_amend: "ra_keyRevocationStatus r = None \<or> boundary_after r b \<Longrightarrow> tightened r (amend_row k tc b src r)"
  unfolding tightened_def by blast

lemma tightened_trans:
  assumes "tightened a b" "tightened b c"
  shows "tightened a c"
proof (cases "b = a \<or> c = b")
  case False
  with assms obtain k tc bd src k' tc' bd' src' where b: "b = amend_row k tc bd src a" "ra_keyRevocationStatus a = None \<or> boundary_after a bd"
    and c: "c = amend_row k' tc' bd' src' b" "ra_keyRevocationStatus b = None \<or> boundary_after b bd'"
    by (auto simp: tightened_def)
  then have "bd' < bd" using boundary_after_amend_row by (auto simp: amend_row_def)
  with b have "ra_keyRevocationStatus a = None \<or> boundary_after a bd'" using boundary_after_trans by blast
  then show ?thesis using tightened_amend b(1) c(1) by (simp add: amend_row_amend_row)
qed (use assms in auto)

lemma kept_refl [simp, intro]: "kept_and_tightened rows rows"
  unfolding kept_and_tightened_def by (intro exI [of _ rows] exI [of _ "[]"]) (simp add: list_all2_same)

lemma kept_trans: "kept_and_tightened a b \<Longrightarrow> kept_and_tightened b c \<Longrightarrow> kept_and_tightened a c"
proof -
  assume "kept_and_tightened a b" "kept_and_tightened b c"
  then obtain k1 n1 k2 n2 where "b = k1 @ n1" "list_all2 tightened a k1" "c = k2 @ n2" "list_all2 tightened b k2"
    by (auto simp: kept_and_tightened_def)
  moreover from this obtain u v where "k2 = u @ v" "list_all2 tightened k1 u" by (auto simp: list_all2_append1)
  ultimately have "c = u @ (v @ n2)" "list_all2 tightened a u"
    using list_all2_trans [of tightened tightened tightened a k1 u] tightened_trans by auto
  then show "kept_and_tightened a c" unfolding kept_and_tightened_def by blast
qed

lemma amendKeyRevocation_kept: "kept_and_tightened rows (amendKeyRevocation t e k tc b src rows)"
  unfolding kept_and_tightened_def
  by (intro exI [of _ "amendKeyRevocation t e k tc b src rows"] exI [of _ "[]"])
    (auto simp: amendKeyRevocation_def list_all2_conv_all_nth tightened_def)

lemma record_audit_kept: "kept_and_tightened rows (record_audit row rows)"
  unfolding kept_and_tightened_def record_audit_def
  by (intro exI [of _ rows] exI [of _ "if \<exists>r \<in> set rows. ra_eventId r = ra_eventId row then [] else [row]"]) (simp add: list_all2_same)

lemma audit_loop_kept: "kept_and_tightened rows (snd (audit_loop env facts evs rows))"
proof (induction evs arbitrary: rows)
  case (Cons ev evs)
  then show ?case by (auto split: sum.splits intro: kept_trans [OF record_audit_kept])
qed simp

lemma reaudit_loop_kept: "kept_and_tightened rows (reaudit_loop env found t fp cs rows)"
proof (induction cs arbitrary: rows)
  case (Cons c cs)
  obtain r authority where "c = (r, authority)" by (cases c)
  then show ?case using Cons by (auto simp: Let_def split: sum.splits kr_class.splits option.splits intro: kept_trans [OF amendKeyRevocation_kept])
qed simp

lemma reauditForFingerprint_kept: "kept_and_tightened rows (reauditForFingerprint env shuffle t fp events facts rows)"
  by (auto simp: reauditForFingerprint_def Let_def reaudit_loop_kept split: option.splits)

lemma fold_kept: "(\<And>x rows. kept_and_tightened rows (f x rows)) \<Longrightarrow> kept_and_tightened rows (fold f xs rows)"
  by (induction xs arbitrary: rows) (auto intro: kept_trans)

section \<open>Histories of sweeps\<close>

definition advances :: "(key_revocation \<Rightarrow> bool) \<Rightarrow> audit_db \<Rightarrow> audit_db \<Rightarrow> bool" where
  "advances P db db' = (grown P (adb_facts db) (adb_facts db') \<and> kept_and_tightened (adb_audits db) (adb_audits db'))"

lemma advances_refl [simp, intro]: "advances P db db"
  by (simp add: advances_def)

lemma advances_trans [trans]: "advances P a b \<Longrightarrow> advances P b c \<Longrightarrow> advances P a c"
  unfolding advances_def using grown_trans kept_trans by blast

lemma reaudit_all_advances: "advances P db (reaudit_all env shuffle events db)"
  by (auto simp: advances_def reaudit_all_def intro!: fold_kept reauditForFingerprint_kept)

lemma walkAndPersistLineage_audits: "adb_audits (snd (walkAndPersistLineage env item db)) = adb_audits db"
  by (auto simp: walkAndPersistLineage_def split: sum.splits prod.splits option.splits)

lemma walk_queue_audits: "adb_audits (snd (walk_queue env items db)) = adb_audits db"
proof (induction items arbitrary: db)
  case (Cons item items)
  then show ?case using walkAndPersistLineage_audits [of env item db] by (auto split: prod.splits option.splits)
qed simp

lemma candidate_loop_audits: "adb_audits (snd (snd (candidate_loop env evs queue db))) = adb_audits db"
proof (induction evs arbitrary: queue db)
  case (Cons ev evs)
  show ?case by (cases "verifyEvent env ev") (auto simp: Let_def Cons split: sum.split)
qed simp

lemma walk_queue_advances: "advances (fact_backed env) db (snd (walk_queue env items db))"
  by (simp add: advances_def walk_queue_grown walk_queue_audits)

lemma candidate_loop_advances: "advances (fact_backed env) db (snd (snd (candidate_loop env evs queue db)))"
  by (simp add: advances_def candidate_loop_grown candidate_loop_audits)

lemma revocation_sweep_advances: "advances (fact_backed env) db (snd (revocation_sweep env shuffle acquired events db))"
proof (cases acquired)
  case True
  obtain crash queue db1 where c: "candidate_loop env (findCandidates ((now_ms (au_now env) - au_revocationLookbackHours env * 60 * 60 * 1000) * 1000)
      (au_batchSize env) events (adb_facts db)) [] db = (crash, queue, db1)" by (metis prod.exhaust)
  define walked where "walked = (if length queue > MAX_LINEAGE_WALKS then (None, db1) else walk_queue env (map snd queue) db1)"
  have "advances (fact_backed env) db db1" using candidate_loop_advances c by (metis snd_conv)
  moreover have "advances (fact_backed env) db1 (snd walked)" unfolding walked_def using walk_queue_advances by auto
  ultimately have "advances (fact_backed env) db db1" "advances (fact_backed env) db (snd walked)"
    using advances_trans by blast+
  moreover have "snd (revocation_sweep env shuffle acquired events db) \<in> {db1, snd walked, reaudit_all env shuffle events (snd walked)}"
    using True c by (auto simp: revocation_sweep_def walked_def [symmetric] split: option.split prod.split)
  ultimately show ?thesis using advances_trans [OF _ reaudit_all_advances] by auto
qed (simp add: revocation_sweep_def)

datatype audit_op =
    ReceiptSweep audit_env bool "context_event list"
  | RevocationSweep audit_env "(audit_row \<times> string) list \<Rightarrow> (audit_row \<times> string) list" bool "context_event list"

fun op_env :: "audit_op \<Rightarrow> audit_env" where
  "op_env (ReceiptSweep env acquired events) = env"
| "op_env (RevocationSweep env shuffle acquired events) = env"

fun audit_step :: "audit_op \<Rightarrow> audit_db \<Rightarrow> audit_db" where
  "audit_step (ReceiptSweep env acquired events) db =
     db\<lparr>adb_audits := snd (receipt_sweep env acquired events (adb_facts db) (adb_audits db))\<rparr>"
| "audit_step (RevocationSweep env shuffle acquired events) db = snd (revocation_sweep env shuffle acquired events db)"

lemma audit_step_advances: "advances (fact_backed (op_env op)) db (audit_step op db)"
  using revocation_sweep_advances by (cases op) (simp_all add: advances_def receipt_sweep_def audit_loop_kept)

lemma advances_mono: "advances P a b \<Longrightarrow> (\<And>r. P r \<Longrightarrow> Q r) \<Longrightarrow> advances Q a b"
  unfolding advances_def using grown_mono by blast

lemma audit_history_advances: "advances (\<lambda>r. \<exists>op \<in> set ops. fact_backed (op_env op) r) db (fold audit_step ops db)"
proof (induction ops arbitrary: db)
  case (Cons op ops)
  have "advances (\<lambda>r. \<exists>op \<in> set (op # ops). fact_backed (op_env op) r) db (audit_step op db)"
    using audit_step_advances by (rule advances_mono) simp
  also have "advances (\<lambda>r. \<exists>op \<in> set (op # ops). fact_backed (op_env op) r) (audit_step op db) (fold audit_step ops (audit_step op db))"
    using Cons.IH by (rule advances_mono) auto
  finally show ?case by simp
qed simp


text \<open>C13. Sealed verdicts only tighten: a history of sweeps keeps every audit row in its place and changes at most its four revocation
  columns, from unclassified to a classification and from there only to one with an earlier compromise boundary.\<close>

theorem sealed_verdicts_only_tighten:
  "\<exists>kept added. adb_audits (fold audit_step ops db) = kept @ added \<and> list_all2 tightened (adb_audits db) kept"
  using audit_history_advances by (simp add: advances_def kept_and_tightened_def)

section \<open>Verified receipts\<close>

text \<open>What stands behind a verified receipt: the receipt of the payload names the event's context and the source registry; the registry serves
  a body whose content hash recomputes; the receipt key belongs to the registry's DID; and the binding accepts the receipt for that body.\<close>

definition producer_fingerprint :: "audit_env \<Rightarrow> context_event \<Rightarrow> json \<Rightarrow> jobj \<Rightarrow> string \<Rightarrow> bool" where
  "producer_fingerprint env ev body receipt fp =
     (if starts_with ''did:key:'' (ce_agentId ev)
      then verifyBodyOffline (au_binding env) body = Inr () \<and> fp = str_or_empty (get_prop receipt ''key_fingerprint'')
      else (\<exists>k key. sig_member (props_of body) ''key_id'' = Some k \<and> au_resolveKey env k ''ed25519'' = Inr key
              \<and> fingerprintEd25519B64 (au_binding env) (rk_publicKeyB64 key) = Inr fp))"

definition genuine_receipt :: "audit_env \<Rightarrow> context_event \<Rightarrow> bool \<Rightarrow> bool" where
  "genuine_receipt env ev historical =
     (\<exists>v receipt ctxId base body hash fp did keyId resolved f.
        get_prop (ce_rawPayload ev) ''registry_receipt'' = Some v \<and> receipt = props_of v
        \<and> ce_ctxId ev = Some ctxId \<and> as_string (get_prop receipt ''ctx_id'') = Some ctxId
        \<and> as_string (get_prop receipt ''origin_registry'') = Some (ce_registryAuthority ev)
        \<and> authorityToDidWeb (ce_registryAuthority ev) = Some did \<and> as_string (get_prop receipt ''registry_did'') = Some did
        \<and> au_findByAuthority env (ce_registryAuthority ev) (ce_tenantId ev) = Some base \<and> fetch_context env base ctxId = Inr body
        \<and> as_string (get_prop (props_of body) ''content_hash'') = Some hash \<and> verifyContentHash (au_binding env) body hash = Inr ()
        \<and> producer_fingerprint env ev body receipt fp
        \<and> sig_member receipt ''key_id'' = Some keyId \<and> ab_stripFragment (au_binding env) keyId = did
        \<and> au_resolveReceiptKey env keyId ''ed25519'' = Inr resolved \<and> rr_historical resolved = historical
        \<and> ab_verifyReceipt (au_binding env) = Some f \<and> f (JObj receipt) body (rk_publicKeyB64 (rr_key resolved)) ctxId hash fp = Inr ())"

lemma resolveProducerFingerprint_clean:
  "resolveProducerFingerprint env ev body receipt = (Some fp, [], []) \<Longrightarrow> producer_fingerprint env ev body receipt fp"
  by (auto simp: resolveProducerFingerprint_def producer_fingerprint_def Let_def split: if_splits sum.splits option.splits)

lemma verify_with_registry_key_clean:
  assumes "verify_with_registry_key env ev ctxId receipt body hash fp = Inr (c, [], [])"
  shows "co_ran c \<and> (\<exists>did keyId resolved f. authorityToDidWeb (ce_registryAuthority ev) = Some did
     \<and> sig_member receipt ''key_id'' = Some keyId \<and> ab_stripFragment (au_binding env) keyId = did
     \<and> au_resolveReceiptKey env keyId ''ed25519'' = Inr resolved \<and> rr_historical resolved = co_historical c
     \<and> ab_verifyReceipt (au_binding env) = Some f \<and> f (JObj receipt) body (rk_publicKeyB64 (rr_key resolved)) ctxId hash fp = Inr ())"
proof -
  obtain keyId where k: "sig_member receipt ''key_id'' = Some keyId"
    using assms by (auto simp: verify_with_registry_key_def Let_def split: option.splits)
  with assms obtain did where d: "authorityToDidWeb (ce_registryAuthority ev) = Some did" "ab_stripFragment (au_binding env) keyId = did"
    by (auto simp: verify_with_registry_key_def Let_def split: option.splits if_splits)
  with assms k obtain resolved where r: "au_resolveReceiptKey env keyId ''ed25519'' = Inr resolved"
    by (auto simp: verify_with_registry_key_def Let_def split: if_splits sum.splits)
  with assms k d obtain x where x: "verifyReceipt (au_binding env) (JObj receipt) body (rk_publicKeyB64 (rr_key resolved)) ctxId hash fp = Inr x"
    and cx: "(case x of
                Inl (MalformedBody, reason) \<Rightarrow> (not_run (Some fp), [], [NoteBody reason])
              | Inl (CtxIdRejected, reason) \<Rightarrow> (not_run (Some fp), [], [NoteCtxRejected reason])
              | Inl (ReceiptDishonest, reason) \<Rightarrow> (not_run (Some fp), [ReceiptInvalid reason], [])
              | Inr _ \<Rightarrow> (\<lparr>co_ran = True, co_historical = rr_historical resolved, co_producerFp = Some fp\<rparr>, [], [])) = (c, [], [])"
    by (auto simp: verify_with_registry_key_def Let_def bind_simps split: if_splits)
  from cx have "x = Inr () \<and> c = \<lparr>co_ran = True, co_historical = rr_historical resolved, co_producerFp = Some fp\<rparr>"
    by (auto split: sum.splits prod.splits receipt_failure.splits)
  with x k d r show ?thesis by (auto simp: verifyReceipt_def split: option.splits sum.splits)
qed

lemma verifyCryptographically_clean:
  assumes "verifyCryptographically env ev receipt = Inr (c, [], [])" "co_ran c"
  obtains ctxId base body hash fp where "ce_ctxId ev = Some ctxId" "ctxId \<noteq> []"
    "au_findByAuthority env (ce_registryAuthority ev) (ce_tenantId ev) = Some base" "fetch_context env base ctxId = Inr body"
    "as_string (get_prop (props_of body) ''content_hash'') = Some hash" "verifyContentHash (au_binding env) body hash = Inr ()"
    "producer_fingerprint env ev body receipt fp" "verify_with_registry_key env ev ctxId receipt body hash fp = Inr (c, [], [])"
proof -
  have s: "sdkSupportsReceipts (au_binding env)"
    using assms by (auto simp: verifyCryptographically_def not_run_def Let_def split: if_splits)
  obtain ctxId where x: "ce_ctxId ev = Some ctxId" "ctxId \<noteq> []" "isCanonicalCtxId ctxId"
    using assms s by (auto simp: verifyCryptographically_def Let_def split: if_splits option.splits)
  obtain base where b: "au_findByAuthority env (ce_registryAuthority ev) (ce_tenantId ev) = Some base" "base \<noteq> []"
    using assms s x by (auto simp: verifyCryptographically_def Let_def split: if_splits option.splits)
  obtain body where y: "fetch_context env base ctxId = Inr body"
    using assms s x b by (auto simp: verifyCryptographically_def Let_def split: if_splits sum.splits)
  obtain hash where h: "as_string (get_prop (props_of body) ''content_hash'') = Some hash" "hash \<noteq> []"
    using assms s x b y by (auto simp: verifyCryptographically_def Let_def split: if_splits option.splits)
  have v: "verifyContentHash (au_binding env) body hash = Inr ()"
    using assms s x b y h by (auto simp: verifyCryptographically_def Let_def split: sum.splits)
  obtain fpo fl nt where p: "resolveProducerFingerprint env ev body receipt = (fpo, fl, nt)" by (metis prod.exhaust)
  have "\<exists>fp. fpo = Some fp \<and> fl = [] \<and> nt = [] \<and> verify_with_registry_key env ev ctxId receipt body hash fp = Inr (c, [], [])"
    using assms s x b y h v p
    by (cases fpo) (auto simp: verifyCryptographically_def Let_def not_run_def bind_simps split: prod.splits)
  with x b y h v p that resolveProducerFingerprint_clean show ?thesis by blast
qed

lemma withRevocationClassification_base:
  assumes "withRevocationClassification env facts ev b fp = Inr v"
  shows "bv_status v = bv_status b" "bv_receiptCreatedAt v = bv_receiptCreatedAt b"
  using assms by (auto simp: withRevocationClassification_def with_class_def bind_simps split: if_splits option.splits)

lemma structural_flags_clean:
  assumes "structural_flags env ev receipt = []" "ce_ctxId ev = Some ctxId" "ctxId \<noteq> []" "authorityToDidWeb (ce_registryAuthority ev) = Some did"
  shows "as_string (get_prop receipt ''ctx_id'') = Some ctxId" "as_string (get_prop receipt ''origin_registry'') = Some (ce_registryAuthority ev)"
    "as_string (get_prop receipt ''registry_did'') = Some did"
  using assms by (auto simp: structural_flags_def Let_def nonempty_def split: if_splits)

lemma auditEventInner_receipt:
  assumes "auditEventInner env facts ev = Inr v" "fully_verified (bv_status v)"
  obtains rv c where "get_prop (ce_rawPayload ev) ''registry_receipt'' = Some rv" "verifyCryptographically env ev (props_of rv) = Inr (c, [], [])"
    "co_ran c" "structural_flags env ev (props_of rv) = []" "bv_status v = (if co_historical c then AVerifiedHistorical else AVerified)"
proof (cases "object_member (get_prop (ce_rawPayload ev) ''registry_receipt'')")
  case None
  with assms show ?thesis
    by (auto simp: auditEventInner_def fully_verified_def split: if_splits dest!: withRevocationClassification_base(1))
next
  case (Some rv)
  let ?r = "props_of rv"
  have g: "get_prop (ce_rawPayload ev) ''registry_receipt'' = Some rv"
    using Some by (auto simp: object_member_def split: option.splits json.splits)
  obtain c fl nt where c: "verifyCryptographically env ev ?r = Inr (c, fl, nt)"
    using assms(1) Some by (auto simp: auditEventInner_def Let_def bind_simps)
  then have s: "bv_status v = verdict_status (structural_flags env ev ?r @ fl) (structural_notes ev @ nt) c"
    using assms(1) Some by (auto simp: auditEventInner_def Let_def dest!: withRevocationClassification_base(1))
  then have "structural_flags env ev ?r = []" "fl = []" "nt = []" "co_ran c"
    "bv_status v = (if co_historical c then AVerifiedHistorical else AVerified)"
    using assms(2) by (auto simp: verdict_status_def fully_verified_def split: if_splits)
  with g c that show ?thesis by simp
qed

lemma auditEventInner_genuine:
  assumes "auditEventInner env facts ev = Inr v" "fully_verified (bv_status v)"
  shows "genuine_receipt env ev (bv_status v = AVerifiedHistorical)"
proof -
  obtain rv c where rv: "get_prop (ce_rawPayload ev) ''registry_receipt'' = Some rv" "verifyCryptographically env ev (props_of rv) = Inr (c, [], [])"
    "co_ran c" and f: "structural_flags env ev (props_of rv) = []" and s: "bv_status v = (if co_historical c then AVerifiedHistorical else AVerified)"
    using assms by (rule auditEventInner_receipt)
  obtain ctxId base body hash fp where x: "ce_ctxId ev = Some ctxId" "ctxId \<noteq> []"
    "au_findByAuthority env (ce_registryAuthority ev) (ce_tenantId ev) = Some base" "fetch_context env base ctxId = Inr body"
    "as_string (get_prop (props_of body) ''content_hash'') = Some hash" "verifyContentHash (au_binding env) body hash = Inr ()"
    "producer_fingerprint env ev body (props_of rv) fp" "verify_with_registry_key env ev ctxId (props_of rv) body hash fp = Inr (c, [], [])"
    using rv(2,3) by (rule verifyCryptographically_clean)
  obtain did keyId resolved g where k: "authorityToDidWeb (ce_registryAuthority ev) = Some did" "sig_member (props_of rv) ''key_id'' = Some keyId"
    "ab_stripFragment (au_binding env) keyId = did" "au_resolveReceiptKey env keyId ''ed25519'' = Inr resolved" "rr_historical resolved = co_historical c"
    "ab_verifyReceipt (au_binding env) = Some g" "g (JObj (props_of rv)) body (rk_publicKeyB64 (rr_key resolved)) ctxId hash fp = Inr ()"
    using verify_with_registry_key_clean [OF x(8)] by blast
  have "co_historical c = (bv_status v = AVerifiedHistorical)" using s by simp
  with rv(1) x k structural_flags_clean [OF f x(1,2) k(1)] show ?thesis unfolding genuine_receipt_def by fastforce
qed

lemma auditEvent_genuine:
  assumes "fully_verified (bv_status (auditEvent env facts ev))"
  shows "genuine_receipt env ev (bv_status (auditEvent env facts ev) = AVerifiedHistorical)"
proof (cases "auditEventInner env facts ev")
  case (Inr v)
  then show ?thesis using assms auditEventInner_genuine [OF Inr] by (simp add: auditEvent_def)
qed (use assms in \<open>simp add: auditEvent_def fully_verified_def\<close>)

section \<open>The signature of a did:web body\<close>

definition other_verifier :: "acdp_verifier \<Rightarrow> audit_env \<Rightarrow> audit_env" where
  "other_verifier V env = env\<lparr>au_binding := (au_binding env)\<lparr>ab_verifier := V\<rparr>\<rparr>"

lemma other_verifier_binding [simp]:
  "verifyBodyOffline (au_binding (other_verifier V env)) = verifyBodyOffline (au_binding env)"
  "fingerprintEd25519B64 (au_binding (other_verifier V env)) = fingerprintEd25519B64 (au_binding env)"
  "verifyReceipt (au_binding (other_verifier V env)) = verifyReceipt (au_binding env)"
  "verifyContentHash (au_binding (other_verifier V env)) = verifyContentHash (au_binding env)"
  "explainHashMismatch (au_binding (other_verifier V env)) = explainHashMismatch (au_binding env)"
  "sdkSupportsReceipts (au_binding (other_verifier V env)) = sdkSupportsReceipts (au_binding env)"
  "classifyKeyRevocation (au_binding (other_verifier V env)) = classifyKeyRevocation (au_binding env)"
  "ab_stripFragment (au_binding (other_verifier V env)) = ab_stripFragment (au_binding env)"
  by (simp_all add: other_verifier_def fun_eq_iff verifyBodyOffline_def fingerprintEd25519B64_def verifyReceipt_def verifyContentHash_def
      explainHashMismatch_def sdkSupportsReceipts_def classifyKeyRevocation_def)

lemma other_verifier_env [simp]:
  "au_resolveKey (other_verifier V env) = au_resolveKey env" "au_resolveReceiptKey (other_verifier V env) = au_resolveReceiptKey env"
  "au_findByAuthority (other_verifier V env) = au_findByAuthority env" "au_fed (other_verifier V env) = au_fed env"
  "au_profile (other_verifier V env) = au_profile env" "au_dateParse (other_verifier V env) = au_dateParse env"
  "au_checkEnabled (other_verifier V env) = au_checkEnabled env" "au_ignoreFingerprints (other_verifier V env) = au_ignoreFingerprints env"
  "au_attestedScope (other_verifier V env) = au_attestedScope env"
  by (simp_all add: other_verifier_def)

lemma other_verifier_audit:
  "resolveProducerFingerprint (other_verifier V env) = resolveProducerFingerprint env"
  "verify_with_registry_key (other_verifier V env) = verify_with_registry_key env"
  "fetch_context (other_verifier V env) = fetch_context env"
  "claimed_ms (other_verifier V env) = claimed_ms env"
  "filterApplicableRevocations (other_verifier V env) = filterApplicableRevocations env"
  unfolding fun_eq_iff resolveProducerFingerprint_def verify_with_registry_key_def fetch_context_def claimed_ms_def filterApplicableRevocations_def
    other_verifier_env other_verifier_binding by simp_all

lemma other_verifier_steps:
  "structural_flags (other_verifier V env) = structural_flags env"
  "classifyRevocationForEvent (other_verifier V env) = classifyRevocationForEvent env"
  unfolding fun_eq_iff structural_flags_def classifyRevocationForEvent_def other_verifier_env other_verifier_binding other_verifier_audit by simp_all

lemma other_verifier_inner:
  "withRevocationClassification (other_verifier V env) = withRevocationClassification env"
  "verifyCryptographically (other_verifier V env) = verifyCryptographically env"
  unfolding fun_eq_iff withRevocationClassification_def verifyCryptographically_def Let_def other_verifier_env other_verifier_binding
    other_verifier_audit other_verifier_steps by simp_all

text \<open>The receipt audit never checks the signature of a body: its verdict on an event is the same whatever the signature verifier
  answers. Only a \<open>did:key\<close> body is verified, by the offline check; a \<open>did:web\<close> body counts as verified with any signature value.\<close>

theorem audit_ignores_body_signature: "auditEvent (other_verifier V env) facts ev = auditEvent env facts ev"
  unfolding auditEvent_def auditEventInner_def other_verifier_env other_verifier_inner other_verifier_audit other_verifier_steps by (rule refl)

end
