(* ===== verification/AuditClassification.thy ===== *)
theory AuditClassification
  imports AuditSafety
begin

text \<open>
  Classification under revocation facts: when an event is excused as signed before the compromise, and how the re-audit reaches verdicts
  that were sealed before the fact was known.
\<close>

section \<open>Events before the compromise\<close>

text \<open>Documented behaviour of \<open>classifyUnderRevocation\<close>: without a receipt time it never reports an authorisation before the compromise.\<close>

definition needs_receipt_time :: "audit_binding \<Rightarrow> bool" where
  "needs_receipt_time B = (\<forall>f rows fp parsed. ab_classify B = Some f \<longrightarrow> f rows fp None = Inr (Some parsed)
     \<longrightarrow> get_prop (props_of parsed) ''authorization'' \<noteq> Some (JStr ''historically_authorized_pre_compromise''))"

lemma classifyKeyRevocation_pre:
  assumes "needs_receipt_time B" "classifyKeyRevocation B rows fp created = Inr (Revoked PreCompromise b tc src)"
  shows "created \<noteq> None"
proof
  assume n: "created = None"
  obtain f parsed where "ab_classify B = Some f" "f (map toRevocationJson rows) fp None = Inr (Some parsed)"
    "get_prop (props_of parsed) ''authorization'' = Some (JStr ''historically_authorized_pre_compromise'')"
    using assms(2) n by (auto simp: classifyKeyRevocation_def split: if_splits option.splits sum.splits json.splits)
  with assms(1) show False unfolding needs_receipt_time_def by blast
qed

lemma classifyRevocationForEvent_pre:
  assumes "needs_receipt_time (au_binding env)" "classifyRevocationForEvent env facts ev fp created = Inr (Revoked PreCompromise b tc src)"
  shows "created \<noteq> None"
  using assms(2) classifyKeyRevocation_pre [OF assms(1)] by (auto simp: classifyRevocationForEvent_def Let_def split: if_splits)

lemma withRevocationClassification_pre:
  assumes "needs_receipt_time (au_binding env)" "withRevocationClassification env facts ev b fp = Inr v" "vd_class v = Revoked PreCompromise bd tc src"
  shows "fully_verified (bv_status v)"
proof -
  obtain fp' where "classifyRevocationForEvent env facts ev fp'
      (if fully_verified (bv_status b) then Option.bind (bv_receiptCreatedAt b) (au_dateParse env) else None) = Inr (Revoked PreCompromise bd tc src)"
    using assms(2,3) by (auto simp: withRevocationClassification_def with_class_def bind_simps split: if_splits option.splits)
  from classifyRevocationForEvent_pre [OF assms(1) this] have "fully_verified (bv_status b)" by (auto split: if_splits)
  then show ?thesis using withRevocationClassification_base(1) [OF assms(2)] by simp
qed

lemma auditEventInner_classified:
  assumes "auditEventInner env facts ev = Inr v"
  obtains b fp where "withRevocationClassification env facts ev b fp = Inr v"
  using assms by (auto simp: auditEventInner_def Let_def bind_simps split: option.splits)

lemma auditEvent_pre:
  assumes "needs_receipt_time (au_binding env)" "vd_class (auditEvent env facts ev) = Revoked PreCompromise bd tc src"
  shows "fully_verified (bv_status (auditEvent env facts ev))"
proof (cases "auditEventInner env facts ev")
  case (Inr v)
  obtain b fp where "withRevocationClassification env facts ev b fp = Inr v" using Inr by (rule auditEventInner_classified)
  then show ?thesis using withRevocationClassification_pre [OF assms(1)] assms(2) Inr by (simp add: auditEvent_def)
qed (use assms(2) in \<open>simp add: auditEvent_def\<close>)

section \<open>The re-audit\<close>

definition earliest_ms :: "key_revocation list \<Rightarrow> int" where
  "earliest_ms rows = Min ((\<lambda>r. now_ms (kr_compromisedSince r)) ` set rows)"

text \<open>Documented answer of \<open>classifyUnderRevocation\<close> for one call: the boundary is the earliest \<open>compromised_since\<close>.\<close>

definition answers_boundary :: "audit_binding \<Rightarrow> key_revocation list \<Rightarrow> string \<Rightarrow> int option \<Rightarrow> bool" where
  "answers_boundary B rows fp created = (\<exists>f ob. ab_classify B = Some f
     \<and> f (map toRevocationJson rows) fp (map_option toISOString created) = Inr (Some (JObj ob))
     \<and> get_prop ob ''boundary'' = Some (JStr (toISOString (earliest_ms rows))))"

definition row_time :: "audit_row \<Rightarrow> int option" where
  "row_time r = (if fully_verified (ra_status r) then map_option now_ms (ra_receiptCreatedAt r) else None)"

text \<open>What the re-audit of a fingerprint relies on: the binding answers every call it makes, and the column reads an ISO time back.\<close>

definition reaudit_ready :: "audit_env \<Rightarrow> key_revocation list \<Rightarrow> string \<Rightarrow> audit_row list \<Rightarrow> bool" where
  "reaudit_ready env found fp rows = ((\<forall>r \<in> set rows. \<forall>authority. filterApplicableRevocations env found authority \<noteq> []
       \<longrightarrow> answers_boundary (au_binding env) (filterApplicableRevocations env found authority) fp (row_time r))
     \<and> (\<forall>r \<in> set found. au_pgTime env (toISOString (now_ms (kr_compromisedSince r))) = Some (now_ms (kr_compromisedSince r) * 1000)))"

definition row_ok :: "audit_row \<Rightarrow> bool" where
  "row_ok r = (ra_keyRevocationStatus r = None \<or> ra_compromiseBoundary r \<noteq> None)"

definition settled :: "clock \<Rightarrow> audit_row \<Rightarrow> bool" where
  "settled b r = (ra_keyRevocationStatus r \<noteq> None \<and> (\<exists>x. ra_compromiseBoundary r = Some x \<and> x \<le> b))"

lemma settled_tightened: "settled b r \<Longrightarrow> tightened r r' \<Longrightarrow> settled b r'"
  by (auto simp: settled_def tightened_def amend_row_def boundary_after_def)

lemma row_ok_tightened: "row_ok r \<Longrightarrow> tightened r r' \<Longrightarrow> row_ok r'"
  by (auto simp: row_ok_def tightened_def amend_row_def)

text \<open>Every step of the loop is a map over the rows by tightening functions.\<close>

definition tightening :: "(audit_row \<Rightarrow> audit_row) \<Rightarrow> bool" where
  "tightening g = (\<forall>r. tightened r (g r) \<and> ra_eventId (g r) = ra_eventId r \<and> ra_tenantId (g r) = ra_tenantId r)"

definition amend_fun :: "string \<Rightarrow> string \<Rightarrow> revoked_kind \<Rightarrow> trust_class \<Rightarrow> clock \<Rightarrow> (string \<times> string) list \<Rightarrow> audit_row \<Rightarrow> audit_row" where
  "amend_fun t e k tc b src r = (if ra_eventId r = e \<and> ra_tenantId r = t \<and> (ra_keyRevocationStatus r = None \<or> boundary_after r b)
     then amend_row k tc b src r else r)"

lemma amendKeyRevocation_map: "amendKeyRevocation t e k tc b src rows = map (amend_fun t e k tc b src) rows"
  by (simp add: amendKeyRevocation_def amend_fun_def)

lemma tightening_id: "tightening id"
  by (simp add: tightening_def)

lemma tightening_amend: "tightening (amend_fun t e k tc b src)"
  by (auto simp: tightening_def amend_fun_def tightened_amend amend_row_def [THEN arg_cong [of _ _ ra_eventId]] amend_row_def [THEN arg_cong [of _ _ ra_tenantId]])

lemma tightening_comp: "tightening g \<Longrightarrow> tightening h \<Longrightarrow> tightening (h \<circ> g)"
  unfolding tightening_def comp_def using tightened_trans by metis

lemma reaudit_loop_map: "\<exists>g. tightening g \<and> reaudit_loop env found t fp cs rows = map g rows"
proof (induction cs arbitrary: rows)
  case Nil
  then show ?case using tightening_id by (metis list.map_id reaudit_loop.simps(1) id_def list.map_ident)
next
  case (Cons c cs)
  obtain r authority where c: "c = (r, authority)" by (cases c)
  let ?cl = "classifyKeyRevocation (au_binding env) (filterApplicableRevocations env found authority) fp (row_time r)"
  show ?case
  proof (cases "\<exists>k boundary tc src b. ?cl = Inr (Revoked k boundary tc src) \<and> au_pgTime env boundary = Some b")
    case True
    then obtain k boundary tc src b where k: "?cl = Inr (Revoked k boundary tc src)" "au_pgTime env boundary = Some b" by blast
    obtain g where "tightening g" "reaudit_loop env found t fp cs (map (amend_fun t (ra_eventId r) k tc b src) rows)
        = map g (map (amend_fun t (ra_eventId r) k tc b src) rows)" using Cons.IH by blast
    moreover from this(1) have "tightening (g \<circ> amend_fun t (ra_eventId r) k tc b src)" using tightening_amend tightening_comp by blast
    moreover have "reaudit_loop env found t fp (c # cs) rows = reaudit_loop env found t fp cs (map (amend_fun t (ra_eventId r) k tc b src) rows)"
      using k c by (simp add: Let_def amendKeyRevocation_map row_time_def)
    ultimately show ?thesis by (metis list.map_comp)
  next
    case False
    then have "reaudit_loop env found t fp (c # cs) rows = reaudit_loop env found t fp cs rows"
      using c by (auto simp: Let_def row_time_def split: sum.split kr_class.split option.split)
    then show ?thesis using Cons.IH by simp
  qed
qed

lemma reaudit_loop_head:
  assumes "classifyKeyRevocation (au_binding env) (filterApplicableRevocations env found authority) fp (row_time r) = Inr (Revoked k boundary tc src)"
    "au_pgTime env boundary = Some b"
  shows "reaudit_loop env found t fp ((r, authority) # cs) rows = reaudit_loop env found t fp cs (map (amend_fun t (ra_eventId r) k tc b src) rows)"
  using assms by (simp add: Let_def amendKeyRevocation_map row_time_def)

lemma earliest_ms_mem: "rows \<noteq> [] \<Longrightarrow> \<exists>r \<in> set rows. earliest_ms rows = now_ms (kr_compromisedSince r)"
proof -
  assume "rows \<noteq> []"
  then have "earliest_ms rows \<in> (\<lambda>r. now_ms (kr_compromisedSince r)) ` set rows" unfolding earliest_ms_def by (intro Min_in) simp_all
  then show ?thesis by blast
qed

lemma earliest_ms_le: "r \<in> set rows \<Longrightarrow> earliest_ms rows \<le> now_ms (kr_compromisedSince r)"
  unfolding earliest_ms_def by simp

lemma now_ms_le: "now_ms us * 1000 \<le> us"
  by (simp add: now_ms_def minus_mod_eq_div_mult [symmetric])

lemma ready_classifies:
  assumes "reaudit_ready env found fp rows" "r \<in> set rows" "filterApplicableRevocations env found authority \<noteq> []"
  obtains k tc src where "classifyKeyRevocation (au_binding env) (filterApplicableRevocations env found authority) fp (row_time r)
      = Inr (Revoked k (toISOString (earliest_ms (filterApplicableRevocations env found authority))) tc src)"
    "au_pgTime env (toISOString (earliest_ms (filterApplicableRevocations env found authority)))
      = Some (earliest_ms (filterApplicableRevocations env found authority) * 1000)"
proof -
  let ?a = "filterApplicableRevocations env found authority"
  have "answers_boundary (au_binding env) ?a fp (row_time r)" using assms by (auto simp: reaudit_ready_def)
  then obtain k tc src where "classifyKeyRevocation (au_binding env) ?a fp (row_time r) = Inr (Revoked k (toISOString (earliest_ms ?a)) tc src)"
    using assms(3) by (auto simp: answers_boundary_def classifyKeyRevocation_def props_of_def)
  moreover obtain q where "q \<in> set ?a" "earliest_ms ?a = now_ms (kr_compromisedSince q)" using earliest_ms_mem [OF assms(3)] by blast
  moreover from this have "q \<in> set found" by (auto simp: filterApplicableRevocations_def)
  ultimately show ?thesis using assms(1) that by (auto simp: reaudit_ready_def)
qed

lemma amend_fun_settles: "row_ok r \<Longrightarrow> ra_eventId r = e \<Longrightarrow> ra_tenantId r = t \<Longrightarrow> settled b (amend_fun t e k tc b src r)"
  by (auto simp: amend_fun_def settled_def amend_row_def row_ok_def boundary_after_def split: option.splits)

lemma reaudit_loop_settles:
  assumes "reaudit_ready env found fp rows0" "(r, authority) \<in> set cs" "r \<in> set rows0" "filterApplicableRevocations env found authority \<noteq> []"
    "list_all row_ok rows" "r' \<in> set (reaudit_loop env found t fp cs rows)" "ra_eventId r' = ra_eventId r" "ra_tenantId r' = t"
  shows "settled (earliest_ms (filterApplicableRevocations env found authority) * 1000) r'"
  using assms(2,5,6)
proof (induction cs arbitrary: rows)
  case (Cons c cs)
  let ?b = "earliest_ms (filterApplicableRevocations env found authority) * 1000"
  show ?case
  proof (cases "c = (r, authority)")
    case True
    obtain k tc src where k: "classifyKeyRevocation (au_binding env) (filterApplicableRevocations env found authority) fp (row_time r)
        = Inr (Revoked k (toISOString (earliest_ms (filterApplicableRevocations env found authority))) tc src)"
      "au_pgTime env (toISOString (earliest_ms (filterApplicableRevocations env found authority))) = Some ?b"
      using ready_classifies [OF assms(1,3,4)] .
    obtain g where g: "tightening g" "reaudit_loop env found t fp cs (map (amend_fun t (ra_eventId r) k tc ?b src) rows)
        = map g (map (amend_fun t (ra_eventId r) k tc ?b src) rows)" using reaudit_loop_map by blast
    with Cons.prems(3) True reaudit_loop_head [OF k] obtain q where q: "q \<in> set rows" "r' = g (amend_fun t (ra_eventId r) k tc ?b src q)"
      by auto
    moreover from this g(1) assms(7,8) have "ra_eventId q = ra_eventId r" "ra_tenantId q = t"
      using tightening_amend [of t "ra_eventId r" k tc ?b src] unfolding tightening_def by metis+
    ultimately have "settled ?b (amend_fun t (ra_eventId r) k tc ?b src q)" using amend_fun_settles Cons.prems(2) by (auto simp: list_all_iff)
    then show ?thesis using settled_tightened g(1) q(2) unfolding tightening_def by blast
  next
    case False
    obtain g where g: "tightening g" "reaudit_loop env found t fp [c] rows = map g rows" using reaudit_loop_map by blast
    have "reaudit_loop env found t fp (c # cs) rows = reaudit_loop env found t fp cs (reaudit_loop env found t fp [c] rows)"
      by (cases c) (auto simp: Let_def split: sum.split kr_class.split option.split)
    moreover have "list_all row_ok (map g rows)" using Cons.prems(2) g(1) row_ok_tightened by (auto simp: list_all_iff tightening_def)
    ultimately show ?thesis using Cons.IH [of "map g rows"] Cons.prems False g(2) by auto
  qed
qed simp

lemma foldl_pick: "foldl (\<lambda>m iso. if iso < m then iso else m) (x :: string) xs \<in> insert x (set xs)"
proof (induction xs arbitrary: x)
  case (Cons a xs)
  show ?case using Cons [of a] Cons [of x] by (cases "a < x") auto
qed simp

lemma least_iso_mem: "found \<noteq> [] \<Longrightarrow> \<exists>r \<in> set found. least_iso found = toISOString (now_ms (kr_compromisedSince r))"
proof (cases found)
  case (Cons r rs)
  then have "least_iso found \<in> set (map (\<lambda>r. iso_instant (kr_compromisedSince r)) found)"
    using foldl_pick [of "iso_instant (kr_compromisedSince r)" "map (\<lambda>r. iso_instant (kr_compromisedSince r)) rs"] by (auto simp: least_iso_def)
  then show ?thesis by (auto simp: iso_instant_def)
qed simp

lemma reaudit_candidate:
  assumes "\<And>xs. set (shuffle xs) = set xs \<and> length (shuffle xs) = length xs" "length rows * length events \<le> limit"
    "r \<in> set rows" "ra_tenantId r = t" "ra_keyRevocationStatus r = None"
    "ev \<in> set events" "ce_id ev = ra_eventId r" "ce_tenantId ev = t" "ce_keyFingerprint ev = Some fp"
  shows "(r, ce_registryAuthority ev) \<in> set (findRevocationAmendmentCandidates shuffle t fp m limit events rows)"
proof -
  define f where "f = (\<lambda>r :: audit_row. map (\<lambda>ev. (r, ce_registryAuthority ev))
    (filter (\<lambda>ev. ce_id ev = ra_eventId r \<and> ce_tenantId ev = t \<and> ce_keyFingerprint ev = Some fp) events))"
  define P where "P = (\<lambda>r :: audit_row. ra_tenantId r = t \<and> (ra_keyRevocationStatus r = None \<or> (case m of Some x \<Rightarrow> boundary_after r x | None \<Rightarrow> False)))"
  have "length (concat (map f rs)) \<le> length rs * length events" for rs
    by (induction rs) (auto simp: f_def le_trans [OF length_filter_le] intro: add_mono)
  then have "length (concat (map f (filter P rows))) \<le> length (filter P rows) * length events" .
  also have "\<dots> \<le> length rows * length events" by (rule mult_le_mono1) (rule length_filter_le)
  also note assms(2)
  finally have "take limit (shuffle (concat (map f (filter P rows)))) = shuffle (concat (map f (filter P rows)))" using assms(1) by simp
  moreover have "(r, ce_registryAuthority ev) \<in> set (concat (map f (filter P rows)))" using assms(3-9) by (auto simp: f_def P_def)
  ultimately show ?thesis using assms(1) by (simp add: findRevocationAmendmentCandidates_def f_def P_def)
qed

lemma reauditForFingerprint_settles:
  assumes "reaudit_ready env (findByFingerprint fp t facts) fp rows" "au_checkEnabled env" "ab_classify (au_binding env) \<noteq> None"
    "fp \<notin> set (au_ignoreFingerprints env)" "list_all row_ok rows"
    "\<And>xs. set (shuffle xs) = set xs \<and> length (shuffle xs) = length xs" "length rows * length events \<le> au_batchSize env"
    "r \<in> set rows" "ra_tenantId r = t" "ra_keyRevocationStatus r = None"
    "ev \<in> set events" "ce_id ev = ra_eventId r" "ce_tenantId ev = t" "ce_keyFingerprint ev = Some fp"
    "fct \<in> set (filterApplicableRevocations env (findByFingerprint fp t facts) (ce_registryAuthority ev))"
    "r' \<in> set (reauditForFingerprint env shuffle t fp events facts rows)" "ra_eventId r' = ra_eventId r" "ra_tenantId r' = t"
  shows "settled (kr_compromisedSince fct) r'"
proof -
  let ?found = "findByFingerprint fp t facts"
  let ?a = "filterApplicableRevocations env ?found (ce_registryAuthority ev)"
  have "?found \<noteq> []" using assms(15) by (auto simp: filterApplicableRevocations_def)
  then obtain q where "q \<in> set ?found" "least_iso ?found = toISOString (now_ms (kr_compromisedSince q))" using least_iso_mem by blast
  then obtain m where m: "au_pgTime env (least_iso ?found) = Some m" using assms(1) by (auto simp: reaudit_ready_def)
  have "r' \<in> set (reaudit_loop env ?found t fp
      (findRevocationAmendmentCandidates shuffle t fp (Some m) (au_batchSize env) events rows) rows)"
    using assms(2-4,16) \<open>?found \<noteq> []\<close> m by (simp add: reauditForFingerprint_def Let_def sdkSupportsRevocationClassification_def)
  with reaudit_loop_settles [OF assms(1) reaudit_candidate [OF assms(6-14)] assms(8) _ assms(5) this assms(17,18)] assms(15)
  have "settled (earliest_ms ?a * 1000) r'" by force
  moreover have "earliest_ms ?a * 1000 \<le> kr_compromisedSince fct"
    using earliest_ms_le [OF assms(15)] now_ms_le [of "kr_compromisedSince fct"] by simp
  ultimately show ?thesis by (auto simp: settled_def)
qed

end
