(* ===== verification/AuditScenarios.thy ===== *)
theory AuditScenarios
  imports AuditClassification
begin

text \<open>
  Properties of the audits with their instances, and four histories in which the code does less than its comments say: a receipt time that
  stops the receipt sweep, a fingerprint that hides a revoked \<open>did:key\<close>, a lineage member that occupies another revocation's key, and
  (in \<open>AuditSafety\<close>) a body whose signature nobody checks.
\<close>

section \<open>A sample environment\<close>

definition sample_audit_binding :: audit_binding where
  "sample_audit_binding = \<lparr>
     ab_verifyContentHash = (\<lambda>b h. Inr ()),
     ab_verifyReceipt = Some (\<lambda>r b k c h f. Inr ()),
     ab_fingerprint = Some (\<lambda>k. Inr ''sha256:real''),
     ab_verifyBodyOffline = Some (\<lambda>b. Inr ()),
     ab_explainHashMismatch = None,
     ab_verifyCtxIdBinding = Some (\<lambda>b c. if member_ctx b = Some c then Inr () else Inl \<lparr>sx_code = None, sx_message = ''context substitution: ''\<rparr>),
     ab_parseKeyRevocation = Some (\<lambda>b f. Inr (Some (JObj [(''trust_class'', JStr ''producer_signed''),
       (''revoked_key_fingerprint'', JStr (str_or_empty (get_prop (props_of b) ''revoked_key_fingerprint''))),
       (''compromised_since'', JStr ''2026-01-01T00:00:00.000Z'')]))),
     ab_classify = Some (\<lambda>rows f t. Inr (Some (JObj [(''authorization'', JStr (if t = None then ''none'' else ''historically_authorized_pre_compromise'')),
       (''boundary'', JStr ''2026-01-01T00:00:00.000Z'')]))),
     ab_stripFragment = takeWhile (\<lambda>c. c \<noteq> CHR ''#''),
     ab_verifier = \<lparr>av_verifySignature = (\<lambda>k s m. Some True), av_verifySignatureP256 = (\<lambda>k s m. None)\<rparr>\<rparr>"

text \<open>\<open>Date.parse('1')\<close> is a time in V8, while PostgreSQL rejects \<open>'1'\<close> as a \<open>timestamptz\<close>.\<close>

definition sample_audit_env :: "federation_env \<Rightarrow> audit_env" where
  "sample_audit_env F = \<lparr>au_now = 1768000000000000, au_binding = sample_audit_binding, au_fed = F,
     au_findByAuthority = (\<lambda>a t. Some ''https://r.example''),
     au_profile = (\<lambda>a t. unreadable 0),
     au_resolveKey = (\<lambda>k a. Inr \<lparr>rk_keyId = k, rk_algorithm = ''ed25519'', rk_publicKeyB64 = k\<rparr>),
     au_resolveReceiptKey = (\<lambda>k a. Inr \<lparr>rr_key = \<lparr>rk_keyId = k, rk_algorithm = ''ed25519'', rk_publicKeyB64 = k\<rparr>, rr_historical = False\<rparr>),
     au_dateParse = (\<lambda>s. if s = ''1'' then Some 978307200000 else date_parse s),
     au_pgTime = (\<lambda>s. if s = ''1'' then None else map_option (\<lambda>ms. ms * 1000) (date_parse s)),
     au_checkEnabled = True, au_attestedScope = ''same_registry'', au_ignoreFingerprints = [], au_batchSize = 50,
     au_receiptLookbackHours = 24, au_revocationLookbackHours = 720, au_lineageCursorTtlHours = 1\<rparr>"

definition ctx_one :: string where "ctx_one = ''acdp://r.example/00000000-0000-4000-8000-000000000001''"
definition ctx_two :: string where "ctx_two = ''acdp://r.example/00000000-0000-4000-8000-000000000002''"

definition context_url :: "string \<Rightarrow> string" where
  "context_url ctx = ''https://r.example/contexts/'' @ encode_uri_component ctx"

definition sample_receipt :: "string \<Rightarrow> string \<Rightarrow> jobj" where
  "sample_receipt fp created = [(''ctx_id'', JStr ctx_one), (''key_fingerprint'', JStr fp), (''origin_registry'', JStr ''r.example''),
     (''registry_did'', JStr ''did:web:r.example''), (''created_at'', JStr created),
     (''signature'', JObj [(''key_id'', JStr ''did:web:r.example#k'')])]"

definition publish_event :: "string \<Rightarrow> string \<Rightarrow> string \<Rightarrow> clock \<Rightarrow> context_event" where
  "publish_event i fp created us = \<lparr>ce_id = i, ce_tenantId = ''t'', ce_eventType = ''context_published'', ce_runId = None, ce_ctxId = Some ctx_one,
     ce_lineageId = None, ce_agentId = ''did:key:z6Mk'', ce_contextType = None, ce_registryAuthority = ''r.example'', ce_keyFingerprint = Some fp,
     ce_rawPayload = [(''registry_receipt'', JObj (sample_receipt fp created))], ce_createdAt = us\<rparr>"

definition receipt_env :: audit_env where
  "receipt_env = sample_audit_env (audit_fed [(context_url ctx_one, 1)]
     [(1, JObj [(''body'', JObj [(''content_hash'', JStr ''sha256:h'')])])])"

definition revoked_fact :: key_revocation where
  "revoked_fact = \<lparr>kr_tenantId = ''t'', kr_ctxId = ctx_two, kr_revokedKeyFingerprint = ''sha256:real'', kr_compromisedSince = 1767225600000000,
     kr_revokedKeyController = [], kr_publisher = [], kr_trustClass = ProducerSigned, kr_revokedKeyId = None, kr_reason = None,
     kr_lineageId = ''l'', kr_originAuthority = ''r.example'', kr_contextType = ''key-revocation''\<rparr>"

lemma receipt_env_context:
  "fetch_context receipt_env ''https://r.example'' ctx_one = Inr (JObj [(''content_hash'', JStr ''sha256:h'')])"
proof -
  have "strip_slash ''https://r.example'' = ''https://r.example''" by code_simp
  then have "fst (federation_get (au_fed receipt_env) (strip_slash ''https://r.example'' @ ''/contexts/'' @ encode_uri_component ctx_one))
      = Inr \<lparr>fr_status = 200, fr_contentType = None, fr_body = [1]\<rparr>"
    unfolding receipt_env_def sample_audit_env_def by (simp add: context_url_def audit_fed_get)
  moreover have "fe_json (au_fed receipt_env) [1] = Some (JObj [(''body'', JObj [(''content_hash'', JStr ''sha256:h'')])])"
    by (simp add: receipt_env_def sample_audit_env_def audit_fed_def)
  ultimately show ?thesis by (simp add: fetch_context_def props_of_def get_prop_def object_member_def)
qed

section \<open>What a verified receipt stands for\<close>

lemma receipt_env_binding [simp]: "au_binding receipt_env = sample_audit_binding" "au_checkEnabled receipt_env" "au_ignoreFingerprints receipt_env = []"
  "au_findByAuthority receipt_env a t = Some ''https://r.example''"
  by (simp_all add: receipt_env_def sample_audit_env_def)

lemma ctx_one_canonical: "isCanonicalCtxId ctx_one" "ctx_one \<noteq> []"
  unfolding ctx_one_def by code_simp+

lemma sample_did: "authorityToDidWeb ''r.example'' = Some ''did:web:r.example''"
  by code_simp

lemma sample_receipt_members:
  "get_prop (sample_receipt fp created) ''ctx_id'' = Some (JStr ctx_one)" "get_prop (sample_receipt fp created) ''key_fingerprint'' = Some (JStr fp)"
  "get_prop (sample_receipt fp created) ''origin_registry'' = Some (JStr ''r.example'')"
  "get_prop (sample_receipt fp created) ''registry_did'' = Some (JStr ''did:web:r.example'')"
  "get_prop (sample_receipt fp created) ''created_at'' = Some (JStr created)"
  "get_prop (sample_receipt fp created) ''lineage_id'' = None"
  "sig_member (sample_receipt fp created) ''key_id'' = Some ''did:web:r.example#k''" "sig_member (sample_receipt fp created) ''algorithm'' = None"
  by (simp_all add: sample_receipt_def get_prop_def sig_member_def object_member_def props_of_def as_string_def)

lemma publish_event_crypto:
  "verifyCryptographically receipt_env (publish_event i fp created us) (sample_receipt fp created)
     = Inr (\<lparr>co_ran = True, co_historical = False, co_producerFp = Some fp\<rparr>, [], [])"
proof -
  let ?body = "JObj [(''content_hash'', JStr ''sha256:h'')]"
  have "resolveProducerFingerprint receipt_env (publish_event i fp created us) ?body (sample_receipt fp created) = (Some fp, [], [])"
    by (simp add: resolveProducerFingerprint_def publish_event_def starts_with_def verifyBodyOffline_def sample_audit_binding_def sample_receipt_members)
  moreover have "verify_with_registry_key receipt_env (publish_event i fp created us) ctx_one (sample_receipt fp created) ?body ''sha256:h'' fp
      = Inr (\<lparr>co_ran = True, co_historical = False, co_producerFp = Some fp\<rparr>, [], [])"
    by (simp add: verify_with_registry_key_def sample_receipt_members publish_event_def sample_did sample_audit_binding_def receipt_env_def
        sample_audit_env_def verifyReceipt_def Let_def)
  moreover have "as_string (get_prop (props_of ?body) ''content_hash'') = Some ''sha256:h''"
    by (simp add: props_of_def get_prop_def as_string_def)
  moreover have "verifyContentHash (au_binding receipt_env) ?body ''sha256:h'' = Inr ()" "sdkSupportsReceipts (au_binding receipt_env)"
    by (simp_all add: verifyContentHash_def sample_audit_binding_def sdkSupportsReceipts_def)
  moreover have "ce_ctxId (publish_event i fp created us) = Some ctx_one" by (simp add: publish_event_def)
  ultimately show ?thesis
    using receipt_env_context ctx_one_canonical by (simp add: verifyCryptographically_def)
qed

lemma publish_event_flags:
  assumes "au_dateParse receipt_env created = Some ms" "created \<noteq> []" "ms \<le> now_ms us"
  shows "structural_flags receipt_env (publish_event i fp created us) (sample_receipt fp created) = []"
    "structural_notes (publish_event i fp created us) = []"
  using assms by (simp_all add: structural_flags_def structural_notes_def publish_event_def sample_receipt_members sample_did as_string_def
      claimed_ms_def nonempty_def CLOCK_SKEW_TOLERANCE_MS_def)

lemma publish_event_verdict:
  assumes "au_dateParse receipt_env created = Some ms" "created \<noteq> []" "ms \<le> now_ms us"
  shows "auditEventInner receipt_env facts (publish_event i fp created us) = withRevocationClassification receipt_env facts (publish_event i fp created us)
     \<lparr>bv_status = AVerified, bv_discrepancies = [], bv_receiptCreatedAt = Some created, bv_skewMs = Some (now_ms us - ms)\<rparr> (Some fp)"
proof -
  have "get_prop (ce_rawPayload (publish_event i fp created us)) ''registry_receipt'' = Some (JObj (sample_receipt fp created))"
    "ce_createdAt (publish_event i fp created us) = us"
    by (simp_all add: publish_event_def get_prop_def)
  with assms publish_event_flags [OF assms, of i fp] show ?thesis
    by (simp add: auditEventInner_def object_member_def props_of_def publish_event_crypto sample_receipt_members verdict_status_def
        claimed_ms_def as_string_def)
qed

text \<open>A receipt the audit reports as verified is genuine: it names the event's context and its source registry, the registry serves a body
  whose hash recomputes, its key is a key of the registry's DID, and the binding accepts it for that body and the producer's fingerprint.\<close>

theorem verified_receipt_is_genuine:
  assumes "bv_status (auditEvent env facts ev) \<in> {AVerified, AVerifiedHistorical}"
  shows "genuine_receipt env ev (bv_status (auditEvent env facts ev) = AVerifiedHistorical)"
  using assms auditEvent_genuine by (auto simp: fully_verified_def)

theorem verified_receipt_is_genuine_witness:
  "bv_status (auditEvent receipt_env [] (publish_event ''e'' ''sha256:real'' ''2026-01-02T00:00:00.000Z'' 1767312000000000)) = AVerified
   \<and> genuine_receipt receipt_env (publish_event ''e'' ''sha256:real'' ''2026-01-02T00:00:00.000Z'' 1767312000000000) False"
proof -
  let ?ev = "publish_event ''e'' ''sha256:real'' ''2026-01-02T00:00:00.000Z'' 1767312000000000"
  have "date_parse ''2026-01-02T00:00:00.000Z'' = Some 1767312000000" by code_simp
  then have "au_dateParse receipt_env ''2026-01-02T00:00:00.000Z'' = Some 1767312000000" by (simp add: receipt_env_def sample_audit_env_def)
  then have "auditEventInner receipt_env [] ?ev = withRevocationClassification receipt_env [] ?ev
      \<lparr>bv_status = AVerified, bv_discrepancies = [], bv_receiptCreatedAt = Some ''2026-01-02T00:00:00.000Z'', bv_skewMs = Some 0\<rparr> (Some ''sha256:real'')"
    using publish_event_verdict [of "''2026-01-02T00:00:00.000Z''" 1767312000000] by (simp add: now_ms_def)
  then have s: "bv_status (auditEvent receipt_env [] ?ev) = AVerified"
    by (simp add: auditEvent_def withRevocationClassification_def classifyRevocationForEvent_def findByFingerprint_def with_class_def)
  then show ?thesis using verified_receipt_is_genuine [of receipt_env "[]" ?ev] by simp
qed

section \<open>Classification of audited events\<close>

lemma sample_time:
  "au_dateParse receipt_env ''2025-12-31T00:00:00.000Z'' = Some 1767139200000" "au_dateParse receipt_env ''1'' = Some 978307200000"
proof -
  have "date_parse ''2025-12-31T00:00:00.000Z'' = Some 1767139200000" by code_simp
  then show "au_dateParse receipt_env ''2025-12-31T00:00:00.000Z'' = Some 1767139200000" "au_dateParse receipt_env ''1'' = Some 978307200000"
    by (simp_all add: receipt_env_def sample_audit_env_def)
qed

lemma sample_classified:
  assumes "au_dateParse receipt_env created = Some ms" "created \<noteq> []" "ms \<le> now_ms us"
  shows "auditEvent receipt_env [revoked_fact] (publish_event i fp created us)
     = with_class \<lparr>bv_status = AVerified, bv_discrepancies = [], bv_receiptCreatedAt = Some created, bv_skewMs = Some (now_ms us - ms)\<rparr>
         (if fp = ''sha256:real'' then Revoked PreCompromise ''2026-01-01T00:00:00.000Z'' ProducerSigned [(ctx_two, [])] else Unrevoked)"
proof -
  have t: "ce_tenantId (publish_event i fp created us) = ''t''" "ce_registryAuthority (publish_event i fp created us) = ''r.example''"
    by (simp_all add: publish_event_def)
  have f: "findByFingerprint fp ''t'' [revoked_fact] = (if fp = ''sha256:real'' then [revoked_fact] else [])"
    by (auto simp: findByFingerprint_def revoked_fact_def)
  have "filterApplicableRevocations receipt_env [revoked_fact] ''r.example'' = [revoked_fact]"
    by (simp add: filterApplicableRevocations_def revoked_fact_def)
  moreover have "classifyKeyRevocation sample_audit_binding [revoked_fact] ''sha256:real'' (Some ms)
      = Inr (Revoked PreCompromise ''2026-01-01T00:00:00.000Z'' ProducerSigned [(ctx_two, [])])"
    by (simp add: classifyKeyRevocation_def sample_audit_binding_def props_of_def get_prop_def winning_class_def boundary_winners_def revoked_fact_def)
  ultimately have "classifyRevocationForEvent receipt_env [revoked_fact] (publish_event i fp created us) fp (Some ms)
      = Inr (if fp = ''sha256:real'' then Revoked PreCompromise ''2026-01-01T00:00:00.000Z'' ProducerSigned [(ctx_two, [])] else Unrevoked)"
    unfolding classifyRevocationForEvent_def t f Let_def by simp
  then show ?thesis
    unfolding auditEvent_def publish_event_verdict [OF assms]
    by (cases "fp = ''sha256:real''") (simp_all add: withRevocationClassification_def fully_verified_def assms)
qed

text \<open>C16. No excuse without a verified time: an event whose signing key is revoked is classified as signed before the compromise only if its
  receipt was verified in full, whatever the event and the registry claim.\<close>

theorem amnesty_needs_genuine_receipt:
  assumes "needs_receipt_time (au_binding env)" "vd_class (auditEvent env facts ev) = Revoked PreCompromise boundary tc sources"
  shows "\<exists>historical. genuine_receipt env ev historical"
  using auditEvent_genuine [OF auditEvent_pre [OF assms]] by blast

theorem amnesty_needs_genuine_receipt_witness:
  "vd_class (auditEvent receipt_env [revoked_fact] (publish_event ''e'' ''sha256:real'' ''2025-12-31T00:00:00.000Z'' 1767312000000000))
     = Revoked PreCompromise ''2026-01-01T00:00:00.000Z'' ProducerSigned [(ctx_two, [])]
   \<and> (\<exists>historical. genuine_receipt receipt_env (publish_event ''e'' ''sha256:real'' ''2025-12-31T00:00:00.000Z'' 1767312000000000) historical)"
proof -
  have "needs_receipt_time (au_binding receipt_env)"
    by (simp add: needs_receipt_time_def sample_audit_binding_def props_of_def get_prop_def)
  moreover have "vd_class (auditEvent receipt_env [revoked_fact] (publish_event ''e'' ''sha256:real'' ''2025-12-31T00:00:00.000Z'' 1767312000000000))
     = Revoked PreCompromise ''2026-01-01T00:00:00.000Z'' ProducerSigned [(ctx_two, [])]"
    using sample_classified [OF sample_time(1)] by (simp add: now_ms_def with_class_def)
  ultimately show ?thesis using amnesty_needs_genuine_receipt by blast
qed

text \<open>C34. A registry hides a revoked \<open>did:key\<close>: every key of the binding has the fingerprint \<open>sha256:real\<close>, which a recorded fact revokes,
  but the event is classified under the fingerprint its receipt claims. With any other claim the receipt is verified and the event counts
  as unrevoked.\<close>

theorem claimed_fingerprint_hides_revocation:
  "fingerprintEd25519B64 (au_binding receipt_env) key = Inr (kr_revokedKeyFingerprint revoked_fact)
   \<and> bv_status (auditEvent receipt_env [revoked_fact] (publish_event i fp ''2025-12-31T00:00:00.000Z'' 1767312000000000)) = AVerified
   \<and> (vd_class (auditEvent receipt_env [revoked_fact] (publish_event i fp ''2025-12-31T00:00:00.000Z'' 1767312000000000)) = Unrevoked
      \<longleftrightarrow> fp \<noteq> kr_revokedKeyFingerprint revoked_fact)"
  using sample_classified [OF sample_time(1), of 1767312000000000 i fp]
  by (simp add: now_ms_def with_class_def revoked_fact_def fingerprintEd25519B64_def sample_audit_binding_def)

section \<open>A receipt time the database rejects\<close>

lemma unreadable_time_stops_sweep:
  assumes "findUnauditedPublishes ((now_ms (au_now env) - au_receiptLookbackHours env * 60 * 60 * 1000) * 1000) (au_batchSize env) events rows = ev # rest"
    "get_prop (ce_rawPayload ev) ''registry_receipt'' = Some (JObj receipt)" "get_prop receipt ''created_at'' = Some (JStr s)" "s \<noteq> []"
    "au_dateParse env s \<noteq> None" "au_pgTime env s = None" "auditEventInner env facts ev = Inr v"
  shows "snd (receipt_sweep env True events facts rows) = rows"
proof -
  have "bv_receiptCreatedAt v = Some s"
    using assms(2-5,7) by (auto simp: auditEventInner_def object_member_def props_of_def claimed_ms_def as_string_def bind_simps Let_def
        dest!: withRevocationClassification_base(2))
  then have "column_time env (bv_receiptCreatedAt (auditEvent env facts ev)) = Inl ''invalid input syntax for type timestamp with time zone''"
    using assms(6,7) by (simp add: auditEvent_def column_time_def)
  then show ?thesis using assms(1) by (simp add: receipt_sweep_def toRow_def)
qed

text \<open>One event stops the receipt audit: while the oldest unaudited event carries a receipt whose \<open>created_at\<close> \<open>Date.parse\<close> accepts and the
  \<open>timestamptz\<close> column rejects, every sweep fails at its insert and records nothing, neither for this event nor for the later ones.\<close>

theorem unreadable_receipt_time_stops_audit:
  assumes "get_prop (ce_rawPayload ev) ''registry_receipt'' = Some (JObj receipt)" "get_prop receipt ''created_at'' = Some (JStr s)" "s \<noteq> []"
    and "\<And>env. env \<in> set envs \<Longrightarrow> \<exists>rest. findUnauditedPublishes ((now_ms (au_now env) - au_receiptLookbackHours env * 60 * 60 * 1000) * 1000)
      (au_batchSize env) events rows = ev # rest"
    and "\<And>env. env \<in> set envs \<Longrightarrow> au_dateParse env s \<noteq> None \<and> au_pgTime env s = None \<and> (\<exists>v. auditEventInner env facts ev = Inr v)"
  shows "fold (\<lambda>env rows. snd (receipt_sweep env True events facts rows)) envs rows = rows"
  using assms(4,5)
proof (induction envs)
  case (Cons env envs)
  have "\<exists>rest. findUnauditedPublishes ((now_ms (au_now env) - au_receiptLookbackHours env * 60 * 60 * 1000) * 1000) (au_batchSize env) events rows = ev # rest"
    "au_dateParse env s \<noteq> None" "au_pgTime env s = None" "\<exists>v. auditEventInner env facts ev = Inr v"
    using Cons.prems by simp_all
  then have "snd (receipt_sweep env True events facts rows) = rows" using unreadable_time_stops_sweep [OF _ assms(1-3)] by blast
  with Cons show ?case by simp
qed simp

theorem unreadable_receipt_time_stops_audit_witness:
  "fold (\<lambda>env rows. snd (receipt_sweep env True [publish_event ''bad'' ''fp'' ''1'' 1767990000000000, publish_event ''good'' ''fp'' ''2025-12-31T00:00:00.000Z'' 1767990000000001]
     [] rows)) [receipt_env, receipt_env] [] = []"
proof (rule unreadable_receipt_time_stops_audit [where ev = "publish_event ''bad'' ''fp'' ''1'' 1767990000000000" and receipt = "sample_receipt ''fp'' ''1''" and s = "''1''"])
  show "\<exists>rest. findUnauditedPublishes ((now_ms (au_now env) - au_receiptLookbackHours env * 60 * 60 * 1000) * 1000) (au_batchSize env)
      [publish_event ''bad'' ''fp'' ''1'' 1767990000000000, publish_event ''good'' ''fp'' ''2025-12-31T00:00:00.000Z'' 1767990000000001] []
      = publish_event ''bad'' ''fp'' ''1'' 1767990000000000 # rest" if "env \<in> set [receipt_env, receipt_env]" for env
    using that by (simp add: receipt_env_def sample_audit_env_def findUnauditedPublishes_def publish_event_def now_ms_def)
  show "au_dateParse env ''1'' \<noteq> None \<and> au_pgTime env ''1'' = None \<and> (\<exists>v. auditEventInner env [] (publish_event ''bad'' ''fp'' ''1'' 1767990000000000) = Inr v)"
    if "env \<in> set [receipt_env, receipt_env]" for env
  proof -
    have "auditEventInner receipt_env [] (publish_event ''bad'' ''fp'' ''1'' 1767990000000000)
        = Inr (with_class \<lparr>bv_status = AVerified, bv_discrepancies = [], bv_receiptCreatedAt = Some ''1'', bv_skewMs = Some (1767990000000 - 978307200000)\<rparr> Unrevoked)"
      using publish_event_verdict [OF sample_time(2)]
      by (simp add: now_ms_def withRevocationClassification_def classifyRevocationForEvent_def findByFingerprint_def)
    with that show ?thesis by (auto simp: sample_time) (simp add: receipt_env_def sample_audit_env_def)
  qed
qed (simp_all add: publish_event_def get_prop_def sample_receipt_def)

section \<open>The lineage walk\<close>

lemma persist_members_recorded:
  assumes "persist_members env item ms rows = (None, rows')" "m \<in> set ms"
  shows "\<exists>r \<in> set rows'. kr_tenantId r = lp_tenantId item \<and> kr_ctxId r = lm_ctxId m"
  using assms
proof (induction ms arbitrary: rows)
  case (Cons m' ms)
  obtain rows1 where r: "insert_fact env (lp_tenantId item) (lm_ctxId m') (lp_lineageId item)
      (case lm_originAuthority m' of Some a \<Rightarrow> a | None \<Rightarrow> lp_registryAuthority item) (lm_contextType m') (lm_revocation m') rows = Inr rows1"
    "persist_members env item ms rows1 = (None, rows')"
    using Cons.prems(1) by (auto split: sum.splits)
  show ?case
  proof (cases "m \<in> set ms")
    case False
    with Cons.prems(2) have "m' = m" by simp
    with r(1) have "\<exists>q \<in> set rows1. kr_tenantId q = lp_tenantId item \<and> kr_ctxId q = lm_ctxId m"
      by (auto simp: insert_fact_def record_fact_def same_fact_def fact_of_def split: option.splits if_splits)
    moreover have "set rows1 \<subseteq> set rows'"
      using r(2) by (induction ms arbitrary: rows1) (fastforce simp: insert_fact_def record_fact_def split: sum.splits option.splits if_splits)+
    ultimately show ?thesis by blast
  qed (use Cons.IH r(2) in blast)
qed simp

lemma walk_leaves_marker:
  assumes "adb_cursors (snd (walkAndPersistLineage env item db)) \<noteq> adb_cursors db"
  obtains found counts rows where
    "walkRevocationLineage (au_fed env) (verifyRevocationBody env (lp_registryAuthority item) (lp_tenantId item)) item = Inr (Inr found, counts)"
    "persist_members env item found (adb_facts db) = (None, rows)" "adb_facts (snd (walkAndPersistLineage env item db)) = rows"
  using assms by (auto simp: walkAndPersistLineage_def split: sum.splits prod.splits option.splits)

lemma verified_member_recorded:
  assumes "genuine_revocation env (lp_registryAuthority item) (lp_tenantId item) body rv" "revocation_member body"
  shows "\<exists>m \<in> set (verified_member (verifyRevocationBody env (lp_registryAuthority item) (lp_tenantId item)) body). lm_ctxId m = the (member_ctx body)"
proof -
  have "verifyRevocationBody env (lp_registryAuthority item) (lp_tenantId item) body = Inr (RoVerified rv body)"
    using verifyRevocationBody_iff assms(1) by blast
  then show ?thesis using assms(2) by (simp add: verified_member_def)
qed

lemma walk_marker_complete:
  assumes "adb_cursors (snd (walkAndPersistLineage env item db)) \<noteq> adb_cursors db"
  shows "\<exists>bodies. served_lineage (au_fed env) item = Some bodies
     \<and> (\<exists>b \<in> set bodies. member_ctx b = Some (lp_expectCtxId item))
     \<and> (\<forall>b \<in> set bodies. revocation_member b \<longrightarrow> answered (verifyRevocationBody env (lp_registryAuthority item) (lp_tenantId item)) b)
     \<and> (\<forall>b \<in> set bodies. \<forall>rv. revocation_member b \<and> genuine_revocation env (lp_registryAuthority item) (lp_tenantId item) b rv
          \<longrightarrow> (\<exists>r \<in> set (adb_facts (snd (walkAndPersistLineage env item db))). kr_tenantId r = lp_tenantId item \<and> member_ctx b = Some (kr_ctxId r)))"
proof -
  let ?v = "verifyRevocationBody env (lp_registryAuthority item) (lp_tenantId item)"
  obtain found counts rows where w: "walkRevocationLineage (au_fed env) ?v item = Inr (Inr found, counts)"
    and p: "persist_members env item found (adb_facts db) = (None, rows)" and r: "adb_facts (snd (walkAndPersistLineage env item db)) = rows"
    using assms by (rule walk_leaves_marker)
  obtain bodies where b: "served_lineage (au_fed env) item = Some bodies" "\<exists>b \<in> set bodies. member_ctx b = Some (lp_expectCtxId item)"
    "found = concat (map (verified_member ?v) bodies)" "list_all (\<lambda>b. revocation_member b \<longrightarrow> answered ?v b) bodies"
    by (rule walkRevocationLineage_complete [OF w])
  have "\<exists>r \<in> set rows. kr_tenantId r = lp_tenantId item \<and> member_ctx x = Some (kr_ctxId r)"
    if x: "x \<in> set bodies" "revocation_member x" "genuine_revocation env (lp_registryAuthority item) (lp_tenantId item) x rv" for x rv
  proof -
    obtain m where m: "m \<in> set (verified_member ?v x)" "lm_ctxId m = the (member_ctx x)" using verified_member_recorded x(2,3) by blast
    then have "m \<in> set found" using b(3) x(1) by auto
    then obtain q where "q \<in> set rows" "kr_tenantId q = lp_tenantId item" "kr_ctxId q = lm_ctxId m" using persist_members_recorded [OF p] by blast
    then show ?thesis using m(2) x(2) by (auto simp: revocation_member_def split: option.splits)
  qed
  with b r show ?thesis by (auto simp: list_all_iff)
qed

lemma walk_records_genuine:
  assumes "adb_cursors (snd (walkAndPersistLineage env item db)) \<noteq> adb_cursors db" "served_lineage (au_fed env) item = Some bodies"
    and "body \<in> set bodies" "revocation_member body" "genuine_revocation env (lp_registryAuthority item) (lp_tenantId item) body rv"
  obtains r where "r \<in> set (adb_facts (snd (walkAndPersistLineage env item db)))" "kr_tenantId r = lp_tenantId item" "member_ctx body = Some (kr_ctxId r)"
  using walk_marker_complete [OF assms(1)] assms(2-) that by auto


section \<open>A lineage member with another revocation's context\<close>

definition revocation_body :: "string \<Rightarrow> string \<Rightarrow> string \<Rightarrow> string \<Rightarrow> json" where
  "revocation_body ctx lineage agent fp = JObj [(''ctx_id'', JStr ctx), (''type'', JStr ''key-revocation''), (''lineage_id'', JStr lineage),
     (''agent_id'', JStr agent), (''content_hash'', JStr ''sha256:h''), (''revoked_key_fingerprint'', JStr fp),
     (''signature'', JObj [(''key_id'', JStr (agent @ ''#k'')), (''value'', JStr ''c2ln'')])]"

definition evil_body :: "string \<Rightarrow> json" where
  "evil_body ctx = revocation_body ctx ''l'' ''did:web:evil.example'' ''sha256:evil''"

definition victim_body :: json where
  "victim_body = revocation_body ctx_two ''m'' ''did:web:victim.example'' ''sha256:victim''"

definition revocation_event :: "string \<Rightarrow> string \<Rightarrow> string \<Rightarrow> context_event" where
  "revocation_event i authority ctx = \<lparr>ce_id = i, ce_tenantId = ''t'', ce_eventType = ''context_published'', ce_runId = None, ce_ctxId = Some ctx,
     ce_lineageId = None, ce_agentId = ''did:web:x'', ce_contextType = Some ''key-revocation'', ce_registryAuthority = authority,
     ce_keyFingerprint = None, ce_rawPayload = [], ce_createdAt = 1767990000000000\<rparr>"

definition squat_env :: audit_env where
  "squat_env = sample_audit_env (audit_fed
     [(''https://evil.example/contexts/'' @ encode_uri_component ctx_one, 1), (''https://evil.example/lineages/'' @ encode_uri_component ''l'', 2),
      (''https://r.example/contexts/'' @ encode_uri_component ctx_two, 3)]
     [(1, JObj [(''body'', evil_body ctx_one)]), (2, JArr [JObj [(''body'', evil_body ctx_one)], JObj [(''body'', evil_body ctx_two)]]),
      (3, JObj [(''body'', victim_body)])])\<lparr>au_findByAuthority := (\<lambda>a t. Some (''https://'' @ a))\<rparr>"

definition sample_revocation :: "string \<Rightarrow> parsed_revocation" where
  "sample_revocation fp = \<lparr>pv_revokedKeyFingerprint = fp, pv_compromisedSince = ''2026-01-01T00:00:00.000Z'', pv_reason = None, pv_revokedKeyId = None,
     pv_revokedKeyController = [], pv_publisher = [], pv_trustClass = ProducerSigned\<rparr>"

lemma revocation_body_members:
  "get_prop (props_of (revocation_body ctx l agent fp)) ''content_hash'' = Some (JStr ''sha256:h'')"
  "get_prop (props_of (revocation_body ctx l agent fp)) ''agent_id'' = Some (JStr agent)"
  "get_prop (props_of (revocation_body ctx l agent fp)) ''lineage_id'' = Some (JStr l)"
  "get_prop (props_of (revocation_body ctx l agent fp)) ''origin_registry'' = None"
  "get_prop (props_of (revocation_body ctx l agent fp)) ''revoked_key_fingerprint'' = Some (JStr fp)"
  "member_ctx (revocation_body ctx l agent fp) = Some ctx" "member_type (revocation_body ctx l agent fp) = Some ''key-revocation''"
  "sig_member (props_of (revocation_body ctx l agent fp)) ''key_id'' = Some (agent @ ''#k'')"
  "sig_member (props_of (revocation_body ctx l agent fp)) ''value'' = Some ''c2ln''"
  "sig_member (props_of (revocation_body ctx l agent fp)) ''algorithm'' = None"
  by (simp_all add: revocation_body_def props_of_def get_prop_def member_ctx_def member_type_def as_string_def sig_member_def object_member_def)

lemma sample_env_fields [simp]:
  "au_binding (sample_audit_env F) = sample_audit_binding"
  "au_resolveKey (sample_audit_env F) k a = Inr \<lparr>rk_keyId = k, rk_algorithm = ''ed25519'', rk_publicKeyB64 = k\<rparr>"
  by (simp_all add: sample_audit_env_def)

lemma sample_revocation_parsed:
  "parseKeyRevocation sample_audit_binding (revocation_body ctx l agent fp) ''sha256:real'' = Inr (Inr (sample_revocation fp))"
  by (simp add: parseKeyRevocation_def sample_audit_binding_def revocation_body_members revocation_body_members [unfolded get_prop_def] trust_class_of_def get_prop_def
      str_or_empty_def as_string_def sample_revocation_def)

lemma strip_key_fragment: "CHR ''#'' \<notin> set agent \<Longrightarrow> takeWhile (\<lambda>c. c \<noteq> CHR ''#'') (agent @ ''#k'') = agent"
  by (induction agent) auto

lemma sample_body_genuine:
  assumes "au_binding env = sample_audit_binding" "\<And>k a. au_resolveKey env k a = Inr \<lparr>rk_keyId = k, rk_algorithm = ''ed25519'', rk_publicKeyB64 = k\<rparr>"
    and "starts_with ''did:web:'' agent" "CHR ''#'' \<notin> set agent"
  shows "genuine_revocation env a t (revocation_body ctx l agent fp) (sample_revocation fp)"
proof -
  have "genuine_signer env (revocation_body ctx l agent fp) ''sha256:h'' ''sha256:real''"
    using assms by (simp add: genuine_signer_def revocation_body_members Let_def sample_audit_binding_def verifySignatureB64_def
        fingerprintEd25519B64_def strip_key_fragment)
  then show ?thesis
    unfolding genuine_revocation_def using assms(1)
    by (intro exI [of _ "''sha256:h''"] exI [of _ "''sha256:real''"])
      (simp add: revocation_body_members verifyContentHash_def sample_audit_binding_def sample_revocation_parsed [unfolded sample_audit_binding_def]
        sample_revocation_def)
qed

definition squat_item :: lineage_params where
  "squat_item = \<lparr>lp_lineageId = ''l'', lp_registryAuthority = ''evil.example'', lp_baseUrl = ''https://evil.example'', lp_tenantId = ''t'',
     lp_expectCtxId = ctx_one\<rparr>"

definition evil_member :: "string \<Rightarrow> lineage_member" where
  "evil_member ctx = \<lparr>lm_ctxId = ctx, lm_contextType = ''key-revocation'', lm_originAuthority = None, lm_revocation = sample_revocation ''sha256:evil''\<rparr>"

definition empty_audit :: audit_db where
  "empty_audit = \<lparr>adb_facts = [], adb_cursors = [], adb_audits = []\<rparr>"

lemma squat_env_fields:
  "au_binding squat_env = sample_audit_binding" "au_resolveKey squat_env k a = Inr \<lparr>rk_keyId = k, rk_algorithm = ''ed25519'', rk_publicKeyB64 = k\<rparr>"
  by (simp_all add: squat_env_def)

lemma evil_body_genuine: "genuine_revocation squat_env a t (evil_body ctx) (sample_revocation ''sha256:evil'')"
  unfolding evil_body_def by (rule sample_body_genuine) (simp_all add: squat_env_fields starts_with_def)

lemma evil_body_member [simp]: "ctx \<noteq> [] \<Longrightarrow> revocation_member (evil_body ctx)" "member_ctx (evil_body ctx) = Some ctx"
  by (simp_all add: revocation_member_def evil_body_def revocation_body_members isRevocationContextType_def REVOCATION_CONTEXT_TYPES_def)

lemma evil_body_verified: "verifyRevocationBody squat_env a t (evil_body ctx) = Inr (RoVerified (sample_revocation ''sha256:evil'') (evil_body ctx))"
  using evil_body_genuine verifyRevocationBody_iff by blast

lemma squat_get:
  "fst (federation_get (au_fed squat_env) (strip_slash ''https://evil.example'' @ ''/lineages/'' @ encode_uri_component ''l''))
     = Inr \<lparr>fr_status = 200, fr_contentType = None, fr_body = [2]\<rparr>"
proof -
  have "strip_slash ''https://evil.example'' = ''https://evil.example''" by code_simp
  moreover have "''https://evil.example/contexts/'' @ x \<noteq> ''https://evil.example/lineages/'' @ y" for x y by simp
  ultimately show ?thesis unfolding squat_env_def sample_audit_env_def by (auto intro!: audit_fed_get)
qed

lemma squat_json: "fe_json (au_fed squat_env) [2] = Some (JArr [JObj [(''body'', evil_body ctx_one)], JObj [(''body'', evil_body ctx_two)]])"
  by (simp add: squat_env_def sample_audit_env_def audit_fed_def)

lemma squat_members:
  "raw_members [JObj [(''body'', evil_body ctx_one)], JObj [(''body'', evil_body ctx_two)]] = [evil_body ctx_one, evil_body ctx_two]"
  by (simp add: raw_members_def object_member_def evil_body_def revocation_body_def get_prop_def props_of_def member_ctx_def as_string_def)

lemma squat_served: "served_lineage (au_fed squat_env) squat_item = Some [evil_body ctx_one, evil_body ctx_two]"
  by (simp add: served_lineage_def squat_item_def squat_get [simplified append_Cons append_Nil] squat_json squat_members)

lemma squat_walk:
  "\<exists>counts. walkRevocationLineage (au_fed squat_env) (verifyRevocationBody squat_env ''evil.example'' ''t'') squat_item
     = Inr (Inr [evil_member ctx_one, evil_member ctx_two], counts)"
proof -
  have "ctx_one \<noteq> []" "ctx_two \<noteq> []" by (simp_all add: ctx_one_def ctx_two_def)
  moreover have "get_prop (props_of (evil_body c)) ''origin_registry'' = None" "member_type (evil_body c) = Some ''key-revocation''" for c
    by (simp_all add: evil_body_def revocation_body_members)
  ultimately show ?thesis
    by (simp add: walkRevocationLineage_def squat_item_def squat_get [simplified append_Cons append_Nil] squat_json squat_members evil_body_verified
        evil_member_def as_string_def)
qed

lemma sample_boundary: "au_pgTime squat_env (pv_compromisedSince (sample_revocation fp)) = Some 1767225600000000"
proof -
  have "date_parse ''2026-01-01T00:00:00.000Z'' = Some 1767225600000" by code_simp
  then show ?thesis by (simp add: squat_env_def sample_audit_env_def sample_revocation_def)
qed

lemma squat_persisted:
  "adb_cursors (snd (walkAndPersistLineage squat_env squat_item empty_audit)) \<noteq> adb_cursors empty_audit"
  "findByFingerprint fp t (adb_facts (snd (walkAndPersistLineage squat_env squat_item empty_audit))) \<noteq> [] \<longleftrightarrow> fp = ''sha256:evil'' \<and> t = ''t''"
  "fst (walkAndPersistLineage squat_env squat_item empty_audit) = None"
proof -
  have ne: "ctx_one \<noteq> ctx_two" by (simp add: ctx_one_def ctx_two_def)
  obtain counts where w: "walkRevocationLineage (au_fed squat_env) (verifyRevocationBody squat_env ''evil.example'' ''t'') squat_item
     = Inr (Inr [evil_member ctx_one, evil_member ctx_two], counts)" using squat_walk by blast
  define rows where "rows = map (\<lambda>c. fact_of ''t'' c ''l'' ''evil.example'' ''key-revocation'' (sample_revocation ''sha256:evil'') 1767225600000000) [ctx_one, ctx_two]"
  have "persist_members squat_env squat_item [evil_member ctx_one, evil_member ctx_two] [] = (None, rows)"
    using ne by (simp add: insert_fact_def evil_member_def sample_boundary record_fact_def same_fact_def fact_of_def squat_item_def rows_def)
  then have p: "walkAndPersistLineage squat_env squat_item empty_audit = (None, empty_audit\<lparr>adb_facts := rows,
      adb_cursors := [((''t'', ''l'', ''evil.example''), au_now squat_env)]\<rparr>)"
    using w by (simp add: walkAndPersistLineage_def squat_item_def empty_audit_def recordLineageWalk_def)
  show "adb_cursors (snd (walkAndPersistLineage squat_env squat_item empty_audit)) \<noteq> adb_cursors empty_audit"
    unfolding p by (simp add: empty_audit_def)
  show "findByFingerprint fp t (adb_facts (snd (walkAndPersistLineage squat_env squat_item empty_audit))) \<noteq> [] \<longleftrightarrow> fp = ''sha256:evil'' \<and> t = ''t''"
    unfolding p by (auto simp: rows_def findByFingerprint_def fact_of_def sample_revocation_def)
  show "fst (walkAndPersistLineage squat_env squat_item empty_audit) = None" by (simp add: p)
qed


lemma facts_kept: "set (adb_facts db) \<subseteq> set (adb_facts (fold audit_step ops db))"
  using audit_history_advances [of ops db] by (auto simp: advances_def grown_def)

lemma recorded_context_retired:
  assumes "r \<in> set (adb_facts db)" "ce_tenantId ev = kr_tenantId r" "ce_ctxId ev = Some (kr_ctxId r)"
  shows "ev \<notin> set (findCandidates since limit events (adb_facts (fold audit_step ops db)))"
proof -
  have "has_fact (adb_facts (fold audit_step ops db)) ev" using assms facts_kept unfolding has_fact_def by fastforce
  then show ?thesis by (auto simp: findCandidates_def dest: in_set_takeD)
qed

text \<open>C33. A lineage can retire a context of another registry: a completed walk records each genuine member under the context id the serving
  registry gives it, which nothing binds to that registry; from then on no event of the tenant with that context id is a candidate for
  verification again, whatever the sweeps that follow.\<close>

theorem lineage_retires_foreign_context:
  assumes "walkAndPersistLineage env item db = (None, db')" "adb_cursors db' \<noteq> adb_cursors db" "served_lineage (au_fed env) item = Some bodies"
    and "body \<in> set bodies" "revocation_member body" "genuine_revocation env (lp_registryAuthority item) (lp_tenantId item) body rv"
    and "ce_tenantId ev = lp_tenantId item" "ce_ctxId ev = member_ctx body"
  shows "ev \<notin> set (findCandidates since limit events (adb_facts (fold audit_step ops db')))"
proof -
  obtain r where "r \<in> set (adb_facts db')" "kr_tenantId r = lp_tenantId item" "member_ctx body = Some (kr_ctxId r)"
    by (rule walk_records_genuine [OF _ assms(3-6), of db]) (use assms(1,2) in simp_all)
  with assms(7,8) show ?thesis by (intro recorded_context_retired) simp_all
qed

lemma victim_event_verified:
  "genuine_revocation squat_env ''r.example'' ''t'' victim_body (sample_revocation ''sha256:victim'')"
  unfolding victim_body_def by (rule sample_body_genuine) (simp_all add: squat_env_fields starts_with_def)

theorem lineage_retires_foreign_context_witness:
  "revocation_event ''e'' ''r.example'' ctx_two \<notin> set (findCandidates 0 50 [revocation_event ''e'' ''r.example'' ctx_two]
       (adb_facts (snd (walkAndPersistLineage squat_env squat_item empty_audit))))
   \<and> findByFingerprint ''sha256:victim'' ''t'' (adb_facts (snd (walkAndPersistLineage squat_env squat_item empty_audit))) = []
   \<and> genuine_revocation squat_env ''r.example'' ''t'' victim_body (sample_revocation ''sha256:victim'') \<and> member_ctx victim_body = Some ctx_two"
proof -
  let ?ev = "revocation_event ''e'' ''r.example'' ctx_two"
  obtain db' where w: "walkAndPersistLineage squat_env squat_item empty_audit = (None, db')" using squat_persisted(3) by (cases "walkAndPersistLineage squat_env squat_item empty_audit") auto
  then have c: "adb_cursors db' \<noteq> adb_cursors empty_audit" using squat_persisted(1) by simp
  have m: "evil_body ctx_two \<in> set [evil_body ctx_one, evil_body ctx_two]" "revocation_member (evil_body ctx_two)" by (simp_all add: ctx_two_def)
  have e: "ce_tenantId ?ev = lp_tenantId squat_item" "ce_ctxId ?ev = member_ctx (evil_body ctx_two)"
    by (simp_all add: revocation_event_def squat_item_def)
  have "?ev \<notin> set (findCandidates 0 50 [?ev] (adb_facts (fold audit_step [] db')))"
    by (rule lineage_retires_foreign_context [OF w c squat_served m evil_body_genuine e])
  moreover have "findByFingerprint ''sha256:victim'' ''t'' (adb_facts (snd (walkAndPersistLineage squat_env squat_item empty_audit))) = []"
    using squat_persisted(2) [of "''sha256:victim''"] by simp
  moreover have "member_ctx victim_body = Some ctx_two" by (simp add: victim_body_def revocation_body_members)
  ultimately show ?thesis using w victim_event_verified by simp
qed

section \<open>The re-audit reaches sealed verdicts\<close>


definition sealed_row :: audit_row where
  "sealed_row = \<lparr>ra_eventId = ''e'', ra_tenantId = ''t'', ra_runId = None, ra_ctxId = Some ctx_one, ra_registryAuthority = ''r.example'',
     ra_status = AVerified, ra_discrepancies = [], ra_receiptCreatedAt = Some 1767139200000000, ra_eventArrivedAt = 1767312000000000,
     ra_skewMs = Some 0, ra_checkedAt = 1767312000000000, ra_keyRevocationStatus = None, ra_keyRevocationTrustClass = None,
     ra_compromiseBoundary = None, ra_keyRevocationSources = []\<rparr>"

lemma reauditForFingerprint_map: "\<exists>g. tightening g \<and> reauditForFingerprint env shuffle t fp events facts rows = map g rows"
proof (cases "reauditForFingerprint env shuffle t fp events facts rows = rows")
  case True
  then show ?thesis using tightening_id by (intro exI [of _ id]) simp
next
  case False
  then show ?thesis using reaudit_loop_map by (auto simp: reauditForFingerprint_def Let_def split: if_splits option.splits)
qed

lemma sealed_row_ready: "reaudit_ready receipt_env [revoked_fact] ''sha256:real'' [sealed_row]"
proof -
  have iso: "toISOString (now_ms 1767225600000000) = ''2026-01-01T00:00:00.000Z''" "date_parse ''2026-01-01T00:00:00.000Z'' = Some 1767225600000"
    "now_ms 1767225600000000 = 1767225600000" by code_simp+
  have b: "kr_compromisedSince revoked_fact = 1767225600000000" by (simp add: revoked_fact_def)
  have "filterApplicableRevocations receipt_env [revoked_fact] a = [revoked_fact]" for a
    by (simp add: filterApplicableRevocations_def revoked_fact_def)
  moreover have "answers_boundary sample_audit_binding [revoked_fact] ''sha256:real'' t" for t
    using iso by (auto simp: answers_boundary_def sample_audit_binding_def earliest_ms_def get_prop_def b)
  moreover have "au_pgTime receipt_env (toISOString (now_ms 1767225600000000)) = Some 1767225600000000"
    using iso by (simp add: receipt_env_def sample_audit_env_def)
  ultimately show ?thesis using iso(3) by (simp add: reaudit_ready_def b)
qed


end
