(* ===== verification/PlaneStore.thy ===== *)
theory PlaneStore
  imports KeyRevocation Tenant
begin

text \<open>
  The tables that ingest writes (\<open>src/src/db/schema.ts\<close>) and their repositories under \<open>src/src/storage\<close>: raw events, runs, lineage edges,
  the lifecycle projection, agents, registries and registry enrollments.

  A webhook payload is any JSON value, so a column receives a JSON value. \<open>pg_driver\<close> holds what the database driver and the server make of
  one: the text of a value that is no string, the instant a \<open>timestamptz\<close> column reads from a text, the integer an \<open>integer\<close> column reads.
  A rejected value is an exception. A table keyed by a primary key is an association list; a query without a total order lists rows in
  insertion order. \<open>integer\<close> counters are unbounded here.
\<close>

section \<open>Columns\<close>

record pg_driver =
  pg_text :: "json \<Rightarrow> string"
  pg_time :: "string \<Rightarrow> clock option"
  pg_int :: "json \<Rightarrow> int option"

definition NULL_BYTE :: char where "NULL_BYTE = CHR 0x00"

definition text_of :: "pg_driver \<Rightarrow> json \<Rightarrow> string" where
  "text_of D v = (case v of JStr s \<Rightarrow> s | _ \<Rightarrow> pg_text D v)"

text \<open>A \<open>text\<close> and a \<open>varchar(n)\<close> column; the latter drops surplus blanks and rejects any other surplus.\<close>

definition text_col :: "pg_driver \<Rightarrow> json \<Rightarrow> crash + string" where
  "text_col D v = (if NULL_BYTE \<in> set (text_of D v) then Inl ''invalid byte sequence for encoding'' else Inr (text_of D v))"

definition varchar_col :: "pg_driver \<Rightarrow> nat \<Rightarrow> json \<Rightarrow> crash + string" where
  "varchar_col D n v = and_then (text_col D v) (\<lambda>s.
     if length s \<le> n then Inr s
     else if \<forall>c \<in> set (drop n s). c = CHR '' '' then Inr (take n s)
     else Inl ''value too long for type character varying'')"

text \<open>\<open>x ?? null\<close> for a nullable column.\<close>

definition nullable :: "(json \<Rightarrow> crash + 'a) \<Rightarrow> json option \<Rightarrow> crash + 'a option" where
  "nullable col v = (case v of None \<Rightarrow> Inr None | Some JNull \<Rightarrow> Inr None | Some x \<Rightarrow> and_then (col x) (\<lambda>y. Inr (Some y)))"

definition time_col :: "pg_driver \<Rightarrow> string \<Rightarrow> crash + clock" where
  "time_col D s = (case pg_time D s of Some t \<Rightarrow> Inr t | None \<Rightarrow> Inl ''invalid input syntax for type timestamp with time zone'')"

definition int_col :: "pg_driver \<Rightarrow> json \<Rightarrow> crash + int" where
  "int_col D v = (case pg_int D v of Some i \<Rightarrow> Inr i | None \<Rightarrow> Inl ''invalid input syntax for type integer'')"

text \<open>\<open>jsonb\<close> rejects U+0000 anywhere in a document.\<close>

fun json_nul :: "json \<Rightarrow> bool" where
  "json_nul (JStr s) = (NULL_BYTE \<in> set s)"
| "json_nul (JArr vs) = list_ex json_nul vs"
| "json_nul (JObj ms) = list_ex (\<lambda>p. NULL_BYTE \<in> set (fst p) \<or> json_nul (snd p)) ms"
| "json_nul _ = False"

definition jsonb_col :: "json \<Rightarrow> crash + json" where
  "jsonb_col v = (if json_nul v then Inl ''unsupported Unicode escape sequence'' else Inr v)"

section \<open>Raw events\<close>

record event_row = context_event +
  er_eventTs :: clock
  er_visibility :: "string option"
  er_version :: "int option"
  er_derivedFrom :: json
  er_scenarioId :: "string option"
  er_fingerprint :: "string option"
  er_receiptPresent :: bool

text \<open>The input of an insert, with the values of the payload as they are.\<close>

record new_event =
  ne_tenantId :: string
  ne_eventType :: string
  ne_eventTs :: string
  ne_runId :: "json option"
  ne_ctxId :: "json option"
  ne_lineageId :: "json option"
  ne_agentId :: string
  ne_contextType :: "json option"
  ne_visibility :: "json option"
  ne_version :: "json option"
  ne_derivedFrom :: json
  ne_registryAuthority :: string
  ne_scenarioId :: "json option"
  ne_fingerprint :: string
  ne_keyFingerprint :: "string option"
  ne_receiptPresent :: bool
  ne_rawPayload :: jobj

definition event_columns :: "pg_driver \<Rightarrow> clock \<Rightarrow> string \<Rightarrow> new_event \<Rightarrow> crash + event_row" where
  "event_columns D us newId input =
     and_then (varchar_col D 255 (JStr (ne_tenantId input))) (\<lambda>tenantId.
     and_then (varchar_col D 64 (JStr (ne_eventType input))) (\<lambda>eventType.
     and_then (time_col D (ne_eventTs input)) (\<lambda>eventTs.
     and_then (nullable (varchar_col D 255) (ne_runId input)) (\<lambda>runId.
     and_then (nullable (text_col D) (ne_ctxId input)) (\<lambda>ctxId.
     and_then (nullable (text_col D) (ne_lineageId input)) (\<lambda>lineageId.
     and_then (text_col D (JStr (ne_agentId input))) (\<lambda>agentId.
     and_then (nullable (varchar_col D 128) (ne_contextType input)) (\<lambda>contextType.
     and_then (nullable (varchar_col D 32) (ne_visibility input)) (\<lambda>visibility.
     and_then (nullable (int_col D) (ne_version input)) (\<lambda>version.
     and_then (jsonb_col (ne_derivedFrom input)) (\<lambda>derivedFrom.
     and_then (varchar_col D 255 (JStr (ne_registryAuthority input))) (\<lambda>authority.
     and_then (nullable (varchar_col D 128) (ne_scenarioId input)) (\<lambda>scenarioId.
     and_then (varchar_col D 80 (JStr (ne_fingerprint input))) (\<lambda>fingerprint.
     and_then (nullable (varchar_col D 80) (map_option JStr (ne_keyFingerprint input))) (\<lambda>keyFingerprint.
     and_then (jsonb_col (JObj (ne_rawPayload input))) (\<lambda>raw.
     Inr \<lparr>ce_id = newId, ce_tenantId = tenantId, ce_eventType = eventType, ce_runId = runId, ce_ctxId = ctxId, ce_lineageId = lineageId,
       ce_agentId = agentId, ce_contextType = contextType, ce_registryAuthority = authority, ce_keyFingerprint = keyFingerprint,
       ce_rawPayload = ne_rawPayload input, ce_createdAt = us, er_eventTs = eventTs, er_visibility = visibility, er_version = version,
       er_derivedFrom = derivedFrom, er_scenarioId = scenarioId, er_fingerprint = Some fingerprint,
       er_receiptPresent = ne_receiptPresent input\<rparr>))))))))))))))))"

text \<open>The partial unique index on tenant and fingerprint; a conflicting insert does nothing.\<close>

definition same_delivery :: "event_row \<Rightarrow> event_row \<Rightarrow> bool" where
  "same_delivery a b = (ce_tenantId a = ce_tenantId b \<and> er_fingerprint a \<noteq> None \<and> er_fingerprint a = er_fingerprint b)"

definition create_event :: "pg_driver \<Rightarrow> clock \<Rightarrow> string \<Rightarrow> new_event \<Rightarrow> event_row list \<Rightarrow> crash + event_row option \<times> event_row list" where
  "create_event D us newId input rows = and_then (event_columns D us newId input) (\<lambda>row.
     if \<exists>r \<in> set rows. same_delivery r row then Inr (None, rows) else Inr (Some row, rows @ [row]))"

definition events_listByRun :: "string \<Rightarrow> string \<Rightarrow> event_row list \<Rightarrow> event_row list" where
  "events_listByRun runId tenantId rows = sort_key er_eventTs (filter (\<lambda>r. ce_runId r = Some runId \<and> ce_tenantId r = tenantId) rows)"

definition events_deleteBefore :: "clock \<Rightarrow> event_row list \<Rightarrow> event_row list" where
  "events_deleteBefore cutoff rows = filter (\<lambda>r. \<not> er_eventTs r < cutoff) rows"

definition countByAgent :: "string \<Rightarrow> string \<Rightarrow> event_row list \<Rightarrow> nat" where
  "countByAgent agentId tenantId rows = length (filter (\<lambda>r. ce_agentId r = agentId \<and> ce_tenantId r = tenantId) rows)"

section \<open>Runs\<close>

record run_row =
  rn_scenarioId :: string
  rn_status :: string
  rn_startedAt :: clock
  rn_completedAt :: "clock option"
  rn_inputs :: "jobj option"
  rn_result :: "jobj option"
  rn_contextsCount :: int
  rn_registries :: "string list"
  rn_updatedAt :: clock

type_synonym run_table = "(string \<times> string, run_row) jsmap"

definition findRun :: "string \<Rightarrow> string \<Rightarrow> run_table \<Rightarrow> run_row option" where
  "findRun runId tenantId runs = map_of runs (tenantId, runId)"

text \<open>The read of \<open>upsertFromEvent\<close> is a statement of its own; the second part acts on what it returned.\<close>

definition upsert_read :: "run_row option \<Rightarrow> clock \<Rightarrow> string \<Rightarrow> string \<Rightarrow> string \<Rightarrow> string \<Rightarrow> run_table \<Rightarrow> crash + run_table" where
  "upsert_read existing us runId scenarioId authority tenantId runs = (case existing of
     None \<Rightarrow>
       if map_of runs (tenantId, runId) \<noteq> None then Inl ''duplicate key value violates unique constraint''
       else Inr (runs @ [((tenantId, runId), \<lparr>rn_scenarioId = scenarioId, rn_status = ''running'', rn_startedAt = us, rn_completedAt = None,
         rn_inputs = None, rn_result = None, rn_contextsCount = 1, rn_registries = (if authority \<noteq> [] then [authority] else []),
         rn_updatedAt = us\<rparr>)])
   | Some current \<Rightarrow>
       (let updated = (if authority = [] \<or> authority \<in> set (rn_registries current) then rn_registries current
          else rn_registries current @ [authority])
        in Inr (map (\<lambda>(k, r). (k, if k = (tenantId, runId) then r\<lparr>rn_contextsCount := rn_contextsCount r + 1, rn_registries := updated,
          rn_updatedAt := us\<rparr> else r)) runs)))"

definition upsertFromEvent :: "clock \<Rightarrow> string \<Rightarrow> string \<Rightarrow> string \<Rightarrow> string \<Rightarrow> run_table \<Rightarrow> crash + run_table" where
  "upsertFromEvent us runId scenarioId authority tenantId runs = upsert_read (findRun runId tenantId runs) us runId scenarioId authority tenantId runs"

definition recordStart :: "clock \<Rightarrow> string \<Rightarrow> string \<Rightarrow> clock option \<Rightarrow> jobj option \<Rightarrow> string \<Rightarrow> run_table \<Rightarrow> run_table" where
  "recordStart us runId scenarioId startedAt inputs tenantId runs = (case findRun runId tenantId runs of
     None \<Rightarrow> runs @ [((tenantId, runId), \<lparr>rn_scenarioId = scenarioId, rn_status = ''running'', rn_startedAt = (case startedAt of Some t \<Rightarrow> t | None \<Rightarrow> us),
       rn_completedAt = None, rn_inputs = inputs, rn_result = None, rn_contextsCount = 0, rn_registries = [], rn_updatedAt = us\<rparr>)]
   | Some _ \<Rightarrow> map (\<lambda>(k, r). (k, if k = (tenantId, runId) then r\<lparr>rn_scenarioId := scenarioId,
       rn_startedAt := (case startedAt of Some t \<Rightarrow> t | None \<Rightarrow> rn_startedAt r), rn_inputs := (case inputs of Some i \<Rightarrow> Some i | None \<Rightarrow> rn_inputs r),
       rn_updatedAt := us\<rparr> else r)) runs)"

definition findByIdOrThrow :: "string \<Rightarrow> string \<Rightarrow> run_table \<Rightarrow> exn + run_row" where
  "findByIdOrThrow runId tenantId runs = (case findRun runId tenantId runs of
     Some r \<Rightarrow> Inr r
   | None \<Rightarrow> Inl (AppException RUN_NOT_FOUND (''run '' @ runId @ '' not found'') 404 None))"

definition run_markComplete :: "clock \<Rightarrow> string \<Rightarrow> string \<Rightarrow> jobj option \<Rightarrow> string \<Rightarrow> run_table \<Rightarrow> (exn + run_row) \<times> run_table" where
  "run_markComplete us runId status result tenantId runs =
     (let runs' = map (\<lambda>(k, r). (k, if k = (tenantId, runId) then r\<lparr>rn_status := status, rn_completedAt := Some us, rn_result := result,
        rn_updatedAt := us\<rparr> else r)) runs
      in (findByIdOrThrow runId tenantId runs', runs'))"

definition deleteTerminalBefore :: "clock \<Rightarrow> run_table \<Rightarrow> run_table" where
  "deleteTerminalBefore cutoff runs = filter (\<lambda>(k, r). \<not> (rn_status r \<in> {''completed'', ''failed'', ''cancelled''}
     \<and> (case rn_completedAt r of Some t \<Rightarrow> t < cutoff | None \<Rightarrow> False))) runs"

definition existsForOtherTenant :: "string \<Rightarrow> string \<Rightarrow> run_table \<Rightarrow> bool" where
  "existsForOtherTenant runId tenantId runs = (\<exists>k \<in> set (map fst runs). snd k = runId \<and> fst k \<noteq> tenantId)"

definition run_list :: "string option \<Rightarrow> string option \<Rightarrow> nat \<Rightarrow> nat \<Rightarrow> string \<Rightarrow> run_table \<Rightarrow> ((string \<times> string) \<times> run_row) list \<times> nat" where
  "run_list status scenarioId limit offset tenantId runs =
     (let rows = filter (\<lambda>(k, r). fst k = tenantId \<and> (case status of Some (c # cs) \<Rightarrow> rn_status r = c # cs | _ \<Rightarrow> True)
          \<and> (case scenarioId of Some (c # cs) \<Rightarrow> rn_scenarioId r = c # cs | _ \<Rightarrow> True)) runs
      in (take limit (drop offset (sort_key (\<lambda>(k, r). - rn_startedAt r) rows)), length rows))"

section \<open>Lineage edges\<close>

type_synonym edge_table = "(string \<times> string \<times> string, string option) jsmap"

definition edge_upsert :: "pg_driver \<Rightarrow> json \<Rightarrow> json \<Rightarrow> json option \<Rightarrow> string \<Rightarrow> edge_table \<Rightarrow> crash + edge_table" where
  "edge_upsert D fromCtxId toCtxId runId tenantId edges =
     (if fromCtxId = JNull then Inl ''null value violates not-null constraint''
      else and_then (text_col D fromCtxId) (\<lambda>from.
        and_then (text_col D toCtxId) (\<lambda>to.
        and_then (nullable (varchar_col D 255) runId) (\<lambda>run.
        Inr (if map_of edges (tenantId, from, to) \<noteq> None then edges else edges @ [((tenantId, from, to), run)])))))"

definition edges_listByRun :: "string \<Rightarrow> string \<Rightarrow> edge_table \<Rightarrow> edge_table" where
  "edges_listByRun runId tenantId edges = filter (\<lambda>((t, a, b), run). run = Some runId \<and> t = tenantId) edges"

definition listIncoming :: "string \<Rightarrow> string \<Rightarrow> edge_table \<Rightarrow> edge_table" where
  "listIncoming ctxId tenantId edges = filter (\<lambda>((t, a, b), run). b = ctxId \<and> t = tenantId) edges"

definition listOutgoing :: "string \<Rightarrow> string \<Rightarrow> edge_table \<Rightarrow> edge_table" where
  "listOutgoing ctxId tenantId edges = filter (\<lambda>((t, a, b), run). a = ctxId \<and> t = tenantId) edges"

section \<open>The lifecycle projection\<close>

record lifecycle_row =
  lc_lineageId :: "string option"
  lc_retracted :: bool
  lc_retractedAt :: "clock option"
  lc_republishedAt :: "clock option"
  lc_actor :: "string option"
  lc_reason :: "string option"
  lc_lastEventAt :: clock

type_synonym lifecycle_table = "(string \<times> string, lifecycle_row) jsmap"

text \<open>A transition with its columns read.\<close>

record transition =
  tn_ctxId :: string
  tn_tenantId :: string
  tn_lineageId :: "string option"
  tn_retracted :: bool
  tn_at :: clock
  tn_actor :: "string option"
  tn_reason :: "string option"

definition first_state :: "transition \<Rightarrow> lifecycle_row" where
  "first_state i = \<lparr>lc_lineageId = tn_lineageId i, lc_retracted = tn_retracted i, lc_retractedAt = (if tn_retracted i then Some (tn_at i) else None),
     lc_republishedAt = (if tn_retracted i then None else Some (tn_at i)), lc_actor = tn_actor i, lc_reason = tn_reason i, lc_lastEventAt = tn_at i\<rparr>"

definition moved_state :: "transition \<Rightarrow> lifecycle_row \<Rightarrow> lifecycle_row" where
  "moved_state i r = (if lc_lastEventAt r \<le> tn_at i
     then \<lparr>lc_lineageId = (case tn_lineageId i of Some l \<Rightarrow> Some l | None \<Rightarrow> lc_lineageId r), lc_retracted = tn_retracted i,
       lc_retractedAt = (if tn_retracted i then Some (tn_at i) else lc_retractedAt r),
       lc_republishedAt = (if tn_retracted i then lc_republishedAt r else Some (tn_at i)), lc_actor = tn_actor i, lc_reason = tn_reason i,
       lc_lastEventAt = tn_at i\<rparr>
     else r)"

definition apply_transition :: "transition \<Rightarrow> lifecycle_table \<Rightarrow> lifecycle_table" where
  "apply_transition i rows = (case map_of rows (tn_tenantId i, tn_ctxId i) of
     None \<Rightarrow> AList.update (tn_tenantId i, tn_ctxId i) (first_state i) rows
   | Some r \<Rightarrow> AList.update (tn_tenantId i, tn_ctxId i) (moved_state i r) rows)"

definition applyTransition ::
    "pg_driver \<Rightarrow> json \<Rightarrow> string \<Rightarrow> json option \<Rightarrow> bool \<Rightarrow> string \<Rightarrow> string option \<Rightarrow> string option \<Rightarrow> lifecycle_table \<Rightarrow> crash + lifecycle_table" where
  "applyTransition D ctxId tenantId lineageId retracted eventAt actor reason rows =
     and_then (text_col D ctxId) (\<lambda>ctx.
     and_then (nullable (text_col D) lineageId) (\<lambda>lineage.
     and_then (time_col D eventAt) (\<lambda>t.
     and_then (nullable (text_col D) (map_option JStr actor)) (\<lambda>actor'.
     and_then (nullable (text_col D) (map_option JStr reason)) (\<lambda>reason'.
     Inr (apply_transition \<lparr>tn_ctxId = ctx, tn_tenantId = tenantId, tn_lineageId = lineage, tn_retracted = retracted, tn_at = t,
       tn_actor = actor', tn_reason = reason'\<rparr> rows))))))"

definition retractedSetOf :: "string list \<Rightarrow> string \<Rightarrow> lifecycle_table \<Rightarrow> string list" where
  "retractedSetOf ctxIds tenantId rows = map (\<lambda>(k, r). snd k)
     (filter (\<lambda>(k, r). fst k = tenantId \<and> lc_retracted r \<and> snd k \<in> set ctxIds) rows)"

section \<open>Agents and registries\<close>

record agent_row =
  ag_firstSeen :: clock
  ag_lastSeen :: clock
  ag_registryAuthority :: "string option"
  ag_contextCount :: int

type_synonym agent_table = "(string \<times> string, agent_row) jsmap"

definition agent_upsert :: "clock \<Rightarrow> string \<Rightarrow> string \<Rightarrow> string \<Rightarrow> agent_table \<Rightarrow> agent_table" where
  "agent_upsert us agentDid authority tenantId agents = AList.update (tenantId, agentDid) (case map_of agents (tenantId, agentDid) of
     None \<Rightarrow> \<lparr>ag_firstSeen = us, ag_lastSeen = us, ag_registryAuthority = (if authority = [] then None else Some authority), ag_contextCount = 1\<rparr>
   | Some r \<Rightarrow> r\<lparr>ag_lastSeen := us, ag_contextCount := ag_contextCount r + 1,
       ag_registryAuthority := (if authority = [] then ag_registryAuthority r else Some authority)\<rparr>) agents"

definition findByDid :: "string \<Rightarrow> string \<Rightarrow> agent_table \<Rightarrow> agent_row option" where
  "findByDid agentDid tenantId agents = map_of agents (tenantId, agentDid)"

record registry_row =
  rg_baseUrl :: "string option"
  rg_firstSeen :: clock
  rg_lastSeen :: clock
  rg_eventCount :: int

type_synonym registry_table = "(string \<times> string, registry_row) jsmap"

definition registry_upsert :: "clock \<Rightarrow> string \<Rightarrow> string option \<Rightarrow> string \<Rightarrow> registry_table \<Rightarrow> registry_table" where
  "registry_upsert us authority baseUrl tenantId registries = AList.update (tenantId, authority) (case map_of registries (tenantId, authority) of
     None \<Rightarrow> \<lparr>rg_baseUrl = baseUrl, rg_firstSeen = us, rg_lastSeen = us, rg_eventCount = 1\<rparr>
   | Some r \<Rightarrow> r\<lparr>rg_lastSeen := us, rg_eventCount := rg_eventCount r + 1,
       rg_baseUrl := (case baseUrl of Some (c # cs) \<Rightarrow> Some (c # cs) | _ \<Rightarrow> rg_baseUrl r)\<rparr>) registries"

definition registry_findByAuthority :: "string \<Rightarrow> string \<Rightarrow> registry_table \<Rightarrow> registry_row option" where
  "registry_findByAuthority authority tenantId registries = map_of registries (tenantId, authority)"

section \<open>Enrollments\<close>

record enrollment =
  en_tenantId :: string
  en_baseUrl :: "string option"
  en_registryDid :: "string option"
  en_webhookSecret :: "string option"
  en_enabled :: bool
  en_createdAt :: clock
  en_updatedAt :: clock

type_synonym enrollment_table = "(string, enrollment) jsmap"

text \<open>In the input of an enrolment \<open>None\<close> is \<open>undefined\<close> and \<open>Some None\<close> is \<open>null\<close>.\<close>

record enroll_input =
  ei_authority :: string
  ei_tenantId :: "string option"
  ei_baseUrl :: "string option option"
  ei_registryDid :: "string option option"
  ei_webhookSecret :: "string option option"
  ei_enabled :: "bool option option"

definition keep_or :: "'a option \<Rightarrow> 'a \<Rightarrow> 'a" where
  "keep_or given stored = (case given of Some v \<Rightarrow> v | None \<Rightarrow> stored)"

definition buildEnrollmentUpdateSet :: "enroll_input \<Rightarrow> clock \<Rightarrow> enrollment \<Rightarrow> enrollment" where
  "buildEnrollmentUpdateSet input us r = r\<lparr>en_updatedAt := us, en_baseUrl := keep_or (ei_baseUrl input) (en_baseUrl r),
     en_registryDid := keep_or (ei_registryDid input) (en_registryDid r), en_webhookSecret := keep_or (ei_webhookSecret input) (en_webhookSecret r),
     en_enabled := (case ei_enabled input of Some (Some b) \<Rightarrow> b | _ \<Rightarrow> en_enabled r)\<rparr>"

definition enrollment_upsert :: "clock \<Rightarrow> enroll_input \<Rightarrow> enrollment_table \<Rightarrow> enrollment option \<times> enrollment_table" where
  "enrollment_upsert us input rows =
     (let tenantId = (case ei_tenantId input of Some t \<Rightarrow> t | None \<Rightarrow> DEFAULT_TENANT_ID)
      in case map_of rows (ei_authority input) of
        None \<Rightarrow> (let row = \<lparr>en_tenantId = tenantId, en_baseUrl = Option.bind (ei_baseUrl input) id, en_registryDid = Option.bind (ei_registryDid input) id,
            en_webhookSecret = Option.bind (ei_webhookSecret input) id,
            en_enabled = (case Option.bind (ei_enabled input) id of Some b \<Rightarrow> b | None \<Rightarrow> True), en_createdAt = us, en_updatedAt = us\<rparr>
          in (Some row, rows @ [(ei_authority input, row)]))
      | Some r \<Rightarrow>
          if en_tenantId r = tenantId
          then (let row = buildEnrollmentUpdateSet input us r in (Some row, AList.update (ei_authority input) row rows))
          else (None, rows))"

definition enrollment_findByAuthority :: "string \<Rightarrow> enrollment_table \<Rightarrow> enrollment option" where
  "enrollment_findByAuthority authority rows = map_of rows authority"

definition enrollment_list :: "string \<Rightarrow> enrollment_table \<Rightarrow> enrollment_table" where
  "enrollment_list tenantId rows = sort_key (\<lambda>(a, r). - en_updatedAt r) (filter (\<lambda>(a, r). en_tenantId r = tenantId) rows)"

definition enrollment_count :: "enrollment_table \<Rightarrow> nat" where
  "enrollment_count rows = length rows"

text \<open>The handler of \<open>POST /registries/enroll\<close>; the body has passed its DTO. The answer is the row without its secret.\<close>

definition enroll :: "bool option \<Rightarrow> string option \<Rightarrow> clock \<Rightarrow> enroll_input \<Rightarrow> enrollment_table \<Rightarrow> (exn + enrollment) \<times> enrollment_table" where
  "enroll actorIsAdmin requestTenant us body rows =
     (case and_then (assertAdmin actorIsAdmin ''registry enrollment is admin-only'') (\<lambda>_. assertNotReservedTenant (ei_tenantId body) ''tenantId'') of
        Inl e \<Rightarrow> (Inl e, rows)
      | Inr _ \<Rightarrow>
          (let tenantId = (case ei_tenantId body of Some t \<Rightarrow> t | None \<Rightarrow> tenantOf requestTenant);
               input = body\<lparr>ei_tenantId := Some tenantId, ei_enabled := (case ei_enabled body of Some (Some b) \<Rightarrow> Some (Some b) | _ \<Rightarrow> None)\<rparr>
           in case enrollment_upsert us input rows of
             (Some row, rows') \<Rightarrow> (Inr (row\<lparr>en_webhookSecret := None\<rparr>), rows')
           | (None, rows') \<Rightarrow> (Inl (AppException REGISTRY_ENROLLED_ELSEWHERE 
               (''authority '' @ [CHR 0x22] @ ei_authority body @ [CHR 0x22] @ '' is already enrolled under a different tenant'') 409 None), rows')))"

section \<open>Lemmas\<close>

lemma enrollment_upsert_keeps:
  assumes "map_of rows a = Some r"
  shows "\<exists>r'. map_of (snd (enrollment_upsert us input rows)) a = Some r' \<and> en_tenantId r' = en_tenantId r \<and> en_createdAt r' = en_createdAt r"
proof (cases "map_of rows (ei_authority input)")
  case None
  then show ?thesis using assms by (auto simp: enrollment_upsert_def Let_def map_add_def)
next
  case (Some x)
  then show ?thesis using assms
    by (cases "a = ei_authority input") (auto simp: enrollment_upsert_def Let_def update_conv' buildEnrollmentUpdateSet_def)
qed

lemma enrollments_keep:
  "map_of rows a = Some r \<Longrightarrow> \<exists>r'. map_of (fold (\<lambda>(us, input). snd \<circ> enrollment_upsert us input) ops rows) a = Some r' \<and> en_tenantId r' = en_tenantId r \<and> en_createdAt r' = en_createdAt r"
proof (induction ops arbitrary: rows r)
  case (Cons op ops)
  obtain us input where op: "op = (us, input)" by (cases op)
  obtain r1 where r1: "map_of (snd (enrollment_upsert us input rows)) a = Some r1" "en_tenantId r1 = en_tenantId r" "en_createdAt r1 = en_createdAt r"
    using enrollment_upsert_keeps [OF Cons.prems] by blast
  from Cons.IH [OF r1(1)] r1(2,3) op show ?case by simp
qed simp

text \<open>What the projection says of a context: the state, its time, and who caused it.\<close>

definition transition_key :: "transition \<Rightarrow> string \<times> string" where
  "transition_key i = (tn_tenantId i, tn_ctxId i)"

definition lifecycle_view :: "lifecycle_table \<Rightarrow> string \<times> string \<Rightarrow> (bool \<times> clock \<times> string option \<times> string option) option" where
  "lifecycle_view rows k = map_option (\<lambda>r. (lc_retracted r, lc_lastEventAt r, lc_actor r, lc_reason r)) (map_of rows k)"

definition transition_view :: "transition \<Rightarrow> bool \<times> clock \<times> string option \<times> string option" where
  "transition_view i = (tn_retracted i, tn_at i, tn_actor i, tn_reason i)"

lemma view_apply:
  "lifecycle_view (apply_transition i rows) k = (if k \<noteq> transition_key i then lifecycle_view rows k
     else (case lifecycle_view rows k of
         None \<Rightarrow> Some (transition_view i)
       | Some v \<Rightarrow> if fst (snd v) \<le> tn_at i then Some (transition_view i) else Some v))"
  by (auto simp: lifecycle_view_def apply_transition_def transition_key_def transition_view_def update_conv' first_state_def moved_state_def split: option.splits)

lemma lifecycle_latest:
  "(case lifecycle_view (fold apply_transition ts []) k of
      None \<Rightarrow> \<forall>x \<in> set ts. transition_key x \<noteq> k
    | Some v \<Rightarrow> \<exists>t \<in> set ts. transition_key t = k \<and> v = transition_view t \<and> (\<forall>x \<in> set ts. transition_key x = k \<longrightarrow> tn_at x \<le> tn_at t))"
proof (induction ts rule: rev_induct)
  case (snoc i ts)
  show ?case
  proof (cases "lifecycle_view (fold apply_transition ts []) k")
    case None
    with snoc show ?thesis by (auto simp: view_apply)
  next
    case (Some v)
    with snoc obtain t where t: "t \<in> set ts" "transition_key t = k" "v = transition_view t" "\<forall>x \<in> set ts. transition_key x = k \<longrightarrow> tn_at x \<le> tn_at t" by auto
    show ?thesis
    proof (cases "k = transition_key i \<and> tn_at t \<le> tn_at i")
      case True
      then have "lifecycle_view (fold apply_transition (ts @ [i]) []) k = Some (transition_view i)"
        using Some t(3) by (simp add: view_apply transition_view_def)
      moreover have "\<forall>x \<in> set (ts @ [i]). transition_key x = k \<longrightarrow> tn_at x \<le> tn_at i" using True t(4) by fastforce
      ultimately show ?thesis using True by auto
    next
      case False
      then have "lifecycle_view (fold apply_transition (ts @ [i]) []) k = Some (transition_view t)"
        using Some t(3) by (auto simp: view_apply transition_view_def)
      moreover have "\<forall>x \<in> set (ts @ [i]). transition_key x = k \<longrightarrow> tn_at x \<le> tn_at t" using False t(4) by auto
      ultimately show ?thesis using t(1,2) by auto
    qed
  qed
qed (simp add: lifecycle_view_def)

text \<open>C20. Retraction is out-of-order safe: whatever the order in which retractions and republications of a context arrive, and however
  often, the projection shows the one with the latest time of its own, with its actor and reason.\<close>

theorem lifecycle_latest_wins:
  assumes "t \<in> set ts" "\<And>x. x \<in> set ts \<Longrightarrow> transition_key x = transition_key t \<Longrightarrow> x \<noteq> t \<Longrightarrow> tn_at x < tn_at t"
  shows "lifecycle_view (fold apply_transition ts []) (transition_key t) = Some (tn_retracted t, tn_at t, tn_actor t, tn_reason t)"
  using lifecycle_latest [of ts "transition_key t"] assms by (fastforce simp: transition_view_def split: option.splits)

definition sample_transition :: "bool \<Rightarrow> clock \<Rightarrow> transition" where
  "sample_transition retracted us = \<lparr>tn_ctxId = ''c'', tn_tenantId = ''t'', tn_lineageId = None, tn_retracted = retracted, tn_at = us, tn_actor = None,
     tn_reason = None\<rparr>"

theorem lifecycle_latest_wins_witness:
  "lifecycle_view (fold apply_transition [sample_transition True 1, sample_transition False 3, sample_transition True 2, sample_transition False 3] [])
     (''t'', ''c'') = Some (False, 3, None, None)"
proof -
  let ?ts = "[sample_transition True 1, sample_transition False 3, sample_transition True 2, sample_transition False 3]"
  have "lifecycle_view (fold apply_transition ?ts []) (transition_key (sample_transition False 3))
      = Some (tn_retracted (sample_transition False 3), tn_at (sample_transition False 3), tn_actor (sample_transition False 3), tn_reason (sample_transition False 3))"
    by (rule lifecycle_latest_wins) (auto simp: sample_transition_def)
  moreover have "transition_key (sample_transition b us) = (''t'', ''c'')" for b us by (simp add: transition_key_def sample_transition_def)
  ultimately show ?thesis by (simp add: sample_transition_def)
qed

text \<open>The two times of the projection are not out-of-order safe: a late retraction does not move \<open>retractedAt\<close>.\<close>

lemma late_retraction_time_is_lost:
  "map_option lc_retractedAt (map_of (fold apply_transition [sample_transition True 1, sample_transition False 3, sample_transition True 2] []) (''t'', ''c'')) = Some (Some 1)"
  "map_option lc_retractedAt (map_of (fold apply_transition [sample_transition True 1, sample_transition True 2, sample_transition False 3] []) (''t'', ''c'')) = Some (Some 2)"
  by (simp_all add: sample_transition_def apply_transition_def first_state_def moved_state_def)

end
