(* ===== verification/JsonDepth.thy ===== *)
theory JsonDepth
  imports Codec
begin

text \<open>
  The pre-scan of \<open>ingest/ingest.service.ts\<close> (\<open>exceedsJsonDepth\<close>), which bounds the nesting of a body before \<open>JSON.parse\<close> sees it. The
  scan knows nothing of the grammar; the lemmas follow the parser of \<open>Codec\<close> along the text and show that the scan's counter is at least
  the nesting of the value that is being read.
\<close>

section \<open>The scan\<close>

definition opens :: "char \<Rightarrow> bool" where "opens c = (c = CHR ''{'' \<or> c = CHR ''['')"
definition closes :: "char \<Rightarrow> bool" where "closes c = (c = CHR ''}'' \<or> c = CHR '']'')"

fun depth_scan :: "int \<Rightarrow> int \<Rightarrow> bool \<Rightarrow> bool \<Rightarrow> string \<Rightarrow> bool" where
  "depth_scan maxDepth depth inString escaped [] = False"
| "depth_scan maxDepth depth inString escaped (c # cs) =
     (if inString then
        (if escaped then depth_scan maxDepth depth True False cs
         else if c = backslash then depth_scan maxDepth depth True True cs
         else if c = quote then depth_scan maxDepth depth False escaped cs
         else depth_scan maxDepth depth True escaped cs)
      else if c = quote then depth_scan maxDepth depth True escaped cs
      else if opens c then depth + 1 > maxDepth \<or> depth_scan maxDepth (depth + 1) False escaped cs
      else if closes c then depth_scan maxDepth (if depth > 0 then depth - 1 else depth) False escaped cs
      else depth_scan maxDepth depth False escaped cs)"

definition exceedsJsonDepth :: "string \<Rightarrow> int \<Rightarrow> bool" where
  "exceedsJsonDepth text maxDepth = depth_scan maxDepth 0 False False text"

text \<open>The nesting of a value: how many arrays and objects stand around its deepest part, itself included.\<close>

fun json_depth :: "json \<Rightarrow> int" where
  "json_depth (JArr vs) = 1 + foldr (\<lambda>v. max (json_depth v)) vs 0"
| "json_depth (JObj ms) = 1 + foldr (\<lambda>p. max (json_depth (snd p))) ms 0"
| "json_depth _ = 0"

section \<open>What the parser consumes\<close>

definition plain_char :: "char \<Rightarrow> bool" where
  "plain_char c = (c \<noteq> quote \<and> \<not> opens c \<and> \<not> closes c)"

lemma scan_plain: "list_all plain_char p \<Longrightarrow> depth_scan m d False False (p @ r) = depth_scan m d False False r"
  by (induction p) (auto simp: plain_char_def)

lemma ws_plain: "json_ws c \<Longrightarrow> plain_char c"
  by (auto simp: json_ws_def plain_char_def opens_def closes_def quote_def)

lemma digit_plain_char: "is_digit c \<Longrightarrow> plain_char c"
  by (auto simp: is_digit_def digits_def plain_char_def opens_def closes_def quote_def)

lemma scan_skip_ws: "depth_scan m d False False (skip_ws s) = depth_scan m d False False s"
proof -
  have "list_all plain_char (takeWhile json_ws s)" by (auto simp: list_all_iff dest: set_takeWhileD ws_plain)
  from scan_plain [OF this, of m d "dropWhile json_ws s"] show ?thesis by (simp add: skip_ws_def)
qed

lemma scan_drop_digits: "depth_scan m d False False (dropWhile is_digit s) = depth_scan m d False False s"
proof -
  have "list_all plain_char (takeWhile is_digit s)" by (auto simp: list_all_iff dest: set_takeWhileD digit_plain_char)
  from scan_plain [OF this, of m d "dropWhile is_digit s"] show ?thesis by simp
qed

lemma scan_plain_char: "plain_char c \<Longrightarrow> depth_scan m d False False (c # r) = depth_scan m d False False r"
  using scan_plain [of "[c]"] by simp

lemma number_chars_plain [simp]: "plain_char (CHR ''-'')" "plain_char (CHR ''+'')" "plain_char (CHR ''.'')" "plain_char (CHR ''e'')" "plain_char (CHR ''E'')"
  by (simp_all add: plain_char_def opens_def closes_def quote_def)

lemma scan_fraction: "parse_fraction s = Some (fp, r) \<Longrightarrow> depth_scan m d False False s = depth_scan m d False False r"
  by (auto simp: parse_fraction_def scan_drop_digits scan_plain_char simp del: depth_scan.simps split: list.splits if_splits)

lemma scan_exponent: "parse_exponent s = Some (e, r) \<Longrightarrow> depth_scan m d False False s = depth_scan m d False False r"
  by (auto simp: parse_exponent_def Let_def scan_drop_digits scan_plain_char digit_plain_char simp del: depth_scan.simps split: list.splits if_splits)

lemma scan_number:
  assumes "parse_number s = Some (v, r)"
  shows "depth_scan m d False False s = depth_scan m d False False r \<and> json_depth v = 0"
proof -
  let ?t = "if s \<noteq> [] \<and> hd s = CHR ''-'' then tl s else s"
  obtain fp r1 e x where f: "parse_fraction (dropWhile is_digit ?t) = Some (fp, r1)" "parse_exponent r1 = Some (e, r)" "v = JNum x"
    using assms by (auto simp: parse_number_def Let_def split: if_splits option.splits)
  have "depth_scan m d False False s = depth_scan m d False False ?t" by (cases s) (auto simp: scan_plain_char simp del: depth_scan.simps)
  also have "\<dots> = depth_scan m d False False r"
    using scan_fraction [OF f(1)] scan_exponent [OF f(2)] scan_drop_digits [of m d ?t] by simp
  finally show ?thesis using f(3) by simp
qed

lemma scan_word: "starts_with w s \<Longrightarrow> list_all plain_char w \<Longrightarrow> depth_scan m d False False s = depth_scan m d False False (drop (length w) s)"
  using scan_plain [of w m d "drop (length w) s"] append_take_drop_id [of "length w" s] by (simp add: starts_with_def)

lemma scan_literal:
  assumes "parse_literal s = Some (v, r)"
  shows "depth_scan m d False False s = depth_scan m d False False r \<and> json_depth v = 0"
proof -
  have w: "list_all plain_char ''true''" "list_all plain_char ''false''" "list_all plain_char ''null''"
    by (simp_all add: plain_char_def opens_def closes_def quote_def)
  show ?thesis using assms scan_word [OF _ w(1), of s m d] scan_word [OF _ w(2), of s m d] scan_word [OF _ w(3), of s m d]
    by (auto simp: parse_literal_def scan_number eval_nat_numeral split: if_splits)
qed

lemma hex_any_plain: "hex_any c \<noteq> None \<Longrightarrow> c \<noteq> quote \<and> c \<noteq> backslash"
proof -
  have "hex_any quote = None" "hex_any backslash = None" by code_simp+
  then show "hex_any c \<noteq> None \<Longrightarrow> c \<noteq> quote \<and> c \<noteq> backslash" by auto
qed

lemma unicode_escape_hex: "unicode_escape a b c d = Some x \<Longrightarrow> hex_any a \<noteq> None \<and> hex_any b \<noteq> None \<and> hex_any c \<noteq> None \<and> hex_any d \<noteq> None"
  by (auto simp: unicode_escape_def split: option.splits nat.splits)

lemma scan_unicode:
  "unicode_escape a b c e = Some x \<Longrightarrow> depth_scan m d True False (a # b # c # e # r) = depth_scan m d True False r"
  using hex_any_plain [of a] hex_any_plain [of b] hex_any_plain [of c] hex_any_plain [of e] by (simp add: unicode_escape_hex [of a b c e x])

lemma scan_string: "parse_string s = Some (t, r) \<Longrightarrow> depth_scan m d True False s = depth_scan m d False False r"
proof (induction s arbitrary: t rule: parse_string.induct)
  case (2 c cs)
  show ?case
  proof (cases "c = quote \<or> c \<noteq> backslash")
    case True
    with 2 show ?thesis by (auto simp: parse_string.simps(2) cons_fst_def split: if_splits)
  next
    case False
    then have c: "c = backslash" "c \<noteq> quote" by auto
    with 2(4) obtain e r' where cs: "cs = e # r'" by (cases cs) (auto simp: parse_string.simps(2))
    show ?thesis
    proof (cases "e = CHR ''u''")
      case True
      with 2(4) c cs obtain h1 h2 h3 h4 r'' x t' where h: "r' = h1 # h2 # h3 # h4 # r''" "unicode_escape h1 h2 h3 h4 = Some x" "parse_string r'' = Some (t', r)"
        by (auto simp: parse_string.simps(2) cons_fst_def split: list.splits option.splits)
      from 2(1) [OF c(2,1) cs True h(1) refl refl refl h(2,3)] scan_unicode [OF h(2), of m d r''] c cs h(1) True show ?thesis by simp
    next
      case False
      with 2(4) c cs obtain x t' where x: "simple_escape e = Some x" "parse_string r' = Some (t', r)"
        by (auto simp: parse_string.simps(2) cons_fst_def split: option.splits)
      from 2(2) [OF c(2,1) cs False x] c cs show ?thesis by simp
    qed
  qed
qed simp


section \<open>The scan bounds the parsed value\<close>

text \<open>A value, or every value of a list, may stand at nesting \<open>d\<close> under the limit \<open>m\<close>.\<close>

definition fits :: "int \<Rightarrow> int \<Rightarrow> json \<Rightarrow> bool" where
  "fits m d v = (json_depth v = 0 \<or> d + json_depth v \<le> m)"

lemma foldr_max_le: "(\<And>x. x \<in> set xs \<Longrightarrow> f x \<le> (b :: int)) \<Longrightarrow> 0 \<le> b \<Longrightarrow> foldr (\<lambda>x. max (f x)) xs 0 \<le> b"
  by (induction xs) auto

lemma fits_array:
  assumes "d + 1 \<le> m" "list_all (fits m (d + 1)) vs"
  shows "fits m d (JArr vs)"
proof -
  have "json_depth v \<le> m - d - 1" if "v \<in> set vs" for v using that assms by (auto simp: list_all_iff fits_def)
  from foldr_max_le [of vs json_depth, OF this] assms(1) show ?thesis by (simp add: fits_def)
qed

lemma update_values: "set (fold (\<lambda>(k, v). AList.update k v) ms acc) \<subseteq> set acc \<union> set ms"
proof (induction ms arbitrary: acc)
  case (Cons p ms)
  have "set (AList.update k v acc) \<subseteq> insert (k, v) (set acc)" for k v by (induction acc) auto
  with Cons [of "AList.update (fst p) (snd p) acc"] show ?case by (cases p) fastforce
qed simp

lemma fits_object:
  assumes "d + 1 \<le> m" "list_all (\<lambda>p. fits m (d + 1) (snd p)) ms"
  shows "fits m d (JObj (fold (\<lambda>(k, v). AList.update k v) ms []))"
proof -
  let ?ms = "fold (\<lambda>(k, v). AList.update k v) ms []"
  have "json_depth (snd p) \<le> m - d - 1" if "p \<in> set ?ms" for p
    using that assms update_values [of ms "[]"] by (fastforce simp: list_all_iff fits_def)
  from foldr_max_le [of ?ms "\<lambda>p. json_depth (snd p)", OF this] assms(1) show ?thesis by (simp add: fits_def)
qed

lemma scan_open: "opens c \<Longrightarrow> \<not> depth_scan m d False False (c # cs) \<Longrightarrow> d + 1 \<le> m \<and> \<not> depth_scan m (d + 1) False False cs"
  by (auto simp: opens_def quote_def)

lemma scan_close: "closes c \<Longrightarrow> 0 \<le> d \<Longrightarrow> depth_scan m (d + 1) False False (c # cs) = depth_scan m d False False cs"
  by (auto simp: closes_def opens_def quote_def)

lemma scan_ws_cons: "skip_ws s = c # cs \<Longrightarrow> depth_scan m d False False s = depth_scan m d False False (c # cs)"
  using scan_skip_ws [of m d s] by simp

lemma scan_comma: "depth_scan m d False False (CHR '','' # cs) = depth_scan m d False False cs"
  "depth_scan m d False False (CHR '':'' # cs) = depth_scan m d False False cs"
  by (simp_all add: closes_def opens_def quote_def)

lemma scan_quote: "depth_scan m d False False (quote # cs) = depth_scan m d True False cs"
  by simp

lemma parse_fits:
  "parse_value n s = Some (v, r) \<Longrightarrow> 0 \<le> d \<Longrightarrow> \<not> depth_scan m d False False s \<Longrightarrow> \<not> depth_scan m d False False r \<and> fits m d v"
  "parse_elems n s = Some (vs, r) \<Longrightarrow> 0 \<le> d \<Longrightarrow> \<not> depth_scan m (d + 1) False False s \<Longrightarrow> \<not> depth_scan m d False False r \<and> list_all (fits m (d + 1)) vs"
  "parse_members n s = Some (ms, r) \<Longrightarrow> 0 \<le> d \<Longrightarrow> \<not> depth_scan m (d + 1) False False s \<Longrightarrow>
     \<not> depth_scan m d False False r \<and> list_all (\<lambda>p. fits m (d + 1) (snd p)) ms"
proof (induction n s and n s and n s arbitrary: v r d and vs r d and ms r d rule: parse_value_parse_elems_parse_members.induct)
  case (2 n s)
  obtain c cs where s: "skip_ws s = c # cs" using 2(3) by (auto simp: parse_value.simps(2) split: list.splits)
  have nc: "\<not> depth_scan m d False False (c # cs)" using 2(5) scan_ws_cons [OF s] by simp
  consider (str) "c = quote" | (arr) "c = CHR ''[''" | (obj) "c = CHR ''{''" | (lit) "c \<noteq> quote" "c \<noteq> CHR ''[''" "c \<noteq> CHR ''{''" by blast
  then show ?case
  proof cases
    case str
    with 2(3) s obtain t where "parse_string cs = Some (t, r)" "v = JStr t" by (auto simp: parse_value.simps(2))
    with nc str scan_string [of cs t r m d] show ?thesis by (simp add: fits_def)
  next
    case lit
    with 2(3) s have "parse_literal (c # cs) = Some (v, r)" by (simp add: parse_value.simps(2))
    from scan_literal [OF this, of m d] nc show ?thesis by (simp add: fits_def)
  next
    case arr
    then have o: "d + 1 \<le> m" "\<not> depth_scan m (d + 1) False False cs" using scan_open [OF _ nc] by (simp_all add: opens_def)
    show ?thesis
    proof (cases "skip_ws cs \<noteq> [] \<and> hd (skip_ws cs) = CHR '']''")
      case True
      then obtain cs' where w: "skip_ws cs = CHR '']'' # cs'" by (cases "skip_ws cs") auto
      have "\<not> depth_scan m d False False cs'" using o(2) scan_ws_cons [OF w] scan_close [of "CHR '']''" d m cs'] 2(4) by (simp add: closes_def)
      with 2(3) s arr w o(1) show ?thesis by (auto simp: parse_value.simps(2) quote_def fits_def)
    next
      case False
      with 2(3) s arr obtain vs where "parse_elems n cs = Some (vs, r)" "v = JArr vs" by (auto simp: parse_value.simps(2) quote_def)
      with 2(1) [OF s _ arr False this(1) 2(4) o(2)] arr o(1) show ?thesis by (simp add: quote_def fits_array del: json_depth.simps)
    qed
  next
    case obj
    then have o: "d + 1 \<le> m" "\<not> depth_scan m (d + 1) False False cs" using scan_open [OF _ nc] by (simp_all add: opens_def)
    show ?thesis
    proof (cases "skip_ws cs \<noteq> [] \<and> hd (skip_ws cs) = CHR ''}''")
      case True
      then obtain cs' where w: "skip_ws cs = CHR ''}'' # cs'" by (cases "skip_ws cs") auto
      have "\<not> depth_scan m d False False cs'" using o(2) scan_ws_cons [OF w] scan_close [of "CHR ''}''" d m cs'] 2(4) by (simp add: closes_def)
      with 2(3) s obj w o(1) show ?thesis by (auto simp: parse_value.simps(2) quote_def fits_def)
    next
      case False
      with 2(3) s obj obtain ms where "parse_members n cs = Some (ms, r)" "v = JObj (fold (\<lambda>(k, v). AList.update k v) ms [])" by (auto simp: parse_value.simps(2) quote_def)
      with 2(2) [OF s _ _ obj False this(1) 2(4) o(2)] obj o(1) show ?thesis by (simp add: quote_def fits_object)
    qed
  qed
next
  case (4 n s)
  obtain v1 r1 c cs where p: "parse_value n s = Some (v1, r1)" "skip_ws r1 = c # cs" using 4(3) by (auto simp: parse_elems.simps(2) split: option.splits list.splits)
  have "0 \<le> d + 1" using 4(4) by simp
  from 4(1) [OF p(1) this 4(5)] have v1: "\<not> depth_scan m (d + 1) False False (c # cs)" "fits m (d + 1) v1" using scan_ws_cons [OF p(2)] by simp_all
  show ?case
  proof (cases "c = CHR '',''")
    case True
    with 4(3) p obtain vs' where vs': "parse_elems n cs = Some (vs', r)" "vs = v1 # vs'" by (auto simp: parse_elems.simps(2) parse_members.simps(2) cons_fst_def)
    have "\<not> depth_scan m (d + 1) False False cs" using v1(1) True scan_comma(1) by simp
    from 4(2) [OF p(1) refl p(2) True vs'(1) 4(4) this] vs'(2) v1(2) show ?thesis by simp
  next
    case False
    with 4(3) p have c: "c = CHR '']''" "vs = [v1]" "r = cs" by (auto simp: parse_elems.simps(2) parse_members.simps(2) split: if_splits)
    with v1 scan_close [of c d m cs] 4(4) show ?thesis by (simp add: closes_def)
  qed
next
  case (6 n s)
  obtain r0 k r1 r2 v1 r3 c cs where p: "skip_ws s = quote # r0" "parse_string r0 = Some (k, r1)" "skip_ws r1 = CHR '':'' # r2"
    "parse_value n r2 = Some (v1, r3)" "skip_ws r3 = c # cs" using 6(3) by (auto simp: parse_members.simps(2) split: option.splits list.splits if_splits)
  have "\<not> depth_scan m (d + 1) False False r2"
    using 6(5) scan_ws_cons [OF p(1)] scan_quote [of m "d + 1" r0] scan_string [OF p(2)] scan_ws_cons [OF p(3)] scan_comma(2) by simp
  with 6(1) [OF p(1) _ p(2) refl p(3) _ p(4), of "d + 1"] 6(4) have v1: "\<not> depth_scan m (d + 1) False False (c # cs)" "fits m (d + 1) v1"
    using scan_ws_cons [OF p(5)] by simp_all
  show ?case
  proof (cases "c = CHR '',''")
    case True
    with 6(3) p obtain ms' where ms': "parse_members n cs = Some (ms', r)" "ms = (k, v1) # ms'" by (auto simp: parse_elems.simps(2) parse_members.simps(2) cons_fst_def)
    have "\<not> depth_scan m (d + 1) False False cs" using v1(1) True scan_comma(1) by simp
    from 6(2) [OF p(1) _ p(2) refl p(3) _ p(4) refl p(5) True ms'(1) 6(4) this] ms'(2) v1(2) show ?thesis by simp
  next
    case False
    with 6(3) p have c: "c = CHR ''}''" "ms = [(k, v1)]" "r = cs" by (auto simp: parse_elems.simps(2) parse_members.simps(2) split: if_splits)
    with v1 scan_close [of c d m cs] 6(4) show ?thesis by (simp add: closes_def)
  qed
qed simp_all

section \<open>Printed values\<close>

lemma scan_json_string: "depth_scan m d False False (json_string s @ r) = depth_scan m d False False r"
  using scan_string [OF parse_escaped_string [of s r], of m d] by (simp add: json_string_def)

lemma show_int_plain: "list_all plain_char (show_int i)"
proof -
  have "list_all plain_char (show_nat n)" for n using show_nat_digits [of n] digit_plain_char unfolding list_all_iff is_digit_def by blast
  then show ?thesis by (simp add: show_int_def)
qed

lemma foldr_max_ge: "x \<in> set xs \<Longrightarrow> f x \<le> foldr (\<lambda>x. max (f x)) xs (0 :: int)"
  by (induction xs) auto

lemma foldr_max_nonneg: "foldr (\<lambda>x. max (f x)) xs (0 :: int) \<ge> 0"
  by (induction xs) auto

lemma fits_elems:
  assumes "fits m d (JArr vs)"
  shows "d + 1 \<le> m \<and> list_all (fits m (d + 1)) vs"
proof -
  have "d + (1 + foldr (\<lambda>v. max (json_depth v)) vs 0) \<le> m" using assms foldr_max_nonneg [of json_depth vs] unfolding fits_def json_depth.simps by linarith
  with foldr_max_nonneg [of json_depth vs] foldr_max_ge [of _ vs json_depth] show ?thesis by (fastforce simp: list_all_iff fits_def)
qed

lemma fits_members:
  assumes "fits m d (JObj ms)"
  shows "d + 1 \<le> m \<and> list_all (\<lambda>p. fits m (d + 1) (snd p)) ms"
proof -
  let ?f = "\<lambda>p. json_depth (snd p)"
  have "d + (1 + foldr (\<lambda>p. max (?f p)) ms 0) \<le> m" using assms foldr_max_nonneg [of ?f ms] unfolding fits_def json_depth.simps by linarith
  with foldr_max_nonneg [of ?f ms] foldr_max_ge [of _ ms ?f] show ?thesis by (fastforce simp: list_all_iff fits_def)
qed

lemma scan_brackets:
  assumes "opens a" "closes b" "0 \<le> d" "d + 1 \<le> m"
    and "\<And>r. depth_scan m (d + 1) False False (t @ r) = depth_scan m (d + 1) False False r"
  shows "depth_scan m d False False ((a # t @ [b]) @ r) = depth_scan m d False False r"
proof -
  have "depth_scan m d False False ((a # t @ [b]) @ r) = depth_scan m (d + 1) False False (t @ b # r)"
    using assms(1,4) by (auto simp: opens_def quote_def)
  also have "\<dots> = depth_scan m d False False r" unfolding assms(5) by (rule scan_close [OF assms(2,3)])
  finally show ?thesis .
qed

lemma scan_printed:
  "stringify v = Some t \<Longrightarrow> 0 \<le> d \<Longrightarrow> fits m d v \<Longrightarrow> depth_scan m d False False (t @ r) = depth_scan m d False False r"
  "stringify_list vs = Some t \<Longrightarrow> 0 \<le> d \<Longrightarrow> list_all (fits m d) vs \<Longrightarrow> depth_scan m d False False (t @ r) = depth_scan m d False False r"
  "stringify_members ms = Some t \<Longrightarrow> 0 \<le> d \<Longrightarrow> list_all (\<lambda>p. fits m d (snd p)) ms \<Longrightarrow> depth_scan m d False False (t @ r) = depth_scan m d False False r"
proof (induction v and vs and ms arbitrary: t d r and t d r and t d r rule: stringify_stringify_list_stringify_members.induct)
  case 1
  then have "list_all plain_char t" by (auto simp: plain_char_def opens_def closes_def quote_def)
  then show ?case by (rule scan_plain)
next
  case (2 b)
  then have "list_all plain_char t" by (auto simp: plain_char_def opens_def closes_def quote_def)
  then show ?case by (rule scan_plain)
next
  case (3 n)
  then have "list_all plain_char t"
    using show_int_plain by (auto simp: plain_char_def opens_def closes_def quote_def split: jsnum.splits if_splits)
  then show ?case by (rule scan_plain)
next
  case (4 s)
  then have "t = json_string s" by simp
  then show ?case by (simp only: scan_json_string)
next
  case (5 vs)
  have f: "d + 1 \<le> m" "list_all (fits m (d + 1)) vs" using fits_elems [OF 5(4)] by simp_all
  show ?case
  proof (cases vs)
    case Nil
    with 5(2) have "t = CHR ''['' # [] @ [CHR '']'']" by simp
    then show ?thesis using scan_brackets [of "CHR ''[''" "CHR '']''" d m "[]" r] f(1) 5(3) by (simp only: opens_def closes_def append_Nil) simp
  next
    case (Cons w ws)
    with 5(2) obtain u where u: "stringify_list vs = Some u" "t = CHR ''['' # u @ [CHR '']'']" by auto
    have "0 \<le> d + 1" using 5(3) by simp
    from 5(1) [OF Cons u(1) this f(2)] show ?thesis unfolding u(2) by (intro scan_brackets 5(3) f(1)) (simp_all add: opens_def closes_def)
  qed
next
  case (6 ms)
  have f: "d + 1 \<le> m" "list_all (\<lambda>p. fits m (d + 1) (snd p)) ms" using fits_members [OF 6(4)] by simp_all
  show ?case
  proof (cases ms)
    case Nil
    with 6(2) have "t = CHR ''{'' # [] @ [CHR ''}'']" by simp
    then show ?thesis using scan_brackets [of "CHR ''{''" "CHR ''}''" d m "[]" r] f(1) 6(3) by (simp only: opens_def closes_def append_Nil) simp
  next
    case (Cons w ws)
    with 6(2) obtain u where u: "stringify_members ms = Some u" "t = CHR ''{'' # u @ [CHR ''}'']" by auto
    have "0 \<le> d + 1" using 6(3) by simp
    from 6(1) [OF Cons u(1) this f(2)] show ?thesis unfolding u(2) by (intro scan_brackets 6(3) f(1)) (simp_all add: opens_def closes_def)
  qed
next
  case (8 v vs)
  then obtain a b where ab: "stringify v = Some a" "stringify_list vs = Some b" "t = (if vs = [] then a else a @ '','' @ b)"
    by (auto split: option.splits)
  have f: "fits m d v" "list_all (fits m d) vs" using 8(5) by simp_all
  have "depth_scan m d False False (a @ x) = depth_scan m d False False x" for x by (rule 8(1) [OF ab(1) 8(4) f(1)])
  moreover have "depth_scan m d False False (b @ x) = depth_scan m d False False x" for x by (rule 8(2) [OF ab(2) 8(4) f(2)])
  ultimately show ?case unfolding ab(3) using scan_comma(1) by (cases "vs = []") (simp_all del: depth_scan.simps)
next
  case (10 k v ms)
  then obtain a b where ab: "stringify v = Some a" "stringify_members ms = Some b" "t = json_string k @ '':'' @ (if ms = [] then a else a @ '','' @ b)"
    by (auto split: option.splits)
  have f: "fits m d v" "list_all (\<lambda>p. fits m d (snd p)) ms" using 10(5) by simp_all
  have "depth_scan m d False False (a @ x) = depth_scan m d False False x" for x by (rule 10(1) [OF ab(1) 10(4) f(1)])
  moreover have "depth_scan m d False False (b @ x) = depth_scan m d False False x" for x by (rule 10(2) [OF ab(2) 10(4) f(2)])
  ultimately show ?case unfolding ab(3) using scan_comma scan_json_string by (cases "ms = []") (simp_all del: depth_scan.simps)
qed simp_all

lemma printed_within: "stringify w = Some t \<Longrightarrow> 0 \<le> m \<Longrightarrow> json_depth w \<le> m \<Longrightarrow> \<not> exceedsJsonDepth t m"
  using scan_printed(1) [of w t 0 m "[]"] by (auto simp: exceedsJsonDepth_def fits_def)

text \<open>C21. The pre-scan bounds the parser: a body that passes it parses to a value nested no deeper than the limit, whatever its strings and
  repeated keys hold, and a printed value passes exactly when it is nested no deeper than the limit.\<close>

theorem depth_scan_bounds_parse:
  assumes "0 \<le> m"
  shows "(\<not> exceedsJsonDepth source m \<longrightarrow> parse_json source = Some v \<longrightarrow> json_depth v \<le> m)
     \<and> (stringify w = Some t \<longrightarrow> printable w \<longrightarrow> (exceedsJsonDepth t m \<longleftrightarrow> json_depth w > m))"
proof -
  have bound: "json_depth v \<le> m" if e: "\<not> exceedsJsonDepth source m" "parse_json source = Some v" for source v
  proof -
    obtain r where "parse_value (2 * length source + 2) source = Some (v, r)" using e(2) by (auto simp: parse_json_def split: option.splits if_splits)
    from parse_fits(1) [OF this, of 0 m] e(1) assms show ?thesis by (auto simp: exceedsJsonDepth_def fits_def)
  qed
  have "json_depth w > m" if "stringify w = Some t" "exceedsJsonDepth t m"
    using printed_within [OF that(1) assms] that(2) by fastforce
  then show ?thesis using bound json_round_trip [of w t] by fastforce
qed

theorem depth_scan_bounds_parse_witness:
  "exceedsJsonDepth ''[[[]]]'' 2 \<and> \<not> exceedsJsonDepth ''[[],[[]],[]]'' 3 \<and> json_depth (JArr [JArr [], JArr [JArr []], JArr []]) \<le> 3"
proof -
  have "parse_json ''[[],[[]],[]]'' = Some (JArr [JArr [], JArr [JArr []], JArr []])" "\<not> exceedsJsonDepth ''[[],[[]],[]]'' 3"
    "stringify (JArr [JArr [JArr []]]) = Some ''[[[]]]''" "printable (JArr [JArr [JArr []]])" "json_depth (JArr [JArr [JArr []]]) > 2" by code_simp+
  with depth_scan_bounds_parse [of 3 "''[[],[[]],[]]''" "JArr [JArr [], JArr [JArr []], JArr []]"]
    depth_scan_bounds_parse [of 2 _ _ "JArr [JArr [JArr []]]" "''[[[]]]''"] show ?thesis by simp
qed

end
