(* ===== verification/Ingest.thy ===== *)
theory Ingest
  imports PlaneStore JsonDepth Quota
begin

text \<open>
  The ingest pipeline: the HMAC check (\<open>src/src/ingest/hmac.ts\<close>), the domain packs (\<open>src/src/domain-packs/domain-pack.ts\<close>), the event
  processor (\<open>src/src/processor/event-processor.service.ts\<close>), the service and the route (\<open>src/src/ingest/ingest.service.ts\<close>,
  \<open>ingest.controller.ts\<close>).

  A payload is the object \<open>JSON.parse\<close> gives, and every member is any JSON value, as the source does not check them: \<open>js_String\<close> is
  \<open>String(v)\<close>, with the text of a number as a parameter. The steps of the processor are separate database statements, so an exception
  leaves the effects of the steps before it. The pub/sub messages and the outbound webhook of an event are the effects it returns.
\<close>

section \<open>Values\<close>

fun js_String :: "(jsnum \<Rightarrow> string) \<Rightarrow> json \<Rightarrow> string" where
  "js_String N JNull = ''null''"
| "js_String N (JBool b) = (if b then ''true'' else ''false'')"
| "js_String N (JNum n) = N n"
| "js_String N (JStr s) = s"
| "js_String N (JArr vs) = join_with '','' (map (\<lambda>v. if v = JNull then [] else js_String N v) vs)"
| "js_String N (JObj ms) = ''[object Object]''"

text \<open>\<open>a ?? b\<close>.\<close>

definition coalesce :: "json option \<Rightarrow> json option \<Rightarrow> json option" where
  "coalesce a b = (case a of None \<Rightarrow> b | Some JNull \<Rightarrow> b | Some v \<Rightarrow> Some v)"

definition string_or :: "(jsnum \<Rightarrow> string) \<Rightarrow> string \<Rightarrow> json option \<Rightarrow> string" where
  "string_or N fallback v = (case coalesce v None of Some x \<Rightarrow> js_String N x | None \<Rightarrow> fallback)"

section \<open>The signature of a webhook\<close>

definition verifyWebhookSignature :: "bytes \<Rightarrow> string \<Rightarrow> string \<Rightarrow> bool" where
  "verifyWebhookSignature body signatureHeader secret =
     (if secret = [] then True
      else if signatureHeader = [] then False
      else (let expected = hex_of_bytes (hmac_sha256 (utf8 secret) body);
                provided = (if starts_with ''sha256='' signatureHeader then drop 7 signatureHeader else signatureHeader);
                a = bytes_of_hex expected; b = bytes_of_hex provided
            in length a = length b \<and> a = b))"

section \<open>Domain packs\<close>

record agent_template =
  at_id :: string
  at_description :: string
  at_capabilities :: "string list"

record context_type_rule =
  ct_contextType :: string
  ct_requiredFields :: "string list"
  ct_defaultVisibility :: string

record domain_pack =
  dp_id :: string
  dp_version :: string
  dp_label :: string
  dp_agentTemplates :: "agent_template list"
  dp_contextTypes :: "context_type_rule list"
  dp_synonyms :: "(string, string) jsmap"
  dp_stopWords :: "string list"

type_synonym pack_registry = "(string, domain_pack) jsmap"

definition pack_register :: "domain_pack \<Rightarrow> pack_registry \<Rightarrow> crash + pack_registry" where
  "pack_register pack byId = (if map_of byId (dp_id pack) \<noteq> None then Inl (''domain pack '' @ quoted (dp_id pack) @ '' is already registered'')
     else Inr (AList.update (dp_id pack) pack byId))"

definition pack_get :: "string \<Rightarrow> pack_registry \<Rightarrow> domain_pack option" where
  "pack_get packId byId = map_of byId packId"

definition pack_list :: "pack_registry \<Rightarrow> domain_pack list" where
  "pack_list byId = map snd byId"

definition allTemplates :: "pack_registry \<Rightarrow> (string \<times> agent_template) list" where
  "allTemplates byId = concat (map (\<lambda>p. map (\<lambda>t. (dp_id p, t)) (dp_agentTemplates p)) (pack_list byId))"

definition findTemplatesWithCapability :: "string \<Rightarrow> pack_registry \<Rightarrow> (string \<times> agent_template) list" where
  "findTemplatesWithCapability capabilityUri byId = filter (\<lambda>(p, t). capabilityUri \<in> set (at_capabilities t)) (allTemplates byId)"

section \<open>The event processor\<close>

record plane_db =
  pd_events :: "event_row list"
  pd_runs :: run_table
  pd_edges :: edge_table
  pd_lifecycle :: lifecycle_table
  pd_agents :: agent_table
  pd_registries :: registry_table
  pd_enrollments :: enrollment_table

record stream_event =
  se_type :: string
  se_ts :: string
  se_runId :: "json option"
  se_ctxId :: "json option"
  se_agentId :: string
  se_contextType :: "json option"
  se_registryAuthority :: string
  se_derivedFrom :: json
  se_keyFingerprint :: "string option"
  se_receiptPresent :: "bool option"
  se_actor :: "string option"
  se_reason :: "string option"

datatype effect =
    PublishToRun json stream_event string
  | PublishGlobal stream_event string
  | FireEvent string json string stream_event string

definition dedupKey :: "(jsnum \<Rightarrow> string) \<Rightarrow> jobj \<Rightarrow> json option \<Rightarrow> json option \<Rightarrow> string" where
  "dedupKey N payload runId eventId =
     (if truthy eventId then ''evt:'' @ js_String N (the eventId)
      else take 32 (sha256_hex (utf8 (join_with '':'' (map (string_or N [])
        [get_prop payload ''type'', get_prop payload ''ctx_id'', get_prop payload ''agent_id'', get_prop payload ''created_at'', runId,
         get_prop payload ''version''])))))"

definition extractScenarioId :: "jobj \<Rightarrow> json option" where
  "extractScenarioId payload = coalesce (case get_prop payload ''metadata'' of Some v \<Rightarrow> get_prop (props_of v) ''scenario_id'' | None \<Rightarrow> None)
     (get_prop payload ''scenario_id'')"

text \<open>The loop over \<open>derivedFrom\<close>, which runs when \<open>derivedFrom.length > 0\<close>: a string has its characters as items, and an object is not
  iterable.\<close>

definition derived_items :: "json \<Rightarrow> crash + json list" where
  "derived_items v = (case v of
     JArr vs \<Rightarrow> Inr vs
   | JStr s \<Rightarrow> Inr (map (\<lambda>c. JStr [c]) s)
   | JObj ms \<Rightarrow> (case js_number_opt (get_prop ms ''length'') of
       Fin r \<Rightarrow> if r > 0 then Inl ''derivedFrom is not iterable'' else Inr []
     | PosInf \<Rightarrow> Inl ''derivedFrom is not iterable''
     | _ \<Rightarrow> Inr [])
   | _ \<Rightarrow> Inr [])"

type_synonym plane_op = "plane_db \<Rightarrow> crash option \<times> plane_db"

fun in_sequence :: "plane_op list \<Rightarrow> plane_op" where
  "in_sequence [] db = (None, db)"
| "in_sequence (f # fs) db = (case f db of (Some e, db') \<Rightarrow> (Some e, db') | (None, db') \<Rightarrow> in_sequence fs db')"

definition run_step :: "pg_driver \<Rightarrow> clock \<Rightarrow> json option \<Rightarrow> json option \<Rightarrow> string \<Rightarrow> string \<Rightarrow> plane_op" where
  "run_step D us runId scenarioId authority tenantId db =
     (if \<not> truthy runId then (None, db)
      else case and_then (varchar_col D 255 (the runId)) (\<lambda>run.
          and_then (varchar_col D 128 (the (coalesce scenarioId (Some (JStr ''unknown''))))) (\<lambda>scenario.
          upsert_read (findRun (text_of D (the runId)) tenantId (pd_runs db)) us run scenario authority tenantId (pd_runs db))) of
        Inl e \<Rightarrow> (Some e, db)
      | Inr runs \<Rightarrow> (None, db\<lparr>pd_runs := runs\<rparr>))"

fun edge_loop :: "pg_driver \<Rightarrow> json \<Rightarrow> json option \<Rightarrow> string \<Rightarrow> json list \<Rightarrow> plane_op" where
  "edge_loop D ctxId runId tenantId [] db = (None, db)"
| "edge_loop D ctxId runId tenantId (v # vs) db = (case edge_upsert D v ctxId runId tenantId (pd_edges db) of
     Inl e \<Rightarrow> (Some e, db)
   | Inr edges \<Rightarrow> edge_loop D ctxId runId tenantId vs (db\<lparr>pd_edges := edges\<rparr>))"

definition edge_step :: "pg_driver \<Rightarrow> string \<Rightarrow> json option \<Rightarrow> json \<Rightarrow> json option \<Rightarrow> string \<Rightarrow> plane_op" where
  "edge_step D eventType ctxId derivedFrom runId tenantId db =
     (if eventType \<noteq> ''context_published'' \<or> \<not> truthy ctxId then (None, db)
      else case derived_items derivedFrom of
        Inl e \<Rightarrow> (Some e, db)
      | Inr items \<Rightarrow> edge_loop D (the ctxId) runId tenantId items db)"

definition lifecycle_step ::
    "pg_driver \<Rightarrow> string \<Rightarrow> json option \<Rightarrow> json option \<Rightarrow> string \<Rightarrow> string option \<Rightarrow> string option \<Rightarrow> string \<Rightarrow> plane_op" where
  "lifecycle_step D eventType ctxId lineageId eventTs actor reason tenantId db =
     (if eventType \<notin> {''context_retracted'', ''context_republished''} \<or> \<not> truthy ctxId then (None, db)
      else case applyTransition D (the ctxId) tenantId lineageId (eventType = ''context_retracted'') eventTs actor reason (pd_lifecycle db) of
        Inl e \<Rightarrow> (Some e, db)
      | Inr rows \<Rightarrow> (None, db\<lparr>pd_lifecycle := rows\<rparr>))"

definition agent_step :: "pg_driver \<Rightarrow> clock \<Rightarrow> string \<Rightarrow> string \<Rightarrow> string \<Rightarrow> plane_op" where
  "agent_step D us agentId authority tenantId db =
     (if agentId = [] then (None, db)
      else case and_then (text_col D (JStr agentId)) (\<lambda>did. and_then (varchar_col D 255 (JStr authority)) (\<lambda>a. Inr (agent_upsert us did a tenantId (pd_agents db)))) of
        Inl e \<Rightarrow> (Some e, db)
      | Inr agents \<Rightarrow> (None, db\<lparr>pd_agents := agents\<rparr>))"

definition registry_step :: "pg_driver \<Rightarrow> clock \<Rightarrow> string \<Rightarrow> string option \<Rightarrow> string \<Rightarrow> plane_op" where
  "registry_step D us authority baseUrl tenantId db =
     (if authority = [] then (None, db)
      else case and_then (varchar_col D 255 (JStr authority)) (\<lambda>a. and_then (nullable (text_col D) (map_option JStr baseUrl)) (\<lambda>u.
          Inr (registry_upsert us a u tenantId (pd_registries db)))) of
        Inl e \<Rightarrow> (Some e, db)
      | Inr registries \<Rightarrow> (None, db\<lparr>pd_registries := registries\<rparr>))"

definition to_stream_event :: "(jsnum \<Rightarrow> string) \<Rightarrow> jobj \<Rightarrow> string \<Rightarrow> json option \<Rightarrow> stream_event" where
  "to_stream_event N payload eventTs runId =
     (let eventType = string_or N ''unknown'' (get_prop payload ''type'')
      in \<lparr>se_type = eventType, se_ts = eventTs, se_runId = runId, se_ctxId = get_prop payload ''ctx_id'',
        se_agentId = string_or N [] (get_prop payload ''agent_id''), se_contextType = get_prop payload ''context_type'',
        se_registryAuthority = string_or N [] (get_prop payload ''registry_authority''),
        se_derivedFrom = the (coalesce (get_prop payload ''derived_from'') (Some (JArr []))),
        se_keyFingerprint = (case as_string (get_prop payload ''key_fingerprint'') of Some (c # cs) \<Rightarrow> Some (c # cs) | _ \<Rightarrow> None),
        se_receiptPresent = (if eventType = ''context_published''
          then Some (case get_prop payload ''registry_receipt'' of Some (JObj _) \<Rightarrow> True | Some (JArr _) \<Rightarrow> True | _ \<Rightarrow> False) else None),
        se_actor = (case as_string (get_prop payload ''actor'') of Some (c # cs) \<Rightarrow> Some (c # cs) | _ \<Rightarrow> None),
        se_reason = (case as_string (get_prop payload ''reason'') of Some (c # cs) \<Rightarrow> Some (c # cs) | _ \<Rightarrow> None)\<rparr>)"

definition new_event_of :: "(jsnum \<Rightarrow> string) \<Rightarrow> jobj \<Rightarrow> string \<Rightarrow> json option \<Rightarrow> string \<Rightarrow> json option \<Rightarrow> new_event" where
  "new_event_of N payload eventTs runId tenantId eventId = \<lparr>ne_tenantId = tenantId, ne_eventType = string_or N ''unknown'' (get_prop payload ''type''),
     ne_eventTs = eventTs, ne_runId = runId, ne_ctxId = get_prop payload ''ctx_id'', ne_lineageId = get_prop payload ''lineage_id'',
     ne_agentId = string_or N [] (get_prop payload ''agent_id''), ne_contextType = get_prop payload ''context_type'',
     ne_visibility = get_prop payload ''visibility'', ne_version = get_prop payload ''version'',
     ne_derivedFrom = the (coalesce (get_prop payload ''derived_from'') (Some (JArr []))),
     ne_registryAuthority = string_or N [] (get_prop payload ''registry_authority''), ne_scenarioId = extractScenarioId payload,
     ne_fingerprint = dedupKey N payload runId eventId, ne_keyFingerprint = as_string (get_prop payload ''key_fingerprint''),
     ne_receiptPresent = (case get_prop payload ''registry_receipt'' of Some (JObj _) \<Rightarrow> True | Some (JArr _) \<Rightarrow> True | _ \<Rightarrow> False),
     ne_rawPayload = payload\<rparr>"

definition event_time :: "(jsnum \<Rightarrow> string) \<Rightarrow> clock \<Rightarrow> jobj \<Rightarrow> string" where
  "event_time N us payload = string_or N (toISOString (now_ms us)) (coalesce (get_prop payload ''created_at'') (get_prop payload ''at''))"

definition process_steps :: "pg_driver \<Rightarrow> clock \<Rightarrow> jobj \<Rightarrow> string option \<Rightarrow> json option \<Rightarrow> new_event \<Rightarrow> plane_op list" where
  "process_steps D us payload originHeader runId input =
     (let tenantId = ne_tenantId input; eventType = ne_eventType input; authority = ne_registryAuthority input
      in [run_step D us runId (ne_scenarioId input) authority tenantId,
          edge_step D eventType (ne_ctxId input) (ne_derivedFrom input) runId tenantId,
          lifecycle_step D eventType (ne_ctxId input) (ne_lineageId input) (ne_eventTs input) (as_string (get_prop payload ''actor''))
            (as_string (get_prop payload ''reason'')) tenantId,
          agent_step D us (ne_agentId input) authority tenantId,
          registry_step D us authority
            (case as_string (get_prop payload ''registry_base_url'') of Some u \<Rightarrow> Some u | None \<Rightarrow> originHeader) tenantId])"

definition process ::
    "pg_driver \<Rightarrow> (jsnum \<Rightarrow> string) \<Rightarrow> clock \<Rightarrow> string \<Rightarrow> jobj \<Rightarrow> json option \<Rightarrow> string \<Rightarrow> string option \<Rightarrow> json option \<Rightarrow> plane_db
     \<Rightarrow> crash option \<times> plane_db \<times> effect list" where
  "process D N us newId payload runIdOverride tenantId originHeader eventId db =
     (let eventTs = event_time N us payload; runId = coalesce runIdOverride (get_prop payload ''run_id'');
          input = new_event_of N payload eventTs runId tenantId eventId
      in case create_event D us newId input (pd_events db) of
        Inl e \<Rightarrow> (Some e, db, [])
      | Inr (None, rows) \<Rightarrow> (None, db, [])
      | Inr (Some row, rows) \<Rightarrow>
          (case in_sequence (process_steps D us payload originHeader runId input) (db\<lparr>pd_events := rows\<rparr>) of
            (Some e, db') \<Rightarrow> (Some e, db', [])
          | (None, db') \<Rightarrow>
              (let ev = to_stream_event N payload eventTs runId
               in (None, db', (if truthy runId then [PublishToRun (the runId) ev tenantId] else [])
                    @ [PublishGlobal ev tenantId, FireEvent (ne_eventType input) (the (coalesce runId (Some (JStr [])))) eventTs ev tenantId]))))"

section \<open>The ingest service\<close>

definition ACDP_BASE_TYPES :: "string list" where
  "ACDP_BASE_TYPES = [''data_snapshot'', ''analysis'', ''prediction'', ''alert''] @ REVOCATION_CONTEXT_TYPES"

definition extractAuthorityFromCtxId :: "json option \<Rightarrow> string option" where
  "extractAuthorityFromCtxId ctxId = (case ctxId of
     Some (JStr s) \<Rightarrow>
       if \<not> starts_with ''acdp://'' s then None
       else (case hd (split_on (CHR ''/'') (drop 7 s)) of [] \<Rightarrow> None | a \<Rightarrow> Some a)
   | _ \<Rightarrow> None)"

record ingest_env =
  ig_driver :: pg_driver
  ig_numText :: "jsnum \<Rightarrow> string"
  ig_toString :: "bytes \<Rightarrow> string"
  ig_maxBodyBytes :: nat
  ig_maxJsonDepth :: int
  ig_webhookSecret :: string
  ig_requireEnrollment :: bool
  ig_strictTenant :: bool
  ig_packs :: pack_registry

record ingest_request =
  iq_now :: clock
  iq_newId :: string
  iq_body :: bytes
  iq_signature :: string
  iq_runId :: "string option"
  iq_tenantId :: string
  iq_origin :: "string option"
  iq_eventId :: "string option"

text \<open>The claimed authority, and the secret, tenant and base URL it selects.\<close>

definition claimed_authority :: "jobj \<Rightarrow> json option" where
  "claimed_authority payload = (if truthy (get_prop payload ''registry_authority'') then get_prop payload ''registry_authority''
     else map_option JStr (extractAuthorityFromCtxId (get_prop payload ''ctx_id'')))"

definition resolve_enrollment :: "ingest_env \<Rightarrow> string \<Rightarrow> jobj \<Rightarrow> enrollment_table \<Rightarrow> exn + string \<times> string \<times> string option" where
  "resolve_enrollment E headerTenantId payload enrollments =
     (let claimed = claimed_authority payload; name = (case claimed of Some v \<Rightarrow> js_String (ig_numText E) v | None \<Rightarrow> ''(unknown)'')
      in case (case claimed of Some v \<Rightarrow> enrollment_findByAuthority (text_of (ig_driver E) v) enrollments | None \<Rightarrow> None) of
        Some r \<Rightarrow>
          if \<not> en_enabled r then Inl (AppException REGISTRY_DISABLED (''Registry '' @ quoted name @ '' is disabled'') 403 None)
          else Inr ((case en_webhookSecret r of Some (c # cs) \<Rightarrow> c # cs | _ \<Rightarrow> ig_webhookSecret E), en_tenantId r, en_baseUrl r)
      | None \<Rightarrow>
          if ig_requireEnrollment E then Inl (AppException REGISTRY_NOT_ENROLLED (''Registry '' @ quoted name @ '' is not enrolled'') 403 None)
          else Inr (ig_webhookSecret E, if ig_strictTenant E then DEFAULT_TENANT_ID else headerTenantId, None))"

definition pack_gate :: "ingest_env \<Rightarrow> jobj \<Rightarrow> exn + unit" where
  "pack_gate E payload =
     (let packs = pack_list (ig_packs E); requested = string_or (ig_numText E) [] (get_prop payload ''context_type'')
      in throw_if (packs \<noteq> [] \<and> coalesce (get_prop payload ''context_type'') None \<noteq> None \<and> requested \<notin> set ACDP_BASE_TYPES
           \<and> requested \<notin> set (map ct_contextType (concat (map dp_contextTypes packs))))
         (bad_request (''context_type '' @ quoted requested @ '' not declared by any active domain pack ('' @ join_with '', '' (map dp_id packs) @ '')'')))"

definition parse_payload :: "ingest_env \<Rightarrow> bytes \<Rightarrow> exn + jobj" where
  "parse_payload E body =
     (if length body > ig_maxBodyBytes E then Inl (bad_request (''Payload exceeds '' @ show_nat (ig_maxBodyBytes E) @ ''-byte limit''))
      else if exceedsJsonDepth (ig_toString E body) (ig_maxJsonDepth E)
      then Inl (bad_request (''Payload JSON nesting exceeds depth limit ('' @ show_int (ig_maxJsonDepth E) @ '')''))
      else (case parse_json (ig_toString E body) of
          None \<Rightarrow> Inl (bad_request ''Invalid JSON payload'')
        | Some (JObj ms) \<Rightarrow> Inr ms
        | Some (JArr vs) \<Rightarrow> Inr []
        | Some _ \<Rightarrow> Inl (bad_request ''Payload must be an object'')))"

text \<open>The checks in their order: the payload with its authority, the tenant and the enrolled base URL.\<close>

definition vet_delivery :: "ingest_env \<Rightarrow> ingest_request \<Rightarrow> enrollment_table \<Rightarrow> exn + jobj \<times> string \<times> string option" where
  "vet_delivery E q enrollments =
     and_then (parse_payload E (iq_body q)) (\<lambda>payload.
     and_then (resolve_enrollment E (iq_tenantId q) payload enrollments) (\<lambda>(secret, tenantId, enrolledBaseUrl).
     and_then (throw_if (\<not> verifyWebhookSignature (iq_body q) (iq_signature q) secret)
       (AppException INVALID_WEBHOOK_SIGNATURE ''Invalid webhook signature'' 401 None)) (\<lambda>_.
     and_then (throw_if (\<not> truthy (get_prop payload ''type'')) (bad_request ''Missing required field: type'')) (\<lambda>_.
     and_then (throw_if (get_prop payload ''type'' = Some (JStr ''context_published'') \<and> \<not> truthy (get_prop payload ''agent_id''))
       (bad_request ''Missing required field: agent_id'')) (\<lambda>_.
     and_then (pack_gate E payload) (\<lambda>_.
     and_then (if truthy (get_prop payload ''registry_authority'') then Inr payload
               else (case extractAuthorityFromCtxId (get_prop payload ''ctx_id'') of
                   None \<Rightarrow> Inl (bad_request ''Missing required field: registry_authority (and ctx_id has no authority)'')
                 | Some a \<Rightarrow> Inr (AList.update ''registry_authority'' (JStr a) payload))) (\<lambda>payload'.
     Inr (payload', tenantId, enrolledBaseUrl))))))))"

text \<open>Everything before the quota: with them the run, the base URL and the event id.\<close>

definition admit ::
    "ingest_env \<Rightarrow> ingest_request \<Rightarrow> enrollment_table \<Rightarrow> exn + jobj \<times> string \<times> json option \<times> string option \<times> json option" where
  "admit E q enrollments = and_then (vet_delivery E q enrollments) (\<lambda>(payload, tenantId, enrolledBaseUrl).
     Inr (payload, tenantId, coalesce (map_option JStr (iq_runId q)) (get_prop payload ''run_id''),
       (case iq_origin q of Some u \<Rightarrow> Some u | None \<Rightarrow> enrolledBaseUrl),
       (case map_option trim (iq_eventId q) of Some (c # cs) \<Rightarrow> Some (JStr (c # cs)) | _ \<Rightarrow> get_prop payload ''event_id'')))"

text \<open>An exception of the database or the runtime is an error object with its message.\<close>

definition handle ::
    "ingest_env \<Rightarrow> (string \<Rightarrow> quota_action \<Rightarrow> 's \<Rightarrow> (exn + unit) \<times> jsnum option \<times> 's) option \<Rightarrow> ingest_request \<Rightarrow> plane_db \<Rightarrow> 's
     \<Rightarrow> (exn + unit) \<times> plane_db \<times> effect list \<times> 's" where
  "handle E quota q db s = (case admit E q (pd_enrollments db) of
     Inl e \<Rightarrow> (Inl e, db, [], s)
   | Inr (payload, tenantId, runId, baseUrl, eventId) \<Rightarrow>
       (case (case quota of Some enf \<Rightarrow> (case enf tenantId Publish s of (r, h, s') \<Rightarrow> (r, s')) | None \<Rightarrow> (Inr (), s)) of
          (Inl e, s') \<Rightarrow> (Inl e, db, [], s')
        | (Inr _, s') \<Rightarrow>
            (case process (ig_driver E) (ig_numText E) (iq_now q) (iq_newId q) payload runId tenantId baseUrl eventId db of
               (Some e, db', out) \<Rightarrow> (Inl (OtherObject [(''message'', JStr e)]), db', out, s')
             | (None, db', out) \<Rightarrow> (Inr (), db', out, s'))))"

text \<open>The route, with its raw body and headers; \<open>pinned\<close> is the tenant that a guard before it has set on the request.\<close>

definition request_of ::
    "clock \<Rightarrow> string \<Rightarrow> bytes \<Rightarrow> string option \<Rightarrow> string option \<Rightarrow> string option \<Rightarrow> string option \<Rightarrow> string option \<Rightarrow> string option \<Rightarrow> ingest_request" where
  "request_of us newId body signature runId pinned tenantHeader origin eventId = \<lparr>iq_now = us, iq_newId = newId, iq_body = body,
     iq_signature = (case signature of Some s \<Rightarrow> s | None \<Rightarrow> []), iq_runId = runId,
     iq_tenantId = (case pinned of Some (p # ps) \<Rightarrow> p # ps
       | _ \<Rightarrow> (case map_option trim tenantHeader of Some (c # cs) \<Rightarrow> c # cs | _ \<Rightarrow> DEFAULT_TENANT_ID)),
     iq_origin = map_option trim origin, iq_eventId = map_option trim eventId\<rparr>"

definition receiveWebhook ::
    "ingest_env \<Rightarrow> (string \<Rightarrow> quota_action \<Rightarrow> 's \<Rightarrow> (exn + unit) \<times> jsnum option \<times> 's) option \<Rightarrow> clock \<Rightarrow> string \<Rightarrow> bytes \<Rightarrow> string option
     \<Rightarrow> string option \<Rightarrow> string option \<Rightarrow> string option \<Rightarrow> string option \<Rightarrow> string option \<Rightarrow> plane_db \<Rightarrow> 's \<Rightarrow> (exn + unit) \<times> plane_db \<times> effect list \<times> 's" where
  "receiveWebhook E quota us newId body signature runId pinned tenantHeader origin eventId db s =
     handle E quota (request_of us newId body signature runId pinned tenantHeader origin eventId) db s"

section \<open>Confinement to one tenant\<close>

definition of_tenant :: "string \<Rightarrow> (string \<times> 'k, 'v) jsmap \<Rightarrow> (string \<times> 'k, 'v) jsmap" where
  "of_tenant t rows = filter (\<lambda>p. fst (fst p) = t) rows"

definition tenant_view ::
    "string \<Rightarrow> plane_db \<Rightarrow> event_row list \<times> run_table \<times> edge_table \<times> lifecycle_table \<times> agent_table \<times> registry_table" where
  "tenant_view t db = (filter (\<lambda>r. ce_tenantId r = t) (pd_events db), of_tenant t (pd_runs db), of_tenant t (pd_edges db),
     of_tenant t (pd_lifecycle db), of_tenant t (pd_agents db), of_tenant t (pd_registries db))"

lemma of_tenant_update [simp]: "t \<noteq> u \<Longrightarrow> of_tenant t (AList.update (u, k) v rows) = of_tenant t rows"
  by (induction rows) (auto simp: of_tenant_def)

lemma of_tenant_snoc [simp]: "t \<noteq> u \<Longrightarrow> of_tenant t (rows @ [((u, k), v)]) = of_tenant t rows"
  by (simp add: of_tenant_def)

lemma of_tenant_map [simp]: "t \<noteq> u \<Longrightarrow> of_tenant t (map (\<lambda>(k', r). (k', if k' = (u, k) then f r else r)) rows) = of_tenant t rows"
  by (induction rows) (auto simp: of_tenant_def)

text \<open>A step of tenant \<open>u\<close>: it keeps the events, the enrolments and every other tenant's rows.\<close>

definition confined_op :: "string \<Rightarrow> plane_op \<Rightarrow> bool" where
  "confined_op u f = (\<forall>db. pd_events (snd (f db)) = pd_events db \<and> pd_enrollments (snd (f db)) = pd_enrollments db
     \<and> (\<forall>t. t \<noteq> u \<longrightarrow> tenant_view t (snd (f db)) = tenant_view t db))"

lemma confined_sequence: "list_all (confined_op u) fs \<Longrightarrow> confined_op u (in_sequence fs)"
proof (induction fs)
  case (Cons f fs)
  then have f: "confined_op u f" "confined_op u (in_sequence fs)" by simp_all
  show ?case unfolding confined_op_def
  proof
    fix db
    show "pd_events (snd (in_sequence (f # fs) db)) = pd_events db \<and> pd_enrollments (snd (in_sequence (f # fs) db)) = pd_enrollments db
      \<and> (\<forall>t. t \<noteq> u \<longrightarrow> tenant_view t (snd (in_sequence (f # fs) db)) = tenant_view t db)"
      using f [unfolded confined_op_def, rule_format, of db] f(2) [unfolded confined_op_def, rule_format, of "snd (f db)"]
      by (cases "f db"; cases "fst (f db)") auto
  qed
qed (simp add: confined_op_def)

lemma upsert_read_tenant: "upsert_read existing us run sc a u runs = Inr runs' \<Longrightarrow> t \<noteq> u \<Longrightarrow> of_tenant t runs' = of_tenant t runs"
  by (auto simp: upsert_read_def Let_def split: option.splits if_splits)

lemma run_step_confined: "confined_op u (run_step D us runId sc a u)"
  by (auto simp: confined_op_def run_step_def tenant_view_def and_then_def dest: upsert_read_tenant split: sum.splits)

lemma edge_upsert_tenant: "edge_upsert D a b run u edges = Inr edges' \<Longrightarrow> t \<noteq> u \<Longrightarrow> of_tenant t edges' = of_tenant t edges"
  by (auto simp: edge_upsert_def and_then_def split: sum.splits if_splits)

lemma edge_loop_confined:
  "pd_events (snd (edge_loop D c run u vs db)) = pd_events db \<and> pd_enrollments (snd (edge_loop D c run u vs db)) = pd_enrollments db
     \<and> (t \<noteq> u \<longrightarrow> tenant_view t (snd (edge_loop D c run u vs db)) = tenant_view t db)"
proof (induction vs arbitrary: db)
  case (Cons v vs)
  show ?case
  proof (cases "edge_upsert D v c run u (pd_edges db)")
    case (Inr edges)
    then have "t \<noteq> u \<Longrightarrow> tenant_view t (db\<lparr>pd_edges := edges\<rparr>) = tenant_view t db" by (simp add: tenant_view_def edge_upsert_tenant)
    with Cons [of "db\<lparr>pd_edges := edges\<rparr>"] Inr show ?thesis by simp
  qed simp
qed simp

lemma edge_step_confined: "confined_op u (edge_step D ty c df run u)"
  using edge_loop_confined by (auto simp: confined_op_def edge_step_def split: sum.splits)

lemma apply_transition_tenant: "t \<noteq> tn_tenantId i \<Longrightarrow> of_tenant t (apply_transition i rows) = of_tenant t rows"
  by (auto simp: apply_transition_def split: option.splits)

lemma applyTransition_tenant: "applyTransition D c u l b at' ac re rows = Inr rows' \<Longrightarrow> t \<noteq> u \<Longrightarrow> of_tenant t rows' = of_tenant t rows"
  by (auto simp: applyTransition_def and_then_def apply_transition_tenant split: sum.splits)

lemma lifecycle_step_confined: "confined_op u (lifecycle_step D ty c l ts ac re u)"
  by (auto simp: confined_op_def lifecycle_step_def tenant_view_def dest: applyTransition_tenant split: sum.splits)

lemma agent_step_confined: "confined_op u (agent_step D us did a u)"
  by (auto simp: confined_op_def agent_step_def tenant_view_def and_then_def agent_upsert_def split: sum.splits)

lemma registry_step_confined: "confined_op u (registry_step D us a b u)"
  by (auto simp: confined_op_def registry_step_def tenant_view_def and_then_def registry_upsert_def split: sum.splits)

lemma process_steps_confined: "ne_tenantId input = u \<Longrightarrow> confined_op u (in_sequence (process_steps D us payload origin runId input))"
  unfolding process_steps_def Let_def
  by (intro confined_sequence) (simp add: run_step_confined edge_step_confined lifecycle_step_confined agent_step_confined registry_step_confined)

fun effect_tenant :: "effect \<Rightarrow> string" where
  "effect_tenant (PublishToRun r e t) = t"
| "effect_tenant (PublishGlobal e t) = t"
| "effect_tenant (FireEvent ty r ts e t) = t"

lemma event_columns_key:
  assumes "event_columns D us newId input = Inr row"
  shows "varchar_col D 255 (JStr (ne_tenantId input)) = Inr (ce_tenantId row)
     \<and> (\<exists>fp. varchar_col D 80 (JStr (ne_fingerprint input)) = Inr fp \<and> er_fingerprint row = Some fp)"
  using assms unfolding event_columns_def and_then_Inr by (elim exE conjE) auto

lemma varchar_col_tenant: "varchar_col D n (JStr s) = Inr r \<Longrightarrow> r \<in> {s, take n s}"
  by (auto simp: varchar_col_def and_then_def text_col_def text_of_def split: if_splits)

text \<open>A call of the processor stores at most one event, and only with it anything else happens.\<close>

lemma process_cases:
  assumes "process D N us newId payload runId u origin eventId db = (res, db', out)"
  obtains (nothing) "db' = db" "out = []"
  | (stored) row input where "create_event D us newId input (pd_events db) = Inr (Some row, pd_events db @ [row])"
      "ne_tenantId input = u" "ne_fingerprint input = dedupKey N payload (coalesce runId (get_prop payload ''run_id'')) eventId"
      "pd_events db' = pd_events db @ [row]" "pd_enrollments db' = pd_enrollments db"
      "\<And>t. t \<noteq> u \<Longrightarrow> t \<noteq> ce_tenantId row \<Longrightarrow> tenant_view t db' = tenant_view t db" "list_all (\<lambda>e. effect_tenant e = u) out"
proof -
  define eventTs where "eventTs = event_time N us payload"
  define rid where "rid = coalesce runId (get_prop payload ''run_id'')"
  define input where "input = new_event_of N payload eventTs rid u eventId"
  have c: "confined_op u (in_sequence (process_steps D us payload origin rid input))"
    by (rule process_steps_confined) (simp add: input_def new_event_of_def)
  note p = assms [unfolded process_def Let_def, folded eventTs_def rid_def, folded input_def]
  show thesis
  proof (cases "create_event D us newId input (pd_events db)")
    case (Inl e)
    show thesis by (rule nothing) (use p Inl in simp_all)
  next
    case (Inr r)
    obtain row rows where r: "r = (row, rows)" by (cases r)
    show thesis
    proof (cases row)
      case None
      show thesis by (rule nothing) (use p Inr r None in simp_all)
    next
      case (Some ev)
      with Inr r have rows: "rows = pd_events db @ [ev]" by (auto simp: create_event_def and_then_def split: sum.splits if_splits)
      have "db' = snd (in_sequence (process_steps D us payload origin rid input) (db\<lparr>pd_events := rows\<rparr>))" "list_all (\<lambda>e. effect_tenant e = u) out"
        using p Inr r Some by (auto split: prod.splits option.splits)
      with c [unfolded confined_op_def, rule_format, of "db\<lparr>pd_events := rows\<rparr>"] rows Inr r Some show thesis
        by (intro stored [of input ev]) (auto simp: input_def new_event_of_def rid_def tenant_view_def)
    qed
  qed
qed

text \<open>A stored key shuts out every later call with it.\<close>

lemma process_stored_key:
  assumes "r \<in> set (pd_events db)" "ce_tenantId r = t" "er_fingerprint r = Some fp"
    and "varchar_col D 255 (JStr u) = Inr t" "varchar_col D 80 (JStr (dedupKey N payload (coalesce runId (get_prop payload ''run_id'')) eventId)) = Inr fp"
  shows "\<exists>res. process D N us newId payload runId u origin eventId db = (res, db, [])"
proof -
  obtain res db' out where p: "process D N us newId payload runId u origin eventId db = (res, db', out)" by (cases "process D N us newId payload runId u origin eventId db")
  then show ?thesis
  proof (cases rule: process_cases)
    case (stored row input)
    then have n: "\<not> (\<exists>r \<in> set (pd_events db). same_delivery r row)" and e: "event_columns D us newId input = Inr row"
      by (auto simp: create_event_def and_then_def split: sum.splits if_splits)
    from event_columns_key [OF e] assms(4,5) stored(2,3) have "ce_tenantId row = t" "er_fingerprint row = Some fp" by simp_all
    with n assms(1-3) have False unfolding same_delivery_def by fastforce
    then show ?thesis ..
  qed (use p in simp)
qed

end
