(* ===== verification/IngestSafety.thy ===== *)
theory IngestSafety
  imports Ingest
begin

text \<open>
  What ingest guarantees: a delivery touches one tenant only, the one its enrolment or, without one, the configuration names, and only
  under a valid signature; and it is processed at most once, whatever is delivered in between. The last section shows what follows from
  processing an event once when a step fails, from the content key of events without an id, and from headers outside the signature.
\<close>

section \<open>Admission\<close>

definition claimed_enrollment :: "ingest_env \<Rightarrow> jobj \<Rightarrow> enrollment_table \<Rightarrow> enrollment option" where
  "claimed_enrollment E payload rows = (case claimed_authority payload of Some v \<Rightarrow> map_of rows (text_of (ig_driver E) v) | None \<Rightarrow> None)"

definition admitted :: "ingest_env \<Rightarrow> ingest_request \<Rightarrow> enrollment_table \<Rightarrow> string \<Rightarrow> bool" where
  "admitted E q rows u = (\<exists>payload. parse_payload E (iq_body q) = Inr payload
     \<and> (case claimed_enrollment E payload rows of
          Some r \<Rightarrow> en_enabled r \<and> u = en_tenantId r
            \<and> verifyWebhookSignature (iq_body q) (iq_signature q) (case en_webhookSecret r of Some (c # cs) \<Rightarrow> c # cs | _ \<Rightarrow> ig_webhookSecret E)
        | None \<Rightarrow> \<not> ig_requireEnrollment E \<and> u = (if ig_strictTenant E then DEFAULT_TENANT_ID else iq_tenantId q)
            \<and> verifyWebhookSignature (iq_body q) (iq_signature q) (ig_webhookSecret E)))"

lemma admit_admitted:
  assumes "admit E q rows = Inr (payload', u, run, base, eid)"
  shows "admitted E q rows u"
proof -
  obtain payload secret eb where p: "parse_payload E (iq_body q) = Inr payload" "resolve_enrollment E (iq_tenantId q) payload rows = Inr (secret, u, eb)"
    "verifyWebhookSignature (iq_body q) (iq_signature q) secret"
    using assms unfolding admit_def vet_delivery_def and_then_Inr throw_if_Inr by (auto simp: and_then_Inr throw_if_Inr)
  from p(2,3) have "case claimed_enrollment E payload rows of
      Some r \<Rightarrow> en_enabled r \<and> u = en_tenantId r
        \<and> verifyWebhookSignature (iq_body q) (iq_signature q) (case en_webhookSecret r of Some (c # cs) \<Rightarrow> c # cs | _ \<Rightarrow> ig_webhookSecret E)
    | None \<Rightarrow> \<not> ig_requireEnrollment E \<and> u = (if ig_strictTenant E then DEFAULT_TENANT_ID else iq_tenantId q)
        \<and> verifyWebhookSignature (iq_body q) (iq_signature q) (ig_webhookSecret E)"
    unfolding resolve_enrollment_def claimed_enrollment_def Let_def enrollment_findByAuthority_def
    by (cases "case claimed_authority payload of Some v \<Rightarrow> map_of rows (text_of (ig_driver E) v) | None \<Rightarrow> None") (auto split: if_splits)
  with p(1) show ?thesis unfolding admitted_def by blast
qed

lemma handle_cases:
  assumes "handle E quota q db s = (res, db', out, s')"
  obtains (nothing) "db' = db" "out = []"
  | (ran) payload u run base eid e where "admit E q (pd_enrollments db) = Inr (payload, u, run, base, eid)"
      "process (ig_driver E) (ig_numText E) (iq_now q) (iq_newId q) payload run u base eid db = (e, db', out)"
proof (cases "admit E q (pd_enrollments db)")
  case (Inl e)
  show ?thesis by (rule nothing) (use assms Inl in \<open>simp_all add: handle_def\<close>)
next
  case (Inr x)
  obtain payload u run base eid where x: "x = (payload, u, run, base, eid)" by (cases x)
  define r where "r = (case quota of Some enf \<Rightarrow> (case enf u Publish s of (r, h, s') \<Rightarrow> (r, s')) | None \<Rightarrow> (Inr (), s))"
  show ?thesis
  proof (cases "fst r")
    case (Inl e)
    show ?thesis by (rule nothing) (use assms Inr x Inl in \<open>auto simp: handle_def r_def [symmetric] split: prod.splits sum.splits\<close>)
  next
    case r: (Inr y)
    obtain e db1 o1 where p: "process (ig_driver E) (ig_numText E) (iq_now q) (iq_newId q) payload run u base eid db = (e, db1, o1)"
      by (cases "process (ig_driver E) (ig_numText E) (iq_now q) (iq_newId q) payload run u base eid db")
    have "db' = db1 \<and> out = o1"
      using assms Inr x r p by (cases r; cases e) (auto simp: handle_def r_def [symmetric])
    with ran [OF Inr [unfolded x]] p show ?thesis by simp
  qed
qed

lemma handle_stored:
  assumes "handle E quota q db s = (res, db', out, s')" "db' \<noteq> db \<or> out \<noteq> []"
  obtains payload u run base eid row input where "admit E q (pd_enrollments db) = Inr (payload, u, run, base, eid)"
    "create_event (ig_driver E) (iq_now q) (iq_newId q) input (pd_events db) = Inr (Some row, pd_events db @ [row])" "ne_tenantId input = u"
    "ne_fingerprint input = dedupKey (ig_numText E) payload (coalesce run (get_prop payload ''run_id'')) eid"
    "pd_events db' = pd_events db @ [row]" "pd_enrollments db' = pd_enrollments db"
    "\<And>t. t \<noteq> u \<Longrightarrow> t \<noteq> ce_tenantId row \<Longrightarrow> tenant_view t db' = tenant_view t db" "list_all (\<lambda>e. effect_tenant e = u) out"
  using assms(1)
proof (cases rule: handle_cases)
  case nothing
  with assms(2) show ?thesis by simp
next
  case (ran payload u run base eid e)
  from ran(2) show ?thesis
  proof (cases rule: process_cases)
    case nothing
    with assms(2) show ?thesis by simp
  next
    case (stored row input)
    with that [OF ran(1)] show ?thesis by blast
  qed
qed

lemma created_row:
  assumes "create_event D us newId input rows = Inr (Some row, rows')"
  shows "event_columns D us newId input = Inr row \<and> rows' = rows @ [row]"
  using assms by (auto simp: create_event_def and_then_def split: sum.splits if_splits)

lemma handle_confined:
  assumes "handle E quota q db s = (res, db', out, s')" "db' \<noteq> db \<or> out \<noteq> []"
  obtains u where "admitted E q (pd_enrollments db) u" "pd_enrollments db' = pd_enrollments db" "list_all (\<lambda>e. effect_tenant e = u) out"
    "\<And>t. t \<noteq> u \<Longrightarrow> t \<noteq> take 255 u \<Longrightarrow> tenant_view t db' = tenant_view t db"
  using assms
proof (rule handle_stored)
  fix payload u run base eid row input
  assume a: "admit E q (pd_enrollments db) = Inr (payload, u, run, base, eid)"
    "create_event (ig_driver E) (iq_now q) (iq_newId q) input (pd_events db) = Inr (Some row, pd_events db @ [row])" "ne_tenantId input = u"
    "pd_enrollments db' = pd_enrollments db" "list_all (\<lambda>e. effect_tenant e = u) out"
    and v: "\<And>t. t \<noteq> u \<Longrightarrow> t \<noteq> ce_tenantId row \<Longrightarrow> tenant_view t db' = tenant_view t db"
  have "ce_tenantId row \<in> {u, take 255 u}" using event_columns_key created_row [OF a(2)] varchar_col_tenant a(3) by blast
  with that [OF admit_admitted [OF a(1)] a(4,5)] v show ?thesis by blast
qed

section \<open>Histories of deliveries\<close>

fun ingest_all ::
    "ingest_env \<Rightarrow> (string \<Rightarrow> quota_action \<Rightarrow> 's \<Rightarrow> (exn + unit) \<times> jsnum option \<times> 's) option \<Rightarrow> ingest_request list \<Rightarrow> plane_db \<Rightarrow> 's
     \<Rightarrow> plane_db \<times> effect list \<times> 's" where
  "ingest_all E quota [] db s = (db, [], s)"
| "ingest_all E quota (q # qs) db s = (case handle E quota q db s of
     (r, db1, o1, s1) \<Rightarrow> (case ingest_all E quota qs db1 s1 of (db2, o2, s2) \<Rightarrow> (db2, o1 @ o2, s2)))"

lemma handle_grows: "handle E quota q db s = (res, db', out, s') \<Longrightarrow> pd_enrollments db' = pd_enrollments db \<and> set (pd_events db) \<subseteq> set (pd_events db')"
  by (cases "db' \<noteq> db") (auto elim: handle_stored)

lemma ingest_all_grows:
  "ingest_all E quota qs db s = (db', out, s') \<Longrightarrow> pd_enrollments db' = pd_enrollments db \<and> set (pd_events db) \<subseteq> set (pd_events db')"
proof (induction qs arbitrary: db s db' out s')
  case (Cons q qs)
  obtain r db1 o1 s1 where h: "handle E quota q db s = (r, db1, o1, s1)" by (cases "handle E quota q db s")
  obtain db2 o2 s2 where i: "ingest_all E quota qs db1 s1 = (db2, o2, s2)" by (cases "ingest_all E quota qs db1 s1")
  from handle_grows [OF h] Cons.IH [OF i] Cons.prems h i show ?case by auto
qed simp

text \<open>A repeated delivery has the same body and headers.\<close>

definition redelivered :: "ingest_request \<Rightarrow> clock \<Rightarrow> string \<Rightarrow> ingest_request" where
  "redelivered q us newId = q\<lparr>iq_now := us, iq_newId := newId\<rparr>"

lemma admit_redelivered: "admit E (redelivered q us newId) rows = admit E q rows"
  by (simp add: admit_def vet_delivery_def redelivered_def)

lemma stored_key_shuts_out:
  assumes "admit E q (pd_enrollments db) = Inr (payload, u, run, base, eid)"
    and "r \<in> set (pd_events db)" "er_fingerprint r = Some fp" "varchar_col (ig_driver E) 255 (JStr u) = Inr (ce_tenantId r)"
    and "varchar_col (ig_driver E) 80 (JStr (dedupKey (ig_numText E) payload (coalesce run (get_prop payload ''run_id'')) eid)) = Inr fp"
  shows "\<exists>res s'. handle E quota q db s = (res, db, [], s')"
proof -
  obtain res db' out s' where h: "handle E quota q db s = (res, db', out, s')" by (cases "handle E quota q db s")
  then show ?thesis
  proof (cases rule: handle_cases)
    case (ran payload' u' run' base' eid' e)
    with assms(1) have "process (ig_driver E) (ig_numText E) (iq_now q) (iq_newId q) payload run u base eid db = (e, db', out)" by simp
    with process_stored_key [OF assms(2) refl assms(3,4,5), of "iq_now q" "iq_newId q" base] h show ?thesis by auto
  qed (use h in blast)
qed

lemma handled_once:
  assumes "handle E quota q db s = (res, db1, out1, s1)" "db1 \<noteq> db" "ingest_all E quota qs db1 s1 = (db2, out2, s2)"
  shows "\<exists>res' s'. handle E quota (redelivered q us newId) db2 s3 = (res', db2, [], s')"
proof -
  have "db1 \<noteq> db \<or> out1 \<noteq> []" using assms(2) by simp
  with assms(1) show ?thesis
  proof (rule handle_stored)
    fix payload u run base eid row input
    assume a: "admit E q (pd_enrollments db) = Inr (payload, u, run, base, eid)"
      "create_event (ig_driver E) (iq_now q) (iq_newId q) input (pd_events db) = Inr (Some row, pd_events db @ [row])" "ne_tenantId input = u"
      "ne_fingerprint input = dedupKey (ig_numText E) payload (coalesce run (get_prop payload ''run_id'')) eid"
      "pd_events db1 = pd_events db @ [row]" "pd_enrollments db1 = pd_enrollments db"
    obtain fp where k: "varchar_col (ig_driver E) 255 (JStr u) = Inr (ce_tenantId row)" "er_fingerprint row = Some fp"
      "varchar_col (ig_driver E) 80 (JStr (dedupKey (ig_numText E) payload (coalesce run (get_prop payload ''run_id'')) eid)) = Inr fp"
      using event_columns_key created_row [OF a(2)] a(3,4) by force
    have "row \<in> set (pd_events db2)" "pd_enrollments db2 = pd_enrollments db" using ingest_all_grows [OF assms(3)] a(5,6) by auto
    with k show ?thesis using a(1) by (intro stored_key_shuts_out [where r = row and fp = fp]) (simp_all add: admit_redelivered)
  qed
qed


text \<open>C11. A delivery is processed at most once: once it stored its event, the same body with the same headers changes nothing and sends
  nothing, at any later time and after any other deliveries.\<close>

theorem ingest_at_most_once:
  assumes "handle E quota q db s = (res, db1, out1, s1)" "db1 \<noteq> db" "ingest_all E quota qs db1 s1 = (db2, out2, s2)"
  shows "\<exists>res' s'. handle E quota (redelivered q us newId) db2 s3 = (res', db2, [], s')"
  using assms by (rule handled_once)

section \<open>Sample deliveries\<close>

definition sample_driver :: pg_driver where
  "sample_driver = \<lparr>pg_text = (\<lambda>v. []), pg_time = (\<lambda>s. map_option (\<lambda>ms. ms * 1000) (date_parse s)), pg_int = (\<lambda>v. None)\<rparr>"

definition sample_ingest :: ingest_env where
  "sample_ingest = \<lparr>ig_driver = sample_driver, ig_numText = (\<lambda>n. []), ig_toString = (\<lambda>b. case utf8_decode b of Some s \<Rightarrow> s | None \<Rightarrow> []),
     ig_maxBodyBytes = 500, ig_maxJsonDepth = 64, ig_webhookSecret = [], ig_requireEnrollment = True, ig_strictTenant = True, ig_packs = []\<rparr>"

definition sample_plane :: plane_db where
  "sample_plane = \<lparr>pd_events = [], pd_runs = [], pd_edges = [], pd_lifecycle = [], pd_agents = [], pd_registries = [],
     pd_enrollments = [(''r.example'', \<lparr>en_tenantId = ''t'', en_baseUrl = None, en_registryDid = None, en_webhookSecret = Some ''k'',
       en_enabled = True, en_createdAt = 0, en_updatedAt = 0\<rparr>)]\<rparr>"

definition sample_body :: "jobj \<Rightarrow> bytes" where
  "sample_body p = utf8 (the (stringify (JObj p)))"

definition sample_delivery :: "jobj \<Rightarrow> ingest_request" where
  "sample_delivery p = \<lparr>iq_now = 0, iq_newId = ''id'', iq_body = sample_body p,
     iq_signature = ''sha256='' @ hex_of_bytes (hmac_sha256 (utf8 ''k'') (sample_body p)), iq_runId = None, iq_tenantId = DEFAULT_TENANT_ID,
     iq_origin = None, iq_eventId = None\<rparr>"

definition sample_event :: "string \<Rightarrow> (string \<times> json) list \<Rightarrow> jobj" where
  "sample_event ty extra = [(''type'', JStr ty), (''agent_id'', JStr ''did:key:z6Mk''), (''ctx_id'', JStr ''acdp://r.example/1'')] @ extra"

lemma own_signature: "secret \<noteq> [] \<Longrightarrow> verifyWebhookSignature body (''sha256='' @ hex_of_bytes (hmac_sha256 (utf8 secret) body)) secret"
  by (simp add: verifyWebhookSignature_def starts_with_def Let_def)

lemma sample_parse:
  assumes "stringify (JObj p) = Some t" "printable (JObj p)" "json_depth (JObj p) \<le> 64" "length (utf8 t) \<le> 500"
  shows "parse_payload sample_ingest (sample_body p) = Inr p"
proof -
  have "\<not> exceedsJsonDepth t 64" by (rule printed_within [OF assms(1) _ assms(3)]) simp
  with json_round_trip [OF assms(1,2)] assms(4) show ?thesis
    by (simp add: parse_payload_def sample_ingest_def sample_body_def assms(1) del: stringify.simps)
qed

definition well_printed :: "jobj \<Rightarrow> bool" where
  "well_printed p = (printable (JObj p) \<and> json_depth (JObj p) \<le> 64 \<and> (case stringify (JObj p) of Some t \<Rightarrow> length (utf8 t) \<le> 500 | None \<Rightarrow> False))"

lemma sample_delivery_fields [simp]:
  "iq_body (sample_delivery p) = sample_body p" "iq_runId (sample_delivery p) = None" "iq_tenantId (sample_delivery p) = DEFAULT_TENANT_ID"
  "iq_origin (sample_delivery p) = None" "iq_eventId (sample_delivery p) = None" "iq_newId (sample_delivery p) = ''id''" "iq_now (sample_delivery p) = 0"
  by (simp_all add: sample_delivery_def)

lemma sample_signature: "verifyWebhookSignature (sample_body p) (iq_signature (sample_delivery p)) ''k''"
proof -
  have "iq_signature (sample_delivery p) = ''sha256='' @ hex_of_bytes (hmac_sha256 (utf8 ''k'') (sample_body p))" by (simp add: sample_delivery_def)
  then show ?thesis by (simp only: own_signature list.distinct simp_thms)
qed

lemma sample_admit:
  assumes "well_printed (sample_event ty extra)" "ty \<noteq> []" "get_prop extra ''registry_authority'' = None"
  shows "admit sample_ingest (sample_delivery (sample_event ty extra)) (pd_enrollments sample_plane)
    = Inr (sample_event ty extra @ [(''registry_authority'', JStr ''r.example'')], ''t'', get_prop extra ''run_id'', None, get_prop extra ''event_id'')"
proof -
  obtain t where t: "stringify (JObj (sample_event ty extra)) = Some t" "printable (JObj (sample_event ty extra))"
    "json_depth (JObj (sample_event ty extra)) \<le> 64" "length (utf8 t) \<le> 500"
    using assms(1) by (auto simp: well_printed_def split: option.splits)
  let ?p = "sample_event ty extra"
  have g: "get_prop ?p ''type'' = Some (JStr ty)" "get_prop ?p ''agent_id'' = Some (JStr ''did:key:z6Mk'')" "get_prop ?p ''ctx_id'' = Some (JStr ''acdp://r.example/1'')"
    "get_prop ?p ''registry_authority'' = None" using assms(3) by (simp_all add: sample_event_def get_prop_def)
  have a: "extractAuthorityFromCtxId (Some (JStr ''acdp://r.example/1'')) = Some ''r.example''" by code_simp
  have c: "claimed_authority ?p = Some (JStr ''r.example'')" by (simp add: claimed_authority_def g a truthy_def)
  have r: "resolve_enrollment sample_ingest DEFAULT_TENANT_ID ?p (pd_enrollments sample_plane) = Inr (''k'', ''t'', None)"
    by (simp add: resolve_enrollment_def c sample_plane_def enrollment_findByAuthority_def text_of_def)
  have k: "pack_gate sample_ingest ?p = Inr ()" by (simp add: pack_gate_def sample_ingest_def pack_list_def)
  have u: "AList.update ''registry_authority'' (JStr ''r.example'') ?p = ?p @ [(''registry_authority'', JStr ''r.example'')]"
    using g(4) by (simp add: get_prop_def update_append_new)
  show ?thesis
    by (simp add: admit_def vet_delivery_def sample_parse [OF t] r sample_signature k g a u throw_if_def and_then_def truthy_def assms(2) coalesce_def)
      (simp add: sample_event_def get_prop_def map_add_def split: option.splits)
qed

definition good_event :: jobj where
  "good_event = sample_event ''context_published'' [(''created_at'', JStr ''2026-01-01T00:00:00.000Z''), (''event_id'', JStr ''e1'')]"

definition broken_event :: jobj where
  "broken_event = sample_event ''context_published'' [(''created_at'', JStr ''2026-01-01T00:00:00.000Z''), (''event_id'', JStr ''e2''), (''derived_from'', JArr [JNull])]"

definition with_authority :: "jobj \<Rightarrow> jobj" where
  "with_authority p = p @ [(''registry_authority'', JStr ''r.example'')]"

lemma sample_pg_time: "pg_time sample_driver ''2026-01-01T00:00:00.000Z'' = Some 1767225600000000"
proof -
  have "date_parse ''2026-01-01T00:00:00.000Z'' = Some 1767225600000" by code_simp
  then show ?thesis by (simp add: sample_driver_def)
qed

lemmas column_defs = varchar_col_def text_col_def text_of_def nullable_def time_col_def int_col_def jsonb_col_def and_then_def NULL_BYTE_def

lemmas payload_defs = sample_event_def get_prop_def string_or_def coalesce_def as_string_def props_of_def extractScenarioId_def

lemma good_event_columns:
  "\<exists>row. event_columns sample_driver us newId (new_event_of (\<lambda>n. []) (with_authority good_event) ''2026-01-01T00:00:00.000Z'' None ''t'' (Some (JStr ''e1''))) = Inr row"
  by (simp add: event_columns_def new_event_of_def good_event_def with_authority_def payload_defs column_defs sample_pg_time dedupKey_def truthy_def)

lemma broken_event_columns:
  "\<exists>row. event_columns sample_driver us newId (new_event_of (\<lambda>n. []) (with_authority broken_event) ''2026-01-01T00:00:00.000Z'' None ''t'' (Some (JStr ''e2''))) = Inr row"
  by (simp add: event_columns_def new_event_of_def broken_event_def with_authority_def payload_defs column_defs sample_pg_time dedupKey_def truthy_def)

lemma process_creates:
  assumes "event_columns D us newId (new_event_of N payload (event_time N us payload) (coalesce runId (get_prop payload ''run_id'')) u eventId) = Inr row"
    "\<not> (\<exists>r \<in> set (pd_events db). same_delivery r row)"
  shows "\<exists>res db' out. process D N us newId payload runId u origin eventId db = (res, db', out) \<and> pd_events db' = pd_events db @ [row]"
proof -
  have c: "create_event D us newId (new_event_of N payload (event_time N us payload) (coalesce runId (get_prop payload ''run_id'')) u eventId) (pd_events db)
      = Inr (Some row, pd_events db @ [row])"
    using assms by (simp add: create_event_def and_then_def)
  obtain res db' out where p: "process D N us newId payload runId u origin eventId db = (res, db', out)" by (cases "process D N us newId payload runId u origin eventId db")
  have "pd_events (snd (in_sequence (process_steps D us payload origin run (new_event_of N payload ts run u eventId)) (db\<lparr>pd_events := es\<rparr>))) = es" for run ts es
    using process_steps_confined [of "new_event_of N payload ts run u eventId" u] unfolding confined_op_def by (simp add: new_event_of_def)
  moreover have "db' = snd (in_sequence (process_steps D us payload origin (coalesce runId (get_prop payload ''run_id''))
      (new_event_of N payload (event_time N us payload) (coalesce runId (get_prop payload ''run_id'')) u eventId)) (db\<lparr>pd_events := pd_events db @ [row]\<rparr>))"
    using p by (auto simp: process_def Let_def c split: prod.splits option.splits)
  ultimately have "pd_events db' = pd_events db @ [row]" by simp
  with p show ?thesis by blast
qed

lemma event_times: "event_time (\<lambda>n. []) us (with_authority good_event) = ''2026-01-01T00:00:00.000Z''"
  "event_time (\<lambda>n. []) us (with_authority broken_event) = ''2026-01-01T00:00:00.000Z''"
  by (simp_all add: event_time_def good_event_def broken_event_def with_authority_def payload_defs)

lemma no_run: "get_prop (with_authority good_event) ''run_id'' = None" "get_prop (with_authority broken_event) ''run_id'' = None"
  by (simp_all add: good_event_def broken_event_def with_authority_def payload_defs)

lemma sample_admits:
  "admit sample_ingest (sample_delivery good_event) (pd_enrollments sample_plane) = Inr (with_authority good_event, ''t'', None, None, Some (JStr ''e1''))"
  "admit sample_ingest (sample_delivery broken_event) (pd_enrollments sample_plane) = Inr (with_authority broken_event, ''t'', None, None, Some (JStr ''e2''))"
proof -
  have "well_printed good_event" "well_printed broken_event" by code_simp+
  then show "admit sample_ingest (sample_delivery good_event) (pd_enrollments sample_plane) = Inr (with_authority good_event, ''t'', None, None, Some (JStr ''e1''))"
    "admit sample_ingest (sample_delivery broken_event) (pd_enrollments sample_plane) = Inr (with_authority broken_event, ''t'', None, None, Some (JStr ''e2''))"
    unfolding good_event_def broken_event_def with_authority_def by (subst sample_admit; simp add: get_prop_def)+
qed

lemma good_delivery_stored:
  obtains res db1 out where "handle sample_ingest None (sample_delivery good_event) sample_plane () = (res, db1, out, ())" "db1 \<noteq> sample_plane"
proof -
  obtain row where e: "event_columns sample_driver 0 ''id'' (new_event_of (\<lambda>n. []) (with_authority good_event) ''2026-01-01T00:00:00.000Z'' None ''t'' (Some (JStr ''e1''))) = Inr row"
    using good_event_columns by blast
  have c: "coalesce None None = None" by (simp add: coalesce_def)
  obtain r db' out where p: "process sample_driver (\<lambda>n. []) 0 ''id'' (with_authority good_event) None ''t'' None (Some (JStr ''e1'')) sample_plane = (r, db', out)"
    "pd_events db' = [row]"
    using process_creates [of sample_driver 0 "''id''" "\<lambda>n. []" "with_authority good_event" None "''t''" "Some (JStr ''e1'')" row sample_plane None] e
    by (auto simp: event_times no_run c sample_plane_def)
  have "handle sample_ingest None (sample_delivery good_event) sample_plane () = (case r of Some e \<Rightarrow> Inl (OtherObject [(''message'', JStr e)]) | None \<Rightarrow> Inr (), db', out, ())"
    using p(1) by (cases r) (simp_all add: handle_def sample_admits sample_ingest_def [THEN arg_cong [of _ _ ig_driver]] sample_ingest_def [THEN arg_cong [of _ _ ig_numText]])
  moreover have "db' \<noteq> sample_plane" using p(2) by (auto simp: sample_plane_def)
  ultimately show thesis by (rule that)
qed


theorem ingest_at_most_once_witness:
  "\<exists>res db1 out. handle sample_ingest None (sample_delivery good_event) sample_plane () = (res, db1, out, ()) \<and> db1 \<noteq> sample_plane
     \<and> (\<exists>res'. handle sample_ingest None (redelivered (sample_delivery good_event) 7 ''other'') db1 () = (res', db1, [], ()))"
proof -
  obtain res db1 out where h: "handle sample_ingest None (sample_delivery good_event) sample_plane () = (res, db1, out, ())" "db1 \<noteq> sample_plane"
    by (rule good_delivery_stored)
  from ingest_at_most_once [OF h, of "[]" db1 "[]" "()" 7 "''other''" "()"] h show ?thesis by auto
qed

section \<open>What processing once costs\<close>

lemma broken_steps:
  "in_sequence (process_steps sample_driver us (with_authority broken_event) None None
      (new_event_of (\<lambda>n. []) (with_authority broken_event) ts None ''t'' (Some (JStr ''e2'')))) db = (Some ''null value violates not-null constraint'', db)"
  by (simp add: process_steps_def Let_def new_event_of_def run_step_def edge_step_def truthy_def broken_event_def with_authority_def payload_defs
      derived_items_def edge_upsert_def)

lemma broken_processed:
  obtains db1 row where "process sample_driver (\<lambda>n. []) 0 ''id'' (with_authority broken_event) None ''t'' None (Some (JStr ''e2'')) sample_plane
      = (Some ''null value violates not-null constraint'', db1, [])" "db1 = sample_plane\<lparr>pd_events := [row]\<rparr>"
    "\<And>us newId. process sample_driver (\<lambda>n. []) us newId (with_authority broken_event) None ''t'' None (Some (JStr ''e2'')) db1 = (None, db1, [])"
proof -
  have c: "coalesce None None = None" by (simp add: coalesce_def)
  have k: "\<exists>row. event_columns sample_driver us newId (new_event_of (\<lambda>n. []) (with_authority broken_event) ''2026-01-01T00:00:00.000Z'' None ''t'' (Some (JStr ''e2''))) = Inr row
      \<and> ce_tenantId row = ''t'' \<and> er_fingerprint row = Some ''evt:e2''" for us newId
    by (simp add: event_columns_def new_event_of_def broken_event_def with_authority_def payload_defs column_defs sample_pg_time dedupKey_def truthy_def)
  obtain row where row: "event_columns sample_driver 0 ''id'' (new_event_of (\<lambda>n. []) (with_authority broken_event) ''2026-01-01T00:00:00.000Z'' None ''t'' (Some (JStr ''e2''))) = Inr row"
      "ce_tenantId row = ''t''" "er_fingerprint row = Some ''evt:e2''" using k by blast
  have "process sample_driver (\<lambda>n. []) 0 ''id'' (with_authority broken_event) None ''t'' None (Some (JStr ''e2'')) sample_plane
      = (Some ''null value violates not-null constraint'', sample_plane\<lparr>pd_events := [row]\<rparr>, [])"
    using row by (simp add: process_def Let_def event_times no_run c create_event_def and_then_def broken_steps) (simp add: sample_plane_def)
  moreover have "process sample_driver (\<lambda>n. []) us newId (with_authority broken_event) None ''t'' None (Some (JStr ''e2'')) (sample_plane\<lparr>pd_events := [row]\<rparr>)
      = (None, sample_plane\<lparr>pd_events := [row]\<rparr>, [])" for us newId
    using k [of us newId] row(2,3) by (auto simp: process_def Let_def event_times no_run c create_event_def and_then_def same_delivery_def)
  ultimately show thesis using that by blast
qed

text \<open>C35. A failed event is never completed: a publish that derives from \<open>null\<close> is stored and then fails, before its agent and registry are
  counted and its event is sent; every repetition of the delivery is answered with success and does nothing.\<close>

theorem failed_event_never_completed:
  "\<exists>db1 e. handle sample_ingest None (sample_delivery broken_event) sample_plane () = (Inl e, db1, [], ()) \<and> length (pd_events db1) = 1
     \<and> pd_agents db1 = [] \<and> pd_registries db1 = []
     \<and> (\<forall>us newId. handle sample_ingest None (redelivered (sample_delivery broken_event) us newId) db1 () = (Inr (), db1, [], ()))"
proof -
  obtain db1 row where p: "process sample_driver (\<lambda>n. []) 0 ''id'' (with_authority broken_event) None ''t'' None (Some (JStr ''e2'')) sample_plane
      = (Some ''null value violates not-null constraint'', db1, [])" "db1 = sample_plane\<lparr>pd_events := [row]\<rparr>"
    "\<And>us newId. process sample_driver (\<lambda>n. []) us newId (with_authority broken_event) None ''t'' None (Some (JStr ''e2'')) db1 = (None, db1, [])"
    using broken_processed by metis
  have d: "ig_driver sample_ingest = sample_driver" "ig_numText sample_ingest = (\<lambda>n. [])" by (simp_all add: sample_ingest_def)
  have "pd_enrollments db1 = pd_enrollments sample_plane" using p(2) by simp
  then have "handle sample_ingest None (redelivered (sample_delivery broken_event) us newId) db1 () = (Inr (), db1, [], ())" for us newId
    using p(3) by (simp add: handle_def admit_redelivered sample_admits d)
  moreover have "handle sample_ingest None (sample_delivery broken_event) sample_plane () = (Inl (OtherObject [(''message'', JStr ''null value violates not-null constraint'')]), db1, [], ())"
    using p(1) by (simp add: handle_def sample_admits d)
  moreover have "length (pd_events db1) = 1 \<and> pd_agents db1 = [] \<and> pd_registries db1 = []" using p(2) by (simp add: sample_plane_def)
  ultimately show ?thesis by blast
qed

section \<open>Headers outside the signature\<close>

lemma good_steps:
  "in_sequence (process_steps sample_driver us (with_authority good_event) origin None
      (new_event_of (\<lambda>n. []) (with_authority good_event) ts None ''t'' eid)) db
     = (case and_then (nullable (text_col sample_driver) (map_option JStr origin)) (\<lambda>u. Inr (registry_upsert us ''r.example'' u ''t'' (pd_registries db))) of
          Inl e \<Rightarrow> (Some e, db\<lparr>pd_agents := agent_upsert us ''did:key:z6Mk'' ''r.example'' ''t'' (pd_agents db)\<rparr>)
        | Inr rows \<Rightarrow> (None, db\<lparr>pd_agents := agent_upsert us ''did:key:z6Mk'' ''r.example'' ''t'' (pd_agents db), pd_registries := rows\<rparr>))"
  by (simp add: process_steps_def Let_def new_event_of_def run_step_def edge_step_def lifecycle_step_def agent_step_def registry_step_def truthy_def
      good_event_def with_authority_def payload_defs derived_items_def column_defs split: sum.splits option.splits)

lemma good_columns:
  "\<exists>row. event_columns sample_driver us newId (new_event_of (\<lambda>n. []) (with_authority good_event) ''2026-01-01T00:00:00.000Z'' None ''t'' (Some (JStr ''e1''))) = Inr row
     \<and> er_fingerprint row = Some ''evt:e1''"
  "\<exists>row. event_columns sample_driver us newId (new_event_of (\<lambda>n. []) (with_authority good_event) ''2026-01-01T00:00:00.000Z'' None ''t'' (Some (JStr ''x''))) = Inr row
     \<and> er_fingerprint row = Some ''evt:x''"
  by (simp_all add: event_columns_def new_event_of_def good_event_def with_authority_def payload_defs column_defs sample_pg_time dedupKey_def truthy_def)

text \<open>The same body and signature under other headers.\<close>

definition replayed :: "string \<Rightarrow> string \<Rightarrow> ingest_request \<Rightarrow> ingest_request" where
  "replayed eventId origin q = q\<lparr>iq_eventId := Some eventId, iq_origin := Some origin\<rparr>"

lemma replay_admitted:
  assumes "admit E q rows = Inr (payload, u, run, base, eid)" "trim e \<noteq> []"
  shows "admit E (replayed e origin q) rows = Inr (payload, u, run, Some origin, Some (JStr (trim e)))"
proof -
  have "vet_delivery E (replayed e origin q) rows = vet_delivery E q rows" by (simp add: vet_delivery_def replayed_def)
  then show ?thesis using assms
    by (cases "vet_delivery E q rows"; cases "trim e") (auto simp: admit_def replayed_def and_then_def)
qed

lemma good_processed:
  assumes "e = ''e1'' \<or> e = ''x''" "\<And>r. r \<in> set (pd_events db) \<Longrightarrow> er_fingerprint r \<noteq> Some (''evt:'' @ e)" "origin = None \<or> origin = Some ''https://evil.example''"
  obtains row out where "process sample_driver (\<lambda>n. []) us newId (with_authority good_event) None ''t'' origin (Some (JStr e)) db
      = (None, db\<lparr>pd_events := pd_events db @ [row], pd_agents := agent_upsert us ''did:key:z6Mk'' ''r.example'' ''t'' (pd_agents db),
           pd_registries := registry_upsert us ''r.example'' origin ''t'' (pd_registries db)\<rparr>, out)" "er_fingerprint row = Some (''evt:'' @ e)" "out \<noteq> []"
proof -
  have c: "coalesce None None = None" by (simp add: coalesce_def)
  obtain row where row: "event_columns sample_driver us newId (new_event_of (\<lambda>n. []) (with_authority good_event) ''2026-01-01T00:00:00.000Z'' None ''t'' (Some (JStr e))) = Inr row"
      "er_fingerprint row = Some (''evt:'' @ e)"
    using good_columns [of us newId] assms(1) by (elim disjE) auto
  have "\<not> (\<exists>r \<in> set (pd_events db). same_delivery r row)" using assms(2) row(2) by (auto simp: same_delivery_def)
  then have cr: "create_event sample_driver us newId (new_event_of (\<lambda>n. []) (with_authority good_event) ''2026-01-01T00:00:00.000Z'' None ''t'' (Some (JStr e))) (pd_events db)
      = Inr (Some row, pd_events db @ [row])" using row(1) by (simp add: create_event_def and_then_def)
  have o: "nullable (text_col sample_driver) (map_option JStr origin) = Inr origin" using assms(3) by (auto simp: column_defs)
  have "\<exists>out. process sample_driver (\<lambda>n. []) us newId (with_authority good_event) None ''t'' origin (Some (JStr e)) db
      = (None, db\<lparr>pd_events := pd_events db @ [row], pd_agents := agent_upsert us ''did:key:z6Mk'' ''r.example'' ''t'' (pd_agents db),
           pd_registries := registry_upsert us ''r.example'' origin ''t'' (pd_registries db)\<rparr>, out) \<and> out \<noteq> []"
    by (simp add: process_def Let_def event_times no_run c cr good_steps o and_then_def)
  then show thesis using that row(2) by blast
qed

text \<open>C36. The signature covers the body only: a delivery that was processed is accepted again under another event id, with the signature it
  had, and its Origin header replaces the base URL under which the registry is reached from then on.\<close>

theorem replay_redirects_registry:
  "\<exists>db1 db2 out1 out2. handle sample_ingest None (sample_delivery good_event) sample_plane () = (Inr (), db1, out1, ())
     \<and> handle sample_ingest None (replayed ''x'' ''https://evil.example'' (sample_delivery good_event)) db1 () = (Inr (), db2, out2, ())
     \<and> out2 \<noteq> [] \<and> length (pd_events db2) = 2
     \<and> map_option rg_baseUrl (registry_findByAuthority ''r.example'' ''t'' (pd_registries db2)) = Some (Some ''https://evil.example'')"
proof -
  have d: "ig_driver sample_ingest = sample_driver" "ig_numText sample_ingest = (\<lambda>n. [])" by (simp_all add: sample_ingest_def)
  obtain row out1 where p1: "process sample_driver (\<lambda>n. []) 0 ''id'' (with_authority good_event) None ''t'' None (Some (JStr ''e1'')) sample_plane
      = (None, sample_plane\<lparr>pd_events := pd_events sample_plane @ [row], pd_agents := agent_upsert 0 ''did:key:z6Mk'' ''r.example'' ''t'' (pd_agents sample_plane),
           pd_registries := registry_upsert 0 ''r.example'' None ''t'' (pd_registries sample_plane)\<rparr>, out1)" "er_fingerprint row = Some (''evt:'' @ ''e1'')"
    by (rule good_processed [of "''e1''" sample_plane None 0 "''id''"]) (simp_all add: sample_plane_def)
  define db1 where "db1 = sample_plane\<lparr>pd_events := [row], pd_agents := agent_upsert 0 ''did:key:z6Mk'' ''r.example'' ''t'' [],
    pd_registries := registry_upsert 0 ''r.example'' None ''t'' []\<rparr>"
  have h1: "handle sample_ingest None (sample_delivery good_event) sample_plane () = (Inr (), db1, out1, ())"
    using p1(1) by (simp add: handle_def sample_admits d db1_def) (simp add: sample_plane_def)
  obtain row2 out2 where p2: "process sample_driver (\<lambda>n. []) 0 ''id'' (with_authority good_event) None ''t'' (Some ''https://evil.example'') (Some (JStr ''x'')) db1
      = (None, db1\<lparr>pd_events := pd_events db1 @ [row2], pd_agents := agent_upsert 0 ''did:key:z6Mk'' ''r.example'' ''t'' (pd_agents db1),
           pd_registries := registry_upsert 0 ''r.example'' (Some ''https://evil.example'') ''t'' (pd_registries db1)\<rparr>, out2)" "out2 \<noteq> []"
    by (rule good_processed [of "''x''" db1 "Some ''https://evil.example''" 0 "''id''"]) (simp_all add: db1_def p1(2))
  have "trim ''x'' = ''x''" by code_simp
  then have "admit sample_ingest (replayed ''x'' ''https://evil.example'' (sample_delivery good_event)) (pd_enrollments db1)
      = Inr (with_authority good_event, ''t'', None, Some ''https://evil.example'', Some (JStr ''x''))"
    using replay_admitted [OF sample_admits(1), of "''x''" "''https://evil.example''"] by (simp add: db1_def)
  then have "handle sample_ingest None (replayed ''x'' ''https://evil.example'' (sample_delivery good_event)) db1 ()
      = (Inr (), db1\<lparr>pd_events := pd_events db1 @ [row2], pd_agents := agent_upsert 0 ''did:key:z6Mk'' ''r.example'' ''t'' (pd_agents db1),
           pd_registries := registry_upsert 0 ''r.example'' (Some ''https://evil.example'') ''t'' (pd_registries db1)\<rparr>, out2, ())"
    using p2(1) by (simp add: handle_def d) (simp add: replayed_def)
  with h1 p2(2) show ?thesis by (intro exI conjI) (assumption | simp add: db1_def registry_findByAuthority_def registry_upsert_def update_conv')+
qed

section \<open>Events without an id\<close>

lemma get_prop_update: "get_prop (AList.update k v p) k' = (if k' = k then Some v else get_prop p k')"
  by (simp add: get_prop_def update_conv')

lemma dedupKey_ignores_at:
  "dedupKey N (AList.update ''at'' v p) (coalesce run (get_prop (AList.update ''at'' v p) ''run_id'')) None = dedupKey N p (coalesce run (get_prop p ''run_id'')) None"
  by (simp add: dedupKey_def get_prop_update truthy_def)

lemma repeated_key_is_lost:
  assumes "process D N us newId p run u origin None db = (res, db1, out)" "db1 \<noteq> db" "set (pd_events db1) \<subseteq> set (pd_events db2)"
  shows "\<exists>res'. process D N us' newId' (AList.update ''at'' v p) run u origin' None db2 = (res', db2, [])"
  using assms(1)
proof (cases rule: process_cases)
  case (stored row input)
  obtain fp where k: "varchar_col D 255 (JStr u) = Inr (ce_tenantId row)" "er_fingerprint row = Some fp"
    "varchar_col D 80 (JStr (dedupKey N p (coalesce run (get_prop p ''run_id'')) None)) = Inr fp"
    using event_columns_key created_row [OF stored(1)] stored(2,3) by force
  have "row \<in> set (pd_events db2)" using stored(4) assms(3) by auto
  with k show ?thesis by (intro process_stored_key [where r = row and t = "ce_tenantId row" and fp = fp]) (simp_all add: dedupKey_ignores_at)
qed (use assms(2) in simp)

text \<open>A second retraction is lost: the content key of an event without an id leaves out its \<open>at\<close>, the only time a retraction carries, so
  once a retraction was stored a later one of the same context by the same agent is taken for its repetition, whatever happened in between.\<close>

theorem repeated_retraction_is_lost:
  assumes "process D N us newId p run u origin None db = (res, db1, out)" "db1 \<noteq> db" "set (pd_events db1) \<subseteq> set (pd_events db2)"
  shows "\<exists>res'. process D N us' newId' (AList.update ''at'' v p) run u origin' None db2 = (res', db2, [])"
  using assms by (rule repeated_key_is_lost)

definition retraction :: "string \<Rightarrow> jobj" where
  "retraction time = with_authority (sample_event ''context_retracted'' [(''at'', JStr time)])"

lemma retraction_key_clean: "NULL_BYTE \<notin> set (dedupKey N p r None)" "length (dedupKey N p r None) \<le> 80"
proof -
  have h: "set (take 32 (sha256_hex m)) \<subseteq> set hex_digits" for m
    using hex_of_bytes_digits [of "sha256 m"] unfolding sha256_hex_def all_in_def list_all_iff by (auto dest: in_set_takeD)
  have n: "NULL_BYTE \<notin> set hex_digits" by (simp add: NULL_BYTE_def hex_digits_def)
  show "NULL_BYTE \<notin> set (dedupKey N p r None)" using h n by (auto simp: dedupKey_def truthy_def)
  show "length (dedupKey N p r None) \<le> 80" by (simp add: dedupKey_def truthy_def)
qed

theorem repeated_retraction_is_lost_witness:
  "\<exists>res db1 out. process sample_driver (\<lambda>n. []) 0 ''i'' (retraction ''2026-01-01T00:00:00.000Z'') None ''t'' None None sample_plane = (res, db1, out)
     \<and> db1 \<noteq> sample_plane
     \<and> (\<exists>res'. process sample_driver (\<lambda>n. []) 9 ''j'' (retraction ''2026-03-01T00:00:00.000Z'') None ''t'' None None db1 = (res', db1, []))"
proof -
  let ?p = "retraction ''2026-01-01T00:00:00.000Z''"
  have c: "coalesce None None = None" by (simp add: coalesce_def)
  have g: "get_prop ?p ''run_id'' = None" "event_time (\<lambda>n. []) 0 ?p = ''2026-01-01T00:00:00.000Z''"
    by (simp_all add: retraction_def with_authority_def event_time_def payload_defs)
  obtain row where row: "event_columns sample_driver 0 ''i'' (new_event_of (\<lambda>n. []) ?p ''2026-01-01T00:00:00.000Z'' None ''t'' None) = Inr row"
    using retraction_key_clean [of "\<lambda>n. []" ?p None]
    by (auto simp: event_columns_def new_event_of_def retraction_def with_authority_def payload_defs column_defs sample_pg_time)
  obtain res db1 out where p: "process sample_driver (\<lambda>n. []) 0 ''i'' ?p None ''t'' None None sample_plane = (res, db1, out)" "pd_events db1 = [row]"
    using process_creates [of sample_driver 0 "''i''" "\<lambda>n. []" ?p None "''t''" None row sample_plane None] row by (auto simp: g c sample_plane_def)
  then have n: "db1 \<noteq> sample_plane" by (auto simp: sample_plane_def)
  have u: "AList.update ''at'' (JStr ''2026-03-01T00:00:00.000Z'') ?p = retraction ''2026-03-01T00:00:00.000Z''"
    by (simp add: retraction_def with_authority_def sample_event_def)
  from repeated_retraction_is_lost [OF p(1) n subset_refl, of 9 "''j''" "JStr ''2026-03-01T00:00:00.000Z''" None] p(1) n show ?thesis unfolding u by blast
qed

end
