(* ===== verification/Webhooks.thy ===== *)
theory Webhooks
  imports KeyRevocation Tenant
begin

text \<open>
  Outbound webhooks: the two repositories (\<open>src/src/webhooks/webhook.repository.ts\<close>, \<open>webhook-delivery.repository.ts\<close>), the service
  (\<open>webhook.service.ts\<close>) and the header parser (\<open>src/src/common/retry-after.ts\<close>).

  A delivery runs beside others: between two of its waits another delivery, a sweep or a request may run. A running delivery is a
  \<open>delivery_task\<close>, and \<open>deliver_step\<close> takes it to its next wait: past the SSRF gate, or past one attempt. The answer to an attempt is
  a status with the \<open>Retry-After\<close> header, or \<open>None\<close> for a fetch that threw. The clock, the answer and the environment (DNS, URL parser,
  the printer of JSON, the columns) are arguments of a step, since they differ from step to step.
\<close>

section \<open>Retry-After\<close>

definition parseRetryAfterMs :: "(string \<Rightarrow> int option) \<Rightarrow> string option \<Rightarrow> int \<Rightarrow> int option" where
  "parseRetryAfterMs dateParse header nowMs = (case header of
     None \<Rightarrow> None
   | Some h \<Rightarrow>
       if trim h = [] then None
       else if list_all is_digit (trim h) then Some (int (nat_of_digits (trim h)) * 1000)
       else map_option (\<lambda>d. max 0 (d - nowMs)) (dateParse (trim h)))"

section \<open>The repositories\<close>

record webhook =
  wh_id :: string
  wh_tenantId :: string
  wh_url :: string
  wh_events :: "string list"
  wh_secret :: string
  wh_active :: bool
  wh_createdAt :: clock
  wh_updatedAt :: clock

datatype delivery_status = Pending | Delivered | Failed

record delivery =
  dl_id :: string
  dl_tenantId :: string
  dl_webhookId :: string
  dl_event :: string
  dl_runId :: string
  dl_payload :: json
  dl_status :: delivery_status
  dl_attempts :: nat
  dl_lastAttemptAt :: "clock option"
  dl_responseStatus :: "int option"
  dl_errorMessage :: "string option"
  dl_createdAt :: clock
  dl_deliveredAt :: "clock option"
  dl_nextAttemptAt :: "clock option"

definition webhook_findById :: "string \<Rightarrow> string \<Rightarrow> webhook list \<Rightarrow> webhook option" where
  "webhook_findById whId tenantId rows = find (\<lambda>w. wh_id w = whId \<and> wh_tenantId w = tenantId) rows"

definition webhook_create :: "clock \<Rightarrow> string \<Rightarrow> string \<Rightarrow> string list \<Rightarrow> string \<Rightarrow> string \<Rightarrow> webhook list \<Rightarrow> webhook list" where
  "webhook_create us newId url events secret tenantId rows = rows @ [\<lparr>wh_id = newId, wh_tenantId = tenantId, wh_url = url, wh_events = events,
     wh_secret = secret, wh_active = True, wh_createdAt = us, wh_updatedAt = us\<rparr>]"

definition listActive :: "string \<Rightarrow> webhook list \<Rightarrow> webhook list" where
  "listActive tenantId rows = filter (\<lambda>w. wh_active w \<and> wh_tenantId w = tenantId) rows"

definition webhook_list :: "string \<Rightarrow> webhook list \<Rightarrow> webhook list" where
  "webhook_list tenantId rows = filter (\<lambda>w. wh_tenantId w = tenantId) rows"

record webhook_fields =
  wf_url :: "string option"
  wf_events :: "string list option"
  wf_secret :: "string option"
  wf_active :: "bool option"

definition webhook_update :: "clock \<Rightarrow> string \<Rightarrow> webhook_fields \<Rightarrow> string \<Rightarrow> webhook list \<Rightarrow> webhook list" where
  "webhook_update us whId f tenantId rows = map (\<lambda>w. if wh_id w = whId \<and> wh_tenantId w = tenantId
     then w\<lparr>wh_updatedAt := us, wh_url := (case wf_url f of Some v \<Rightarrow> v | None \<Rightarrow> wh_url w),
       wh_events := (case wf_events f of Some v \<Rightarrow> v | None \<Rightarrow> wh_events w), wh_secret := (case wf_secret f of Some v \<Rightarrow> v | None \<Rightarrow> wh_secret w),
       wh_active := (case wf_active f of Some v \<Rightarrow> v | None \<Rightarrow> wh_active w)\<rparr>
     else w) rows"

definition webhook_delete :: "string \<Rightarrow> string \<Rightarrow> webhook list \<Rightarrow> webhook list" where
  "webhook_delete whId tenantId rows = filter (\<lambda>w. \<not> (wh_id w = whId \<and> wh_tenantId w = tenantId)) rows"

definition new_delivery :: "clock \<Rightarrow> string \<Rightarrow> string \<Rightarrow> string \<Rightarrow> string \<Rightarrow> json \<Rightarrow> string \<Rightarrow> delivery" where
  "new_delivery us newId webhookId event runId payload tenantId = \<lparr>dl_id = newId, dl_tenantId = tenantId, dl_webhookId = webhookId, dl_event = event,
     dl_runId = runId, dl_payload = payload, dl_status = Pending, dl_attempts = 0, dl_lastAttemptAt = None, dl_responseStatus = None,
     dl_errorMessage = None, dl_createdAt = us, dl_deliveredAt = None, dl_nextAttemptAt = None\<rparr>"

definition on_delivery :: "string \<Rightarrow> string \<Rightarrow> (delivery \<Rightarrow> delivery) \<Rightarrow> delivery list \<Rightarrow> delivery list" where
  "on_delivery dlId tenantId f rows = map (\<lambda>d. if dl_id d = dlId \<and> dl_tenantId d = tenantId then f d else d) rows"

definition delivered_row :: "clock \<Rightarrow> int \<Rightarrow> delivery \<Rightarrow> delivery" where
  "delivered_row us responseStatus d = d\<lparr>dl_status := Delivered, dl_responseStatus := Some responseStatus, dl_lastAttemptAt := Some us,
     dl_deliveredAt := Some us\<rparr>"

definition markDelivered :: "clock \<Rightarrow> string \<Rightarrow> int \<Rightarrow> string \<Rightarrow> delivery list \<Rightarrow> delivery list" where
  "markDelivered us dlId responseStatus tenantId rows = on_delivery dlId tenantId (delivered_row us responseStatus) rows"

text \<open>An undefined \<open>responseStatus\<close> leaves the column as it is; a missing \<open>nextAttemptAt\<close> clears it.\<close>

definition failed_row :: "clock \<Rightarrow> nat \<Rightarrow> string \<Rightarrow> int option \<Rightarrow> clock option \<Rightarrow> delivery \<Rightarrow> delivery" where
  "failed_row us attempt errorMessage responseStatus nextAttemptAt d = d\<lparr>dl_status := (if attempt \<ge> 3 then Failed else Pending), dl_attempts := attempt,
     dl_lastAttemptAt := Some us, dl_errorMessage := Some errorMessage,
     dl_responseStatus := (case responseStatus of Some s \<Rightarrow> Some s | None \<Rightarrow> dl_responseStatus d), dl_nextAttemptAt := nextAttemptAt\<rparr>"

definition markFailed ::
    "clock \<Rightarrow> string \<Rightarrow> nat \<Rightarrow> string \<Rightarrow> int option \<Rightarrow> string \<Rightarrow> clock option \<Rightarrow> delivery list \<Rightarrow> delivery list" where
  "markFailed us dlId attempt errorMessage responseStatus tenantId nextAttemptAt rows =
     on_delivery dlId tenantId (failed_row us attempt errorMessage responseStatus nextAttemptAt) rows"

definition due :: "clock \<Rightarrow> delivery \<Rightarrow> bool" where
  "due us d = (case dl_nextAttemptAt d of None \<Rightarrow> True | Some t \<Rightarrow> t \<le> now_ms us * 1000)"

definition listPending :: "clock \<Rightarrow> string \<Rightarrow> delivery list \<Rightarrow> delivery list" where
  "listPending us tenantId rows = filter (\<lambda>d. dl_status d = Pending \<and> dl_tenantId d = tenantId \<and> due us d) rows"

definition listAllPending :: "clock \<Rightarrow> delivery list \<Rightarrow> delivery list" where
  "listAllPending us rows = filter (\<lambda>d. dl_status d = Pending \<and> due us d) rows"

definition deleteDeliveredBefore :: "clock \<Rightarrow> delivery list \<Rightarrow> delivery list" where
  "deleteDeliveredBefore cutoff rows = filter (\<lambda>d. \<not> (dl_status d = Delivered \<and> dl_createdAt d < cutoff)) rows"

definition listByWebhookId :: "string \<Rightarrow> string \<Rightarrow> delivery list \<Rightarrow> delivery list" where
  "listByWebhookId webhookId tenantId rows = filter (\<lambda>d. dl_webhookId d = webhookId \<and> dl_tenantId d = tenantId) rows"

section \<open>The service\<close>

record webhook_env =
  we_binding :: did_binding
  we_host :: did_host
  we_policy :: ssrf_policy
  we_print :: "json \<Rightarrow> string"
  we_dateParse :: "string \<Rightarrow> int option"
  we_pgTime :: "string \<Rightarrow> clock option"

definition assertSafeUrl :: "webhook_env \<Rightarrow> string \<Rightarrow> exn + unit" where
  "assertSafeUrl env url = (case checkUrl (we_host env) (we_policy env) url of
     Inl e \<Rightarrow> Inl (bad_request (''webhook URL rejected by SSRF policy: '' @ se_message e))
   | Inr _ \<Rightarrow> Inr ())"

definition webhook_register ::
    "webhook_env \<Rightarrow> clock \<Rightarrow> string \<Rightarrow> string \<Rightarrow> string list \<Rightarrow> string \<Rightarrow> string \<Rightarrow> webhook list \<Rightarrow> exn + webhook list" where
  "webhook_register env us newId url events secret tenantId rows =
     and_then (assertSafeUrl env url) (\<lambda>_. Inr (webhook_create us newId url events secret tenantId rows))"

definition webhook_change :: "webhook_env \<Rightarrow> clock \<Rightarrow> string \<Rightarrow> webhook_fields \<Rightarrow> string \<Rightarrow> webhook list \<Rightarrow> exn + webhook list" where
  "webhook_change env us whId f tenantId rows =
     and_then (case wf_url f of Some u \<Rightarrow> assertSafeUrl env u | None \<Rightarrow> Inr ()) (\<lambda>_. Inr (webhook_update us whId f tenantId rows))"

text \<open>The gate at delivery time; the message of a violation.\<close>

definition guardDeliveryUrl :: "webhook_env \<Rightarrow> string \<Rightarrow> string option" where
  "guardDeliveryUrl env url = (case checkUrl (we_host env) (we_policy env) url of
     Inl e \<Rightarrow> Some (se_message e)
   | Inr _ \<Rightarrow> (case checkResolvedHost (we_binding env) (we_host env) (we_policy env) (strip_brackets (up_hostname (the (dh_newURL (we_host env) url)))) of
       Inl (Some e) \<Rightarrow> Some (se_message e)
     | Inl None \<Rightarrow> Some ''getaddrinfo failed''
     | Inr _ \<Rightarrow> None))"

datatype task_phase = Guarding nat | Attempting nat

record delivery_task =
  tk_deliveryId :: string
  tk_url :: string
  tk_secret :: string
  tk_payload :: json
  tk_tenantId :: string
  tk_phase :: task_phase

record webhook_post =
  po_url :: string
  po_body :: string
  po_signature :: string

definition maxAttempts :: nat where "maxAttempts = 3"

type_synonym post_answer = "(int \<times> string option) option"

text \<open>The time of the next attempt after a 429 with a usable header; a time outside the range of \<open>Date\<close> throws, as does one the column
  rejects, and both end in the \<open>catch\<close> of the attempt.\<close>

definition deferred_until :: "webhook_env \<Rightarrow> clock \<Rightarrow> post_answer \<Rightarrow> nat \<Rightarrow> (string + clock) option" where
  "deferred_until env us answer attempt = (case answer of
     Some (status, header) \<Rightarrow>
       if status = 429 \<and> attempt < maxAttempts
       then map_option (\<lambda>delay. let t = now_ms us + delay in
           if \<bar>t\<bar> > 8640000000000000 then Inl ''Invalid time value''
           else (case we_pgTime env (toISOString t) of Some c \<Rightarrow> Inr c | None \<Rightarrow> Inl ''invalid input syntax for type timestamp with time zone''))
         (parseRetryAfterMs (we_dateParse env) header (now_ms us))
       else None
   | _ \<Rightarrow> None)"

definition recordFailure :: "clock \<Rightarrow> string \<Rightarrow> nat \<Rightarrow> string \<Rightarrow> int option \<Rightarrow> string \<Rightarrow> delivery list \<Rightarrow> delivery list" where
  "recordFailure us dlId attempt errorMessage responseStatus tenantId rows = markFailed us dlId attempt errorMessage responseStatus tenantId None rows"

definition after_failure :: "delivery_task \<Rightarrow> nat \<Rightarrow> delivery_task option" where
  "after_failure tk attempt = (if attempt < maxAttempts then Some (tk\<lparr>tk_phase := Attempting (Suc attempt)\<rparr>) else None)"

definition attempt_once ::
    "webhook_env \<Rightarrow> clock \<Rightarrow> post_answer \<Rightarrow> delivery_task \<Rightarrow> nat \<Rightarrow> delivery list \<Rightarrow> delivery list \<times> delivery_task option" where
  "attempt_once env us answer tk attempt rows = (case deferred_until env us answer attempt of
     Some (Inr t) \<Rightarrow> (markFailed us (tk_deliveryId tk) attempt (''webhook returned 429 (Retry-After: ''
       @ (case answer of Some (s, Some h) \<Rightarrow> h | _ \<Rightarrow> ''null'') @ '')'') (Some 429) (tk_tenantId tk) (Some t) rows, None)
   | Some (Inl e) \<Rightarrow> (recordFailure us (tk_deliveryId tk) attempt e None (tk_tenantId tk) rows, after_failure tk attempt)
   | None \<Rightarrow> (case answer of
       None \<Rightarrow> (recordFailure us (tk_deliveryId tk) attempt ''fetch failed'' None (tk_tenantId tk) rows, after_failure tk attempt)
     | Some (status, header) \<Rightarrow>
         if 200 \<le> status \<and> status < 300 then (markDelivered us (tk_deliveryId tk) status (tk_tenantId tk) rows, None)
         else (recordFailure us (tk_deliveryId tk) attempt (''webhook returned '' @ show_int status) (Some status) (tk_tenantId tk) rows,
               after_failure tk attempt)))"

definition deliver_step ::
    "webhook_env \<Rightarrow> clock \<Rightarrow> post_answer \<Rightarrow> delivery_task \<Rightarrow> delivery list \<Rightarrow> delivery list \<times> delivery_task option \<times> webhook_post list" where
  "deliver_step env us answer tk rows = (case tk_phase tk of
     Guarding start \<Rightarrow> (case guardDeliveryUrl env (tk_url tk) of
         Some e \<Rightarrow> (recordFailure us (tk_deliveryId tk) (Suc start) (''SSRF policy: '' @ e) None (tk_tenantId tk) rows, None, [])
       | None \<Rightarrow> (rows, if Suc start \<le> maxAttempts then Some (tk\<lparr>tk_phase := Attempting (Suc start)\<rparr>) else None, []))
   | Attempting attempt \<Rightarrow> (case attempt_once env us answer tk attempt rows of (rows', tk') \<Rightarrow>
       (rows', tk', [\<lparr>po_url = tk_url tk, po_body = we_print env (tk_payload tk),
          po_signature = ''sha256='' @ hex_of_bytes (hmac_sha256 (utf8 (tk_secret tk)) (utf8 (we_print env (tk_payload tk))))\<rparr>])))"

definition new_task :: "delivery \<Rightarrow> webhook \<Rightarrow> delivery_task" where
  "new_task d w = \<lparr>tk_deliveryId = dl_id d, tk_url = wh_url w, tk_secret = wh_secret w, tk_payload = dl_payload d, tk_tenantId = dl_tenantId d,
     tk_phase = Guarding (dl_attempts d)\<rparr>"

text \<open>\<open>deliverWithTracking\<close> alone: the answers in the order of the steps.\<close>

function deliver_alone ::
    "webhook_env \<Rightarrow> (nat \<Rightarrow> clock \<times> post_answer) \<Rightarrow> nat \<Rightarrow> delivery_task \<Rightarrow> delivery list \<Rightarrow> delivery list \<times> webhook_post list" where
  "deliver_alone env answers i tk rows = (case deliver_step env (fst (answers i)) (snd (answers i)) tk rows of
     (rows', None, posts) \<Rightarrow> (rows', posts)
   | (rows', Some tk', posts) \<Rightarrow> (case deliver_alone env answers (Suc i) tk' rows' of (rows'', posts') \<Rightarrow> (rows'', posts @ posts')))"
  by pat_completeness auto

definition steps_left :: "delivery_task \<Rightarrow> nat" where
  "steps_left tk = (case tk_phase tk of Guarding start \<Rightarrow> 4 - start | Attempting attempt \<Rightarrow> 4 - attempt)"

lemma deliver_step_progress: "deliver_step env us answer tk rows = (rows', Some tk', posts) \<Longrightarrow> steps_left tk' < steps_left tk"
  by (auto simp: deliver_step_def attempt_once_def after_failure_def steps_left_def maxAttempts_def
      split: task_phase.splits option.splits sum.splits prod.splits if_splits)

termination deliver_alone
proof (relation "measure (\<lambda>(env, answers, i, tk, rows). steps_left tk)")
  show "wf (measure (\<lambda>(env, answers, i, tk, rows). steps_left tk))" by simp
qed (auto dest: deliver_step_progress [OF sym])

section \<open>The outbox\<close>

record outbox =
  ob_webhooks :: "webhook list"
  ob_deliveries :: "delivery list"
  ob_tasks :: "delivery_task list"
  ob_posts :: "webhook_post list"

definition spawn :: "(delivery \<times> webhook) list \<Rightarrow> outbox \<Rightarrow> outbox" where
  "spawn ps ob = ob\<lparr>ob_tasks := ob_tasks ob @ map (\<lambda>(d, w). new_task d w) ps\<rparr>"

definition fireEvent :: "clock \<Rightarrow> string list \<Rightarrow> string \<Rightarrow> string \<Rightarrow> json \<Rightarrow> string \<Rightarrow> outbox \<Rightarrow> outbox" where
  "fireEvent us newIds event runId payload tenantId ob =
     (let matching = filter (\<lambda>w. wh_events w = [] \<or> event \<in> set (wh_events w)) (listActive tenantId (ob_webhooks ob));
          made = map (\<lambda>(w, i). (new_delivery us i (wh_id w) event runId payload tenantId, w)) (zip matching newIds)
      in spawn made (ob\<lparr>ob_deliveries := ob_deliveries ob @ map fst made\<rparr>))"

definition with_webhook :: "webhook list \<Rightarrow> delivery \<Rightarrow> (delivery \<times> webhook) list" where
  "with_webhook ws d = (case webhook_findById (dl_webhookId d) (dl_tenantId d) ws of Some w \<Rightarrow> [(d, w)] | None \<Rightarrow> [])"

definition retryAllPending :: "clock \<Rightarrow> outbox \<Rightarrow> outbox" where
  "retryAllPending us ob = spawn (concat (map (with_webhook (ob_webhooks ob)) (listAllPending us (ob_deliveries ob)))) ob"

definition retryPending :: "clock \<Rightarrow> string \<Rightarrow> outbox \<Rightarrow> outbox" where
  "retryPending us tenantId ob = spawn (concat (map (with_webhook (ob_webhooks ob)) (listPending us tenantId (ob_deliveries ob)))) ob"

definition advance :: "webhook_env \<Rightarrow> clock \<Rightarrow> post_answer \<Rightarrow> nat \<Rightarrow> outbox \<Rightarrow> outbox" where
  "advance env us answer n ob =
     (if n \<ge> length (ob_tasks ob) then ob
      else case deliver_step env us answer (ob_tasks ob ! n) (ob_deliveries ob) of (rows, tk, posts) \<Rightarrow>
        ob\<lparr>ob_deliveries := rows, ob_posts := ob_posts ob @ posts,
           ob_tasks := take n (ob_tasks ob) @ (case tk of Some t \<Rightarrow> [t] | None \<Rightarrow> []) @ drop (Suc n) (ob_tasks ob)\<rparr>)"

text \<open>Deleting a subscription deletes its deliveries; a running delivery goes on.\<close>

definition webhook_remove :: "string \<Rightarrow> string \<Rightarrow> outbox \<Rightarrow> outbox" where
  "webhook_remove whId tenantId ob =
     (let gone = filter (\<lambda>w. wh_id w = whId \<and> wh_tenantId w = tenantId) (ob_webhooks ob)
      in ob\<lparr>ob_webhooks := webhook_delete whId tenantId (ob_webhooks ob),
            ob_deliveries := filter (\<lambda>d. \<forall>w \<in> set gone. dl_webhookId d \<noteq> wh_id w) (ob_deliveries ob)\<rparr>)"

datatype outbox_op =
    Register webhook_env clock string string "string list" string string
  | Change webhook_env clock string webhook_fields string
  | Remove string string
  | Fire clock "string list" string string json string
  | RetryAll clock
  | RetryTenant clock string
  | Advance webhook_env clock post_answer nat
  | Purge clock

fun outbox_step :: "outbox_op \<Rightarrow> outbox \<Rightarrow> outbox" where
  "outbox_step (Register env us i url events secret t) ob =
     (case webhook_register env us i url events secret t (ob_webhooks ob) of Inr ws \<Rightarrow> ob\<lparr>ob_webhooks := ws\<rparr> | Inl _ \<Rightarrow> ob)"
| "outbox_step (Change env us i f t) ob = (case webhook_change env us i f t (ob_webhooks ob) of Inr ws \<Rightarrow> ob\<lparr>ob_webhooks := ws\<rparr> | Inl _ \<Rightarrow> ob)"
| "outbox_step (Remove i t) ob = webhook_remove i t ob"
| "outbox_step (Fire us ids event runId payload t) ob = fireEvent us ids event runId payload t ob"
| "outbox_step (RetryAll us) ob = retryAllPending us ob"
| "outbox_step (RetryTenant us t) ob = retryPending us t ob"
| "outbox_step (Advance env us answer n) ob = advance env us answer n ob"
| "outbox_step (Purge cutoff) ob = ob\<lparr>ob_deliveries := deleteDeliveredBefore cutoff (ob_deliveries ob)\<rparr>"

definition empty_outbox :: outbox where
  "empty_outbox = \<lparr>ob_webhooks = [], ob_deliveries = [], ob_tasks = [], ob_posts = []\<rparr>"

section \<open>Well-formed deliveries\<close>

definition delivery_ok :: "delivery \<Rightarrow> bool" where
  "delivery_ok d = (case dl_status d of
     Pending \<Rightarrow> dl_attempts d < 3
   | Failed \<Rightarrow> dl_attempts d = 3
   | Delivered \<Rightarrow> dl_attempts d \<le> 3 \<and> dl_deliveredAt d \<noteq> None \<and> (\<exists>s. dl_responseStatus d = Some s \<and> 200 \<le> s \<and> s < 300))"

definition task_ok :: "delivery_task \<Rightarrow> bool" where
  "task_ok tk = (case tk_phase tk of Guarding s \<Rightarrow> s < 3 | Attempting a \<Rightarrow> 1 \<le> a \<and> a \<le> 3)"

definition outbox_ok :: "outbox \<Rightarrow> bool" where
  "outbox_ok ob = (list_all delivery_ok (ob_deliveries ob) \<and> list_all task_ok (ob_tasks ob))"

lemma delivery_ok_attempts: "delivery_ok d \<Longrightarrow> dl_attempts d \<le> 3"
  by (auto simp: delivery_ok_def split: delivery_status.splits)

lemma markFailed_ok: "list_all delivery_ok rows \<Longrightarrow> a \<le> 3 \<Longrightarrow> list_all delivery_ok (markFailed us i a e s t n rows)"
  by (auto simp: markFailed_def failed_row_def on_delivery_def list_all_iff delivery_ok_def)

lemma markDelivered_ok: "list_all delivery_ok rows \<Longrightarrow> 200 \<le> s \<Longrightarrow> s < 300 \<Longrightarrow> list_all delivery_ok (markDelivered us i s t rows)"
proof -
  assume s: "200 \<le> s" "s < 300" and rows: "list_all delivery_ok rows"
  have "delivery_ok (delivered_row us s d)" if "delivery_ok d" for d
    using delivery_ok_attempts [OF that] s by (simp add: delivery_ok_def delivered_row_def)
  with rows show ?thesis by (auto simp: markDelivered_def on_delivery_def list_all_iff)
qed

lemma after_failure_ok: "after_failure tk a = Some tk' \<Longrightarrow> task_ok tk'"
  by (auto simp: after_failure_def task_ok_def maxAttempts_def split: if_splits)

lemma attempt_once_ok:
  assumes "attempt_once env us answer tk a rows = (rows', tk')" "list_all delivery_ok rows" "a \<le> 3"
  shows "list_all delivery_ok rows' \<and> (\<forall>x. tk' = Some x \<longrightarrow> task_ok x)"
  using assms
  by (auto simp: attempt_once_def recordFailure_def markFailed_ok markDelivered_ok dest: after_failure_ok split: option.splits sum.splits prod.splits if_splits)

lemma deliver_step_ok:
  assumes "deliver_step env us answer tk rows = (rows', tk', posts)" "list_all delivery_ok rows" "task_ok tk"
  shows "list_all delivery_ok rows' \<and> (\<forall>x. tk' = Some x \<longrightarrow> task_ok x)"
proof (cases "tk_phase tk")
  case (Guarding s)
  with assms show ?thesis
    by (auto simp: deliver_step_def recordFailure_def markFailed_ok task_ok_def maxAttempts_def split: option.splits if_splits)
next
  case (Attempting a)
  with assms attempt_once_ok [of env us answer tk a rows] show ?thesis by (auto simp: deliver_step_def task_ok_def split: prod.splits)
qed

lemma spawn_ok: "outbox_ok ob \<Longrightarrow> (\<And>d w. (d, w) \<in> set ps \<Longrightarrow> dl_attempts d < 3) \<Longrightarrow> outbox_ok (spawn ps ob)"
  by (auto simp: outbox_ok_def spawn_def list_all_iff task_ok_def new_task_def)

lemma with_webhook_pending:
  "list_all delivery_ok rows \<Longrightarrow> (d, w) \<in> set (concat (map (with_webhook ws) (filter (\<lambda>d. dl_status d = Pending \<and> P d) rows))) \<Longrightarrow> dl_attempts d < 3"
  by (auto simp: with_webhook_def list_all_iff delivery_ok_def split: option.splits)

lemma advance_ok: "outbox_ok ob \<Longrightarrow> outbox_ok (advance env us answer n ob)"
proof (cases "n < length (ob_tasks ob)")
  case True
  assume ok: "outbox_ok ob"
  obtain rows tk posts where d: "deliver_step env us answer (ob_tasks ob ! n) (ob_deliveries ob) = (rows, tk, posts)"
    by (cases "deliver_step env us answer (ob_tasks ob ! n) (ob_deliveries ob)")
  have "list_all delivery_ok rows \<and> (\<forall>x. tk = Some x \<longrightarrow> task_ok x)"
    using deliver_step_ok [OF d] ok True by (auto simp: outbox_ok_def list_all_length)
  then show ?thesis using ok True d by (auto simp: outbox_ok_def advance_def list_all_iff dest: in_set_takeD in_set_dropD split: option.splits)
qed (simp add: advance_def)

lemma outbox_step_ok: "outbox_ok ob \<Longrightarrow> outbox_ok (outbox_step op ob)"
proof (cases op)
  case (Fire us ids event runId payload t)
  assume "outbox_ok ob"
  with Fire show ?thesis unfolding outbox_step.simps Fire fireEvent_def Let_def
    by (intro spawn_ok) (auto simp: outbox_ok_def list_all_iff delivery_ok_def new_delivery_def)
next
  case (RetryAll us)
  assume ok: "outbox_ok ob"
  then have r: "list_all delivery_ok (ob_deliveries ob)" by (simp add: outbox_ok_def)
  show ?thesis unfolding RetryAll outbox_step.simps retryAllPending_def listAllPending_def
    by (rule spawn_ok [OF ok with_webhook_pending [OF r]])
next
  case (RetryTenant us t)
  assume ok: "outbox_ok ob"
  then have r: "list_all delivery_ok (ob_deliveries ob)" by (simp add: outbox_ok_def)
  show ?thesis unfolding RetryTenant outbox_step.simps retryPending_def listPending_def
    by (rule spawn_ok [OF ok with_webhook_pending [OF r]])
next
  case (Advance env us answer n)
  assume "outbox_ok ob"
  then show ?thesis unfolding Advance outbox_step.simps by (rule advance_ok)
qed (auto simp: outbox_ok_def webhook_remove_def deleteDeliveredBefore_def list_all_iff Let_def split: sum.splits)

text \<open>C23. Deliveries stay well-formed in every history of subscriptions, events, sweeps and interleaved delivery steps: a pending delivery has
  attempts left, a failed one has used all three, a delivered one records the 2xx answer, and no running delivery goes past its third
  attempt.\<close>

theorem outbox_wellformed: "outbox_ok (fold outbox_step ops empty_outbox)"
proof -
  have "outbox_ok (fold outbox_step ops ob)" if "outbox_ok ob" for ob using that outbox_step_ok by (induction ops arbitrary: ob) auto
  then show ?thesis by (simp add: outbox_ok_def empty_outbox_def)
qed

section \<open>A delivery on its own\<close>

lemma on_delivery_comp:
  "(\<And>d. dl_id (f d) = dl_id d \<and> dl_tenantId (f d) = dl_tenantId d) \<Longrightarrow> on_delivery i t g (on_delivery i t f rows) = on_delivery i t (g \<circ> f) rows"
  by (simp add: on_delivery_def)

text \<open>How a delivery ends: with the answer accepted, put off by its subscriber, or after its last attempt.\<close>

definition ended :: "nat \<Rightarrow> nat \<Rightarrow> delivery \<Rightarrow> bool" where
  "ended posts left d = (dl_status d = Delivered \<or> dl_status d = Pending \<and> dl_nextAttemptAt d \<noteq> None \<or> dl_status d = Failed \<and> dl_attempts d = 3 \<and> posts = left)"

definition keeps_key :: "(delivery \<Rightarrow> delivery) \<Rightarrow> bool" where
  "keeps_key f = (\<forall>d. dl_id (f d) = dl_id d \<and> dl_tenantId (f d) = dl_tenantId d)"

lemma rows_keep_key [simp]: "keeps_key (failed_row us a e s n)" "keeps_key (delivered_row us c)"
  by (simp_all add: keeps_key_def failed_row_def delivered_row_def)

lemma row_status [simp]: "dl_status (failed_row us a e s n d) = (if a \<ge> 3 then Failed else Pending)" "dl_attempts (failed_row us a e s n d) = a"
  "dl_nextAttemptAt (failed_row us a e s n d) = n" "dl_status (delivered_row us c d) = Delivered"
  by (simp_all add: failed_row_def delivered_row_def)

lemma attempt_once_cases:
  assumes "attempt_once env us answer tk a rows = (rows', tk')"
  obtains (over) f where "tk' = None" "rows' = on_delivery (tk_deliveryId tk) (tk_tenantId tk) f rows" "keeps_key f"
      "\<And>d. dl_status (f d) = Delivered \<or> dl_status (f d) = Pending \<and> dl_nextAttemptAt (f d) \<noteq> None \<or> a \<ge> 3 \<and> dl_status (f d) = Failed \<and> dl_attempts (f d) = a"
  | (again) f where "a < 3" "tk' = Some (tk\<lparr>tk_phase := Attempting (Suc a)\<rparr>)" "rows' = on_delivery (tk_deliveryId tk) (tk_tenantId tk) f rows" "keeps_key f"
proof -
  have fail: "thesis" if r: "rows' = recordFailure us (tk_deliveryId tk) a e s (tk_tenantId tk) rows" "tk' = after_failure tk a" for e s
  proof (cases "a < 3")
    case True
    show thesis
      by (rule again [OF True, of "failed_row us a e s None"]) (use r True in \<open>simp_all add: recordFailure_def markFailed_def after_failure_def maxAttempts_def\<close>)
  next
    case False
    show thesis
      by (rule over [of "failed_row us a e s None"]) (use r False in \<open>simp_all add: recordFailure_def markFailed_def after_failure_def maxAttempts_def\<close>)
  qed
  show thesis
  proof (cases "deferred_until env us answer a")
    case (Some x)
    show thesis
    proof (cases x)
      case (Inl e)
      then show thesis using assms Some by (intro fail) (auto simp: attempt_once_def)
    next
      case (Inr t)
      have "a < 3" using Some by (auto simp: deferred_until_def maxAttempts_def split: option.splits prod.splits if_splits)
      then show thesis using assms Some Inr
        by (intro over [of "failed_row us a (''webhook returned 429 (Retry-After: '' @ (case answer of Some (s, Some h) \<Rightarrow> h | _ \<Rightarrow> ''null'') @ '')'') (Some 429) (Some t)"])
          (auto simp: attempt_once_def markFailed_def)
    qed
  next
    case None
    show thesis
    proof (cases answer)
      case (Some y)
      obtain status header where y: "y = (status, header)" by (cases y)
      show thesis
      proof (cases "200 \<le> status \<and> status < 300")
        case True
        show thesis by (rule over [of "delivered_row us status"]) (use assms None Some y True in \<open>auto simp: attempt_once_def markDelivered_def\<close>)
      next
        case False
        then show thesis using assms None Some y by (intro fail) (auto simp: attempt_once_def)
      qed
    next
      case n: None
      then show thesis using assms None by (intro fail) (auto simp: attempt_once_def)
    qed
  qed
qed

declare deliver_alone.simps [simp del]

lemma deliver_attempts:
  assumes "tk_phase tk = Attempting a" "a \<le> 3" "deliver_alone env answers i tk rows = (rows', posts)"
  shows "\<exists>f. rows' = on_delivery (tk_deliveryId tk) (tk_tenantId tk) f rows \<and> keeps_key f \<and> (\<forall>d. ended (length posts) (4 - a) (f d))
     \<and> 1 \<le> length posts \<and> length posts \<le> 4 - a"
  using assms
proof (induction "3 - a" arbitrary: a tk i rows rows' posts rule: less_induct)
  case less
  obtain r1 t1 where at: "attempt_once env (fst (answers i)) (snd (answers i)) tk a rows = (r1, t1)" by (cases "attempt_once env (fst (answers i)) (snd (answers i)) tk a rows")
  then obtain p where d: "deliver_step env (fst (answers i)) (snd (answers i)) tk rows = (r1, t1, [p])" using less.prems(1) by (simp add: deliver_step_def)
  from at show ?case
  proof (cases rule: attempt_once_cases)
    case (over f)
    with d less.prems(3) have r: "rows' = r1" "posts = [p]" by (simp_all add: deliver_alone.simps [of env answers i tk rows])
    have "ended (length posts) (4 - a) (f x)" for x using over(4) [of x] less.prems(2) r(2) by (auto simp: ended_def)
    with over(2,3) r less.prems(2) show ?thesis by auto
  next
    case (again f)
    let ?tk = "tk\<lparr>tk_phase := Attempting (Suc a)\<rparr>"
    obtain r2 p2 where d2: "deliver_alone env answers (Suc i) ?tk r1 = (r2, p2)" by (cases "deliver_alone env answers (Suc i) ?tk r1")
    with d again(2) less.prems(3) have r: "rows' = r2" "posts = p # p2" by (simp_all add: deliver_alone.simps [of env answers i tk rows])
    have "3 - Suc a < 3 - a" "tk_phase ?tk = Attempting (Suc a)" "Suc a \<le> 3" using again(1) by simp_all
    from less.hyps [OF this d2] obtain g where g: "r2 = on_delivery (tk_deliveryId tk) (tk_tenantId tk) g r1" "keeps_key g"
      "\<And>d. ended (length p2) (4 - Suc a) (g d)" "1 \<le> length p2" "length p2 \<le> 4 - Suc a" by auto
    have "rows' = on_delivery (tk_deliveryId tk) (tk_tenantId tk) (g \<circ> f) rows"
      using again(4) on_delivery_comp [of f] by (simp add: r(1) g(1) again(3) keeps_key_def)
    moreover have "keeps_key (g \<circ> f)" using g(2) again(4) by (simp add: keeps_key_def)
    moreover have "ended (length posts) (4 - a) ((g \<circ> f) x)" for x using g(3) [of "f x"] again(1) r(2) by (auto simp: ended_def)
    ultimately show ?thesis using g(4,5) r(2) again(1) by (intro exI [of _ "g \<circ> f"]) auto
  qed
qed

lemma deliver_guarded:
  assumes "tk_phase tk = Guarding s" "s < 3" "deliver_alone env answers i tk rows = (rows', posts)"
  shows "(case guardDeliveryUrl env (tk_url tk) of
      Some e \<Rightarrow> posts = [] \<and> rows' = recordFailure (fst (answers i)) (tk_deliveryId tk) (Suc s) (''SSRF policy: '' @ e) None (tk_tenantId tk) rows
    | None \<Rightarrow> 1 \<le> length posts \<and> length posts \<le> 3 - s
        \<and> (\<forall>d \<in> set rows'. dl_id d = tk_deliveryId tk \<and> dl_tenantId d = tk_tenantId tk \<longrightarrow> ended (length posts) (3 - s) d))"
proof (cases "guardDeliveryUrl env (tk_url tk)")
  case None
  let ?tk = "tk\<lparr>tk_phase := Attempting (Suc s)\<rparr>"
  have "deliver_alone env answers (Suc i) ?tk rows = (rows', posts)"
    using assms None by (auto simp: deliver_alone.simps [of env answers i tk rows] deliver_step_def maxAttempts_def split: prod.splits)
  from deliver_attempts [OF _ _ this, of "Suc s"] assms(2) obtain f where f: "rows' = on_delivery (tk_deliveryId tk) (tk_tenantId tk) f rows" "keeps_key f"
    "\<And>d. ended (length posts) (3 - s) (f d)" "1 \<le> length posts" "length posts \<le> 3 - s" by auto
  then show ?thesis using None by (auto simp: on_delivery_def)
next
  case (Some e)
  with assms show ?thesis by (auto simp: deliver_alone.simps [of env answers i tk rows] deliver_step_def)
qed

text \<open>C37. A delivery that runs undisturbed ends, whatever its subscriber answers: after at most the attempts it has left, its row is
  delivered, put off to a named time, or failed after exactly three attempts; a URL the gate refuses is never posted to.\<close>

theorem delivery_alone_ends:
  assumes "dl_attempts d < 3" "deliver_alone env answers 0 (new_task d w) rows = (rows', posts)"
  shows "(case guardDeliveryUrl env (wh_url w) of
      Some e \<Rightarrow> posts = []
    | None \<Rightarrow> 1 \<le> length posts \<and> length posts \<le> 3 - dl_attempts d
        \<and> (\<forall>r \<in> set rows'. dl_id r = dl_id d \<and> dl_tenantId r = dl_tenantId d \<longrightarrow> ended (length posts) (3 - dl_attempts d) r))"
  using deliver_guarded [OF _ assms(1), of "new_task d w" env answers 0 rows rows' posts] assms(2)
  by (simp add: new_task_def split: option.splits)

section \<open>Only cleared URLs are posted to\<close>

fun clears_url :: "string \<Rightarrow> outbox_op \<Rightarrow> bool" where
  "clears_url url (Advance env us answer n) = (guardDeliveryUrl env url = None)"
| "clears_url url _ = False"

definition attempting :: "delivery_task \<Rightarrow> bool" where
  "attempting tk = (case tk_phase tk of Attempting a \<Rightarrow> True | Guarding s \<Rightarrow> False)"

definition cleared_by :: "outbox_op set \<Rightarrow> outbox \<Rightarrow> bool" where
  "cleared_by C ob = ((\<forall>p \<in> set (ob_posts ob). \<exists>op \<in> C. clears_url (po_url p) op)
     \<and> (\<forall>tk \<in> set (ob_tasks ob). attempting tk \<longrightarrow> (\<exists>op \<in> C. clears_url (tk_url tk) op)))"

lemma cleared_mono: "cleared_by C ob \<Longrightarrow> cleared_by (insert op C) ob"
  by (auto simp: cleared_by_def)

lemma cleared_same: "cleared_by C ob \<Longrightarrow> ob_posts ob' = ob_posts ob \<Longrightarrow> ob_tasks ob' = ob_tasks ob \<Longrightarrow> cleared_by C ob'"
  by (simp add: cleared_by_def)

lemma spawn_cleared: "cleared_by C ob \<Longrightarrow> cleared_by C (spawn ps ob)"
  by (auto simp: cleared_by_def spawn_def attempting_def new_task_def)

lemma attempt_once_url: "attempt_once env us answer tk a rows = (rows', Some tk') \<Longrightarrow> tk_url tk' = tk_url tk"
  by (auto simp: attempt_once_def after_failure_def split: option.splits sum.splits prod.splits if_splits)

lemma deliver_step_cleared:
  assumes "deliver_step env us answer tk rows = (rows', tk', posts)" "attempting tk \<longrightarrow> (\<exists>op \<in> C. clears_url (tk_url tk) op)"
  shows "(\<forall>p \<in> set posts. \<exists>op \<in> C. clears_url (po_url p) op)
     \<and> (\<forall>x. tk' = Some x \<longrightarrow> (\<exists>op \<in> insert (Advance env us answer n) C. clears_url (tk_url x) op))"
proof (cases "tk_phase tk")
  case (Guarding s)
  with assms show ?thesis by (auto simp: deliver_step_def split: option.splits if_splits)
next
  case (Attempting a)
  with assms attempt_once_url [of env us answer tk a rows] show ?thesis by (auto simp: deliver_step_def attempting_def split: prod.splits)
qed

lemma advance_cleared:
  assumes "cleared_by C ob"
  shows "cleared_by (insert (Advance env us answer n) C) (advance env us answer n ob)"
proof (cases "n < length (ob_tasks ob)")
  case True
  obtain rows tk posts where d: "deliver_step env us answer (ob_tasks ob ! n) (ob_deliveries ob) = (rows, tk, posts)"
    by (cases "deliver_step env us answer (ob_tasks ob ! n) (ob_deliveries ob)")
  have "ob_tasks ob ! n \<in> set (ob_tasks ob)" using True by simp
  then have "attempting (ob_tasks ob ! n) \<longrightarrow> (\<exists>op \<in> C. clears_url (tk_url (ob_tasks ob ! n)) op)" using assms by (simp add: cleared_by_def)
  note s = deliver_step_cleared [OF d this, of n]
  have t: "set (ob_tasks (advance env us answer n ob)) \<subseteq> set (ob_tasks ob) \<union> {x. tk = Some x}"
    using True d by (auto simp: advance_def dest: in_set_takeD in_set_dropD split: option.splits)
  have p: "set (ob_posts (advance env us answer n ob)) = set (ob_posts ob) \<union> set posts" using True d by (simp add: advance_def)
  show ?thesis unfolding cleared_by_def
  proof (intro conjI ballI impI)
    fix x assume "x \<in> set (ob_posts (advance env us answer n ob))"
    then show "\<exists>op \<in> insert (Advance env us answer n) C. clears_url (po_url x) op" using p s assms unfolding cleared_by_def by blast
  next
    fix x assume "x \<in> set (ob_tasks (advance env us answer n ob))" "attempting x"
    then show "\<exists>op \<in> insert (Advance env us answer n) C. clears_url (tk_url x) op"
      using t s assms unfolding cleared_by_def by auto
  qed
next
  case False
  then show ?thesis using assms cleared_mono by (simp add: advance_def)
qed

lemma outbox_step_cleared: "cleared_by C ob \<Longrightarrow> cleared_by (insert op C) (outbox_step op ob)"
proof (cases op)
  case (Fire us ids event runId payload t)
  assume c: "cleared_by C ob"
  show ?thesis unfolding Fire outbox_step.simps fireEvent_def Let_def
    by (rule spawn_cleared, rule cleared_same [OF cleared_mono [OF c]]) simp_all
next
  case (Advance env us answer n)
  assume "cleared_by C ob"
  then show ?thesis unfolding Advance outbox_step.simps by (rule advance_cleared)
qed (auto simp: retryAllPending_def retryPending_def webhook_remove_def Let_def intro!: spawn_cleared intro: cleared_mono cleared_same [OF cleared_mono] split: sum.splits)

lemma outbox_cleared: "cleared_by C ob \<Longrightarrow> cleared_by (C \<union> set ops) (fold outbox_step ops ob)"
proof (induction ops arbitrary: C ob)
  case (Cons op ops)
  from Cons.IH [OF outbox_step_cleared [OF Cons.prems]] show ?case by simp
qed simp

text \<open>C22. Webhooks reach only cleared URLs: in every history each POST goes to a URL that an earlier step of the history checked against the
  SSRF policy, the addresses it resolved to then included.\<close>

theorem posts_are_cleared: "list_all (\<lambda>p. list_ex (clears_url (po_url p)) ops) (ob_posts (fold outbox_step ops empty_outbox))"
proof -
  have "cleared_by {} empty_outbox" by (simp add: cleared_by_def empty_outbox_def)
  from outbox_cleared [OF this, of ops] show ?thesis by (auto simp: cleared_by_def list_all_iff list_ex_iff)
qed

section \<open>Deliveries that overlap\<close>

definition sample_webhook_env :: webhook_env where
  "sample_webhook_env = \<lparr>we_binding = \<lparr>db_checkIp = (\<lambda>l ip. Inr ()), db_checkRedirectAuthority = (\<lambda>l a b. Inr ()), db_stripFragment = (\<lambda>s. s),
       db_webToUrl = (\<lambda>d. Inr d), db_parse = (\<lambda>t d. Inr ()), db_keyForAlgorithm = (\<lambda>d k a. Inl ([], [])),
       db_receiptKeyForAlgorithm = (\<lambda>d k a. Inl ([], []))\<rparr>,
     we_host = \<lparr>dh_newURL = (\<lambda>u. Some \<lparr>up_protocol = ''https:'', up_hostname = ''s.example''\<rparr>), dh_isIP = (\<lambda>h. 0),
       dh_lookup = (\<lambda>h. Some [''203.0.113.7'']), dh_fetch = (\<lambda>u. None)\<rparr>,
     we_policy = SsrfPolicy None None, we_print = (\<lambda>v. []), we_dateParse = (\<lambda>s. None), we_pgTime = (\<lambda>s. None)\<rparr>"

lemma sample_guard [simp]: "guardDeliveryUrl sample_webhook_env url = None"
  by (simp add: guardDeliveryUrl_def sample_webhook_env_def checkUrl_def SsrfPolicy_def strip_brackets_def checkResolvedHost_def checkIp_def)

definition sample_webhook :: webhook where
  "sample_webhook = \<lparr>wh_id = ''w'', wh_tenantId = ''t'', wh_url = ''https://s.example/h'', wh_events = [], wh_secret = ''k'', wh_active = True,
     wh_createdAt = 0, wh_updatedAt = 0\<rparr>"

definition sample_outbox :: outbox where
  "sample_outbox = empty_outbox\<lparr>ob_webhooks := [sample_webhook]\<rparr>"

theorem delivery_alone_ends_witness:
  "1 \<le> length (snd (deliver_alone sample_webhook_env (\<lambda>i. (0, if i < 3 then None else Some (200, None))) 0
       (new_task (new_delivery 0 ''d'' ''w'' ''e'' [] JNull ''t'') sample_webhook) [new_delivery 0 ''d'' ''w'' ''e'' [] JNull ''t'']))
   \<and> length (snd (deliver_alone sample_webhook_env (\<lambda>i. (0, if i < 3 then None else Some (200, None))) 0
       (new_task (new_delivery 0 ''d'' ''w'' ''e'' [] JNull ''t'') sample_webhook) [new_delivery 0 ''d'' ''w'' ''e'' [] JNull ''t''])) \<le> 3"
  using delivery_alone_ends [of "new_delivery 0 ''d'' ''w'' ''e'' [] JNull ''t''" sample_webhook_env "\<lambda>i. (0, if i < 3 then None else Some (200, None))"
      sample_webhook "[new_delivery 0 ''d'' ''w'' ''e'' [] JNull ''t'']", OF _ prod.collapse [symmetric]]
  by (simp add: new_delivery_def)

text \<open>The first delivery waits after a failed attempt; the sweep starts a second one, which is accepted; the first goes on and fails.\<close>

definition overlapping :: "outbox_op list" where
  "overlapping = [Fire 0 [''d''] ''e'' [] JNull ''t'', Advance sample_webhook_env 0 None 0, Advance sample_webhook_env 0 (Some (500, None)) 0,
     RetryAll 0, Advance sample_webhook_env 0 None 1, Advance sample_webhook_env 0 (Some (200, None)) 1]"

lemmas outbox_defs = fireEvent_def spawn_def listActive_def sample_outbox_def sample_webhook_def empty_outbox_def new_delivery_def new_task_def advance_def
  deliver_step_def attempt_once_def deferred_until_def recordFailure_def markFailed_def markDelivered_def failed_row_def delivered_row_def on_delivery_def
  after_failure_def maxAttempts_def retryAllPending_def listAllPending_def due_def with_webhook_def webhook_findById_def parseRetryAfterMs_def


text \<open>A refused URL is tried again: the gate's refusal of a delivery with attempts left leaves its row pending and due.\<close>

lemma refused_url_stays_pending:
  assumes "guardDeliveryUrl env (wh_url w) = Some e" "d \<in> set rows" "dl_attempts d < 2"
  shows "\<exists>d' \<in> set (listAllPending us (fst (deliver_step env us answer (new_task d w) rows))). dl_id d' = dl_id d"
proof -
  let ?f = "failed_row us (Suc (dl_attempts d)) (''SSRF policy: '' @ e) None None"
  have "fst (deliver_step env us answer (new_task d w) rows) = on_delivery (dl_id d) (dl_tenantId d) ?f rows"
    using assms(1) by (simp add: deliver_step_def new_task_def recordFailure_def markFailed_def)
  moreover have "?f d \<in> set (on_delivery (dl_id d) (dl_tenantId d) ?f rows)" using assms(2) unfolding on_delivery_def set_map by (intro image_eqI [of _ _ d]) simp_all
  moreover have "dl_id (?f d) = dl_id d" by (simp add: failed_row_def)
  ultimately show ?thesis using assms(3) by (intro bexI [of _ "?f d"]) (simp_all add: listAllPending_def due_def)
qed

text \<open>A deactivated subscription is still served by the sweeps, which look it up by its id alone.\<close>

lemma inactive_webhook_is_retried:
  assumes "d \<in> set (ob_deliveries ob)" "dl_status d = Pending" "dl_nextAttemptAt d = None" "webhook_findById (dl_webhookId d) (dl_tenantId d) (ob_webhooks ob) = Some w"
  shows "new_task d w \<in> set (ob_tasks (retryAllPending us ob))"
  using assms by (force simp: retryAllPending_def spawn_def listAllPending_def due_def with_webhook_def)

end
