(* ===== verification/InclusionAudit.thy ===== *)
theory InclusionAudit
  imports WitnessSafety PlaneStore
begin

text \<open>
  The inclusion audit (\<open>src/src/audit/log-inclusion-audit.service.ts\<close>) and its table (\<open>src/src/storage/log-inclusion-audit.repository.ts\<close>):
  the leaf of a stored receipt is looked up in the registry's log, under a checkpoint the registry signed and, where the checkpoint witness
  has seen the same size, under the root it has seen.

  What a pass asks of the network, the resolver and the binding is \<open>inclusion_env\<close>. Reasons are constructors that keep the strings of the
  registry their texts quote, because a column refuses a text with a NUL character; messages of environmental failures hold none. Log
  lines and metrics are not modelled; the other statements succeed.
\<close>

section \<open>Data\<close>

datatype inclusion_status = Included | InvalidProof | NotLogged | NoLog | InclusionError

datatype inclusion_note =
    NoStoredReceipt | NoCtxIdToProve | CapabilitiesUnknown | BaseUrlUnknown | LeafFailed leaf_error
  | OmissionEvidence | ProofHttp int | ProofFetch
  | ProofRejected proof_error
  | CheckpointRejected checkpoint_error json
  | AuthorityRejected authority_reason
  | LogNotBound string string
  | KeyNotBound string string
  | CheckpointSkew verify_reason
  | ReceiptKeyFailed
  | CheckpointSignature verify_reason
  | ProofNotBound
  | WitnessDiverges string string string int
  | FoldFailed verify_reason

record inclusion_verdict =
  iv_status :: inclusion_status
  iv_detail :: "inclusion_note list"
  iv_logId :: "string option"
  iv_leafIndex :: "int option"
  iv_treeSize :: "int option"

definition inclusion_verdict_of :: "inclusion_status \<Rightarrow> inclusion_note list \<Rightarrow> inclusion_proof option \<Rightarrow> inclusion_verdict" where
  "inclusion_verdict_of status detail p = \<lparr>iv_status = status, iv_detail = detail, iv_logId = map_option ip_log_id p,
     iv_leafIndex = map_option ip_leaf_index p, iv_treeSize = map_option ip_tree_size p\<rparr>"

record inclusion_env =
  ie_now :: clock
  ie_fed :: federation_env
  ie_resolveReceiptKey :: "string \<Rightarrow> string \<Rightarrow> resolved_receipt_key option"
  ie_stripFragment :: "string \<Rightarrow> string"
  ie_verifier :: acdp_verifier
  ie_jcs :: jcs
  ie_log :: log_surface

section \<open>The audit of one event\<close>

definition fetch_proof :: "inclusion_env \<Rightarrow> string \<Rightarrow> string \<Rightarrow> inclusion_verdict + json" where
  "fetch_proof env baseUrl ctxId =
     (case fst (federation_get (ie_fed env) (baseUrl @ ''/log/proof?ctx_id='' @ encode_uri_component ctxId)) of
        Inl e \<Rightarrow> Inl (inclusion_verdict_of InclusionError [ProofFetch] None)
      | Inr resp \<Rightarrow>
          if fr_status resp = 404 then Inl (inclusion_verdict_of NotLogged [OmissionEvidence] None)
          else if fr_status resp < 200 \<or> fr_status resp \<ge> 300 then Inl (inclusion_verdict_of InclusionError [ProofHttp (fr_status resp)] None)
          else (case fe_json (ie_fed env) (fr_body resp) of
              None \<Rightarrow> Inl (inclusion_verdict_of InclusionError [ProofFetch] None)
            | Some raw \<Rightarrow> Inr raw))"

text \<open>The embedded checkpoint: shape, registry binding, clock skew and signature.\<close>

definition vet_embedded :: "inclusion_env \<Rightarrow> string \<Rightarrow> inclusion_proof \<Rightarrow> inclusion_verdict + log_checkpoint" where
  "vet_embedded env authority p =
     (let invalid = (\<lambda>note. Inl (inclusion_verdict_of InvalidProof [note] (Some p)))
      in case parseCheckpoint (ip_checkpoint p) of
           Inl e \<Rightarrow> invalid (CheckpointRejected e (ip_checkpoint p))
         | Inr cp \<Rightarrow> (case authorityToDidWeb authority of
             None \<Rightarrow> Inl (inclusion_verdict_of InclusionError [AuthorityRejected (nonCanonicalAuthorityReason authority)] (Some p))
           | Some expectedDid \<Rightarrow>
               if logIdRegistryDid (cp_log_id cp) \<noteq> Some expectedDid then invalid (LogNotBound (cp_log_id cp) expectedDid)
               else if ie_stripFragment env (sig_key_id (cp_signature cp)) \<noteq> expectedDid
               then invalid (KeyNotBound (sig_key_id (cp_signature cp)) expectedDid)
               else (case checkpointTimestampOk cp (now_ms (ie_now env)) of
                   Inl e \<Rightarrow> invalid (CheckpointSkew e)
                 | Inr _ \<Rightarrow> (case ie_resolveReceiptKey env (sig_key_id (cp_signature cp)) ''ed25519'' of
                     None \<Rightarrow> Inl (inclusion_verdict_of InclusionError [ReceiptKeyFailed] None)
                   | Some resolved \<Rightarrow> (case verifyCheckpointSignature (ie_verifier env) (ie_jcs env) cp (rk_publicKeyB64 (rr_key resolved)) of
                       Inl e \<Rightarrow> invalid (CheckpointSignature e)
                     | Inr _ \<Rightarrow> Inr cp)))))"

text \<open>The proof against the checkpoint, the witnessed root and the leaf.\<close>

definition check_proof :: "inclusion_env \<Rightarrow> string \<Rightarrow> witness_row list \<Rightarrow> jobj \<Rightarrow> inclusion_proof \<Rightarrow> log_checkpoint \<Rightarrow> inclusion_verdict" where
  "check_proof env tenantId wrows leaf p cp =
     (let invalid = (\<lambda>note. inclusion_verdict_of InvalidProof [note] (Some p))
      in if ip_log_id p \<noteq> cp_log_id cp \<or> ip_tree_size p \<noteq> cp_tree_size cp \<or> ip_leaf_index p \<ge> ip_tree_size p then invalid ProofNotBound
         else (case findByLogIdAndSize tenantId (cp_log_id cp) (cp_tree_size cp) wrows of
             Some w \<Rightarrow>
               if wr_rootHash w \<noteq> cp_root_hash cp
               then invalid (WitnessDiverges (cp_root_hash cp) (wr_rootHash w) (cp_log_id cp) (cp_tree_size cp))
               else (case verifyInclusion (ie_log env) (ie_jcs env) p cp leaf of
                   Inl e \<Rightarrow> invalid (FoldFailed e)
                 | Inr _ \<Rightarrow> inclusion_verdict_of Included [] (Some p))
           | None \<Rightarrow> (case verifyInclusion (ie_log env) (ie_jcs env) p cp leaf of
               Inl e \<Rightarrow> invalid (FoldFailed e)
             | Inr _ \<Rightarrow> inclusion_verdict_of Included [] (Some p))))"

definition judge_proof :: "inclusion_env \<Rightarrow> event_row \<Rightarrow> witness_row list \<Rightarrow> jobj \<Rightarrow> json \<Rightarrow> inclusion_verdict" where
  "judge_proof env ev wrows leaf raw = (case parseInclusionProof raw of
     Inl e \<Rightarrow> inclusion_verdict_of InvalidProof [ProofRejected e] None
   | Inr p \<Rightarrow> (case vet_embedded env (ce_registryAuthority ev) p of
       Inl v \<Rightarrow> v
     | Inr cp \<Rightarrow> check_proof env (ce_tenantId ev) wrows leaf p cp))"

text \<open>What the audit reads: the registries' rows and the witnessed checkpoints.\<close>

definition base_url_of :: "registry_table \<Rightarrow> string \<Rightarrow> string \<Rightarrow> string option" where
  "base_url_of registries authority tenantId = Option.bind (registry_findByAuthority authority tenantId registries) rg_baseUrl"

definition prove_receipt :: "inclusion_env \<Rightarrow> registry_table \<Rightarrow> witness_row list \<Rightarrow> event_row \<Rightarrow> jobj \<Rightarrow> string \<Rightarrow> inclusion_verdict" where
  "prove_receipt env registries wrows ev receipt ctxId = (case base_url_of registries (ce_registryAuthority ev) (ce_tenantId ev) of
     Some (c # cs) \<Rightarrow> (case buildLogLeaf (ie_jcs env) receipt of
         Inl e \<Rightarrow> inclusion_verdict_of InclusionError [LeafFailed e] None
       | Inr leaf \<Rightarrow> (case fetch_proof env (strip_slash (c # cs)) ctxId of
           Inl v \<Rightarrow> v
         | Inr raw \<Rightarrow> judge_proof env ev wrows leaf raw))
   | _ \<Rightarrow> inclusion_verdict_of InclusionError [BaseUrlUnknown] None)"

definition inclusion_auditEvent ::
    "inclusion_env \<Rightarrow> registry_table \<Rightarrow> witness_row list \<Rightarrow> event_row \<Rightarrow> profile_cache \<Rightarrow> inclusion_verdict \<times> profile_cache" where
  "inclusion_auditEvent env registries wrows ev cache =
     (case object_member (get_prop (ce_rawPayload ev) ''registry_receipt'') of
        None \<Rightarrow> (inclusion_verdict_of InclusionError [NoStoredReceipt] None, cache)
      | Some receipt \<Rightarrow> (case ce_ctxId ev of
          Some (c # cs) \<Rightarrow>
            (case advertisesProfile (ie_fed env) (base_url_of registries) (ie_now env) (ce_registryAuthority ev) (ce_tenantId ev) TRANSPARENCY_LOG_PROFILE cache of
               (Some False, cache') \<Rightarrow> (inclusion_verdict_of NoLog [] None, cache')
             | (None, cache') \<Rightarrow> (inclusion_verdict_of InclusionError [CapabilitiesUnknown] None, cache')
             | (Some True, cache') \<Rightarrow> (prove_receipt env registries wrows ev (props_of receipt) (c # cs), cache'))
        | _ \<Rightarrow> (inclusion_verdict_of InclusionError [NoCtxIdToProve] None, cache)))"

section \<open>The table of verdicts\<close>

record inclusion_row =
  li_eventId :: string
  li_tenantId :: string
  li_runId :: "string option"
  li_ctxId :: "string option"
  li_registryAuthority :: string
  li_logId :: "string option"
  li_leafIndex :: "int option"
  li_treeSize :: "int option"
  li_status :: inclusion_status
  li_detail :: "inclusion_note list"
  li_checkedAt :: clock

text \<open>\<open>String(v)\<close> has a NUL character.\<close>

fun string_nul :: "json \<Rightarrow> bool" where
  "string_nul (JStr s) = (NULL_BYTE \<in> set s)"
| "string_nul (JArr vs) = list_ex string_nul vs"
| "string_nul _ = False"

fun reason_nul :: "verify_reason \<Rightarrow> bool" where
  "reason_nul (NativeThrew s) = (NULL_BYTE \<in> set s)"
| "reason_nul (NativeError s) = (NULL_BYTE \<in> set s)"
| "reason_nul _ = False"

definition member_nul :: "json \<Rightarrow> string \<Rightarrow> bool" where
  "member_nul v k = (case get_prop (props_of v) k of Some x \<Rightarrow> string_nul x | None \<Rightarrow> False)"

fun note_nul :: "inclusion_note \<Rightarrow> bool" where
  "note_nul (CheckpointRejected (CpSchemaViolation missing extra) v) = list_ex (\<lambda>k. NULL_BYTE \<in> set k) extra"
| "note_nul (CheckpointRejected CpBadVersion v) = member_nul v ''checkpoint_version''"
| "note_nul (CheckpointRejected CpBadLogId v) = member_nul v ''log_id''"
| "note_nul (KeyNotBound keyId did) = (NULL_BYTE \<in> set keyId)"
| "note_nul (CheckpointSkew e) = reason_nul e"
| "note_nul (CheckpointSignature e) = reason_nul e"
| "note_nul (FoldFailed e) = reason_nul e"
| "note_nul _ = False"

definition bigint_col :: "int \<Rightarrow> crash + int" where
  "bigint_col i = (if - (2 ^ 63) \<le> i \<and> i < 2 ^ 63 then Inr i else Inl ''value out of range for type bigint'')"

definition optional_col :: "('a \<Rightarrow> crash + 'a) \<Rightarrow> 'a option \<Rightarrow> crash + 'a option" where
  "optional_col f v = (case v of None \<Rightarrow> Inr None | Some x \<Rightarrow> and_then (f x) (\<lambda>y. Inr (Some y)))"

definition plain_text_col :: "string \<Rightarrow> crash + string" where
  "plain_text_col s = (if NULL_BYTE \<in> set s then Inl ''invalid byte sequence for encoding'' else Inr s)"

text \<open>\<open>toRow\<close> and the conversion of its members by the columns; a value a column refuses makes the insert throw.\<close>

definition inclusion_toRow :: "clock \<Rightarrow> event_row \<Rightarrow> inclusion_verdict \<Rightarrow> crash + inclusion_row" where
  "inclusion_toRow us ev v =
     and_then (optional_col plain_text_col (iv_logId v)) (\<lambda>logId.
     and_then (optional_col bigint_col (iv_leafIndex v)) (\<lambda>leafIndex.
     and_then (optional_col bigint_col (iv_treeSize v)) (\<lambda>treeSize.
     if list_ex note_nul (iv_detail v) then Inl ''unsupported Unicode escape sequence''
     else Inr \<lparr>li_eventId = ce_id ev, li_tenantId = ce_tenantId ev, li_runId = ce_runId ev, li_ctxId = ce_ctxId ev,
       li_registryAuthority = ce_registryAuthority ev, li_logId = logId, li_leafIndex = leafIndex, li_treeSize = treeSize,
       li_status = iv_status v, li_detail = iv_detail v, li_checkedAt = us\<rparr>)))"

definition inclusion_record :: "inclusion_row \<Rightarrow> inclusion_row list \<Rightarrow> inclusion_row list" where
  "inclusion_record input rows = (if \<exists>r \<in> set rows. li_eventId r = li_eventId input then rows else rows @ [input])"

definition findUnauditedReceiptPublishes :: "clock \<Rightarrow> nat \<Rightarrow> event_row list \<Rightarrow> inclusion_row list \<Rightarrow> event_row list" where
  "findUnauditedReceiptPublishes since limit events rows =
     take limit (sort_key ce_createdAt (filter (\<lambda>ev. ce_eventType ev = ''context_published'' \<and> er_receiptPresent ev \<and> ce_createdAt ev > since
       \<and> \<not> (\<exists>r \<in> set rows. li_eventId r = ce_id ev)) events))"

section \<open>The sweep\<close>

text \<open>\<open>envs\<close> gives what the audit of each event meets. A throwing insert ends the pass with the rows written so far.\<close>

fun inclusion_pass ::
    "(event_row \<Rightarrow> inclusion_env) \<Rightarrow> registry_table \<Rightarrow> witness_row list \<Rightarrow> event_row list \<Rightarrow> profile_cache \<times> inclusion_row list
     \<Rightarrow> crash option \<times> profile_cache \<times> inclusion_row list" where
  "inclusion_pass envs registries wrows [] st = (None, st)"
| "inclusion_pass envs registries wrows (ev # evs) (cache, rows) =
     (case inclusion_auditEvent (envs ev) registries wrows ev cache of
        (v, cache') \<Rightarrow> (case inclusion_toRow (ie_now (envs ev)) ev v of
            Inl e \<Rightarrow> (Some e, cache', rows)
          | Inr row \<Rightarrow> inclusion_pass envs registries wrows evs (cache', inclusion_record row rows)))"

record sweep_input =
  si_acquired :: bool
  si_now :: clock
  si_lookbackHours :: int
  si_batchSize :: nat
  si_envs :: "event_row \<Rightarrow> inclusion_env"
  si_events :: "event_row list"
  si_registries :: registry_table
  si_witnessed :: "witness_row list"

definition inclusion_sweep :: "sweep_input \<Rightarrow> profile_cache \<times> inclusion_row list \<Rightarrow> crash option \<times> profile_cache \<times> inclusion_row list" where
  "inclusion_sweep i st =
     (if \<not> si_acquired i then (None, st)
      else inclusion_pass (si_envs i) (si_registries i) (si_witnessed i)
        (findUnauditedReceiptPublishes ((now_ms (si_now i) - si_lookbackHours i * 60 * 60 * 1000) * 1000) (si_batchSize i) (si_events i) (snd st)) st)"

text \<open>The verdicts after a history of sweeps, each over the tables it finds.\<close>

definition audited :: "sweep_input list \<Rightarrow> inclusion_row list" where
  "audited inputs = snd (fold (\<lambda>i st. snd (inclusion_sweep i st)) inputs ([], []))"

section \<open>Which rows a history leaves\<close>

lemma pass_rows:
  assumes "r \<in> set (snd (snd (inclusion_pass envs registries wrows evs st)))"
  shows "r \<in> set (snd st) \<or> (\<exists>ev \<in> set evs. \<exists>cache. inclusion_toRow (ie_now (envs ev)) ev (fst (inclusion_auditEvent (envs ev) registries wrows ev cache)) = Inr r)"
  using assms
proof (induction envs registries wrows evs st rule: inclusion_pass.induct)
  case (2 envs registries wrows ev evs cache rows)
  obtain v cache' where a: "inclusion_auditEvent (envs ev) registries wrows ev cache = (v, cache')" by fastforce
  show ?case
  proof (cases "inclusion_toRow (ie_now (envs ev)) ev v")
    case (Inl e)
    with 2(2) a show ?thesis by simp
  next
    case (Inr row)
    have "r \<in> set (inclusion_record row rows) \<or> (\<exists>ev \<in> set evs. \<exists>cache. inclusion_toRow (ie_now (envs ev)) ev
        (fst (inclusion_auditEvent (envs ev) registries wrows ev cache)) = Inr r)"
      using 2(1) [OF a [symmetric] Inr] 2(2) a Inr by simp
    moreover have "inclusion_toRow (ie_now (envs ev)) ev (fst (inclusion_auditEvent (envs ev) registries wrows ev cache)) = Inr row" using a Inr by simp
    ultimately show ?thesis by (auto simp: inclusion_record_def split: if_splits)
  qed
qed simp

lemma unaudited_subset: "set (findUnauditedReceiptPublishes since limit events rows) \<subseteq> set events"
  unfolding findUnauditedReceiptPublishes_def by (auto dest: in_set_takeD)

definition recorded_by :: "inclusion_row \<Rightarrow> sweep_input \<Rightarrow> event_row \<Rightarrow> bool" where
  "recorded_by r i ev = (ev \<in> set (si_events i) \<and> (\<exists>cache. inclusion_toRow (ie_now (si_envs i ev)) ev
     (fst (inclusion_auditEvent (si_envs i ev) (si_registries i) (si_witnessed i) ev cache)) = Inr r))"

lemma sweep_rows:
  assumes "r \<in> set (snd (snd (inclusion_sweep i st)))"
  shows "r \<in> set (snd st) \<or> (\<exists>ev. recorded_by r i ev)"
proof (cases "si_acquired i")
  case True
  with assms show ?thesis
    unfolding inclusion_sweep_def recorded_by_def using pass_rows unaudited_subset by (simp split: if_splits) blast
qed (use assms in \<open>simp add: inclusion_sweep_def\<close>)

lemma history_rows:
  "r \<in> set (snd (fold (\<lambda>i st. snd (inclusion_sweep i st)) inputs st)) \<Longrightarrow> r \<in> set (snd st) \<or> (\<exists>i \<in> set inputs. \<exists>ev. recorded_by r i ev)"
proof (induction inputs arbitrary: st)
  case (Cons i inputs)
  then have "r \<in> set (snd (fold (\<lambda>i st. snd (inclusion_sweep i st)) inputs (snd (inclusion_sweep i st))))" by simp
  from Cons.IH [OF this] sweep_rows [of r i st] show ?case by auto
qed simp

lemma audited_rows: "r \<in> set (audited inputs) \<Longrightarrow> \<exists>i \<in> set inputs. \<exists>ev. recorded_by r i ev"
  using history_rows [of r inputs "([], [])"] by (simp add: audited_def)

section \<open>What a verdict stands for\<close>

text \<open>A checkpoint that the registry signed, its log and key bound to the registry's DID.\<close>

definition registry_signed :: "inclusion_env \<Rightarrow> string \<Rightarrow> log_checkpoint \<Rightarrow> bool" where
  "registry_signed env authority cp = (\<exists>did resolved. authorityToDidWeb authority = Some did \<and> logIdRegistryDid (cp_log_id cp) = Some did
     \<and> ie_stripFragment env (sig_key_id (cp_signature cp)) = did \<and> ie_resolveReceiptKey env (sig_key_id (cp_signature cp)) ''ed25519'' = Some resolved
     \<and> verifyCheckpointSignature (ie_verifier env) (ie_jcs env) cp (rk_publicKeyB64 (rr_key resolved)) = Inr ())"

definition agrees_with_witness :: "witness_row list \<Rightarrow> string \<Rightarrow> log_checkpoint \<Rightarrow> bool" where
  "agrees_with_witness wrows tenantId cp = (case findByLogIdAndSize tenantId (cp_log_id cp) (cp_tree_size cp) wrows of
     None \<Rightarrow> True | Some w \<Rightarrow> wr_rootHash w = cp_root_hash cp)"

text \<open>The leaf of the stored receipt.\<close>

definition stored_leaf :: "jcs \<Rightarrow> event_row \<Rightarrow> jobj option" where
  "stored_leaf jcs ev = (case object_member (get_prop (ce_rawPayload ev) ''registry_receipt'') of
     None \<Rightarrow> None
   | Some receipt \<Rightarrow> (case buildLogLeaf jcs (props_of receipt) of Inl e \<Rightarrow> None | Inr leaf \<Rightarrow> Some leaf))"

definition proven :: "inclusion_env \<Rightarrow> witness_row list \<Rightarrow> event_row \<Rightarrow> jobj \<Rightarrow> inclusion_proof \<Rightarrow> log_checkpoint \<Rightarrow> bool" where
  "proven env wrows ev leaf p cp = (registry_signed env (ce_registryAuthority ev) cp \<and> agrees_with_witness wrows (ce_tenantId ev) cp
     \<and> ip_log_id p = cp_log_id cp \<and> ip_tree_size p = cp_tree_size cp \<and> 0 \<le> ip_leaf_index p \<and> ip_leaf_index p < ip_tree_size p
     \<and> verifyInclusion (ie_log env) (ie_jcs env) p cp leaf = Inr ())"

lemma vet_embedded_signed: "vet_embedded env authority p = Inr cp \<Longrightarrow> registry_signed env authority cp"
  by (auto simp: vet_embedded_def Let_def registry_signed_def split: sum.splits option.splits if_splits)

lemma parsed_index: "parseInclusionProof raw = Inr p \<Longrightarrow> 0 \<le> ip_leaf_index p"
  by (auto simp: parseInclusionProof_def nonneg_int_def split: json.splits option.splits if_splits)

lemma inclusion_verdict_of_simps [simp]:
  "iv_status (inclusion_verdict_of s d p) = s" "iv_detail (inclusion_verdict_of s d p) = d" "iv_logId (inclusion_verdict_of s d p) = map_option ip_log_id p"
  "iv_leafIndex (inclusion_verdict_of s d p) = map_option ip_leaf_index p" "iv_treeSize (inclusion_verdict_of s d p) = map_option ip_tree_size p"
  by (simp_all add: inclusion_verdict_of_def)

lemma check_proof_included:
  assumes "iv_status (check_proof env tenantId wrows leaf p cp) = Included"
  shows "check_proof env tenantId wrows leaf p cp = inclusion_verdict_of Included [] (Some p) \<and> agrees_with_witness wrows tenantId cp
     \<and> ip_log_id p = cp_log_id cp \<and> ip_tree_size p = cp_tree_size cp \<and> ip_leaf_index p < ip_tree_size p \<and> verifyInclusion (ie_log env) (ie_jcs env) p cp leaf = Inr ()"
  using assms by (auto simp: check_proof_def Let_def agrees_with_witness_def split: if_splits option.splits sum.splits)

lemma vet_embedded_refused: "vet_embedded env authority p = Inl v \<Longrightarrow> iv_status v \<noteq> Included"
  by (auto simp: vet_embedded_def Let_def split: sum.splits option.splits if_splits)

lemma fetch_proof_refused: "fetch_proof env baseUrl ctxId = Inl v \<Longrightarrow> iv_status v \<noteq> Included"
  by (auto simp: fetch_proof_def split: sum.splits option.splits if_splits)

lemma judge_proof_included:
  assumes "iv_status (judge_proof env ev wrows leaf raw) = Included"
  shows "\<exists>p cp. judge_proof env ev wrows leaf raw = inclusion_verdict_of Included [] (Some p) \<and> proven env wrows ev leaf p cp"
proof (cases "parseInclusionProof raw")
  case (Inr p)
  show ?thesis
  proof (cases "vet_embedded env (ce_registryAuthority ev) p")
    case (Inl v)
    with assms Inr vet_embedded_refused show ?thesis by (simp add: judge_proof_def)
  next
    case cp: (Inr cp)
    with assms Inr have "iv_status (check_proof env (ce_tenantId ev) wrows leaf p cp) = Included" by (simp add: judge_proof_def)
    from check_proof_included [OF this] show ?thesis
      using Inr cp vet_embedded_signed [OF cp] parsed_index [OF Inr] unfolding proven_def
      by (intro exI [of _ p] exI [of _ cp]) (simp add: judge_proof_def)
  qed
qed (use assms in \<open>simp add: judge_proof_def\<close>)

lemma audit_included:
  assumes "iv_status (fst (inclusion_auditEvent env registries wrows ev cache)) = Included"
  shows "\<exists>leaf p cp. fst (inclusion_auditEvent env registries wrows ev cache) = inclusion_verdict_of Included [] (Some p)
     \<and> stored_leaf (ie_jcs env) ev = Some leaf \<and> proven env wrows ev leaf p cp"
proof -
  obtain receipt ctxId where r: "object_member (get_prop (ce_rawPayload ev) ''registry_receipt'') = Some receipt"
    "fst (inclusion_auditEvent env registries wrows ev cache) = prove_receipt env registries wrows ev (props_of receipt) ctxId"
    using assms by (auto simp: inclusion_auditEvent_def split: option.splits list.splits prod.splits bool.splits)
  with assms have "iv_status (prove_receipt env registries wrows ev (props_of receipt) ctxId) = Included" by simp
  then obtain leaf raw where l: "buildLogLeaf (ie_jcs env) (props_of receipt) = Inr leaf"
    "prove_receipt env registries wrows ev (props_of receipt) ctxId = judge_proof env ev wrows leaf raw"
    using fetch_proof_refused by (auto simp: prove_receipt_def split: option.splits list.splits sum.splits)
  with assms r have "iv_status (judge_proof env ev wrows leaf raw) = Included" by simp
  from judge_proof_included [OF this] r l show ?thesis by (auto simp: stored_leaf_def)
qed

lemma toRow_included:
  assumes "inclusion_toRow us ev v = Inr r"
  shows "li_eventId r = ce_id ev \<and> li_status r = iv_status v \<and> li_leafIndex r = iv_leafIndex v \<and> li_treeSize r = iv_treeSize v"
  using assms by (auto simp: inclusion_toRow_def bind_simps optional_col_def bigint_col_def plain_text_col_def split: option.splits if_splits)

lemma leafHash_length: "leafHash jcs leaf = Some h \<Longrightarrow> length h = 32"
  by (auto simp: leafHash_def)

lemma host_fold:
  assumes "proven env wrows ev leaf p cp" "\<not> sdkHasLogSurface (ie_log env)"
  shows "\<exists>leafH. leafHash (ie_jcs env) leaf = Some leafH
     \<and> verifyInclusionPath (num_of_int (ip_leaf_index p)) (num_of_int (cp_tree_size cp)) leafH (ip_path p) (cp_root_hash cp) = Inr ()"
  using assms by (auto simp: proven_def verifyInclusion_def tsVerifyInclusion_def split: option.splits)

text \<open>The leaf of a proven receipt is the entry of every log with the signed root, unless hashing it shows a collision.\<close>

definition entry_of_log :: "bytes \<Rightarrow> string list \<Rightarrow> int \<Rightarrow> log_checkpoint \<Rightarrow> bytes list \<Rightarrow> bool" where
  "entry_of_log leafH path i cp hs =
     (cp_root_hash cp = wire_hash (mth hs) \<and> cp_tree_size cp = int (length hs) \<and> (\<forall>h \<in> set hs. length h = 32)
        \<and> inj_on sha256 (mth_inputs hs \<union> inclusion_run_inputs (nat i) (length hs) leafH path)
      \<longrightarrow> nat i < length hs \<and> leafH = hs ! nat i)"

lemma proven_entry:
  assumes "proven env wrows ev leaf p cp" "\<not> sdkHasLogSurface (ie_log env)"
  shows "\<exists>leafH. leafHash (ie_jcs env) leaf = Some leafH \<and> (\<forall>hs. entry_of_log leafH (ip_path p) (ip_leaf_index p) cp hs)"
proof -
  obtain leafH where l: "leafHash (ie_jcs env) leaf = Some leafH"
    "verifyInclusionPath (num_of_int (ip_leaf_index p)) (num_of_int (cp_tree_size cp)) leafH (ip_path p) (cp_root_hash cp) = Inr ()"
    using host_fold [OF assms] by blast
  have i: "0 \<le> ip_leaf_index p" "ip_leaf_index p < cp_tree_size cp" using assms(1) by (auto simp: proven_def)
  have "entry_of_log leafH (ip_path p) (ip_leaf_index p) cp hs" for hs
  proof (unfold entry_of_log_def, intro impI, elim conjE)
    assume h: "cp_root_hash cp = wire_hash (mth hs)" "cp_tree_size cp = int (length hs)" "\<forall>h \<in> set hs. length h = 32"
      "inj_on sha256 (mth_inputs hs \<union> inclusion_run_inputs (nat (ip_leaf_index p)) (length hs) leafH (ip_path p))"
    have m: "nat (ip_leaf_index p) < length hs" using i h(2) by linarith
    with inclusion_sound [of "nat (ip_leaf_index p)" hs leafH "ip_path p"] l i h leafHash_length [OF l(1)]
    show "nat (ip_leaf_index p) < length hs \<and> leafH = hs ! nat (ip_leaf_index p)" by simp
  qed
  with l(1) show ?thesis by blast
qed

lemma recorded_included:
  assumes "recorded_by r i ev" "li_status r = Included"
  shows "\<exists>leaf p cp. li_eventId r = ce_id ev \<and> stored_leaf (ie_jcs (si_envs i ev)) ev = Some leaf \<and> proven (si_envs i ev) (si_witnessed i) ev leaf p cp
     \<and> li_leafIndex r = Some (ip_leaf_index p) \<and> li_treeSize r = Some (cp_tree_size cp)"
proof -
  obtain cache where c: "inclusion_toRow (ie_now (si_envs i ev)) ev
      (fst (inclusion_auditEvent (si_envs i ev) (si_registries i) (si_witnessed i) ev cache)) = Inr r"
    using assms(1) by (auto simp: recorded_by_def)
  note row = toRow_included [OF c]
  with assms(2) audit_included [of "si_envs i ev" "si_registries i" "si_witnessed i" ev cache] show ?thesis by (fastforce simp: proven_def)
qed

text \<open>C14. An inclusion verdict is genuine: an event sealed as included in any history of sweeps has a checkpoint that its registry signed and that
  does not contradict the root this control plane looked up among its witnessed ones, and the leaf rebuilt from the stored receipt is the
  entry at the sealed index of every log with that root, as long as hashing shows no collision (the fold being the one of the host).\<close>

theorem included_is_logged:
  assumes "r \<in> set (audited inputs)" "li_status r = Included"
  shows "\<exists>i \<in> set inputs. \<exists>ev \<in> set (si_events i). \<exists>leaf cp. li_eventId r = ce_id ev \<and> stored_leaf (ie_jcs (si_envs i ev)) ev = Some leaf
     \<and> registry_signed (si_envs i ev) (ce_registryAuthority ev) cp \<and> agrees_with_witness (si_witnessed i) (ce_tenantId ev) cp
     \<and> li_treeSize r = Some (cp_tree_size cp)
     \<and> (sdkHasLogSurface (ie_log (si_envs i ev)) \<or> (\<exists>leafH path. leafHash (ie_jcs (si_envs i ev)) leaf = Some leafH
          \<and> (\<forall>hs. entry_of_log leafH path (the (li_leafIndex r)) cp hs)))"
proof -
  obtain i ev where i: "i \<in> set inputs" "recorded_by r i ev" using audited_rows [OF assms(1)] by blast
  obtain leaf p cp where p: "li_eventId r = ce_id ev" "stored_leaf (ie_jcs (si_envs i ev)) ev = Some leaf" "proven (si_envs i ev) (si_witnessed i) ev leaf p cp"
    "li_leafIndex r = Some (ip_leaf_index p)" "li_treeSize r = Some (cp_tree_size cp)"
    using recorded_included [OF i(2) assms(2)] by blast
  have "ev \<in> set (si_events i)" using i(2) by (simp add: recorded_by_def)
  with i p proven_entry [OF p(3)] show ?thesis
    by (intro bexI [of _ i] bexI [of _ ev] exI [of _ leaf] exI [of _ cp]) (auto simp: proven_def)
qed

section \<open>A sample log\<close>

definition log_leaf :: bytes where "log_leaf = sha256 (0x00 # utf8 ''x'')"

definition log_receipt :: jobj where
  "log_receipt = map (\<lambda>f. (f, JStr ''x'')) leaf_fields"

definition logged_event :: "string \<Rightarrow> clock \<Rightarrow> event_row" where
  "logged_event i us = \<lparr>ce_id = i, ce_tenantId = ''t'', ce_eventType = ''context_published'', ce_runId = None, ce_ctxId = Some ''c'', ce_lineageId = None,
     ce_agentId = ''did:key:z6Mk'', ce_contextType = None, ce_registryAuthority = ''r.example'', ce_keyFingerprint = None,
     ce_rawPayload = [(''registry_receipt'', JObj log_receipt)], ce_createdAt = us, er_eventTs = us, er_visibility = None, er_version = None,
     er_derivedFrom = JArr [], er_scenarioId = None, er_fingerprint = None, er_receiptPresent = True\<rparr>"

definition served_inclusion :: "string \<Rightarrow> json" where
  "served_inclusion lid = JObj [(''log_id'', JStr lid), (''leaf_index'', JNum (num_of_int 0)), (''tree_size'', JNum (num_of_int 1)),
     (''inclusion_path'', JArr []), (''log_checkpoint'', JObj (served_checkpoint 1 (wire_hash log_leaf)))]"

definition log_env :: "string \<Rightarrow> inclusion_env" where
  "log_env lid = \<lparr>ie_now = 1767225660000000,
     ie_fed = audit_fed [(''https://r.example/.well-known/acdp.json'', 1), (''https://r.example/log/proof?ctx_id=c'', 2)]
       [(1, JObj [(''profiles'', JArr [JStr TRANSPARENCY_LOG_PROFILE])]), (2, served_inclusion lid)],
     ie_resolveReceiptKey = (\<lambda>_ _. Some some_key), ie_stripFragment = stripFragment, ie_verifier = accepting, ie_jcs = (\<lambda>_. Some ''x''),
     ie_log = no_log_surface\<rparr>"

definition log_registries :: registry_table where
  "log_registries = [((''t'', ''r.example''), \<lparr>rg_baseUrl = Some ''https://r.example'', rg_firstSeen = 0, rg_lastSeen = 0, rg_eventCount = 1\<rparr>)]"

definition parsed_inclusion :: "string \<Rightarrow> inclusion_proof" where
  "parsed_inclusion lid = \<lparr>ip_log_id = lid, ip_leaf_index = 0, ip_tree_size = 1, ip_path = [], ip_checkpoint = JObj (served_checkpoint 1 (wire_hash log_leaf))\<rparr>"

text \<open>A sweep over the given events; the registry answers for the event \<open>bad\<close> with the log id \<open>lid\<close> in its proof.\<close>

definition log_sweep :: "string \<Rightarrow> event_row list \<Rightarrow> witness_row list \<Rightarrow> sweep_input" where
  "log_sweep lid events wrows = \<lparr>si_acquired = True, si_now = 1767225660000000, si_lookbackHours = 1, si_batchSize = 10,
     si_envs = (\<lambda>ev. log_env (if ce_id ev = ''bad'' then lid else registry_log)), si_events = events, si_registries = log_registries, si_witnessed = wrows\<rparr>"

lemma log_leaf_ok [simp]: "length log_leaf = 32" "WIRE_HASH_RE (wire_hash log_leaf)"
  by (simp_all add: log_leaf_def wire_hash_ok)

lemma log_advertised:
  assumes "cache = [] \<or> map_of cache (profile_key ''t'' ''r.example'')
    = Some \<lparr>pf_profiles = Some [TRANSPARENCY_LOG_PROFILE], pf_registryDid = None, pf_acdpVersion = None, pf_cachedAt = 1767225660000\<rparr>"
  shows "\<exists>cache'. advertisesProfile (ie_fed (log_env lid)) (base_url_of log_registries) (ie_now (log_env lid)) ''r.example'' ''t'' TRANSPARENCY_LOG_PROFILE cache
    = (Some True, cache') \<and> map_of cache' (profile_key ''t'' ''r.example'')
    = Some \<lparr>pf_profiles = Some [TRANSPARENCY_LOG_PROFILE], pf_registryDid = None, pf_acdpVersion = None, pf_cachedAt = 1767225660000\<rparr>"
proof -
  have us: "now_ms 1767225660000000 = 1767225660000" by code_simp
  have base: "base_url_of log_registries ''r.example'' ''t'' = Some ''https://r.example''"
    by (simp add: base_url_of_def registry_findByAuthority_def log_registries_def)
  have strip: "strip_slash ''https://r.example'' @ ''/.well-known/acdp.json'' = ''https://r.example/.well-known/acdp.json''" by (simp add: strip_slash_def)
  have get: "fst (federation_get (ie_fed (log_env lid)) ''https://r.example/.well-known/acdp.json'') = Inr \<lparr>fr_status = 200, fr_contentType = None, fr_body = [1]\<rparr>"
    unfolding log_env_def inclusion_env.simps by (rule audit_fed_get) simp
  have json: "fe_json (ie_fed (log_env lid)) [1] = Some (JObj [(''profiles'', JArr [JStr TRANSPARENCY_LOG_PROFILE])])"
    by (simp add: log_env_def audit_fed_def)
  have probe: "probe (ie_fed (log_env lid)) (Some ''https://r.example'') 1767225660000
      = \<lparr>pf_profiles = Some [TRANSPARENCY_LOG_PROFILE], pf_registryDid = None, pf_acdpVersion = None, pf_cachedAt = 1767225660000\<rparr>"
    using get json unfolding probe_def strip
    by (simp add: strip [simplified] get_prop_def string_items_def as_string_def List.map_filter_def)
  have now: "ie_now (log_env lid) = 1767225660000000" by (simp add: log_env_def)
  show ?thesis using assms probe unfolding now
    by (auto simp: advertisesProfile_def entryFor_def Let_def us base PROFILE_CACHE_TTL_MS_def)
qed

lemma log_proof_fetched: "fetch_proof (log_env lid) ''https://r.example'' ''c'' = Inr (served_inclusion lid)"
proof -
  have u: "encode_uri_component ''c'' = ''c''" by code_simp
  have "fst (federation_get (ie_fed (log_env lid)) ''https://r.example/log/proof?ctx_id=c'') = Inr \<lparr>fr_status = 200, fr_contentType = None, fr_body = [2]\<rparr>"
    unfolding log_env_def inclusion_env.simps by (rule audit_fed_get) simp
  moreover have "fe_json (ie_fed (log_env lid)) [2] = Some (served_inclusion lid)" by (simp add: log_env_def audit_fed_def)
  ultimately show ?thesis by (simp add: fetch_proof_def u)
qed

lemma log_proof_parsed: "parseInclusionProof (served_inclusion lid) = Inr (parsed_inclusion lid)"
  by (simp add: parseInclusionProof_def served_inclusion_def parsed_inclusion_def get_prop_def as_string_def nonneg_int_def as_int_def as_number_def
    isWireHashArray_def nonnull_object_def)

lemma log_checkpoint_vetted: "vet_embedded (log_env lid) ''r.example'' (parsed_inclusion lid') = Inr (parsed_checkpoint 1 (wire_hash log_leaf))"
proof -
  have facts: "authorityToDidWeb ''r.example'' = Some ''did:web:r.example''" "logIdRegistryDid registry_log = Some ''did:web:r.example''"
    "stripFragment ''did:web:r.example#k'' = ''did:web:r.example''" "date_parse ''2026-01-01T00:00:00.000Z'' = Some 1767225600000"
    "now_ms 1767225660000000 = 1767225660000"
    by code_simp+
  let ?cp = "parsed_checkpoint 1 (wire_hash log_leaf)"
  have "checkpointTimestampOk ?cp (now_ms (ie_now (log_env lid))) = Inr ()"
    using facts by (simp add: checkpointTimestampOk_def parsed_checkpoint_def log_env_def CHECKPOINT_MAX_FUTURE_SKEW_MS_def)
  moreover have "verifyCheckpointSignature (ie_verifier (log_env lid)) (ie_jcs (log_env lid)) ?cp k = Inr ()" for k
    by (simp add: verifyCheckpointSignature_def checkpointHash_def verifySignatureB64_def accepting_def parsed_checkpoint_def log_env_def)
  moreover have "cp_log_id ?cp = registry_log" "sig_key_id (cp_signature ?cp) = ''did:web:r.example#k''" by (simp_all add: parsed_checkpoint_def)
  moreover have "ie_resolveReceiptKey (log_env lid) k alg = Some some_key" "ie_stripFragment (log_env lid) = stripFragment" for k alg
    by (simp_all add: log_env_def)
  moreover have "parseCheckpoint (ip_checkpoint (parsed_inclusion lid')) = Inr ?cp" using parse_served by (simp add: parsed_inclusion_def)
  ultimately show ?thesis using facts(1,2,3) by (simp add: vet_embedded_def Let_def)
qed

lemma log_leaf_built: "\<exists>leaf. buildLogLeaf (ie_jcs (log_env lid)) log_receipt = Inr leaf"
  by (simp add: buildLogLeaf_def log_env_def log_receipt_def leaf_fields_def usable_field_def get_prop_def as_string_def)

text \<open>The audit of a logged event compares the proof's log id, then the witnessed root.\<close>

definition log_verdict :: "string \<Rightarrow> witness_row list \<Rightarrow> inclusion_verdict" where
  "log_verdict lid wrows =
     (if lid \<noteq> registry_log then inclusion_verdict_of InvalidProof [ProofNotBound] (Some (parsed_inclusion lid))
      else case findByLogIdAndSize ''t'' registry_log 1 wrows of
        Some w \<Rightarrow> if wr_rootHash w \<noteq> wire_hash log_leaf
          then inclusion_verdict_of InvalidProof [WitnessDiverges (wire_hash log_leaf) (wr_rootHash w) registry_log 1] (Some (parsed_inclusion lid))
          else inclusion_verdict_of Included [] (Some (parsed_inclusion lid))
      | None \<Rightarrow> inclusion_verdict_of Included [] (Some (parsed_inclusion lid)))"

lemma log_judged: "judge_proof (log_env lid) (logged_event i us) wrows leaf (served_inclusion lid) = log_verdict lid wrows"
proof -
  have "verifyInclusionPath (num_of_int 0) (num_of_int 1) log_leaf [] (wire_hash log_leaf) = Inr ()"
    using inclusion_complete [of 0 "[log_leaf]"] by (simp add: audit_path.simps)
  then have "verifyInclusion (ie_log (log_env l)) (ie_jcs (log_env l)) (parsed_inclusion l') (parsed_checkpoint 1 (wire_hash log_leaf)) leaf = Inr ()" for l l'
    by (simp add: verifyInclusion_def sdkHasLogSurface_def no_log_surface_def log_env_def tsVerifyInclusion_def leafHash_def parsed_inclusion_def
      parsed_checkpoint_def log_leaf_def [symmetric])
  moreover have "ce_registryAuthority (logged_event i us) = ''r.example''" "ce_tenantId (logged_event i us) = ''t''" by (simp_all add: logged_event_def)
  moreover have "cp_log_id (parsed_checkpoint n h) = registry_log" "cp_tree_size (parsed_checkpoint n h) = n" "cp_root_hash (parsed_checkpoint n h) = h" for n h
    by (simp_all add: parsed_checkpoint_def)
  moreover have "ip_log_id (parsed_inclusion l) = l" "ip_tree_size (parsed_inclusion l) = 1" "ip_leaf_index (parsed_inclusion l) = 0" for l
    by (simp_all add: parsed_inclusion_def)
  ultimately show ?thesis
    by (simp add: judge_proof_def log_proof_parsed log_checkpoint_vetted check_proof_def log_verdict_def Let_def split: option.split)
qed

lemma log_audited:
  assumes "cache = [] \<or> map_of cache (profile_key ''t'' ''r.example'')
    = Some \<lparr>pf_profiles = Some [TRANSPARENCY_LOG_PROFILE], pf_registryDid = None, pf_acdpVersion = None, pf_cachedAt = 1767225660000\<rparr>"
  shows "\<exists>cache'. inclusion_auditEvent (log_env lid) log_registries wrows (logged_event i us) cache = (log_verdict lid wrows, cache')
    \<and> map_of cache' (profile_key ''t'' ''r.example'')
      = Some \<lparr>pf_profiles = Some [TRANSPARENCY_LOG_PROFILE], pf_registryDid = None, pf_acdpVersion = None, pf_cachedAt = 1767225660000\<rparr>"
proof -
  obtain leaf where leaf: "buildLogLeaf (ie_jcs (log_env lid)) log_receipt = Inr leaf" using log_leaf_built by blast
  have base: "base_url_of log_registries ''r.example'' ''t'' = Some ''https://r.example''"
    by (simp add: base_url_of_def registry_findByAuthority_def log_registries_def)
  have ev: "ce_registryAuthority (logged_event i us) = ''r.example''" "ce_tenantId (logged_event i us) = ''t''" "ce_ctxId (logged_event i us) = Some ''c''"
    "object_member (get_prop (ce_rawPayload (logged_event i us)) ''registry_receipt'') = Some (JObj log_receipt)" "props_of (JObj log_receipt) = log_receipt"
    by (simp_all add: logged_event_def get_prop_def object_member_def props_of_def)
  have "strip_slash ''https://r.example'' = ''https://r.example''" by (simp add: strip_slash_def)
  then have "prove_receipt (log_env lid) log_registries wrows (logged_event i us) log_receipt ''c'' = log_verdict lid wrows"
    by (simp add: prove_receipt_def ev base leaf log_proof_fetched log_judged)
  with log_advertised [OF assms, of lid] show ?thesis by (auto simp: inclusion_auditEvent_def ev)
qed

lemma log_row:
  assumes "NULL_BYTE \<notin> set lid"
  shows "\<exists>row. inclusion_toRow us ev (log_verdict lid wrows) = Inr row \<and> li_eventId row = ce_id ev \<and> li_status row = iv_status (log_verdict lid wrows)"
  using assms by (auto simp: inclusion_toRow_def log_verdict_def and_then_def optional_col_def plain_text_col_def bigint_col_def parsed_inclusion_def split: option.split)

lemma log_row_refused:
  "inclusion_toRow us ev (inclusion_verdict_of InvalidProof [ProofNotBound] (Some (parsed_inclusion [NULL_BYTE]))) = Inl ''invalid byte sequence for encoding''"
  by (simp add: inclusion_toRow_def optional_col_def plain_text_col_def parsed_inclusion_def)

lemma log_due: "findUnauditedReceiptPublishes ((now_ms (si_now (log_sweep lid es w)) - si_lookbackHours (log_sweep lid es w) * 60 * 60 * 1000) * 1000) 10
    [logged_event ''bad'' 1767225600000000, logged_event ''e'' 1767225600000001] [] = [logged_event ''bad'' 1767225600000000, logged_event ''e'' 1767225600000001]"
  "findUnauditedReceiptPublishes ((now_ms (si_now (log_sweep lid es w)) - si_lookbackHours (log_sweep lid es w) * 60 * 60 * 1000) * 1000) 10
    [logged_event ''e'' 1767225600000001] [] = [logged_event ''e'' 1767225600000001]"
proof -
  have "now_ms 1767225660000000 = 1767225660000" by code_simp
  then show "findUnauditedReceiptPublishes ((now_ms (si_now (log_sweep lid es w)) - si_lookbackHours (log_sweep lid es w) * 60 * 60 * 1000) * 1000) 10
    [logged_event ''bad'' 1767225600000000, logged_event ''e'' 1767225600000001] [] = [logged_event ''bad'' 1767225600000000, logged_event ''e'' 1767225600000001]"
    "findUnauditedReceiptPublishes ((now_ms (si_now (log_sweep lid es w)) - si_lookbackHours (log_sweep lid es w) * 60 * 60 * 1000) * 1000) 10
    [logged_event ''e'' 1767225600000001] [] = [logged_event ''e'' 1767225600000001]"
    by (simp_all add: findUnauditedReceiptPublishes_def log_sweep_def logged_event_def)
qed

lemma log_sweep_fields: "si_acquired (log_sweep lid es w)" "si_batchSize (log_sweep lid es w) = 10" "si_events (log_sweep lid es w) = es"
  "si_envs (log_sweep lid es w) ev = log_env (if ce_id ev = ''bad'' then lid else registry_log)" "si_registries (log_sweep lid es w) = log_registries"
  "si_witnessed (log_sweep lid es w) = w"
  by (simp_all add: log_sweep_def)

lemma registry_log_clean: "NULL_BYTE \<notin> set registry_log"
  by (simp add: registry_log_def NULL_BYTE_def)

text \<open>One sweep over one logged event.\<close>

lemma log_sealed:
  "\<exists>row cache. inclusion_sweep (log_sweep lid [logged_event ''e'' 1767225600000001] w) ([], []) = (None, cache, [row])
     \<and> li_eventId row = ''e'' \<and> li_status row = iv_status (log_verdict registry_log w)"
proof -
  have e: "ce_id (logged_event ''e'' us) = ''e''" for us by (simp add: logged_event_def)
  obtain cache where a: "inclusion_auditEvent (log_env registry_log) log_registries w (logged_event ''e'' 1767225600000001) [] = (log_verdict registry_log w, cache)"
    using log_audited [of "[]" registry_log w "''e''"] by blast
  obtain row where "inclusion_toRow (ie_now (log_env registry_log)) (logged_event ''e'' 1767225600000001) (log_verdict registry_log w) = Inr row" "li_eventId row = ''e''"
    "li_status row = iv_status (log_verdict registry_log w)" using log_row [OF registry_log_clean] e by metis
  with a show ?thesis unfolding inclusion_sweep_def log_sweep_fields(2-) snd_conv log_due(2)
    by (simp add: log_sweep_fields e inclusion_record_def)
qed

lemma verdict_unwitnessed: "iv_status (log_verdict registry_log []) = Included"
  by (simp add: log_verdict_def findByLogIdAndSize_def)

theorem included_is_logged_witness:
  "\<exists>r \<in> set (audited [log_sweep [] [logged_event ''e'' 1767225600000001] []]). li_status r = Included
     \<and> (\<exists>leaf cp. stored_leaf (\<lambda>_. Some ''x'') (logged_event ''e'' 1767225600000001) = Some leaf \<and> registry_signed (log_env registry_log) ''r.example'' cp
          \<and> li_treeSize r = Some (cp_tree_size cp))"
proof -
  let ?ev = "logged_event ''e'' 1767225600000001"
  obtain r where r: "r \<in> set (audited [log_sweep [] [?ev] []])" "li_status r = Included"
    using log_sealed [of "[]" "[]"] verdict_unwitnessed by (force simp: audited_def)
  have "ie_jcs (log_env registry_log) = (\<lambda>_. Some ''x'')" "ce_id ?ev = ''e''" "ce_registryAuthority ?ev = ''r.example''"
    by (simp_all add: log_env_def logged_event_def)
  with included_is_logged [OF r] r show ?thesis by (auto simp: log_sweep_fields)
qed

section \<open>A checkpoint nobody signed\<close>

definition rejecting :: acdp_verifier where
  "rejecting = \<lparr>av_verifySignature = (\<lambda>pub sg m. Some False), av_verifySignatureP256 = (\<lambda>pub sg m. Some False)\<rparr>"

definition other_root :: string where "other_root = wire_hash (map (\<lambda>b. b + 1) log_leaf)"

text \<open>The witness is served a checkpoint of the same size with another root and a signature that does not verify.\<close>

definition unsigned_env :: witness_env where
  "unsigned_env = (sample_env 1 other_root JNull)\<lparr>we_verifier := rejecting\<rparr>"

lemma other_root_ok: "WIRE_HASH_RE other_root" "other_root \<noteq> wire_hash log_leaf"
proof -
  have l: "length (map (\<lambda>b. b + 1) log_leaf) = 32" by simp
  then show "WIRE_HASH_RE other_root" unfolding other_root_def by (rule wire_hash_ok)
  have "log_leaf \<noteq> []" using log_leaf_ok(1) by fastforce
  then have "hd (map (\<lambda>b. b + 1) log_leaf) \<noteq> hd log_leaf" by (simp add: hd_map)
  then have "map (\<lambda>b. b + 1) log_leaf \<noteq> log_leaf" by metis
  then show "other_root \<noteq> wire_hash log_leaf"
    unfolding other_root_def using wireHashToBuf_wire [OF l] wireHashToBuf_wire [OF log_leaf_ok(1)] by force
qed

lemma unsigned_vetted:
  "vet_checkpoint unsigned_env ''r.example'' (JObj (served_checkpoint 1 other_root)) = Inl (VetBadSignature verify_reason.SignatureInvalid (parsed_checkpoint 1 other_root))"
proof -
  have facts: "authorityToDidWeb ''r.example'' = Some ''did:web:r.example''" "logIdRegistryDid registry_log = Some ''did:web:r.example''"
    "stripFragment ''did:web:r.example#k'' = ''did:web:r.example''" "date_parse ''2026-01-01T00:00:00.000Z'' = Some 1767225600000"
    "now_ms 1767225660000000 = 1767225660000"
    by code_simp+
  let ?cp = "parsed_checkpoint 1 other_root"
  have "checkRegistryBinding unsigned_env ?cp ''did:web:r.example'' = None"
    using facts by (simp add: checkRegistryBinding_def parsed_checkpoint_def unsigned_env_def sample_env_def)
  moreover have "checkpointTimestampOk ?cp (now_ms (we_now unsigned_env)) = Inr ()"
    using facts by (simp add: checkpointTimestampOk_def parsed_checkpoint_def unsigned_env_def sample_env_def CHECKPOINT_MAX_FUTURE_SKEW_MS_def)
  moreover have "verifyCheckpointSignature (we_verifier unsigned_env) (we_jcs unsigned_env) ?cp k = Inl verify_reason.SignatureInvalid" for k
    by (simp add: verifyCheckpointSignature_def checkpointHash_def verifySignatureB64_def rejecting_def parsed_checkpoint_def unsigned_env_def sample_env_def)
  moreover have "we_resolveReceiptKey unsigned_env k alg = Some some_key" for k alg by (simp add: unsigned_env_def sample_env_def)
  ultimately show ?thesis using facts(1) by (simp add: vet_checkpoint_def parse_served [OF _ other_root_ok(1)])
qed

lemma unsigned_pass:
  "fst (witnessRegistry unsigned_env (sample_enrollment ''t'') empty_db) = Alerted CheckpointSignatureInvalid"
  "\<exists>w. findByLogIdAndSize ''t'' registry_log 1 (wd_checkpoints (snd (witnessRegistry unsigned_env (sample_enrollment ''t'') empty_db))) = Some w
     \<and> wr_rootHash w = other_root \<and> \<not> wr_signatureValid w"
proof -
  let ?cp = "parsed_checkpoint 1 other_root"
  have "unwrapCheckpointEnvelope (JObj (served_checkpoint 1 other_root)) = (JObj (served_checkpoint 1 other_root), [])"
    by (simp add: unwrapCheckpointEnvelope_def served_checkpoint_def get_prop_def)
  moreover have "resolveBaseUrl unsigned_env (sample_enrollment ''t'') = Some ''https://r.example''"
    by (simp add: resolveBaseUrl_def sample_enrollment_def strip_slash_def)
  moreover have "we_get unsigned_env ''https://r.example/log/checkpoint'' = Some (answer_ok (JObj (served_checkpoint 1 other_root)))"
    "we_exclude unsigned_env = []" "we_advertises unsigned_env x y = Some True" for x y
    by (simp_all add: unsigned_env_def sample_env_def)
  moreover have "CheckpointWitness.enrollment.en_tenantId (sample_enrollment ''t'') = ''t''" "en_authority (sample_enrollment ''t'') = ''r.example''" by (simp_all add: sample_enrollment_def)
  ultimately have pass: "witnessRegistry unsigned_env (sample_enrollment ''t'') empty_db = raiseAlert unsigned_env ''t'' ''r.example'' CheckpointSignatureInvalid
      \<lparr>ad_error = AeSignature verify_reason.SignatureInvalid, ad_previous = None, ad_checkpoint = JObj (cp_raw ?cp), ad_path = None\<rparr>
      (persistCheckpointSafe unsigned_env ''t'' ''r.example'' ?cp False None None empty_db)"
    using unsigned_vetted by (simp add: witnessRegistry_def answer_ok_def http_ok_def Let_def)
  then show "fst (witnessRegistry unsigned_env (sample_enrollment ''t'') empty_db) = Alerted CheckpointSignatureInvalid"
    by (simp add: raiseAlert_def Let_def split: prod.split)
  have "wd_checkpoints (snd (raiseAlert e t a r d db)) = wd_checkpoints db" for e t a r d db by (simp add: raiseAlert_def Let_def split: prod.split)
  with pass show "\<exists>w. findByLogIdAndSize ''t'' registry_log 1 (wd_checkpoints (snd (witnessRegistry unsigned_env (sample_enrollment ''t'') empty_db))) = Some w
      \<and> wr_rootHash w = other_root \<and> \<not> wr_signatureValid w"
    by (simp add: persistCheckpointSafe_def recordCheckpoint_def empty_db_def findByLogIdAndSize_def parsed_checkpoint_def)
qed

lemma sealed_rests:
  assumes "\<forall>ev \<in> set (si_events i). \<exists>r \<in> set (snd st). li_eventId r = ce_id ev"
  shows "snd (inclusion_sweep i st) = st"
proof -
  have "findUnauditedReceiptPublishes since limit (si_events i) (snd st) = []" for since limit
    using assms by (auto simp: findUnauditedReceiptPublishes_def filter_empty_conv)
  then show ?thesis by (simp add: inclusion_sweep_def)
qed

lemma log_sealed_for_good:
  "map li_status (audited (log_sweep [] [logged_event ''e'' 1767225600000001] w # replicate n (log_sweep [] [logged_event ''e'' 1767225600000001] [])))
     = [iv_status (log_verdict registry_log w)]"
proof -
  let ?i = "log_sweep [] [logged_event ''e'' 1767225600000001] []"
  obtain row cache where s: "inclusion_sweep (log_sweep [] [logged_event ''e'' 1767225600000001] w) ([], []) = (None, cache, [row])" "li_eventId row = ''e''"
    "li_status row = iv_status (log_verdict registry_log w)" using log_sealed by metis
  have "ce_id (logged_event ''e'' us) = ''e''" for us by (simp add: logged_event_def)
  then have "snd (inclusion_sweep ?i (cache, [row])) = (cache, [row])" using s(2) by (intro sealed_rests) (simp add: log_sweep_fields)
  then have "fold (\<lambda>i st. snd (inclusion_sweep i st)) (replicate n ?i) (cache, [row]) = (cache, [row])" by (induction n) simp_all
  then show ?thesis using s by (simp add: audited_def)
qed

text \<open>C39. An unsigned checkpoint condemns an honest proof: the audit compares a proof with any stored checkpoint of the same size, also one that the witness
  itself rejected for its signature. After such a checkpoint with another root was served, the proof that is sealed as included without it
  is sealed as invalid, and stays so.\<close>

theorem unsigned_checkpoint_condemns_proof:
  "fst (witnessRegistry unsigned_env (sample_enrollment ''t'') empty_db) = Alerted CheckpointSignatureInvalid
     \<and> map li_status (audited [log_sweep [] [logged_event ''e'' 1767225600000001] []]) = [Included]
     \<and> map li_status (audited (log_sweep [] [logged_event ''e'' 1767225600000001]
           (wd_checkpoints (snd (witnessRegistry unsigned_env (sample_enrollment ''t'') empty_db)))
         # replicate n (log_sweep [] [logged_event ''e'' 1767225600000001] []))) = [InvalidProof]"
proof -
  obtain w where "findByLogIdAndSize ''t'' registry_log 1 (wd_checkpoints (snd (witnessRegistry unsigned_env (sample_enrollment ''t'') empty_db))) = Some w"
    "wr_rootHash w = other_root" using unsigned_pass(2) by blast
  then have "iv_status (log_verdict registry_log (wd_checkpoints (snd (witnessRegistry unsigned_env (sample_enrollment ''t'') empty_db)))) = InvalidProof"
    using other_root_ok(2) by (simp add: log_verdict_def)
  then show ?thesis using unsigned_pass(1) verdict_unwitnessed log_sealed_for_good [of "[]" 0] log_sealed_for_good by simp
qed

section \<open>A proof no row can hold\<close>

text \<open>The two events of a sweep; the proof of the older one has a NUL character in its log id.\<close>

definition poisoned_sweep :: sweep_input where
  "poisoned_sweep = log_sweep [NULL_BYTE] [logged_event ''bad'' 1767225600000000, logged_event ''e'' 1767225600000001] []"

lemma poisoned_run:
  assumes "cache = [] \<or> map_of cache (profile_key ''t'' ''r.example'')
    = Some \<lparr>pf_profiles = Some [TRANSPARENCY_LOG_PROFILE], pf_registryDid = None, pf_acdpVersion = None, pf_cachedAt = 1767225660000\<rparr>"
  shows "\<exists>cache'. inclusion_sweep poisoned_sweep (cache, []) = (Some ''invalid byte sequence for encoding'', cache', [])
    \<and> map_of cache' (profile_key ''t'' ''r.example'')
      = Some \<lparr>pf_profiles = Some [TRANSPARENCY_LOG_PROFILE], pf_registryDid = None, pf_acdpVersion = None, pf_cachedAt = 1767225660000\<rparr>"
proof -
  have b: "ce_id (logged_event i us) = i" for i us by (simp add: logged_event_def)
  have v: "log_verdict [NULL_BYTE] [] = inclusion_verdict_of InvalidProof [ProofNotBound] (Some (parsed_inclusion [NULL_BYTE]))"
    by (simp add: log_verdict_def registry_log_def)
  obtain cache' where "inclusion_auditEvent (log_env [NULL_BYTE]) log_registries [] (logged_event ''bad'' 1767225600000000) cache = (log_verdict [NULL_BYTE] [], cache')"
    "map_of cache' (profile_key ''t'' ''r.example'')
      = Some \<lparr>pf_profiles = Some [TRANSPARENCY_LOG_PROFILE], pf_registryDid = None, pf_acdpVersion = None, pf_cachedAt = 1767225660000\<rparr>"
    using log_audited [OF assms] by blast
  then show ?thesis unfolding inclusion_sweep_def poisoned_sweep_def log_sweep_fields(2-) snd_conv log_due(1)
    by (simp add: log_sweep_fields b v log_row_refused)
qed


end
