(* ===== verification/Spec2Isabelle.thy ===== *)
theory Spec2Isabelle
  imports Prelude Sha256_Vector LogVerify Challenge RevocationPoller Tenant Ledger AuthGuard Quota Policy WitnessSafety AuditScenarios IngestSafety Webhooks InclusionAudit
begin

text \<open>
  Verification library of the ACDP control plane: the service that issues and checks tokens for agents, takes in the events of registries,
  audits their receipts, revocations and transparency logs, witnesses their checkpoints and passes events on to subscribers. The sources
  are the TypeScript files under \<open>src/src/\<close>; theory names below stand for the files of this directory.

  \<^bold>\<open>The program and its model.\<close>

  \<^item> \<^emph>\<open>Language.\<close> Theory \<open>Prelude\<close> has the JavaScript values the sources compute with: numbers (\<open>jsnum\<close>, a finite value, an infinity or
    NaN; no rounding), JSON values (\<open>json\<close>), objects as key lists in insertion order (\<open>jobj\<close>), maps as association lists (\<open>jsmap\<close>), strings of code
    units, 32-bit operators on \<open>32 word\<close>, \<open>trim\<close>, \<open>split\<close>, \<open>startsWith\<close> and the errors a handler may throw, as the left side of a sum with the
    sequencing \<open>and_then\<close> and \<open>throw_if\<close> (collection \<open>bind_simps\<close>). \<open>Sha256\<close> computes SHA-256 and HMAC from the published tables; \<open>Sha256_Vector\<close>
    evaluates the standard vector. \<open>Codec\<close> has \<open>JSON.stringify\<close>, \<open>JSON.parse\<close>, base64, base64url and UTF-8 with their round trips.
  \<^item> \<^emph>\<open>Shared request code.\<close> \<open>Errors\<close> (\<open>errors/*.ts\<close>, \<open>auth/admin.ts\<close>, \<open>auth/scopes.ts\<close>), \<open>Tenant\<close> (\<open>tenant/*.ts\<close>), \<open>Multibase\<close> (\<open>common/multibase.ts\<close>,
    \<open>common/did-authority.ts\<close>), \<open>AcdpVerify\<close> (\<open>auth/acdp-verify.ts\<close>), \<open>DidWeb\<close> (\<open>auth/did-web/*.ts\<close>), \<open>FederationClient\<close>
    (\<open>contexts/safe-federation-client.ts\<close>, \<open>audit/registry-profile.service.ts\<close>).
  \<^item> \<^emph>\<open>Tokens.\<close> \<open>Challenge\<close> and \<open>Revocation\<close> hold the two stores of challenges and of revoked tokens, each in memory and in the database, behind
    the locales \<open>challenge_repository\<close> and \<open>revocation_repository\<close>, interpreted on both. \<open>JwtCodec\<close> (\<open>auth/jwt-codec.ts\<close>), \<open>JwtSigning\<close>
    (\<open>auth/jwt-signing.ts\<close>, \<open>auth/jwks-client.ts\<close>), \<open>CrossIssuer\<close> (\<open>auth/trusted-issuers.ts\<close>, \<open>auth/cross-issuer-validator.service.ts\<close>),
    \<open>PinnedKeys\<close>, \<open>Ledger\<close> (\<open>auth/issuance-ledger.service.ts\<close>), \<open>TokenIssuer\<close> (\<open>auth/token-issuer.service.ts\<close>, \<open>auth/auth.controller.ts\<close>,
    \<open>auth/revoke.controller.ts\<close>) and \<open>AuthGuard\<close> (\<open>auth/auth.guard.ts\<close>) follow a token from the challenge to the guarded request.
    \<open>RevocationPoller\<close> has the revocation feed and the poller of the peers over the locale \<open>polled_repository\<close>, interpreted on both stores.
  \<^item> \<^emph>\<open>Limits and policy.\<close> \<open>Quota\<close> (\<open>quota/*.ts\<close>), \<open>Policy\<close> (\<open>policy/*.ts\<close>); the locales \<open>keyed_decider\<close> and \<open>steady_decider\<close> are the contract
    between a decider and the cache in front of it, interpreted on the static rules.
  \<^item> \<^emph>\<open>Transparency logs.\<close> \<open>Merkle\<close> defines the tree hash and the proof paths of RFC 6962 as the specification. \<open>LogVerify\<close> (\<open>audit/log-verify.ts\<close>) has
    the verifier with its loops over unbounded indices and its one test at 32 bits. \<open>Cosign\<close> (\<open>audit/cosign.ts\<close>), \<open>WitnessStore\<close> (\<open>storage/log-*.repository.ts\<close>),
    \<open>CheckpointWitness\<close> (\<open>audit/checkpoint-witness.service.ts\<close>) and \<open>WitnessSafety\<close> are the witness and its guarantees.
  \<^item> \<^emph>\<open>Audits.\<close> \<open>KeyRevocation\<close> (\<open>audit/receipt-verify.ts\<close>, \<open>audit/revocation-*.ts\<close>, \<open>storage/key-revocation.repository.ts\<close>), \<open>ReceiptAudit\<close>
    (\<open>audit/receipt-audit.service.ts\<close>) and \<open>RevocationAudit\<close> (\<open>audit/revocation-audit.service.ts\<close>) are the sweeps; \<open>AuditSafety\<close>,
    \<open>AuditClassification\<close> and \<open>AuditScenarios\<close> prove what they record. \<open>InclusionAudit\<close> (\<open>audit/log-inclusion-audit.service.ts\<close>) looks the
    stored receipts up in the logs, against the checkpoints the witness has stored.
  \<^item> \<^emph>\<open>Events.\<close> \<open>JsonDepth\<close> (the pre-scan of \<open>ingest/ingest.service.ts\<close>), \<open>PlaneStore\<close> (\<open>storage/*.ts\<close>, \<open>registries/registries.controller.ts\<close>), \<open>Ingest\<close>
    (\<open>ingest/*.ts\<close>, \<open>processor/event-processor.service.ts\<close>, \<open>domain-packs/domain-pack.ts\<close>) and \<open>IngestSafety\<close> take an event from the request to the
    tables; \<open>Webhooks\<close> (\<open>webhooks/*.ts\<close>, \<open>common/retry-after.ts\<close>) passes it on.

  \<^bold>\<open>State, time and foreign code.\<close> A service is a record of its fields and tables; an operation takes the state and the clock (microseconds;
  \<open>now_ms\<close> is what \<open>Date.now()\<close> reads) and returns the new state with a value or an error. Operations that await are split into steps wherever
  another operation may run in between (the ledger writers, the polling of feeds, run upserts, webhook deliveries), and histories are lists of
  such steps. The SDK binding, Ed25519, DNS, HTTP, the OPA server and the database driver's conversions are arguments, grouped in records
  (\<open>jwt_crypto\<close>, \<open>did_binding\<close>, \<open>did_host\<close>, \<open>federation_env\<close>, \<open>audit_binding\<close>, \<open>log_surface\<close>, \<open>cosign_surface\<close>, \<open>pg_driver\<close>); what a property needs of them is a hypothesis of
  it, and its witness instantiates them.

  \<^bold>\<open>What is shown.\<close>

  \<^item> \<^emph>\<open>Logs.\<close> The inclusion and consistency verifiers accept every honest proof and, as long as no collision of the hash is found, only proofs
    for trees that contain the leaf or extend the old tree. The witness never signs two roots for one size, signs growth only with such a proof,
    does sign honest growth, and counts each configured witness of a quorum once.
  \<^item> \<^emph>\<open>Tokens.\<close> A token is minted only for who holds the key, once per challenge, and opens the guard of this control plane; a token that is
    accepted was signed by this control plane or a trusted issuer with the provenance reported, is refused once revoked, and its tenant is the
    signed one. Revocations of a peer reach the poller. The ledger of decisions always verifies, and a changed row is found.
  \<^item> \<^emph>\<open>Audits.\<close> A recorded revocation and an inclusion verdict are genuine, and an amnesty rests on a genuine receipt; a lineage walk records every member; a sealed verdict changes only
    towards revocation, and a re-audit reaches all that a fact concerns.
  \<^item> \<^emph>\<open>Events.\<close> The pre-scan bounds the parser; a delivery touches one tenant, under a valid signature, at most once; the lifecycle of a context
    is decided by its latest event; webhook deliveries stay well-formed, end, and go only to cleared addresses.
  \<^item> \<^emph>\<open>Limits.\<close> A quota window admits exactly its limit; the policy cache in front of the static rules answers as the rules do.
  \<^item> The remaining properties and the lemmas named in the findings are histories in which the code does something else than it says: a forgeable
    fresh quorum, a lineage that retires a foreign context, a fingerprint that hides a revocation, an event left half processed, a replay that
    redirects a registry, a delivery reopened by a late failure, an unsigned checkpoint that condemns an honest proof and a proof that stops
    the audit of everyone.

  \<^bold>\<open>Bounds and fuel.\<close> Loops over data are structural. \<open>strip_odd\<close> (a termination proof), \<open>parse_value\<close> (fuel twice the text and two, enough by
  \<open>json_round_trip\<close>), the redirects (\<open>MAX_REDIRECTS\<close> as in the source), the pages of a feed and of a sweep (their caps as in the source) and
  \<open>deliver_alone\<close> (a termination proof) are the others. No result rests on a fuel that the source does not have.

  \<^bold>\<open>Strings\<close> are lists of characters up to U+00FF; where the sources meet other code points (UTF-8 of bodies and tokens) the codec works on bytes.

  \<^bold>\<open>Not modelled.\<close> Configuration is read into the environments (\<open>config/app-config.service.ts\<close>). Start-up, shutdown and its drain
  (\<open>bootstrap.ts\<close>, \<open>shutdown*.ts\<close>), timers, health, metrics, logs and telemetry change no table or token. Event streams
  (\<open>events/*.ts\<close>) belong to RxJS and Redis; the processor ends with the events it emits. The bandit router (\<open>routing/\<close>) samples
  floating-point distributions at random. Capability declarations (\<open>agents/\<close>), the runs service (\<open>runs/\<close>) beyond its table, the read-only
  controllers, dashboards, DTO validation by decorators, module wiring and migrations are left out. Storage statements succeed except where a
  theory says which values a column refuses.
\<close>

end
